(* ===== verification/Prelude.thy ===== *)
theory Prelude
  imports Main "HOL-Library.Word" "HOL-Library.Sublist" "HOL-Library.AList"
begin

text \<open>
  Shared vocabulary of the development: JavaScript strings and their JSON quoting, errors as
  values, time, and the generic lemmas on lists, options and maps that the component
  theories reuse.

  Identifiers, tokens and map keys are HOL strings (lists of bytes, the UTF-8 form of the
  JavaScript string).  Where the code looks at UTF-16 code units (canonical JSON) a string is
  a list of 16-bit words instead, the type \<open>jsstr\<close>.
  A thrown exception is the left value of a sum, and a returned value is the right one.  Times
  are integers: seconds or milliseconds, as in the code that reads them.
\<close>

section \<open>Errors as values\<close>

text \<open>The part of an \<open>AdcpError\<close> the protocol defines; the prose of the message is left out.\<close>

record adcp_error =
  code :: string
  recovery :: "string option"
  err_field :: "string option"

datatype js_error =
    AdcpErr adcp_error
  | TypeErr string
  | RangeErr string
  | GenericErr string

abbreviation adcp_throw :: "string \<Rightarrow> string option \<Rightarrow> string option \<Rightarrow> js_error" where
  "adcp_throw c r f \<equiv> AdcpErr \<lparr>code = c, recovery = r, err_field = f\<rparr>"

text \<open>Sequencing of computations that may throw, and a loop that stops at the first throw.\<close>

definition bindE :: "'e + 'a \<Rightarrow> ('a \<Rightarrow> 'e + 'b) \<Rightarrow> 'e + 'b" where
  "bindE m f = (case m of Inl e \<Rightarrow> Inl e | Inr x \<Rightarrow> f x)"

lemma bindE_simps [simp]: "bindE (Inl e) f = Inl e" "bindE (Inr x) f = f x"
  by (simp_all add: bindE_def)

lemma bindE_eq_Inr_iff: "bindE m f = Inr y \<longleftrightarrow> (\<exists>x. m = Inr x \<and> f x = Inr y)"
  by (cases m) auto

lemma bindE_eq_Inl_iff: "bindE m f = Inl e \<longleftrightarrow> m = Inl e \<or> (\<exists>x. m = Inr x \<and> f x = Inl e)"
  by (cases m) auto

lemma bindE_cong [fundef_cong]: "m = m' \<Longrightarrow> (\<And>x. m' = Inr x \<Longrightarrow> f x = f' x) \<Longrightarrow> bindE m f = bindE m' f'"
  by (cases m') auto

fun mapE :: "('a \<Rightarrow> 'e + 'b) \<Rightarrow> 'a list \<Rightarrow> 'e + 'b list" where
  "mapE f [] = Inr []"
| "mapE f (x # xs) = bindE (f x) (\<lambda>y. bindE (mapE f xs) (\<lambda>ys. Inr (y # ys)))"

lemma mapE_cong [fundef_cong]: "xs = ys \<Longrightarrow> (\<And>x. x \<in> set ys \<Longrightarrow> f x = g x) \<Longrightarrow> mapE f xs = mapE g ys"
  by (induction xs arbitrary: ys) auto

lemma mapE_InrD: "mapE f xs = Inr ys \<Longrightarrow> list_all2 (\<lambda>x y. f x = Inr y) xs ys"
  by (induction xs arbitrary: ys) (auto simp: bindE_eq_Inr_iff)

section \<open>Strings\<close>

type_synonym jsstr = "16 word list"

text \<open>An ASCII literal as UTF-16 code units.\<close>

definition js :: "string \<Rightarrow> jsstr" where
  "js s = map of_char s"

definition starts_with :: "'a list \<Rightarrow> 'a list \<Rightarrow> bool" where
  "starts_with p s \<longleftrightarrow> take (length p) s = p"

text \<open>\<open>String.prototype.indexOf\<close> for a single character.\<close>

fun index_of :: "'a \<Rightarrow> 'a list \<Rightarrow> nat option" where
  "index_of c [] = None"
| "index_of c (x # xs) = (if x = c then Some 0 else map_option Suc (index_of c xs))"

lemma starts_with_append [simp]: "starts_with p (p @ s)"
  by (simp add: starts_with_def)

lemma starts_withE:
  assumes "starts_with p s"
  obtains r where "s = p @ r"
  using assms append_take_drop_id [of "length p" s] unfolding starts_with_def by metis

lemma index_of_append [simp]: "c \<notin> set xs \<Longrightarrow> index_of c (xs @ c # ys) = Some (length xs)"
  by (induction xs) auto

lemma index_of_None_iff [simp]: "index_of c xs = None \<longleftrightarrow> c \<notin> set xs"
  by (induction xs) auto

lemma index_of_SomeD:
  "index_of c xs = Some n \<Longrightarrow> n < length xs \<and> xs ! n = c \<and> c \<notin> set (take n xs)"
proof (induction xs arbitrary: n)
  case (Cons x xs)
  then show ?case by (cases n) (auto split: if_splits)
qed simp

text \<open>The two ends of an unambiguous join: a separator that occurs in neither left part.\<close>

lemma sep_append_inj:
  assumes "xs @ c # ys = xs' @ c # ys'" "c \<notin> set xs" "c \<notin> set xs'"
  shows "xs = xs' \<and> ys = ys'"
proof -
  have "index_of c (xs @ c # ys) = index_of c (xs' @ c # ys')" using assms(1) by argo
  then have "length xs = length xs'" using assms(2,3) by simp
  then show ?thesis using assms(1) by simp
qed

subsection \<open>JSON quoting\<close>

text \<open>
  \<open>JSON.stringify\<close> of a string: quote, with the two-character escapes for quote and
  backslash and the \<open>\u00XX\<close> or short forms for control characters.
\<close>

definition hex_code :: "nat \<Rightarrow> nat" where
  "hex_code n = (if n < 10 then 48 + n else 87 + n)"

definition escape_code :: "nat \<Rightarrow> nat list" where
  "escape_code n =
     (if n = 34 then [92, 34]
      else if n = 92 then [92, 92]
      else if n = 8 then [92, 98]
      else if n = 9 then [92, 116]
      else if n = 10 then [92, 110]
      else if n = 12 then [92, 102]
      else if n = 13 then [92, 114]
      else if n < 32 then [92, 117, 48, 48, hex_code (n div 16), hex_code (n mod 16)]
      else [n])"

fun quote_codes :: "nat list \<Rightarrow> nat list" where
  "quote_codes ns = 34 # concat (map escape_code ns) @ [34]"

definition json_quote :: "string \<Rightarrow> string" where
  "json_quote s = map char_of (quote_codes (map of_char s))"

fun json_join :: "string list \<Rightarrow> string" where
  "json_join [] = []"
| "json_join [x] = json_quote x"
| "json_join (x # xs) = json_quote x @ CHR '','' # json_join xs"

definition json_string_array :: "string list \<Rightarrow> string" where
  "json_string_array xs = CHR ''['' # json_join xs @ [CHR '']'']"

text \<open>
  Quoting is unambiguous: reading one escape back recovers the character, so a quoted string
  can be cut off the front of any text in one way only.
\<close>

text \<open>The reader of one escape, used only in proofs.\<close>

definition hex_value :: "nat \<Rightarrow> nat" where
  "hex_value c = (if c < 58 then c - 48 else c - 87)"

definition unescape :: "nat list \<Rightarrow> nat" where
  "unescape cs =
     (if hd cs \<noteq> 92 then hd cs
      else let x = cs ! 1 in
        if x = 98 then 8 else if x = 116 then 9 else if x = 110 then 10
        else if x = 102 then 12 else if x = 114 then 13
        else if x = 117 then 16 * hex_value (cs ! 4) + hex_value (cs ! 5)
        else x)"

lemma hex_value_code: "n < 16 \<Longrightarrow> hex_value (hex_code n) = n"
  by (simp add: hex_code_def hex_value_def)

lemma unescape_escape_code: "unescape (escape_code n @ r) = n"
  by (simp add: unescape_def escape_code_def hex_value_code)

lemma escape_code_neq_quote: "\<exists>x xs. escape_code n = x # xs \<and> x \<noteq> 34"
  by (simp add: escape_code_def)

lemma escape_code_inj:
  assumes eq: "escape_code m @ r = escape_code n @ r'"
  shows "m = n \<and> r = r'"
proof -
  have "m = n" using arg_cong [OF eq, of unescape] by (simp only: unescape_escape_code)
  with eq show ?thesis by simp
qed

lemma escape_codes_inj:
  "concat (map escape_code xs) @ 34 # r = concat (map escape_code ys) @ 34 # r'
    \<Longrightarrow> xs = ys \<and> r = r'"
proof (induction xs arbitrary: ys)
  case Nil
  show ?case
  proof (cases ys)
    case (Cons y ys')
    then show ?thesis using Nil escape_code_neq_quote [of y] by auto
  qed (use Nil in simp)
next
  case (Cons x xs)
  show ?case
  proof (cases ys)
    case Nil
    then show ?thesis using Cons.prems escape_code_neq_quote [of x] by auto
  next
    case (Cons y ys')
    have "x = y \<and> concat (map escape_code xs) @ 34 # r = concat (map escape_code ys') @ 34 # r'"
      using Cons.prems Cons by (intro escape_code_inj) simp
    then show ?thesis using Cons.IH Cons by blast
  qed
qed

lemma quote_codes_inj: "quote_codes xs @ r = quote_codes ys @ r' \<Longrightarrow> xs = ys \<and> r = r'"
  using escape_codes_inj [of xs r ys r'] by simp

lemma escape_code_bound: "n < k \<Longrightarrow> 128 \<le> k \<Longrightarrow> x \<in> set (escape_code n) \<Longrightarrow> x < k"
  by (auto simp: escape_code_def hex_code_def split: if_splits)

lemma quote_codes_bound: "\<forall>n \<in> set ns. n < k \<Longrightarrow> 128 \<le> k \<Longrightarrow> x \<in> set (quote_codes ns) \<Longrightarrow> x < k"
  by (auto intro: escape_code_bound)

lemma json_quote_codes: "map of_char (json_quote s) = quote_codes (map of_char s)"
proof -
  have "x < 256" if "x \<in> set (quote_codes (map of_char s))" for x
    by (rule quote_codes_bound [OF _ _ that]) simp_all
  then show ?thesis
    unfolding json_quote_def by (simp del: quote_codes.simps add: map_idI)
qed

lemma json_quote_inj:
  assumes "json_quote s @ r = json_quote t @ r'"
  shows "s = t \<and> r = r'"
proof -
  have "quote_codes (map of_char s) @ map of_char r = quote_codes (map of_char t) @ (map of_char r' :: nat list)"
    using arg_cong [OF assms, of "map (of_char :: char \<Rightarrow> nat)"]
    by (simp only: map_append json_quote_codes)
  then have "map of_char s = (map of_char t :: nat list)" by (rule quote_codes_inj [THEN conjunct1])
  then have "s = t" by (rule map_injective) (simp add: inj_def)
  then show ?thesis using assms by simp
qed

text \<open>Arrays of the same number of strings have different renderings unless they are equal.\<close>

lemma json_join_inj:
  "length xs = length ys \<Longrightarrow> json_join xs @ [CHR '']''] = json_join ys @ [CHR '']''] \<Longrightarrow> xs = ys"
proof (induction xs arbitrary: ys rule: json_join.induct)
  case (2 x)
  then obtain y where y: "ys = [y]" by (cases ys) auto
  then show ?case using 2 json_quote_inj [of x "[CHR '']'']" y "[CHR '']'']"] by simp
next
  case (3 x v va)
  then obtain y w wa where ys: "ys = y # w # wa" by (cases ys; cases "tl ys") auto
  have "x = y \<and> CHR '','' # json_join (v # va) @ [CHR '']''] = CHR '','' # json_join (w # wa) @ [CHR '']'']"
    using "3.prems" ys by (intro json_quote_inj) simp
  then show ?case using "3.IH" [of "w # wa"] "3.prems" ys by simp
qed simp

lemma json_string_array_inj:
  assumes "length xs = length ys" "json_string_array xs = json_string_array ys"
  shows "xs = ys"
  using assms json_join_inj [of xs ys] by (simp add: json_string_array_def)

lemma json_string_array2_eq_iff [simp]:
  "json_string_array [a, b] = json_string_array [a', b'] \<longleftrightarrow> a = a' \<and> b = b'"
  using json_string_array_inj [of "[a, b]" "[a', b']"] by auto

lemma json_string_array3_eq_iff [simp]:
  "json_string_array [a, b, c] = json_string_array [a', b', c'] \<longleftrightarrow> a = a' \<and> b = b' \<and> c = c'"
  using json_string_array_inj [of "[a, b, c]" "[a', b', c']"] by auto

section \<open>Association lists\<close>

lemma set_update_subset: "set (AList.update k v xs) \<subseteq> insert (k, v) (set xs)"
  by (induction xs) auto

end
