(* ===== verification/StateMachine.thy ===== *)
theory StateMachine
  imports Prelude
begin

text \<open>
  The lifecycle graphs of \<open>src/lib/server/state-machine.ts\<close>: the transition maps of media
  buys and creatives, the boolean predicates over them and the throwing guards.
\<close>

section \<open>Status enums and transition graphs\<close>

datatype MediaBuyStatus =
  pending_creatives | pending_start | active | paused | completed | rejected | canceled

datatype CreativeStatus = processing | pending_review | approved | archived | c_rejected

fun MEDIA_BUY_TRANSITIONS :: "MediaBuyStatus \<Rightarrow> MediaBuyStatus list" where
  "MEDIA_BUY_TRANSITIONS pending_creatives = [pending_start, active, paused, canceled, rejected]"
| "MEDIA_BUY_TRANSITIONS pending_start = [active, paused, canceled, rejected]"
| "MEDIA_BUY_TRANSITIONS active = [paused, completed, canceled]"
| "MEDIA_BUY_TRANSITIONS paused = [active, completed, canceled]"
| "MEDIA_BUY_TRANSITIONS completed = []"
| "MEDIA_BUY_TRANSITIONS rejected = []"
| "MEDIA_BUY_TRANSITIONS canceled = []"

fun CREATIVE_ASSET_TRANSITIONS :: "CreativeStatus \<Rightarrow> CreativeStatus list" where
  "CREATIVE_ASSET_TRANSITIONS processing = [pending_review, c_rejected]"
| "CREATIVE_ASSET_TRANSITIONS pending_review = [approved, c_rejected]"
| "CREATIVE_ASSET_TRANSITIONS approved = [archived, c_rejected]"
| "CREATIVE_ASSET_TRANSITIONS archived = [approved]"
| "CREATIVE_ASSET_TRANSITIONS c_rejected = [processing, pending_review]"

definition isLegalMediaBuyTransition :: "MediaBuyStatus \<Rightarrow> MediaBuyStatus \<Rightarrow> bool" where
  "isLegalMediaBuyTransition from to \<longleftrightarrow> to \<in> set (MEDIA_BUY_TRANSITIONS from)"

definition isLegalCreativeTransition :: "CreativeStatus \<Rightarrow> CreativeStatus \<Rightarrow> bool" where
  "isLegalCreativeTransition from to \<longleftrightarrow> to \<in> set (CREATIVE_ASSET_TRANSITIONS from)"

text \<open>
  The guards throw an \<open>AdcpError\<close>; the constructor is called without \<open>recovery\<close>, so the
  option is empty here.
\<close>

definition assertMediaBuyTransition :: "MediaBuyStatus \<Rightarrow> MediaBuyStatus \<Rightarrow> js_error + unit" where
  "assertMediaBuyTransition from to =
     (if isLegalMediaBuyTransition from to then Inr ()
      else if to = canceled then Inl (adcp_throw ''NOT_CANCELLABLE'' None (Some ''status''))
      else Inl (adcp_throw ''INVALID_STATE'' None (Some ''status'')))"

definition assertCreativeTransition :: "CreativeStatus \<Rightarrow> CreativeStatus \<Rightarrow> js_error + unit" where
  "assertCreativeTransition from to =
     (if isLegalCreativeTransition from to then Inr ()
      else Inl (adcp_throw ''INVALID_STATE'' None (Some ''status'')))"

section \<open>Runs of a resource guarded by the assertions\<close>

text \<open>
  A seller that guards every status write with the assertion: an attempt that throws leaves the
  status as it was.
\<close>

definition mb_attempt :: "MediaBuyStatus \<Rightarrow> MediaBuyStatus \<Rightarrow> MediaBuyStatus" where
  "mb_attempt s to = (case assertMediaBuyTransition s to of Inl _ \<Rightarrow> s | Inr _ \<Rightarrow> to)"

inductive mb_step :: "MediaBuyStatus \<Rightarrow> MediaBuyStatus \<Rightarrow> bool" where
  "assertMediaBuyTransition s t = Inr () \<Longrightarrow> mb_step s t"

inductive cr_step :: "CreativeStatus \<Rightarrow> CreativeStatus \<Rightarrow> bool" where
  "assertCreativeTransition s t = Inr () \<Longrightarrow> cr_step s t"

inductive_simps mb_step_iff: "mb_step s t"
inductive_simps cr_step_iff: "cr_step s t"

definition mb_terminal :: "MediaBuyStatus \<Rightarrow> bool" where
  "mb_terminal s \<longleftrightarrow> s \<in> {completed, rejected, canceled}"

lemmas transition_defs =
  isLegalMediaBuyTransition_def isLegalCreativeTransition_def
  assertMediaBuyTransition_def assertCreativeTransition_def

lemma mb_step_legal: "mb_step s t \<longleftrightarrow> isLegalMediaBuyTransition s t"
  by (auto simp: mb_step_iff assertMediaBuyTransition_def)

lemma cr_step_legal: "cr_step s t \<longleftrightarrow> isLegalCreativeTransition s t"
  by (auto simp: cr_step_iff assertCreativeTransition_def)

lemma mb_terminal_iff_stuck: "mb_terminal s \<longleftrightarrow> (\<forall>t. \<not> isLegalMediaBuyTransition s t)"
  by (cases s) (auto simp: mb_terminal_def isLegalMediaBuyTransition_def)

lemma mb_attempt_terminal: "mb_terminal s \<Longrightarrow> mb_attempt s t = s"
  using mb_terminal_iff_stuck [of s] by (simp add: mb_attempt_def assertMediaBuyTransition_def)

lemma mb_no_edge_to_pending_creatives: "\<not> isLegalMediaBuyTransition s pending_creatives"
  by (cases s) (simp_all add: isLegalMediaBuyTransition_def)

section \<open>Properties\<close>

text \<open>
  The guard of media-buy writes accepts exactly the published edges, answers an illegal
  cancel with \<open>NOT_CANCELLABLE\<close> and any other illegal edge with \<open>INVALID_STATE\<close>, always on
  field \<open>status\<close>; no self edge is accepted.
\<close>

theorem assertMediaBuyTransition_codes:
  "(assertMediaBuyTransition from to = Inr () \<longleftrightarrow> isLegalMediaBuyTransition from to)
   \<and> (assertMediaBuyTransition from to = Inl (adcp_throw ''NOT_CANCELLABLE'' None (Some ''status''))
        \<longleftrightarrow> to = canceled \<and> from \<in> {completed, rejected, canceled})
   \<and> (assertMediaBuyTransition from to = Inl (adcp_throw ''INVALID_STATE'' None (Some ''status''))
        \<longleftrightarrow> \<not> isLegalMediaBuyTransition from to \<and> to \<noteq> canceled)
   \<and> \<not> isLegalMediaBuyTransition from from"
  by (cases "from") (auto simp: transition_defs)

text \<open>
  Whatever sequence of status writes is attempted through the guard, a media buy that is
  completed, rejected or canceled keeps its status for ever, and one that is not can still be
  canceled at once.
\<close>

theorem media_buy_terminal_is_final:
  "if s \<in> {completed, rejected, canceled}
   then foldl mb_attempt s attempts = s
   else mb_attempt s canceled = canceled"
proof (cases "mb_terminal s")
  case True
  then have "foldl mb_attempt s attempts = s"
    by (induction attempts) (simp_all add: mb_attempt_terminal)
  with True show ?thesis by (simp add: mb_terminal_def)
next
  case False
  then show ?thesis
    by (cases s) (simp_all add: mb_terminal_def mb_attempt_def transition_defs)
qed

text \<open>
  The creative graph has no dead end: any status can be reached from any status by
  transitions the guard accepts.
\<close>

theorem creative_lifecycle_strongly_connected: "cr_step\<^sup>*\<^sup>* s t"
proof -
  note edge = cr_step_legal isLegalCreativeTransition_def
  have to_rej: "cr_step\<^sup>*\<^sup>* u c_rejected" for u
  proof (cases "u = c_rejected \<or> u = archived")
    case False
    then have "cr_step u c_rejected" by (cases u) (simp_all add: edge)
    then show ?thesis by (rule r_into_rtranclp)
  next
    case True
    have "cr_step archived approved" "cr_step approved c_rejected" by (simp_all add: edge)
    then have "cr_step\<^sup>*\<^sup>* archived c_rejected"
      by (rule converse_rtranclp_into_rtranclp [OF _ r_into_rtranclp])
    with True show ?thesis by auto
  qed
  have 1: "cr_step\<^sup>*\<^sup>* c_rejected processing" "cr_step\<^sup>*\<^sup>* c_rejected pending_review"
    by (rule r_into_rtranclp, simp add: edge)+
  have 2: "cr_step\<^sup>*\<^sup>* c_rejected approved"
    by (rule rtranclp.rtrancl_into_rtrancl [OF 1(2)]) (simp add: edge)
  have 3: "cr_step\<^sup>*\<^sup>* c_rejected archived"
    by (rule rtranclp.rtrancl_into_rtrancl [OF 2]) (simp add: edge)
  have "cr_step\<^sup>*\<^sup>* c_rejected t" by (cases t) (simp_all add: 1 2 3)
  with to_rej [of s] show ?thesis by (rule rtranclp_trans)
qed

end
