(* ===== verification/AddressGuards.thy ===== *)
theory AddressGuards
  imports Prelude
begin

text \<open>
  IP address classification for SSRF defence (\<open>src/lib/net/address-guards.ts\<close>).  An address is a
  32-bit or a 128-bit word; Node's \<open>BlockList\<close> compares it with its rules as a 128-bit value in
  which an IPv4 address stands as its IPv4-mapped form.  The literals of the source's rules are
  written as numbers and groups (\<open>v4\<close>, \<open>v6\<close>); address texts are read by \<open>parse_ip\<close>, which follows
  what \<open>net.isIP\<close> accepts.  The WHATWG URL parser is a parameter (\<open>isLikelyPrivateUrl\<close> takes the
  host name it returns).
\<close>

section \<open>Addresses and block lists\<close>

datatype ip = V4 "32 word" | V6 "128 word"

definition v4 :: "int \<Rightarrow> int \<Rightarrow> int \<Rightarrow> int \<Rightarrow> ip" where
  "v4 a b c d = V4 (of_int (((a * 256 + b) * 256 + c) * 256 + d))"

definition v6 :: "int list \<Rightarrow> ip" where
  "v6 gs = V6 (of_int (foldl (\<lambda>n g. n * 65536 + g) 0 gs))"

definition mapped :: "32 word \<Rightarrow> 128 word" where
  "mapped a = of_int (0xffff * 2 ^ 32 + uint a)"

fun canonical_ip :: "ip \<Rightarrow> 128 word" where
  "canonical_ip (V4 a) = mapped a"
| "canonical_ip (V6 w) = w"

datatype ip_rule = Subnet ip nat | Address ip

text \<open>How many of the 128 bits a rule fixes.\<close>

fun rule_bits :: "ip_rule \<Rightarrow> nat" where
  "rule_bits (Subnet (V4 _) p) = 96 + p"
| "rule_bits (Subnet (V6 _) p) = p"
| "rule_bits (Address _) = 128"

fun rule_net :: "ip_rule \<Rightarrow> 128 word" where
  "rule_net (Subnet a p) = canonical_ip a"
| "rule_net (Address a) = canonical_ip a"

definition matches_rule :: "ip_rule \<Rightarrow> ip \<Rightarrow> bool" where
  "matches_rule r a \<longleftrightarrow>
     drop_bit (128 - rule_bits r) (canonical_ip a) = drop_bit (128 - rule_bits r) (rule_net r)"

definition block_check :: "ip_rule list \<Rightarrow> ip \<Rightarrow> bool" where
  "block_check rules a \<longleftrightarrow> list_ex (\<lambda>r. matches_rule r a) rules"

section \<open>The rules of the source\<close>

definition alwaysBlocked :: "ip_rule list" where
  "alwaysBlocked =
    [Subnet (v4 169 254 0 0) 16,
     Subnet (v6 [0xfe80, 0, 0, 0, 0, 0, 0, 0]) 10,
     Address (v4 192 0 0 192),
     Address (v6 [0xfd00, 0xec2, 0, 0, 0, 0, 0, 0x254]),
     Subnet (v6 [0, 0, 0, 0, 0, 0, 0xa9fe, 0]) 112,
     Address (v6 [0, 0, 0, 0, 0, 0, 0xc000, 0xc0]),
     Subnet (v6 [0, 0, 0, 0, 0xffff, 0, 0xa9fe, 0]) 112,
     Address (v6 [0, 0, 0, 0, 0xffff, 0, 0xc000, 0xc0]),
     Subnet (v6 [0x64, 0xff9b, 0, 0, 0, 0, 0xa9fe, 0]) 112,
     Address (v6 [0x64, 0xff9b, 0, 0, 0, 0, 0xc000, 0xc0]),
     Subnet (v6 [0x2002, 0xa9fe, 0, 0, 0, 0, 0, 0]) 32,
     Subnet (v6 [0x2002, 0xc000, 0xc0, 0, 0, 0, 0, 0]) 48,
     Subnet (v6 [0x64, 0xff9b, 1, 0, 0, 0, 0, 0]) 48,
     Subnet (v6 [0x2001, 0, 0, 0, 0, 0, 0, 0]) 32]"

definition ietfProtocolAssignments :: "ip_rule list" where
  "ietfProtocolAssignments = [Subnet (v6 [0x2001, 0, 0, 0, 0, 0, 0, 0]) 23]"

definition globallyReachableIetfAssignments :: "ip_rule list" where
  "globallyReachableIetfAssignments =
    [Address (v6 [0x2001, 1, 0, 0, 0, 0, 0, 1]),
     Address (v6 [0x2001, 1, 0, 0, 0, 0, 0, 2]),
     Address (v6 [0x2001, 1, 0, 0, 0, 0, 0, 3]),
     Subnet (v6 [0x2001, 3, 0, 0, 0, 0, 0, 0]) 32,
     Subnet (v6 [0x2001, 4, 0x112, 0, 0, 0, 0, 0]) 48,
     Subnet (v6 [0x2001, 0x20, 0, 0, 0, 0, 0, 0]) 28,
     Subnet (v6 [0x2001, 0x30, 0, 0, 0, 0, 0, 0]) 28]"

definition nativeIpv4Loopback :: "ip_rule list" where
  "nativeIpv4Loopback = [Subnet (v4 127 0 0 0) 8]"

definition nativeIpv6Loopback :: "ip_rule list" where
  "nativeIpv6Loopback = [Address (v6 [0, 0, 0, 0, 0, 0, 0, 1])]"

definition privateIp :: "ip_rule list" where
  "privateIp =
    [Subnet (v4 0 0 0 0) 8, Subnet (v4 10 0 0 0) 8, Subnet (v4 127 0 0 0) 8,
     Subnet (v4 100 64 0 0) 10, Subnet (v4 169 254 0 0) 16, Subnet (v4 172 16 0 0) 12,
     Subnet (v4 192 168 0 0) 16, Subnet (v4 224 0 0 0) 4, Subnet (v4 192 0 0 0) 24,
     Subnet (v4 192 88 99 0) 24, Subnet (v4 192 0 2 0) 24, Subnet (v4 198 18 0 0) 15,
     Subnet (v4 198 51 100 0) 24, Subnet (v4 203 0 113 0) 24, Subnet (v4 240 0 0 0) 4,
     Address (v4 255 255 255 255),
     Address (v6 [0, 0, 0, 0, 0, 0, 0, 0]), Address (v6 [0, 0, 0, 0, 0, 0, 0, 1]),
     Subnet (v6 [0, 0, 0, 0, 0, 0, 0, 0]) 96,
     Subnet (v6 [0xfe80, 0, 0, 0, 0, 0, 0, 0]) 10, Subnet (v6 [0xfec0, 0, 0, 0, 0, 0, 0, 0]) 10,
     Subnet (v6 [0xfc00, 0, 0, 0, 0, 0, 0, 0]) 7, Subnet (v6 [0xff00, 0, 0, 0, 0, 0, 0, 0]) 8,
     Subnet (v6 [0x100, 0, 0, 0, 0, 0, 0, 0]) 64, Subnet (v6 [0x100, 0, 0, 1, 0, 0, 0, 0]) 64,
     Subnet (v6 [0x2001, 0xdb8, 0, 0, 0, 0, 0, 0]) 32,
     Subnet (v6 [0x3ffe, 0, 0, 0, 0, 0, 0, 0]) 16, Subnet (v6 [0x3fff, 0, 0, 0, 0, 0, 0, 0]) 20,
     Subnet (v6 [0x5f00, 0, 0, 0, 0, 0, 0, 0]) 8,
     Subnet (v6 [0, 0, 0, 0, 0xffff, 0, 0, 0]) 96,
     Subnet (v6 [0x64, 0xff9b, 0, 0, 0, 0, 0, 0]) 96,
     Subnet (v6 [0x64, 0xff9b, 1, 0, 0, 0, 0, 0]) 48,
     Subnet (v6 [0x2002, 0, 0, 0, 0, 0, 0, 0]) 16]"

section \<open>Reading address texts\<close>

fun split_on :: "char \<Rightarrow> string \<Rightarrow> string list" where
  "split_on c [] = [[]]"
| "split_on c (x # xs) =
     (if x = c then [] # split_on c xs
      else (case split_on c xs of [] \<Rightarrow> [[x]] | p # ps \<Rightarrow> (x # p) # ps))"

definition between :: "char \<Rightarrow> char \<Rightarrow> char \<Rightarrow> bool" where
  "between a b c \<longleftrightarrow> (of_char a :: nat) \<le> of_char c \<and> (of_char c :: nat) \<le> of_char b"

definition is_digit :: "char \<Rightarrow> bool" where
  "is_digit c \<longleftrightarrow> between (CHR ''0'') (CHR ''9'') c"

definition hex_val :: "char \<Rightarrow> int option" where
  "hex_val c =
     (if is_digit c then Some (of_char c - 48)
      else if between (CHR ''a'') (CHR ''f'') c then Some (of_char c - 87)
      else if between (CHR ''A'') (CHR ''F'') c then Some (of_char c - 55)
      else None)"

definition decimal_octet :: "string \<Rightarrow> int option" where
  "decimal_octet s =
     (if s = [] \<or> length s > 3 \<or> \<not> list_all is_digit s \<or> (length s > 1 \<and> hd s = CHR ''0'') then None
      else let n = foldl (\<lambda>n c. n * 10 + (of_char c - 48)) 0 s in if n \<le> 255 then Some n else None)"

definition parse_ipv4 :: "string \<Rightarrow> (int \<times> int) option" where
  "parse_ipv4 s =
     (case map decimal_octet (split_on (CHR ''.'') s) of
        [Some a, Some b, Some c, Some d] \<Rightarrow> Some (a * 256 + b, c * 256 + d)
      | _ \<Rightarrow> None)"

definition hex_group :: "string \<Rightarrow> int option" where
  "hex_group s =
     (if s = [] \<or> length s > 4 \<or> \<not> list_all (\<lambda>c. hex_val c \<noteq> None) s then None
      else Some (foldl (\<lambda>n c. n * 16 + the (hex_val c)) 0 s))"

text \<open>Colon-separated groups; the last may be a dotted IPv4 address where \<open>v4_ok\<close>.\<close>

fun groups_of :: "bool \<Rightarrow> string list \<Rightarrow> int list option" where
  "groups_of v4_ok [] = Some []"
| "groups_of v4_ok [g] =
     (case hex_group g of
        Some n \<Rightarrow> Some [n]
      | None \<Rightarrow> (case (if v4_ok then parse_ipv4 g else None) of
                   Some (h, l) \<Rightarrow> Some [h, l] | None \<Rightarrow> None))"
| "groups_of v4_ok (g # gs) =
     (case hex_group g of
        None \<Rightarrow> None
      | Some n \<Rightarrow> map_option (Cons n) (groups_of v4_ok gs))"

definition colon_groups :: "bool \<Rightarrow> string \<Rightarrow> int list option" where
  "colon_groups v4_ok s = (if s = [] then Some [] else groups_of v4_ok (split_on (CHR '':'') s))"

text \<open>The text before and after the first \<open>::\<close>.\<close>

fun split_double_colon :: "string \<Rightarrow> (string \<times> string) option" where
  "split_double_colon (x # y # zs) =
     (if x = CHR '':'' \<and> y = CHR '':'' then Some ([], zs)
      else map_option (\<lambda>(l, r). (x # l, r)) (split_double_colon (y # zs)))"
| "split_double_colon _ = None"

definition parse_ipv6 :: "string \<Rightarrow> int list option" where
  "parse_ipv6 s =
     (case split_double_colon s of
        None \<Rightarrow>
          (case colon_groups True s of
             Some gs \<Rightarrow> if length gs = 8 then Some gs else None
           | None \<Rightarrow> None)
      | Some (l, r) \<Rightarrow>
          (case (colon_groups False l, colon_groups True r) of
             (Some ls, Some rs) \<Rightarrow>
               if length ls + length rs \<le> 7
               then Some (ls @ replicate (8 - (length ls + length rs)) 0 @ rs) else None
           | _ \<Rightarrow> None))"

definition parse_ip :: "string \<Rightarrow> ip option" where
  "parse_ip s =
     (case parse_ipv4 s of
        Some (h, l) \<Rightarrow> Some (V4 (of_int (h * 65536 + l)))
      | None \<Rightarrow> map_option v6 (parse_ipv6 s))"

section \<open>The classifiers\<close>

definition strip_brackets :: "string \<Rightarrow> string" where
  "strip_brackets s =
     (if s \<noteq> [] \<and> hd s = CHR ''['' \<and> last s = CHR '']'' then butlast (tl s) else s)"

definition strip_zone :: "string \<Rightarrow> string" where
  "strip_zone s = (case index_of (CHR ''%'') s of Some i \<Rightarrow> take i s | None \<Rightarrow> s)"

definition normalize_ip :: "string \<Rightarrow> ip option" where
  "normalize_ip address = parse_ip (strip_zone (strip_brackets address))"

definition isAlwaysBlockedNormalized :: "ip \<Rightarrow> bool" where
  "isAlwaysBlockedNormalized n = block_check alwaysBlocked n"

definition isAlwaysBlocked :: "string \<Rightarrow> bool" where
  "isAlwaysBlocked address =
     (case normalize_ip address of None \<Rightarrow> False | Some n \<Rightarrow> isAlwaysBlockedNormalized n)"

definition is_v6 :: "ip \<Rightarrow> bool" where
  "is_v6 n = (case n of V6 _ \<Rightarrow> True | V4 _ \<Rightarrow> False)"

definition isNonGlobalIetfAssignment :: "ip \<Rightarrow> bool" where
  "isNonGlobalIetfAssignment n \<longleftrightarrow>
     is_v6 n \<and> block_check ietfProtocolAssignments n
     \<and> \<not> block_check globallyReachableIetfAssignments n"

definition private_ip :: "ip \<Rightarrow> bool" where
  "private_ip n \<longleftrightarrow>
     isAlwaysBlockedNormalized n \<or> isNonGlobalIetfAssignment n \<or> block_check privateIp n"

definition isPrivateIp :: "string \<Rightarrow> bool" where
  "isPrivateIp address = (case normalize_ip address of None \<Rightarrow> False | Some n \<Rightarrow> private_ip n)"

definition loopback_ip :: "ip \<Rightarrow> bool" where
  "loopback_ip n =
     (if is_v6 n then block_check nativeIpv6Loopback n else block_check nativeIpv4Loopback n)"

definition isLoopbackIp :: "string \<Rightarrow> bool" where
  "isLoopbackIp address = (case normalize_ip address of None \<Rightarrow> False | Some n \<Rightarrow> loopback_ip n)"

definition to_lower :: "string \<Rightarrow> string" where
  "to_lower s = map (\<lambda>c. if between (CHR ''A'') (CHR ''Z'') c then char_of ((of_char c :: nat) + 32) else c) s"

definition ends_with :: "string \<Rightarrow> string \<Rightarrow> bool" where
  "ends_with p s \<longleftrightarrow> length p \<le> length s \<and> drop (length s - length p) s = p"

text \<open>The two \<open>replace\<close> calls on the host name: a leading \<open>[\<close> goes, or else a trailing \<open>]\<close> (both with
  the \<open>g\<close> flag), then one trailing dot.\<close>

definition host_of :: "string \<Rightarrow> string" where
  "host_of hostname =
     (let a = (if hostname \<noteq> [] \<and> hd hostname = CHR ''['' then tl hostname else hostname);
          b = (if a \<noteq> [] \<and> last a = CHR '']'' then butlast a else a);
          c = (if b \<noteq> [] \<and> last b = CHR ''.'' then butlast b else b)
      in to_lower c)"

text \<open>\<open>None\<close> is the URL that does not parse.\<close>

definition isLikelyPrivateUrl :: "string option \<Rightarrow> bool" where
  "isLikelyPrivateUrl hostname =
     (case hostname of
        None \<Rightarrow> False
      | Some h \<Rightarrow>
          let host = host_of h in
          if host = ''localhost'' then True
          else if ends_with ''.cluster.local'' host then True
          else isPrivateIp host)"

section \<open>Rules as intervals\<close>

definition ip_num :: "ip \<Rightarrow> nat" where
  "ip_num a = unat (canonical_ip a)"

lemma ip_num_less: "ip_num a < 2 ^ 128"
proof -
  have "unat (canonical_ip a) < 2 ^ LENGTH(128)" by (rule unsigned_less)
  then show ?thesis by (simp add: ip_num_def)
qed

lemma unat_of_nat_128: "n < 2 ^ 128 \<Longrightarrow> unat (of_nat n :: 128 word) = n"
  by (simp add: unsigned_of_nat take_bit_nat_eq_self)

lemma unat_mapped: "unat (mapped a) = 0xffff * 2 ^ 32 + unat a"
proof -
  have "unat a < 2 ^ LENGTH(32)" by (rule unsigned_less)
  then have l: "0xffff * 2 ^ 32 + unat a < 2 ^ 128" by simp
  have "mapped a = of_nat (0xffff * 2 ^ 32 + unat a)" by (simp add: mapped_def)
  then show ?thesis using unat_of_nat_128 [OF l] by simp
qed

lemma unat_of_nat_32: "n < 2 ^ 32 \<Longrightarrow> unat (of_nat n :: 32 word) = n"
  by (simp add: unsigned_of_nat take_bit_nat_eq_self)

lemma ip_num_V4: "ip_num (V4 a) = 281470681743360 + unat a"
  by (simp add: ip_num_def unat_mapped)

lemma ip_num_V6: "ip_num (V6 w) = unat w"
  by (simp add: ip_num_def)

lemma div_eq_interval:
  assumes "0 < (d :: nat)"
  shows "n div d = m \<longleftrightarrow> m * d \<le> n \<and> n < m * d + d"
proof
  assume "n div d = m"
  then have "n = m * d + n mod d" by (metis div_mult_mod_eq)
  then show "m * d \<le> n \<and> n < m * d + d" using mod_less_divisor [OF assms, of n] by linarith
next
  assume "m * d \<le> n \<and> n < m * d + d"
  then show "n div d = m" by (intro div_nat_eqI) (simp_all add: mult.commute)
qed

lemma drop_bit_eq_iff:
  "drop_bit k (w :: 128 word) = drop_bit k v \<longleftrightarrow>
     unat v div 2 ^ k * 2 ^ k \<le> unat w \<and> unat w < unat v div 2 ^ k * 2 ^ k + 2 ^ k"
proof -
  have "drop_bit k w = drop_bit k v \<longleftrightarrow> unat (drop_bit k w) = unat (drop_bit k v)"
    by (auto intro: unsigned_word_eqI)
  also have "\<dots> \<longleftrightarrow> unat w div 2 ^ k = unat v div 2 ^ k"
    by (simp only: unat_drop_bit_eq) (simp add: drop_bit_eq_div)
  also have "\<dots> \<longleftrightarrow> unat v div 2 ^ k * 2 ^ k \<le> unat w \<and> unat w < unat v div 2 ^ k * 2 ^ k + 2 ^ k"
    by (rule div_eq_interval) simp
  finally show ?thesis .
qed


lemma matches_rule_iff:
  "matches_rule r a \<longleftrightarrow>
     (let m = unat (rule_net r) div 2 ^ (128 - rule_bits r) * 2 ^ (128 - rule_bits r) in
      m \<le> ip_num a \<and> ip_num a < m + 2 ^ (128 - rule_bits r))"
  by (simp add: matches_rule_def drop_bit_eq_iff ip_num_def Let_def)

lemma rule_net_v4: "n < 2 ^ 32 \<Longrightarrow> unat (canonical_ip (V4 (of_nat n))) = 281470681743360 + n"
  by (simp add: unat_mapped unat_of_nat_32)

text \<open>Each list as the intervals of 128-bit values it covers.\<close>

definition intervals :: "ip_rule list \<Rightarrow> (nat \<times> nat) list" where
  "intervals rules =
     map (\<lambda>r. let k = 128 - rule_bits r; m = unat (rule_net r) div 2 ^ k * 2 ^ k in (m, m + 2 ^ k)) rules"

definition in_intervals :: "nat \<Rightarrow> (nat \<times> nat) list \<Rightarrow> bool" where
  "in_intervals n is \<longleftrightarrow> list_ex (\<lambda>(l, h). l \<le> n \<and> n < h) is"

lemma block_check_intervals: "block_check rules a \<longleftrightarrow> in_intervals (ip_num a) (intervals rules)"
  by (induction rules)
    (simp_all add: block_check_def in_intervals_def intervals_def matches_rule_iff Let_def)

lemma always_intervals:
  "intervals alwaysBlocked =
    [(281473533739008, 281473533804544),
     (338288524927261089654018896841347694592, 338620831926207318622244848606417780736),
     (281473902969024, 281473902969025),
     (336294982257581694735330614659971547732, 336294982257581694735330614659971547733),
     (2851995648, 2852061184),
     (3221225664, 3221225665),
     (18446462601584836608, 18446462601584902144),
     (18446462601954066624, 18446462601954066625),
     (524413980667603649783483184164241408, 524413980667603649783483184164306944),
     (524413980667603649783483184533471424, 524413980667603649783483184533471425),
     (42549128310010673343622282767260188672, 42549128389238835857886620360804139008),
     (42549574681710392466266293595419967488, 42549574681711601392085908224594673664),
     (524413980668812575603097810486951936, 524413980670021501422712439661658112),
     (42540488161975842760550356425300246528, 42540488241204005274814694018844196864)]"
  by (simp add: intervals_def alwaysBlocked_def v4_def v6_def mapped_def Let_def)

lemma ietf_intervals:
  "intervals ietfProtocolAssignments =
    [(42540488161975842760550356425300246528, 42540528726795050063891204319802818560)]"
  by (simp add: intervals_def ietfProtocolAssignments_def v4_def v6_def mapped_def Let_def)

lemma global_ietf_intervals:
  "intervals globallyReachableIetfAssignments =
    [(42540488241204005274814694018844196865, 42540488241204005274814694018844196866),
     (42540488241204005274814694018844196866, 42540488241204005274814694018844196867),
     (42540488241204005274814694018844196867, 42540488241204005274814694018844196868),
     (42540488399660330303343369205932097536, 42540488478888492817607706799476047872),
     (42540488479219738492182115193345540096, 42540488479220947418001729822520246272),
     (42540490697277043217009159418706657280, 42540491964927643445238560915409862656),
     (42540491964927643445238560915409862656, 42540493232578243673467962412113068032)]"
  by (simp add: intervals_def globallyReachableIetfAssignments_def v4_def v6_def mapped_def Let_def)

lemma loopback4_intervals:
  "intervals nativeIpv4Loopback =
    [(281472812449792, 281472829227008)]"
  by (simp add: intervals_def nativeIpv4Loopback_def v4_def v6_def mapped_def Let_def)

lemma loopback6_intervals:
  "intervals nativeIpv6Loopback =
    [(1, 2)]"
  by (simp add: intervals_def nativeIpv6Loopback_def v4_def v6_def mapped_def Let_def)

lemma private_intervals:
  "intervals privateIp =
    [(281470681743360, 281470698520576),
     (281470849515520, 281470866292736),
     (281472812449792, 281472829227008),
     (281472363659264, 281472367853568),
     (281473533739008, 281473533804544),
     (281473568473088, 281473569521664),
     (281473913978880, 281473914044416),
     (281474439839744, 281474708275200),
     (281473902968832, 281473902969088),
     (281473908761344, 281473908761600),
     (281473902969344, 281473902969600),
     (281474004811776, 281474004942848),
     (281474007000064, 281474007000320),
     (281474087547136, 281474087547392),
     (281474708275200, 281474976710656),
     (281474976710655, 281474976710656),
     (0, 1),
     (1, 2),
     (0, 4294967296),
     (338288524927261089654018896841347694592, 338620831926207318622244848606417780736),
     (338620831926207318622244848606417780736, 338953138925153547590470800371487866880),
     (334965454937798799971759379190646833152, 337623910929368631717566993311207522304),
     (338953138925153547590470800371487866880, 340282366920938463463374607431768211456),
     (1329227995784915872903807060280344576, 1329227995784915891350551133989896192),
     (1329227995784915891350551133989896192, 1329227995784915909797295207699447808),
     (42540766411282592856903984951653826560, 42540766490510755371168322545197776896),
     (85060207136517546210586590865283612672, 85065399433376081038215121361612832768),
     (85065399433376081038215121361612832768, 85065723951929739464941904517633409024),
     (126276659599567007925861670726632734720, 127605887595351923798765477786913079296),
     (18446462598732840960, 18446462603027808256),
     (524413980667603649783483181312245760, 524413980667603649783483185607213056),
     (524413980668812575603097810486951936, 524413980670021501422712439661658112),
     (42545680458834377588178886921629466624, 42550872755692912415807417417958686720)]"
  by (simp add: intervals_def privateIp_def v4_def v6_def mapped_def Let_def)


lemmas verdict_defs =
  isAlwaysBlockedNormalized_def isNonGlobalIetfAssignment_def private_ip_def loopback_ip_def
  block_check_intervals in_intervals_def always_intervals ietf_intervals global_ietf_intervals
  loopback4_intervals loopback6_intervals private_intervals

lemma is_v6_simps [simp]: "is_v6 (V6 w)" "\<not> is_v6 (V4 a)"
  by (simp_all add: is_v6_def)

section \<open>IPv4 addresses inside IPv6 addresses\<close>

definition ipv4_compatible :: "32 word \<Rightarrow> ip" where
  "ipv4_compatible a = V6 (of_nat (unat a))"

definition ipv4_translated :: "32 word \<Rightarrow> ip" where
  "ipv4_translated a = V6 (of_nat (0xffff * 2 ^ 48 + unat a))"

definition nat64_well_known :: "32 word \<Rightarrow> ip" where
  "nat64_well_known a = V6 (of_nat (0x64 * 2 ^ 112 + 0xff9b * 2 ^ 96 + unat a))"

text \<open>\<open>r\<close> is the part of a 6to4 address after the embedded IPv4 address.\<close>

definition six_to_four :: "32 word \<Rightarrow> nat \<Rightarrow> ip" where
  "six_to_four a r = V6 (of_nat (0x2002 * 2 ^ 112 + unat a * 2 ^ 80 + r mod 2 ^ 80))"

lemma unat_32_less: "unat (a :: 32 word) < 4294967296"
proof -
  have "unat a < 2 ^ LENGTH(32)" by (rule unsigned_less)
  then show ?thesis by simp
qed

lemma wrapped_nums:
  "ip_num (ipv4_compatible a) = unat a"
  "ip_num (ipv4_translated a) = 0xffff * 2 ^ 48 + unat a"
  "ip_num (nat64_well_known a) = 0x64 * 2 ^ 112 + 0xff9b * 2 ^ 96 + unat a"
  "ip_num (six_to_four a r) = 0x2002 * 2 ^ 112 + unat a * 2 ^ 80 + r mod 2 ^ 80"
proof -
  have r: "r mod 2 ^ 80 < (2 :: nat) ^ 80" by simp
  have a: "unat a * 2 ^ 80 \<le> 4294967295 * 2 ^ 80" using unat_32_less [of a] by simp
  show "ip_num (ipv4_compatible a) = unat a"
    using unat_32_less [of a] unfolding ipv4_compatible_def ip_num_V6 by (intro unat_of_nat_128) simp
  show "ip_num (ipv4_translated a) = 0xffff * 2 ^ 48 + unat a"
    using unat_32_less [of a] unfolding ipv4_translated_def ip_num_V6 by (intro unat_of_nat_128) simp
  show "ip_num (nat64_well_known a) = 0x64 * 2 ^ 112 + 0xff9b * 2 ^ 96 + unat a"
    using unat_32_less [of a] unfolding nat64_well_known_def ip_num_V6 by (intro unat_of_nat_128) simp
  show "ip_num (six_to_four a r) = 0x2002 * 2 ^ 112 + unat a * 2 ^ 80 + r mod 2 ^ 80"
    unfolding six_to_four_def ip_num_V6
  proof (rule unat_of_nat_128)
    show "0x2002 * 2 ^ 112 + unat a * 2 ^ 80 + r mod 2 ^ 80 < (2 :: nat) ^ 128" using r a by simp
  qed
qed

lemma in_intervalsI: "(l, h) \<in> set is \<Longrightarrow> l \<le> n \<Longrightarrow> n < h \<Longrightarrow> in_intervals n is"
  by (auto simp: in_intervals_def list_ex_iff)

lemma block_checkI:
  "(l, h) \<in> set (intervals rules) \<Longrightarrow> l \<le> ip_num a \<Longrightarrow> ip_num a < h \<Longrightarrow> block_check rules a"
  by (auto simp: block_check_intervals in_intervals_def list_ex_iff)

lemma embedded_block:
  assumes "ip_num x = b + n" "(b + 2851995648, b + 2852061184) \<in> set (intervals rules)"
    "(b + 3221225664, b + 3221225665) \<in> set (intervals rules)"
    and "2851995648 \<le> n \<and> n < 2852061184 \<or> n = 3221225664"
  shows "block_check rules x"
  using assms(4)
proof
  assume "2851995648 \<le> n \<and> n < 2852061184"
  then show ?thesis using assms(1) by (intro block_checkI [OF assms(2)]) simp_all
next
  assume "n = 3221225664"
  then show ?thesis using assms(1) by (intro block_checkI [OF assms(3)]) simp_all
qed

lemma always_v4: "isAlwaysBlockedNormalized (V4 a) \<longleftrightarrow> 2851995648 \<le> unat a \<and> unat a < 2852061184 \<or> unat a = 3221225664"
  using unat_32_less [of a] by (auto simp: verdict_defs ip_num_V4)

section \<open>Properties\<close>

text \<open>
  C27: an always-blocked IPv4 address cannot be smuggled in: whenever an IPv4 address is refused even
  under the private-network opt-in (link-local and the cloud metadata services), so is each of its
  IPv6 forms: mapped, compatible, translated, NAT64 and every 6to4 address that embeds it.
\<close>

theorem wrapped_always_blocked:
  assumes "isAlwaysBlockedNormalized (V4 a)"
  shows "isAlwaysBlockedNormalized (V6 (mapped a)) \<and> isAlwaysBlockedNormalized (ipv4_compatible a)
    \<and> isAlwaysBlockedNormalized (ipv4_translated a) \<and> isAlwaysBlockedNormalized (nat64_well_known a)
    \<and> isAlwaysBlockedNormalized (six_to_four a r)"
proof -
  define n where "n = unat a"
  define q where "q = r mod 2 ^ 80"
  have q: "q < 1208925819614629174706176" by (simp add: q_def)
  have n: "2851995648 \<le> n \<and> n < 2852061184 \<or> n = 3221225664"
    using assms always_v4 by (simp add: n_def)
  have m: "isAlwaysBlockedNormalized (V6 (mapped a))"
    using assms by (simp add: isAlwaysBlockedNormalized_def block_check_intervals ip_num_def)
  have c: "isAlwaysBlockedNormalized (ipv4_compatible a)" "isAlwaysBlockedNormalized (ipv4_translated a)"
    "isAlwaysBlockedNormalized (nat64_well_known a)"
    unfolding isAlwaysBlockedNormalized_def
    by (rule embedded_block [where b = 0, OF _ _ _ n], simp_all add: always_intervals wrapped_nums n_def,
        rule embedded_block [where b = "0xffff * 2 ^ 48", OF _ _ _ n],
        simp_all add: always_intervals wrapped_nums n_def,
        rule embedded_block [where b = "0x64 * 2 ^ 112 + 0xff9b * 2 ^ 96", OF _ _ _ n],
        simp_all add: always_intervals wrapped_nums n_def)
  have num: "ip_num (six_to_four a r) = 0x2002 * 2 ^ 112 + n * 2 ^ 80 + q"
    by (simp only: wrapped_nums n_def q_def)
  have "ip_num (six_to_four a r) \<ge> 42549128310010673343622282767260188672
        \<and> ip_num (six_to_four a r) < 42549128389238835857886620360804139008
      \<or> ip_num (six_to_four a r) \<ge> 42549574681710392466266293595419967488
        \<and> ip_num (six_to_four a r) < 42549574681711601392085908224594673664"
    using n
  proof
    assume "2851995648 \<le> n \<and> n < 2852061184"
    then show ?thesis using q unfolding num by simp
  next
    assume "n = 3221225664"
    then show ?thesis using q unfolding num by simp
  qed
  then have s: "isAlwaysBlockedNormalized (six_to_four a r)" by (auto simp: verdict_defs)
  show ?thesis using m c s by blast
qed

theorem wrapped_always_blocked_witness:
  "isAlwaysBlockedNormalized (V4 0xa9fea9fe) \<and> isAlwaysBlockedNormalized (V6 0x64ff9b0000000000000000a9fea9fe)
   \<and> isAlwaysBlockedNormalized (six_to_four 0xa9fea9fe 7)"
proof -
  have b: "isAlwaysBlockedNormalized (V4 0xa9fea9fe)" by code_simp
  have "nat64_well_known 0xa9fea9fe = V6 0x64ff9b0000000000000000a9fea9fe" by (simp add: nat64_well_known_def)
  then show ?thesis using b wrapped_always_blocked [OF b, of 7] by simp
qed

text \<open>
  An IPv4 address and its IPv4-mapped IPv6 form get the same verdict from both tiers.
\<close>

theorem mapped_same_verdict:
  "isAlwaysBlockedNormalized (V6 (mapped a)) = isAlwaysBlockedNormalized (V4 a)
   \<and> private_ip (V6 (mapped a)) = private_ip (V4 a)"
proof -
  have same: "block_check rules (V6 (mapped a)) = block_check rules (V4 a)" for rules
    by (simp add: block_check_intervals ip_num_def)
  have "\<not> block_check ietfProtocolAssignments (V4 a)"
    using unat_32_less [of a] by (simp add: verdict_defs ip_num_V4)
  then have "\<not> isNonGlobalIetfAssignment (V6 (mapped a))" "\<not> isNonGlobalIetfAssignment (V4 a)"
    by (simp_all add: isNonGlobalIetfAssignment_def same)
  then show ?thesis by (simp add: private_ip_def isAlwaysBlockedNormalized_def same)
qed

text \<open>The intervals of a list that touch the mapped IPv4 addresses, as IPv4 numbers.\<close>

definition v4_part :: "(nat \<times> nat) list \<Rightarrow> (nat \<times> nat) list" where
  "v4_part is = map (\<lambda>(l, h). (l - 281470681743360, h - 281470681743360))
     (filter (\<lambda>(l, h). 281470681743360 < h \<and> l < 281474976710656) is)"

lemma in_v4_part:
  "n < 4294967296 \<Longrightarrow> in_intervals (281470681743360 + n) is \<longleftrightarrow> in_intervals n (v4_part is)"
  by (induction "is") (auto simp: in_intervals_def v4_part_def)

definition quad :: "nat \<times> nat \<times> nat \<times> nat \<Rightarrow> nat" where
  "quad = (\<lambda>(a, b, c, d). ((a * 256 + b) * 256 + c) * 256 + d)"

definition special_ipv4_ranges :: "((nat \<times> nat \<times> nat \<times> nat) \<times> (nat \<times> nat \<times> nat \<times> nat)) list" where
  "special_ipv4_ranges =
    [((0, 0, 0, 0), (0, 255, 255, 255)), ((10, 0, 0, 0), (10, 255, 255, 255)),
     ((127, 0, 0, 0), (127, 255, 255, 255)), ((100, 64, 0, 0), (100, 127, 255, 255)),
     ((169, 254, 0, 0), (169, 254, 255, 255)), ((172, 16, 0, 0), (172, 31, 255, 255)),
     ((192, 168, 0, 0), (192, 168, 255, 255)), ((192, 0, 0, 0), (192, 0, 0, 255)),
     ((192, 88, 99, 0), (192, 88, 99, 255)), ((192, 0, 2, 0), (192, 0, 2, 255)),
     ((198, 18, 0, 0), (198, 19, 255, 255)), ((198, 51, 100, 0), (198, 51, 100, 255)),
     ((203, 0, 113, 0), (203, 0, 113, 255)), ((224, 0, 0, 0), (239, 255, 255, 255)),
     ((240, 0, 0, 0), (255, 255, 255, 255))]"

lemma v4_blocks:
  "block_check alwaysBlocked (V4 a) \<longleftrightarrow> 2851995648 \<le> unat a \<and> unat a < 2852061184 \<or> unat a = 3221225664"
  using always_v4 by (simp add: isAlwaysBlockedNormalized_def)

lemma v4_private_part:
  "block_check privateIp (V4 a) \<longleftrightarrow> in_intervals (unat a) (v4_part (intervals privateIp))"
  using in_v4_part [OF unat_32_less] by (simp add: block_check_intervals ip_num_V4)

text \<open>
  The private IPv4 addresses are exactly the special-purpose ranges that the source means to
  list, written as dotted quads, and no rule for IPv6 catches an IPv4 address.
\<close>

theorem private_ipv4_ranges:
  "private_ip (V4 a) \<longleftrightarrow> list_ex (\<lambda>(lo, hi). quad lo \<le> unat a \<and> unat a < quad hi + 1) special_ipv4_ranges"
proof -
  have n: "unat a < 4294967296" by (rule unat_32_less)
  have part: "v4_part (intervals privateIp) =
    [(0, 16777216), (167772160, 184549376), (2130706432, 2147483648), (1681915904, 1686110208),
     (2851995648, 2852061184), (2886729728, 2887778304), (3232235520, 3232301056),
     (3758096384, 4026531840), (3221225472, 3221225728), (3227017984, 3227018240),
     (3221225984, 3221226240), (3323068416, 3323199488), (3325256704, 3325256960),
     (3405803776, 3405804032), (4026531840, 4294967296), (4294967295, 4294967296)]"
    by (simp add: v4_part_def private_intervals)
  have "private_ip (V4 a) \<longleftrightarrow> block_check alwaysBlocked (V4 a) \<or> block_check privateIp (V4 a)"
    by (simp add: private_ip_def isAlwaysBlockedNormalized_def isNonGlobalIetfAssignment_def)
  also have "\<dots> \<longleftrightarrow> block_check privateIp (V4 a)"
  proof -
    have "(2851995648, 2852061184) \<in> set (v4_part (intervals privateIp))"
      "(3221225472, 3221225728) \<in> set (v4_part (intervals privateIp))" by (simp_all add: part)
    then have "block_check alwaysBlocked (V4 a) \<Longrightarrow> block_check privateIp (V4 a)"
      unfolding v4_blocks v4_private_part
      using in_intervalsI [of _ _ "v4_part (intervals privateIp)" "unat a"] by (elim disjE) force+
    then show ?thesis by blast
  qed
  also have "\<dots> \<longleftrightarrow> in_intervals (unat a) (v4_part (intervals privateIp))" by (rule v4_private_part)
  also have "\<dots> \<longleftrightarrow> list_ex (\<lambda>(lo, hi). quad lo \<le> unat a \<and> unat a < quad hi + 1) special_ipv4_ranges"
    unfolding part in_intervals_def special_ipv4_ranges_def quad_def
    by (rule iffI; simp; elim disjE; simp)
  finally show ?thesis .
qed

text \<open>
  Inside the IETF protocol assignments \<open>2001::/23\<close> the classifier fails closed: an address is
  private exactly when it is in none of the allocations listed as globally reachable, and no other
  rule takes one of those back.
\<close>

theorem ietf_assignments_fail_closed:
  assumes "block_check ietfProtocolAssignments (V6 w)"
  shows "private_ip (V6 w) \<longleftrightarrow> \<not> block_check globallyReachableIetfAssignments (V6 w)"
proof -
  have r: "42540488161975842760550356425300246528 \<le> unat w" "unat w < 42540528726795050063891204319802818560"
    using assms by (simp_all add: verdict_defs ip_num_V6)
  have g: "\<not> block_check alwaysBlocked (V6 w) \<and> \<not> block_check privateIp (V6 w)"
    if "block_check globallyReachableIetfAssignments (V6 w)"
    using that r by (auto simp: verdict_defs ip_num_V6)
  then show ?thesis
    using assms by (auto simp: private_ip_def isAlwaysBlockedNormalized_def isNonGlobalIetfAssignment_def)
qed

theorem ietf_assignments_fail_closed_witness:
  "private_ip (V6 0x20010002000000000000000000000000) \<and> \<not> private_ip (V6 0x20010020000000000000000000000001)"
proof -
  have c: "block_check ietfProtocolAssignments (V6 0x20010002000000000000000000000000)"
    "block_check ietfProtocolAssignments (V6 0x20010020000000000000000000000001)"
    "\<not> block_check globallyReachableIetfAssignments (V6 0x20010002000000000000000000000000)"
    "block_check globallyReachableIetfAssignments (V6 0x20010020000000000000000000000001)" by code_simp+
  show ?thesis
    using ietf_assignments_fail_closed [OF c(1)] ietf_assignments_fail_closed [OF c(2)] c(3,4) by blast
qed

text \<open>
  A loopback literal is private but not always blocked, so the private-network opt-in can
  reach it; a wrapped loopback address is not loopback.
\<close>

theorem loopback_is_opt_in:
  assumes "loopback_ip n"
  shows "private_ip n \<and> \<not> isAlwaysBlockedNormalized n \<and> n \<noteq> V6 (mapped a)"
proof (cases n)
  case (V4 w)
  then show ?thesis
    using assms unat_32_less [of w] by (auto simp: verdict_defs ip_num_V4)
next
  case (V6 w)
  then have "unat w = 1" using assms by (simp add: verdict_defs ip_num_V6)
  then show ?thesis
    using V6 unat_mapped [of a] by (auto simp: verdict_defs ip_num_V6)
qed

theorem loopback_is_opt_in_witness:
  "private_ip (V4 0x7f000001) \<and> \<not> isAlwaysBlockedNormalized (V4 0x7f000001)"
proof -
  have "loopback_ip (V4 0x7f000001)" by code_simp
  then show ?thesis using loopback_is_opt_in by blast
qed

text \<open>
  Surrounding brackets and a zone identifier do not change any verdict.
\<close>

theorem brackets_and_zone_ignored:
  assumes "CHR ''%'' \<notin> set s" "CHR ''['' \<notin> set s"
  shows "isPrivateIp (''['' @ s @ '']'') = isPrivateIp s \<and> isPrivateIp (s @ ''%'' @ z) = isPrivateIp s
    \<and> isAlwaysBlocked (''['' @ s @ ''%'' @ z @ '']'') = isAlwaysBlocked s"
proof -
  have "index_of (CHR ''%'') s = None" using assms(1) by simp
  then have z: "strip_zone s = s" by (simp only: strip_zone_def option.case)
  have z2: "strip_zone (s @ CHR ''%'' # t) = s" for t using assms(1) by (simp add: strip_zone_def)
  have b: "strip_brackets s = s" using assms(2) by (cases s) (auto simp: strip_brackets_def)
  have b2: "strip_brackets (CHR ''['' # t @ '']'') = t" for t by (simp add: strip_brackets_def butlast_append)
  have b3: "strip_brackets (s @ CHR ''%'' # t) = s @ CHR ''%'' # t" for t
    using assms(2) by (cases s) (auto simp: strip_brackets_def)
  show ?thesis
    using b2 [of s] b2 [of "s @ CHR ''%'' # z"] b3 [of z] z z2 b
    by (simp add: isPrivateIp_def isAlwaysBlocked_def normalize_ip_def)
qed

theorem brackets_and_zone_ignored_witness:
  "isAlwaysBlocked ''[fe80::1%eth0]'' \<and> isPrivateIp ''[10.1.2.3]'' \<and> isPrivateIp ''fe80::1%en1''"
proof -
  have "isAlwaysBlocked ''fe80::1'' \<and> isPrivateIp ''fe80::1'' \<and> isPrivateIp ''10.1.2.3''" by code_simp
  then show ?thesis
    using brackets_and_zone_ignored [of "''fe80::1''" "''eth0''"] brackets_and_zone_ignored [of "''fe80::1''" "''en1''"]
      brackets_and_zone_ignored [of "''10.1.2.3''" "[]"] by simp
qed

end
