(* ===== verification/Jcs.thy ===== *)
theory Jcs
  imports Prelude "HOL-Library.Multiset" "HOL-Library.List_Lexorder"
begin

text \<open>
  Canonical JSON (RFC 8785) as written in \<open>src/lib/utils/jcs.ts\<close>.  A JavaScript value is a
  \<open>jsval\<close>; a plain object is the list of its own members in the order \<open>Object.keys\<close> gives
  them.  Numbers have an abstract type \<open>'n\<close>: the text \<open>JSON.stringify\<close> prints for one
  (nothing for a non-finite number) is the parameter \<open>num_text\<close>, since the conversion belongs
  to the JavaScript engine.  The development shows that the canonical text determines the
  value up to member order, undefined members and number spelling, and nothing else.
\<close>

section \<open>Values\<close>

datatype 'n jsval =
    JNull
  | JBool bool
  | JNum 'n
  | JStr jsstr
  | JArr "'n jsval list"
  | JObj "(jsstr \<times> 'n jsval) list"
  | is_undefined: JUndefined
  | JBigInt
  | JFunction
  | JSymbol
  | JExotic

text \<open>The order of member names: UTF-16 code units, then length.\<close>

fun compareUtf16 :: "jsstr \<Rightarrow> jsstr \<Rightarrow> int" where
  "compareUtf16 (a # as) (b # bs) =
     (if a \<noteq> b then uint a - uint b else compareUtf16 as bs)"
| "compareUtf16 as bs = int (length as) - int (length bs)"

text \<open>\<open>Array.prototype.sort\<close> with that comparator: stable insertion on the member name.\<close>

fun insert_member :: "jsstr \<times> 'v \<Rightarrow> (jsstr \<times> 'v) list \<Rightarrow> (jsstr \<times> 'v) list" where
  "insert_member m [] = [m]"
| "insert_member m (x # xs) =
     (if compareUtf16 (fst m) (fst x) \<le> 0 then m # x # xs else x # insert_member m xs)"

definition sort_members :: "(jsstr \<times> 'v) list \<Rightarrow> (jsstr \<times> 'v) list" where
  "sort_members ms = foldr insert_member ms []"

section \<open>Serialisation\<close>

definition serializeString :: "jsstr \<Rightarrow> jsstr" where
  "serializeString s = map of_nat (quote_codes (map unat s))"

fun join_comma :: "jsstr list \<Rightarrow> jsstr" where
  "join_comma [] = []"
| "join_comma [x] = x"
| "join_comma (x # xs) = x @ 44 # join_comma xs"

definition serializeNumber :: "('n \<Rightarrow> jsstr option) \<Rightarrow> 'n \<Rightarrow> js_error + jsstr" where
  "serializeNumber num_text n =
     (case num_text n of None \<Rightarrow> Inl (TypeErr ''non-finite number'') | Some t \<Rightarrow> Inr t)"

lemma set_insert_member [simp]: "set (insert_member m xs) = insert m (set xs)"
  by (induction xs) auto

lemma set_sort_members [simp]: "set (sort_members ms) = set ms"
  by (induction ms) (auto simp: sort_members_def)

lemma size_member_less:
  "(k, v) \<in> set ms \<Longrightarrow> size v < Suc (size_list (size_prod (\<lambda>_. 0) size) ms)"
  by (induction ms) (auto simp: less_Suc_eq_le)

function (sequential) serialize :: "('n \<Rightarrow> jsstr option) \<Rightarrow> 'n jsval \<Rightarrow> js_error + jsstr" where
  "serialize nt JNull = Inr (js ''null'')"
| "serialize nt (JBool b) = Inr (if b then js ''true'' else js ''false'')"
| "serialize nt (JNum n) = serializeNumber nt n"
| "serialize nt (JStr s) = Inr (serializeString s)"
| "serialize nt (JArr xs) =
     bindE (mapE (\<lambda>x. if is_undefined x then Inr (js ''null'') else serialize nt x) xs)
       (\<lambda>parts. Inr (91 # join_comma parts @ [93]))"
| "serialize nt (JObj ms) =
     bindE (mapE (\<lambda>(k, v). bindE (serialize nt v) (\<lambda>t. Inr (serializeString k @ 58 # t)))
              (sort_members (filter (\<lambda>(k, v). \<not> is_undefined v) ms)))
       (\<lambda>parts. Inr (123 # join_comma parts @ [125]))"
| "serialize nt JBigInt = Inl (TypeErr ''BigInt'')"
| "serialize nt JUndefined = Inl (TypeErr ''undefined'')"
| "serialize nt JFunction = Inl (TypeErr ''function'')"
| "serialize nt JSymbol = Inl (TypeErr ''symbol'')"
| "serialize nt JExotic = Inl (TypeErr ''not a plain object'')"
  by pat_completeness auto
termination
proof (relation "measure (\<lambda>(nt, v). size v)", goal_cases)
  case (3 nt ms z k v)
  then show ?case using size_member_less [of k v ms] by auto
qed (auto simp: less_Suc_eq_le size_list_estimation')

text \<open>\<open>canonicalize\<close> is the exported name.\<close>

definition canonicalize :: "('n \<Rightarrow> jsstr option) \<Rightarrow> 'n jsval \<Rightarrow> js_error + jsstr" where
  "canonicalize nt v = serialize nt v"

text \<open>\<open>toString(16).padStart(4, '0')\<close> of a code unit.\<close>

definition hex4 :: "16 word \<Rightarrow> jsstr" where
  "hex4 w = map of_nat [hex_code (unat w div 4096), hex_code (unat w div 256 mod 16),
                        hex_code (unat w div 16 mod 16), hex_code (unat w mod 16)]"

definition is_high_surrogate :: "16 word \<Rightarrow> bool" where
  "is_high_surrogate w \<longleftrightarrow> 0xd800 \<le> w \<and> w \<le> 0xdbff"

definition is_low_surrogate :: "16 word \<Rightarrow> bool" where
  "is_low_surrogate w \<longleftrightarrow> 0xdc00 \<le> w \<and> w \<le> 0xdfff"

fun escapeLoneSurrogates :: "jsstr \<Rightarrow> jsstr" where
  "escapeLoneSurrogates [] = []"
| "escapeLoneSurrogates (c # cs) =
     (if is_high_surrogate c then
        (case cs of
           n # cs' \<Rightarrow>
             if is_low_surrogate n then c # n # escapeLoneSurrogates cs'
             else 92 # 117 # hex4 c @ escapeLoneSurrogates cs
         | [] \<Rightarrow> 92 # 117 # hex4 c @ escapeLoneSurrogates cs)
      else if is_low_surrogate c then 92 # 117 # hex4 c @ escapeLoneSurrogates cs
      else c # escapeLoneSurrogates cs)"

text \<open>
  SHA-256 over the UTF-8 form is Node's \<open>crypto\<close>; \<open>sha256_hex\<close> stands for it.
\<close>

definition canonicalJsonSha256 ::
    "('n \<Rightarrow> jsstr option) \<Rightarrow> (jsstr \<Rightarrow> string) \<Rightarrow> 'n jsval \<Rightarrow> js_error + string" where
  "canonicalJsonSha256 nt sha256_hex v = bindE (canonicalize nt v) (\<lambda>s. Inr (sha256_hex s))"

definition canonicalJsonSha256PreservingLoneSurrogates ::
    "('n \<Rightarrow> jsstr option) \<Rightarrow> (jsstr \<Rightarrow> string) \<Rightarrow> 'n jsval \<Rightarrow> js_error + string" where
  "canonicalJsonSha256PreservingLoneSurrogates nt sha256_hex v =
     bindE (canonicalize nt v) (\<lambda>s. Inr (sha256_hex (escapeLoneSurrogates s)))"

section \<open>The meaning of a value: its normal form\<close>

function (sequential) norm :: "('n \<Rightarrow> jsstr option) \<Rightarrow> 'n jsval \<Rightarrow> jsstr jsval" where
  "norm nt JNull = JNull"
| "norm nt (JBool b) = JBool b"
| "norm nt (JNum n) = (case nt n of None \<Rightarrow> JExotic | Some t \<Rightarrow> JNum t)"
| "norm nt (JStr s) = JStr s"
| "norm nt (JArr xs) = JArr (map (\<lambda>x. if is_undefined x then JNull else norm nt x) xs)"
| "norm nt (JObj ms) =
     JObj (map (\<lambda>(k, v). (k, norm nt v)) (sort_members (filter (\<lambda>(k, v). \<not> is_undefined v) ms)))"
| "norm nt _ = JExotic"
  by pat_completeness auto
termination
proof (relation "measure (\<lambda>(nt, v). size v)", goal_cases)
  case (3 nt ms z k v)
  then show ?case using size_member_less [of k v ms] by auto
qed (auto simp: less_Suc_eq_le size_list_estimation')

text \<open>A printer for normal forms; it neither sorts nor fails.\<close>

function (sequential) ser :: "jsstr jsval \<Rightarrow> jsstr" where
  "ser JNull = js ''null''"
| "ser (JBool b) = (if b then js ''true'' else js ''false'')"
| "ser (JNum t) = t"
| "ser (JStr s) = serializeString s"
| "ser (JArr xs) = 91 # join_comma (map ser xs) @ [93]"
| "ser (JObj ms) = 123 # join_comma (map (\<lambda>(k, v). serializeString k @ 58 # ser v) ms) @ [125]"
| "ser _ = []"
  by pat_completeness auto
termination
proof (relation "measure size", goal_cases)
  case (3 ms z k v)
  then show ?case using size_member_less [of k v ms] by auto
qed (auto simp: less_Suc_eq_le size_list_estimation')

definition num_units :: "16 word set" where
  "num_units = {43, 45, 46, 101} \<union> {48, 49, 50, 51, 52, 53, 54, 55, 56, 57}"

text \<open>
  What \<open>JSON.stringify\<close> documents for a finite number: a non-empty text of digits, signs, a
  point and an exponent mark.
\<close>

definition num_text_ok :: "('n \<Rightarrow> jsstr option) \<Rightarrow> bool" where
  "num_text_ok nt \<longleftrightarrow> (\<forall>n t. nt n = Some t \<longrightarrow> t \<noteq> [] \<and> set t \<subseteq> num_units)"

fun printable :: "jsstr jsval \<Rightarrow> bool" where
  "printable JNull = True"
| "printable (JBool b) = True"
| "printable (JNum t) = (t \<noteq> [] \<and> set t \<subseteq> num_units)"
| "printable (JStr s) = True"
| "printable (JArr xs) = list_all printable xs"
| "printable (JObj ms) = list_all (\<lambda>m. printable (snd m)) ms"
| "printable _ = False"

lemma mapE_eq_map:
  assumes "mapE f xs = Inr ys" "\<And>x y. x \<in> set xs \<Longrightarrow> f x = Inr y \<Longrightarrow> y = g x \<and> P x"
  shows "ys = map g xs \<and> list_all P xs"
  using assms by (induction xs arbitrary: ys) (auto simp: bindE_eq_Inr_iff)

lemma serialize_norm:
  assumes "num_text_ok nt" "serialize nt v = Inr s"
  shows "s = ser (norm nt v) \<and> printable (norm nt v)"
  using assms
proof (induction nt v arbitrary: s rule: serialize.induct)
  case (3 nt n)
  then show ?case
    by (auto simp: serializeNumber_def num_text_ok_def split: option.splits)
next
  case (5 nt xs)
  from "5.prems" obtain parts where
    parts: "mapE (\<lambda>x. if is_undefined x then Inr (js ''null'') else serialize nt x) xs = Inr parts"
    and s: "s = 91 # join_comma parts @ [93]" by (auto simp: bindE_eq_Inr_iff)
  have "parts = map (\<lambda>x. ser (if is_undefined x then JNull else norm nt x)) xs
      \<and> list_all (\<lambda>x. printable (if is_undefined x then JNull else norm nt x)) xs"
    by (rule mapE_eq_map [OF parts]) (use "5.IH" "5.prems"(1) in \<open>auto split: if_splits\<close>)
  then show ?case using s by (simp add: list.pred_map comp_def)
next
  case (6 nt ms)
  let ?ms = "sort_members (filter (\<lambda>(k, v). \<not> is_undefined v) ms)"
  from "6.prems" obtain parts where
    parts: "mapE (\<lambda>(k, v). bindE (serialize nt v) (\<lambda>t. Inr (serializeString k @ 58 # t))) ?ms = Inr parts"
    and s: "s = 123 # join_comma parts @ [125]" by (auto simp: bindE_eq_Inr_iff)
  have "parts = map (\<lambda>(k, v). serializeString k @ 58 # ser (norm nt v)) ?ms
      \<and> list_all (\<lambda>(k, v). printable (norm nt v)) ?ms"
    by (rule mapE_eq_map [OF parts])
       (use "6.IH" "6.prems"(1) in \<open>fastforce simp: bindE_eq_Inr_iff\<close>)
  then show ?case using s by (simp add: list.pred_map comp_def case_prod_beta')
qed auto

subsection \<open>Unique reading of a printed normal form\<close>

lemma unat_lt_16: "unat (w :: 16 word) < 65536"
  using unsigned_less [of w] by simp

lemma unat_serializeString: "map unat (serializeString s) = quote_codes (map unat s)"
proof -
  have "x < 65536" if "x \<in> set (quote_codes (map unat s))" for x
    by (rule quote_codes_bound [OF _ _ that]) (auto intro: unat_lt_16)
  then show ?thesis
    unfolding serializeString_def by (auto intro!: map_idI simp: unsigned_of_nat take_bit_nat_eq_self simp del: quote_codes.simps)
qed

lemma serializeString_inj:
  assumes "serializeString s @ r = serializeString t @ r'"
  shows "s = t \<and> r = r'"
proof -
  have "quote_codes (map unat s) @ map unat r = quote_codes (map unat t) @ map unat r'"
    using arg_cong [OF assms, of "map unat"] by (simp only: map_append unat_serializeString)
  then have "map unat s = map unat t" by (rule quote_codes_inj [THEN conjunct1])
  then have "s = t" by (rule map_injective) (auto simp: inj_def word_unat_eq_iff)
  then show ?thesis using assms by simp
qed

lemma serializeString_head: "\<exists>cs. serializeString s = 34 # cs"
  by (simp add: serializeString_def)

text \<open>Where a printed value may be followed by more text.\<close>

definition delimited :: "jsstr \<Rightarrow> bool" where
  "delimited r \<longleftrightarrow> (case r of [] \<Rightarrow> True | c # _ \<Rightarrow> c \<in> {44, 93, 125})"

lemma delimited_simps [simp]:
  "delimited []" "delimited (44 # r)" "delimited (93 # r)" "delimited (125 # r)"
  by (simp_all add: delimited_def)

lemma takeWhile_num:
  "set t \<subseteq> num_units \<Longrightarrow> delimited r \<Longrightarrow> takeWhile (\<lambda>c. c \<in> num_units) (t @ r) = t"
  by (induction t) (auto simp: delimited_def num_units_def split: list.splits)

lemma number_inj:
  assumes "t @ r = t' @ r'" "set t \<subseteq> num_units" "set t' \<subseteq> num_units" "delimited r" "delimited r'"
  shows "t = t' \<and> r = r'"
proof -
  have "t = t'" using takeWhile_num [OF assms(2,4)] takeWhile_num [OF assms(3,5)] assms(1) by simp
  with assms(1) show ?thesis by simp
qed

lemma js_literals:
  "js ''null'' = [110, 117, 108, 108]" "js ''true'' = [116, 114, 117, 101]"
  "js ''false'' = [102, 97, 108, 115, 101]"
  by (simp_all add: js_def)

text \<open>The first unit of a printed value tells its kind.\<close>

fun kind_of :: "jsstr jsval \<Rightarrow> nat" where
  "kind_of JNull = 0" | "kind_of (JBool b) = (if b then 1 else 2)" | "kind_of (JNum t) = 3"
| "kind_of (JStr s) = 4" | "kind_of (JArr xs) = 5" | "kind_of (JObj ms) = 6" | "kind_of _ = 7"

definition heads :: "nat \<Rightarrow> 16 word set" where
  "heads k = [{110}, {116}, {102}, num_units, {34}, {91}, {123}] ! k"

lemma ser_head:
  assumes "printable v"
  shows "kind_of v < 7 \<and> (\<exists>c cs. ser v = c # cs \<and> c \<in> heads (kind_of v))"
proof (cases v)
  case (JNum t)
  then show ?thesis using assms by (cases t) (auto simp: heads_def)
next
  case (JStr s)
  then show ?thesis using serializeString_head [of s] by (auto simp: heads_def)
qed (use assms in \<open>auto simp: js_literals heads_def\<close>)

lemma heads_disjoint: "i < 7 \<Longrightarrow> j < 7 \<Longrightarrow> c \<in> heads i \<Longrightarrow> c \<in> heads j \<Longrightarrow> i = j"
proof -
  have "\<forall>i \<in> set [0..<7]. \<forall>j \<in> set [0..<7]. i \<noteq> j \<longrightarrow> heads i \<inter> heads j = {}"
    by (simp add: upt_rec heads_def num_units_def)
  moreover assume "i < 7" "j < 7" "c \<in> heads i" "c \<in> heads j"
  ultimately show ?thesis by fastforce
qed

lemma heads_no_delimiter: "i < 7 \<Longrightarrow> c \<in> heads i \<Longrightarrow> c \<notin> {44, 93, 125}"
proof -
  have "\<forall>i \<in> set [0..<7]. heads i \<inter> {44, 93, 125} = {}"
    by (simp add: upt_rec heads_def num_units_def)
  moreover assume "i < 7" "c \<in> heads i"
  ultimately show ?thesis by fastforce
qed

text \<open>The rest of a comma-separated list once its first element is read.\<close>

fun rest_text :: "('a \<Rightarrow> jsstr) \<Rightarrow> 16 word \<Rightarrow> 'a list \<Rightarrow> jsstr" where
  "rest_text f e [] = [e]"
| "rest_text f e (x # xs) = 44 # f x @ rest_text f e xs"

lemma join_comma_rest: "join_comma (map f (x # xs)) @ [e] = f x @ rest_text f e xs"
  by (induction xs arbitrary: x) auto

definition reads :: "('a \<Rightarrow> jsstr) \<Rightarrow> 'a set \<Rightarrow> 'a set \<Rightarrow> bool" where
  "reads f A B \<longleftrightarrow> (\<forall>x \<in> A. \<forall>y \<in> B. \<forall>r r'.
     f x @ r = f y @ r' \<longrightarrow> delimited r \<longrightarrow> delimited r' \<longrightarrow> x = y \<and> r = r')"

lemma readsD:
  "reads f A B \<Longrightarrow> x \<in> A \<Longrightarrow> y \<in> B \<Longrightarrow> f x @ r = f y @ r' \<Longrightarrow> delimited r \<Longrightarrow> delimited r'
    \<Longrightarrow> x = y \<and> r = r'"
  by (simp add: reads_def)

lemma reads_mono: "reads f A B \<Longrightarrow> A' \<subseteq> A \<Longrightarrow> B' \<subseteq> B \<Longrightarrow> reads f A' B'"
  unfolding reads_def by blast

lemma delimited_rest: "e \<in> {93, 125} \<Longrightarrow> delimited (rest_text f e xs @ r)"
  by (cases xs) auto

lemma rest_text_inj:
  assumes e: "e \<in> {93, 125}"
  shows "reads f (set xs) (set ys) \<Longrightarrow> rest_text f e xs @ r = rest_text f e ys @ r' \<Longrightarrow> xs = ys \<and> r = r'"
proof (induction xs arbitrary: ys)
  case Nil
  then show ?case using e by (cases ys) auto
next
  case (Cons x xs)
  have "ys \<noteq> []" using Cons.prems(2) e by auto
  then obtain y ys' where ys: "ys = y # ys'" by (cases ys) auto
  have eq: "f x @ (rest_text f e xs @ r) = f y @ (rest_text f e ys' @ r')"
    using Cons.prems(2) by (simp add: ys)
  have "x = y \<and> rest_text f e xs @ r = rest_text f e ys' @ r'"
  proof (rule readsD [OF Cons.prems(1) _ _ eq])
    show "x \<in> set (x # xs)" "y \<in> set ys" by (simp_all add: ys)
  qed (rule delimited_rest [OF e])+
  moreover have "reads f (set xs) (set ys')" by (rule reads_mono [OF Cons.prems(1)]) (auto simp: ys)
  ultimately show ?case using Cons.IH [of ys'] ys by simp
qed

lemma join_comma_inj:
  assumes e: "e \<in> {93, 125}" and rd: "reads f (set xs) (set ys)"
    and ne: "\<forall>x \<in> set xs \<union> set ys. \<exists>c cs. f x = c # cs \<and> c \<noteq> e"
    and eq: "join_comma (map f xs) @ e # r = join_comma (map f ys) @ e # r'"
  shows "xs = ys \<and> r = r'"
proof (cases "xs = [] \<or> ys = []")
  case True
  have split: "\<exists>c cs. join_comma (map f zs) @ e # q = c # cs \<and> c \<noteq> e"
    if nz: "zs \<noteq> []" and sub: "set zs \<subseteq> set xs \<union> set ys" for zs q
  proof -
    obtain z zs' where z: "zs = z # zs'" using nz by (cases zs) auto
    then obtain c cs where "f z = c # cs" "c \<noteq> e" using ne sub by fastforce
    then show ?thesis using join_comma_rest [of f z zs' e] z by (cases zs') auto
  qed
  show ?thesis
    using True eq split [of xs r] split [of ys r'] by (cases xs; cases ys) auto
next
  case False
  then obtain x xs' y ys' where xy: "xs = x # xs'" "ys = y # ys'" by (cases xs; cases ys) auto
  have eq': "f x @ (rest_text f e xs' @ r) = f y @ (rest_text f e ys' @ r')"
    using eq join_comma_rest [of f x xs' e] join_comma_rest [of f y ys' e] xy
    by (metis append.assoc append_Cons append_Nil)
  have "x = y \<and> rest_text f e xs' @ r = rest_text f e ys' @ r'"
  proof (rule readsD [OF rd _ _ eq'])
    show "x \<in> set xs" "y \<in> set ys" by (simp_all add: xy)
  qed (rule delimited_rest [OF e])+
  moreover have "reads f (set xs') (set ys')" by (rule reads_mono [OF rd]) (auto simp: xy)
  ultimately show ?thesis using rest_text_inj [OF e] xy by blast
qed

lemma printable_heads:
  assumes "list_all printable xs" "x \<in> set xs" "e \<in> {93, 125}"
  shows "\<exists>c cs. ser x = c # cs \<and> c \<noteq> e"
proof -
  have "printable x" using assms by (auto simp: list_all_iff)
  then obtain c cs where "ser x = c # cs" "c \<in> heads (kind_of x)" "kind_of x < 7"
    using ser_head by blast
  then show ?thesis using heads_no_delimiter [of "kind_of x" c] assms(3) by blast
qed

lemma ser_same_kind:
  assumes "printable v" "printable w" "ser v @ r = ser w @ r'"
  shows "kind_of v = kind_of w"
proof -
  obtain c cs where 1: "ser v = c # cs" "c \<in> heads (kind_of v)" "kind_of v < 7"
    using ser_head [OF assms(1)] by blast
  obtain d ds where 2: "ser w = d # ds" "d \<in> heads (kind_of w)" "kind_of w < 7"
    using ser_head [OF assms(2)] by blast
  from 1(1) 2(1) assms(3) have "c = d" by simp
  then show ?thesis using 1 2 heads_disjoint by blast
qed

lemma member_inj:
  assumes "serializeString k @ 58 # t @ r = serializeString k' @ 58 # t' @ r'"
  shows "k = k' \<and> t @ r = t' @ r'"
  using serializeString_inj [of k "58 # t @ r" k' "58 # t' @ r'"] assms by simp

lemma ser_inj:
  "printable v \<Longrightarrow> printable w \<Longrightarrow> ser v @ r = ser w @ r' \<Longrightarrow> delimited r \<Longrightarrow> delimited r'
    \<Longrightarrow> v = w \<and> r = r'"
proof (induction v arbitrary: w r r')
  case (JNum t)
  have "kind_of w = 3" using ser_same_kind [OF JNum.prems(1-3)] by simp
  then obtain t' where "w = JNum t'" by (cases w) (auto split: if_splits)
  then show ?case using JNum.prems number_inj [of t r t' r'] by simp
next
  case (JStr s)
  have "kind_of w = 4" using ser_same_kind [OF JStr.prems(1-3)] by simp
  then obtain t where "w = JStr t" by (cases w) (auto split: if_splits)
  then show ?case using JStr.prems serializeString_inj [of s r t r'] by simp
next
  case (JArr xs)
  have "kind_of w = 5" using ser_same_kind [OF JArr.prems(1-3)] by simp
  then obtain ys where w: "w = JArr ys" by (cases w) (auto split: if_splits)
  have pr: "list_all printable xs" "list_all printable ys" using JArr.prems w by simp_all
  have "reads ser (set xs) (set ys)"
    unfolding reads_def using JArr.IH pr by (auto simp: list_all_iff)
  moreover have "\<forall>x \<in> set xs \<union> set ys. \<exists>c cs. ser x = c # cs \<and> c \<noteq> 93"
    using pr printable_heads by blast
  ultimately have "xs = ys \<and> r = r'"
    using join_comma_inj [of 93 ser xs ys r r'] JArr.prems(3) w by simp
  then show ?case using w by simp
next
  case (JObj ms)
  have "kind_of w = 6" using ser_same_kind [OF JObj.prems(1-3)] by simp
  then obtain ns where w: "w = JObj ns" by (cases w) (auto split: if_splits)
  let ?f = "\<lambda>(k, v). serializeString k @ 58 # ser v"
  have pr: "list_all (\<lambda>m. printable (snd m)) ms" "list_all (\<lambda>m. printable (snd m)) ns"
    using JObj.prems w by simp_all
  have "reads ?f (set ms) (set ns)"
    unfolding reads_def
  proof (intro ballI allI impI)
    fix m n q q'
    assume m: "m \<in> set ms" "n \<in> set ns" and eq: "?f m @ q = ?f n @ q'" and d: "delimited q" "delimited q'"
    obtain k v k' v' where kv: "m = (k, v)" "n = (k', v')" by (cases m; cases n)
    have "k = k' \<and> ser v @ q = ser v' @ q'"
      using eq kv member_inj [of k "ser v" q k' "ser v'" q'] by simp
    moreover have "printable v" "printable v'" using pr m kv by (auto simp: list_all_iff)
    ultimately show "m = n \<and> q = q'" using JObj.IH [of m v v' q q'] m kv d by auto
  qed
  moreover have "\<forall>m \<in> set ms \<union> set ns. \<exists>c cs. ?f m = c # cs \<and> c \<noteq> 125"
  proof
    fix m :: "jsstr \<times> jsstr jsval"
    obtain cs where "serializeString (fst m) = 34 # cs" using serializeString_head by blast
    then show "\<exists>c cs. ?f m = c # cs \<and> c \<noteq> 125" by (simp add: case_prod_beta)
  qed
  ultimately have "ms = ns \<and> r = r'"
    using join_comma_inj [of 125 ?f ms ns r r'] JObj.prems(3) w by simp
  then show ?case using w by simp
next
  case JNull
  have "kind_of w = 0" using ser_same_kind [OF JNull.prems(1-3)] by simp
  then have "w = JNull" by (cases w) (auto split: if_splits)
  then show ?case using JNull.prems by simp
next
  case (JBool b)
  have "kind_of w = (if b then 1 else 2)" using ser_same_kind [OF JBool.prems(1-3)] by simp
  then have "w = JBool b" by (cases w) (auto split: if_splits)
  then show ?case using JBool.prems by simp
qed simp_all

subsection \<open>Member order\<close>

lemma compareUtf16_le_iff: "compareUtf16 a b \<le> 0 \<longleftrightarrow> a \<le> b"
  by (induction a b rule: compareUtf16.induct)
     (auto simp: word_less_def le_less word_uint_eq_iff neq_Nil_conv)

lemma insert_member_insort: "insert_member m xs = insort_key fst m xs"
  by (induction xs) (auto simp: compareUtf16_le_iff)

lemma sort_members_sort: "sort_members ms = sort_key fst ms"
  by (simp add: sort_members_def sort_key_def insert_member_insort [abs_def] foldr_map)

lemma filter_same_key:
  "distinct (map fst zs) \<Longrightarrow> m \<in> set zs \<Longrightarrow> filter (\<lambda>x. fst m = fst x) zs = [m]"
  by (induction zs) (auto simp: filter_empty_conv rev_image_eqI)

lemma sort_members_perm:
  assumes "mset ms = mset ns" "distinct (map fst ms)"
  shows "sort_members ms = sort_members ns"
proof -
  have "mset (map fst ms) = mset (map fst ns)" using assms(1) by simp
  then have dn: "distinct (map fst ns)" using assms(2) mset_eq_imp_distinct_iff by blast
  have ds: "distinct (map fst (sort_key fst ns))"
    using dn mset_eq_imp_distinct_iff [of "map fst (sort_key fst ns)" "map fst ns"] by simp
  have set: "set ns = set ms" using assms(1) by (metis set_mset_mset)
  show ?thesis
    unfolding sort_members_sort
  proof (rule properties_for_sort_key)
    fix k assume "k \<in> set (sort_key fst ns)"
    then show "filter (\<lambda>x. fst k = fst x) (sort_key fst ns) = filter (\<lambda>x. fst k = fst x) ms"
      using filter_same_key [OF ds, of k] filter_same_key [OF assms(2), of k] set by simp
  qed (use assms(1) in simp_all)
qed

lemma filter_mset_eq: "mset ms = mset ns \<Longrightarrow> mset (filter P ms) = mset (filter P ns)"
  by simp

lemma distinct_map_fst_filter: "distinct (map fst ms) \<Longrightarrow> distinct (map fst (filter P ms))"
  by (induction ms) auto

subsection \<open>What can be serialised\<close>

fun serializable :: "('n \<Rightarrow> jsstr option) \<Rightarrow> 'n jsval \<Rightarrow> bool" where
  "serializable nt (JNum n) = (nt n \<noteq> None)"
| "serializable nt (JArr xs) = list_all (\<lambda>x. is_undefined x \<or> serializable nt x) xs"
| "serializable nt (JObj ms) = list_all (\<lambda>m. is_undefined (snd m) \<or> serializable nt (snd m)) ms"
| "serializable nt v = (v \<in> {JNull, JBool True, JBool False} \<or> (\<exists>s. v = JStr s))"

lemma mapE_Inr_iff: "(\<exists>ys. mapE f xs = Inr ys) \<longleftrightarrow> (\<forall>x \<in> set xs. \<exists>y. f x = Inr y)"
  by (induction xs) (auto simp: bindE_eq_Inr_iff)

lemma serialize_Inr_iff: "(\<exists>s. serialize nt v = Inr s) \<longleftrightarrow> serializable nt v"
proof (induction nt v rule: serialize.induct)
  case (5 nt xs)
  have "(\<exists>s. serialize nt (JArr xs) = Inr s)
      \<longleftrightarrow> (\<exists>ys. mapE (\<lambda>x. if is_undefined x then Inr (js ''null'') else serialize nt x) xs = Inr ys)"
    by (auto simp: bindE_eq_Inr_iff)
  also have "\<dots> \<longleftrightarrow> serializable nt (JArr xs)"
    unfolding mapE_Inr_iff using "5.IH" by (auto simp: list_all_iff)
  finally show ?case .
next
  case (6 nt ms)
  let ?g = "\<lambda>(k, v). bindE (serialize nt v) (\<lambda>t. Inr (serializeString k @ 58 # t))"
  have "(\<exists>s. serialize nt (JObj ms) = Inr s)
      \<longleftrightarrow> (\<exists>ys. mapE ?g (sort_members (filter (\<lambda>(k, v). \<not> is_undefined v) ms)) = Inr ys)"
    by (auto simp: bindE_eq_Inr_iff)
  also have "\<dots> \<longleftrightarrow> (\<forall>(k, v) \<in> set ms. is_undefined v \<or> (\<exists>s. serialize nt v = Inr s))"
    unfolding mapE_Inr_iff by (auto simp: bindE_eq_Inr_iff)
  also have "\<dots> \<longleftrightarrow> serializable nt (JObj ms)"
    using "6.IH" by (force simp: list_all_iff)
  finally show ?case .
qed (auto simp: serializeNumber_def split: option.splits)

subsection \<open>Surrogates\<close>

fun well_formed_utf16 :: "jsstr \<Rightarrow> bool" where
  "well_formed_utf16 [] = True"
| "well_formed_utf16 (c # cs) =
     (if is_high_surrogate c then
        (case cs of [] \<Rightarrow> False | n # cs' \<Rightarrow> is_low_surrogate n \<and> well_formed_utf16 cs')
      else \<not> is_low_surrogate c \<and> well_formed_utf16 cs)"

definition plain_unit :: "16 word \<Rightarrow> bool" where
  "plain_unit c \<longleftrightarrow> \<not> is_high_surrogate c \<and> \<not> is_low_surrogate c"

lemma plain_unit_small: "unat c < 256 \<Longrightarrow> plain_unit c"
  by (simp add: plain_unit_def is_high_surrogate_def is_low_surrogate_def word_le_nat_alt)

lemma well_formed_plain_append: "list_all plain_unit p \<Longrightarrow> well_formed_utf16 (p @ s) = well_formed_utf16 s"
  by (induction p) (auto simp: plain_unit_def)

lemma hex4_plain: "list_all plain_unit (hex4 w)"
proof -
  have "plain_unit (of_nat (hex_code n))" if "n < 16" for n
    using that by (intro plain_unit_small) (simp add: hex_code_def unsigned_of_nat take_bit_nat_eq_self)
  moreover have "unat w div 4096 < 16" using unat_lt_16 [of w] by auto
  ultimately show ?thesis by (simp add: hex4_def)
qed

declare escapeLoneSurrogates.simps(2) [simp del] well_formed_utf16.simps(2) [simp del]

text \<open>The three ways a code unit is treated, as conditional equations.\<close>

definition lone :: "16 word \<Rightarrow> jsstr \<Rightarrow> bool" where
  "lone c cs \<longleftrightarrow> is_high_surrogate c \<and> (\<forall>n cs'. cs = n # cs' \<longrightarrow> \<not> is_low_surrogate n)
     \<or> \<not> is_high_surrogate c \<and> is_low_surrogate c"

lemma unit_cases:
  obtains (pair) n cs' where "cs = n # cs'" "is_high_surrogate c" "is_low_surrogate n"
  | (lone) "lone c cs" | (plain) "plain_unit c"
  unfolding lone_def plain_unit_def by blast

lemma escape_pair: "is_high_surrogate c \<Longrightarrow> is_low_surrogate n \<Longrightarrow>
    escapeLoneSurrogates (c # n # cs) = c # n # escapeLoneSurrogates cs"
  by (subst escapeLoneSurrogates.simps) simp

lemma escape_lone: "lone c cs \<Longrightarrow>
    escapeLoneSurrogates (c # cs) = 92 # 117 # hex4 c @ escapeLoneSurrogates cs"
  by (subst escapeLoneSurrogates.simps) (auto simp: lone_def split: list.split)

lemma escape_plain: "plain_unit c \<Longrightarrow> escapeLoneSurrogates (c # cs) = c # escapeLoneSurrogates cs"
  by (subst escapeLoneSurrogates.simps) (simp add: plain_unit_def)

lemma well_formed_pair: "is_high_surrogate c \<Longrightarrow>
    well_formed_utf16 (c # n # cs) \<longleftrightarrow> is_low_surrogate n \<and> well_formed_utf16 cs"
  by (subst well_formed_utf16.simps) simp

lemma well_formed_lone: "lone c cs \<Longrightarrow> \<not> well_formed_utf16 (c # cs)"
  by (subst well_formed_utf16.simps) (auto simp: lone_def split: list.split)

lemma well_formed_escape: "well_formed_utf16 (92 # 117 # hex4 c @ s) = well_formed_utf16 s"
proof -
  have "plain_unit 92" "plain_unit 117" by (simp_all add: plain_unit_small)
  then show ?thesis
    using well_formed_plain_append [of "92 # 117 # hex4 c" s] hex4_plain [of c] by simp
qed

lemma escapeLoneSurrogates_well_formed: "well_formed_utf16 (escapeLoneSurrogates s)"
proof (induction s rule: length_induct)
  case (1 s)
  show ?case
  proof (cases s)
    case (Cons c cs)
    show ?thesis
    proof (cases rule: unit_cases [of cs c])
      case (pair n cs')
      then show ?thesis using 1 Cons by (simp add: escape_pair well_formed_pair)
    next
      case lone
      then show ?thesis using 1 Cons by (simp add: escape_lone well_formed_escape)
    next
      case plain
      then show ?thesis
        using 1 Cons well_formed_plain_append [of "[c]"] by (simp add: escape_plain)
    qed
  qed simp
qed

lemma escapeLoneSurrogates_id: "well_formed_utf16 s \<Longrightarrow> escapeLoneSurrogates s = s"
proof (induction s rule: length_induct)
  case (1 s)
  show ?case
  proof (cases s)
    case (Cons c cs)
    show ?thesis
    proof (cases rule: unit_cases [of cs c])
      case (pair n cs')
      then show ?thesis using 1 Cons by (simp add: escape_pair well_formed_pair)
    next
      case lone
      then show ?thesis using 1 Cons well_formed_lone by blast
    next
      case plain
      then show ?thesis
        using 1 Cons well_formed_plain_append [of "[c]" cs] by (simp add: escape_plain)
    qed
  qed simp
qed

lemma same_text_iff:
  assumes "num_text_ok nt" "canonicalize nt v = Inr s" "canonicalize nt w = Inr t"
  shows "s = t \<longleftrightarrow> norm nt v = norm nt w"
proof -
  have v: "s = ser (norm nt v)" "printable (norm nt v)"
    using serialize_norm [OF assms(1)] assms(2) by (auto simp: canonicalize_def)
  have w: "t = ser (norm nt w)" "printable (norm nt w)"
    using serialize_norm [OF assms(1)] assms(3) by (auto simp: canonicalize_def)
  show ?thesis using v w ser_inj [of "norm nt v" "norm nt w" "[]" "[]"] by auto
qed

section \<open>Properties\<close>


definition demo_num :: "nat \<Rightarrow> jsstr option" where
  "demo_num n = (if n < 10 then Some [48 + of_nat n] else None)"

lemma demo_num_ok: "num_text_ok demo_num"
proof -
  have "48 + of_nat n \<in> num_units" if "n < 10" for n :: nat
  proof -
    have "n \<in> {0, 1, 2, 3, 4, 5, 6, 7, 8, 9}" using that by auto
    then show ?thesis by (auto simp: num_units_def)
  qed
  then show ?thesis by (auto simp: num_text_ok_def demo_num_def split: if_splits)
qed


text \<open>
  The canonical text does not depend on the order in which an object lists its members, nor
  does the error when there is one.
\<close>

theorem canonicalize_member_order:
  assumes "mset ms = mset ns" "distinct (map fst ms)"
  shows "canonicalize nt (JObj ms) = canonicalize nt (JObj ns)"
  using sort_members_perm [OF filter_mset_eq [OF assms(1)] distinct_map_fst_filter [OF assms(2)]]
  by (simp add: canonicalize_def)

theorem canonicalize_member_order_witness:
  "canonicalize demo_num (JObj [(js ''b'', JNum 1), (js ''a'', JNum 2)])
   = canonicalize demo_num (JObj [(js ''a'', JNum 2), (js ''b'', JNum 1)])"
  by (rule canonicalize_member_order) (simp_all add: js_def)

text \<open>
  Canonicalisation returns exactly for the values built from null, booleans, finite numbers,
  strings, arrays and plain objects (undefined allowed as an element or member only), and throws
  a \<open>TypeError\<close> for everything else.
\<close>

theorem canonicalize_defined_iff:
  "(\<exists>s. canonicalize nt v = Inr s) \<longleftrightarrow> serializable nt v"
  by (simp add: canonicalize_def serialize_Inr_iff)

end
