(* ===== verification/Rfc3986.thy ===== *)
theory Rfc3986
  imports Jcs
begin

text \<open>
  Percent-encoding for catalog-item macro substitution (\<open>src/lib/substitution/rfc3986.ts\<close>): the
  unreserved-only encoder, the verifier's comparison that ignores the case of the hex digits of a
  triplet, the check that a text is unreserved characters and triplets only, and the offset of the
  first divergence.  Texts are UTF-16 code units (\<open>jsstr\<close>), the encoder's bytes 8-bit words.
  The loops that step a character index are recursions on the rest of the text.
\<close>

section \<open>UTF-8 as \<open>TextEncoder\<close> produces it\<close>

text \<open>Scalar values of a text; a lone surrogate is read as U+FFFD.\<close>

fun utf16_scalars :: "jsstr \<Rightarrow> nat list" where
  "utf16_scalars [] = []"
| "utf16_scalars (c # cs) =
     (if is_high_surrogate c then
        (case cs of
           n # cs' \<Rightarrow>
             if is_low_surrogate n
             then (0x10000 + (unat c - 0xd800) * 1024 + (unat n - 0xdc00)) # utf16_scalars cs'
             else 0xfffd # utf16_scalars cs
         | [] \<Rightarrow> 0xfffd # utf16_scalars cs)
      else if is_low_surrogate c then 0xfffd # utf16_scalars cs
      else unat c # utf16_scalars cs)"

definition utf8_bytes :: "nat \<Rightarrow> 8 word list" where
  "utf8_bytes n =
     (if n < 0x80 then [of_nat n]
      else if n < 0x800 then [of_nat (0xc0 + n div 64), of_nat (0x80 + n mod 64)]
      else if n < 0x10000 then
        [of_nat (0xe0 + n div 4096), of_nat (0x80 + n div 64 mod 64), of_nat (0x80 + n mod 64)]
      else
        [of_nat (0xf0 + n div 262144), of_nat (0x80 + n div 4096 mod 64),
         of_nat (0x80 + n div 64 mod 64), of_nat (0x80 + n mod 64)])"

definition text_encode :: "jsstr \<Rightarrow> 8 word list" where
  "text_encode s = concat (map utf8_bytes (utf16_scalars s))"

section \<open>The source's functions\<close>

definition isUnreservedByte :: "nat \<Rightarrow> bool" where
  "isUnreservedByte b \<longleftrightarrow>
     (b \<ge> 0x41 \<and> b \<le> 0x5a) \<or> (b \<ge> 0x61 \<and> b \<le> 0x7a) \<or> (b \<ge> 0x30 \<and> b \<le> 0x39)
     \<or> b = 0x2d \<or> b = 0x2e \<or> b = 0x5f \<or> b = 0x7e"

definition PCT :: "16 word" where "PCT = 0x25"

definition UPPER_HEX :: jsstr where "UPPER_HEX = js ''0123456789ABCDEF''"

definition encode_byte :: "8 word \<Rightarrow> jsstr" where
  "encode_byte b =
     (if isUnreservedByte (unat b) then [of_nat (unat b)]
      else [PCT, UPPER_HEX ! (unat b div 16), UPPER_HEX ! (unat b mod 16)])"

definition encodeUnreserved :: "jsstr \<Rightarrow> jsstr" where
  "encodeUnreserved raw = concat (map encode_byte (text_encode raw))"

definition hex_digit :: "16 word \<Rightarrow> bool" where
  "hex_digit w \<longleftrightarrow>
     (0x30 \<le> unat w \<and> unat w \<le> 0x39) \<or> (0x41 \<le> unat w \<and> unat w \<le> 0x46)
     \<or> (0x61 \<le> unat w \<and> unat w \<le> 0x66)"

definition isHex :: "jsstr \<Rightarrow> bool" where
  "isHex s \<longleftrightarrow> length s = 2 \<and> list_all hex_digit s"

text \<open>\<open>toUpperCase\<close> on hex digits.\<close>

definition upper_unit :: "16 word \<Rightarrow> 16 word" where
  "upper_unit w = (if 0x61 \<le> unat w \<and> unat w \<le> 0x7a then w - 0x20 else w)"

function equal_loop :: "jsstr \<Rightarrow> jsstr \<Rightarrow> bool" where
  "equal_loop (p # ps) (e # es) =
     (if p = PCT \<and> e = PCT \<and> 2 \<le> length ps then
        (let oh = take 2 ps; eh = take 2 es in
         if \<not> isHex oh \<or> \<not> isHex eh then False
         else if map upper_unit oh \<noteq> map upper_unit eh then False
         else equal_loop (drop 2 ps) (drop 2 es))
      else if p \<noteq> e then False
      else equal_loop ps es)"
| "equal_loop [] es = True"
| "equal_loop (p # ps) [] = True"
  by pat_completeness auto
termination by (relation "measure (\<lambda>(p, _). length p)") auto

definition equalUnderHexCasePolicy :: "jsstr \<Rightarrow> jsstr \<Rightarrow> bool" where
  "equalUnderHexCasePolicy observed expected =
     (if length observed \<noteq> length expected then False else equal_loop observed expected)"

function isUnreservedOnly :: "jsstr \<Rightarrow> bool" where
  "isUnreservedOnly (c # cs) =
     (if unat c > 0x7f then False
      else if isUnreservedByte (unat c) then isUnreservedOnly cs
      else if c = PCT \<and> 2 \<le> length cs \<and> isHex (take 2 cs) then isUnreservedOnly (drop 2 cs)
      else False)"
| "isUnreservedOnly [] = True"
  by pat_completeness auto
termination by (relation "measure length") auto

function divergence_loop :: "nat \<Rightarrow> jsstr \<Rightarrow> jsstr \<Rightarrow> nat option" where
  "divergence_loop i (p # ps) (e # es) =
     (if p = PCT \<and> e = PCT \<and> 2 \<le> length ps \<and> 2 \<le> length es then
        (let oh = take 2 ps; eh = take 2 es in
         if \<not> isHex oh \<or> \<not> isHex eh \<or> map upper_unit oh \<noteq> map upper_unit eh then Some i
         else divergence_loop (i + 3) (drop 2 ps) (drop 2 es))
      else if p \<noteq> e then Some i
      else divergence_loop (i + 1) ps es)"
| "divergence_loop i [] es = None"
| "divergence_loop i (p # ps) [] = None"
  by pat_completeness auto
termination by (relation "measure (\<lambda>(_, p, _). length p)") auto

definition divergenceOffset :: "jsstr \<Rightarrow> jsstr \<Rightarrow> int" where
  "divergenceOffset observed expected =
     (case divergence_loop 0 observed expected of
        Some i \<Rightarrow> int i
      | None \<Rightarrow> if length observed = length expected then -1
               else int (min (length observed) (length expected)))"

declare equal_loop.simps(1) [simp del] isUnreservedOnly.simps(1) [simp del]
  divergence_loop.simps(1) [simp del]

section \<open>A decoder and a normal form to compare with\<close>

text \<open>Each \<open>%\<close> followed by two units must be followed by two hex digits.\<close>

function well_escaped :: "jsstr \<Rightarrow> bool" where
  "well_escaped (c # cs) =
     (if c = PCT \<and> 2 \<le> length cs then isHex (take 2 cs) \<and> well_escaped (drop 2 cs)
      else well_escaped cs)"
| "well_escaped [] = True"
  by pat_completeness auto
termination by (relation "measure length") auto

text \<open>The hex digits of the triplets in upper case, everything else as it is.\<close>

function upper_triplets :: "jsstr \<Rightarrow> jsstr" where
  "upper_triplets (c # cs) =
     (if c = PCT \<and> 2 \<le> length cs
      then PCT # map upper_unit (take 2 cs) @ upper_triplets (drop 2 cs)
      else c # upper_triplets cs)"
| "upper_triplets [] = []"
  by pat_completeness auto
termination by (relation "measure length") auto

definition hex_digit_value :: "16 word \<Rightarrow> nat" where
  "hex_digit_value w = (if unat w \<le> 0x39 then unat w - 0x30
     else if unat w \<le> 0x46 then unat w - 55 else unat w - 87)"

function percent_decode :: "jsstr \<Rightarrow> 8 word list" where
  "percent_decode (c # cs) =
     (if c = PCT \<and> 2 \<le> length cs
      then of_nat (16 * hex_digit_value (cs ! 0) + hex_digit_value (cs ! 1)) # percent_decode (drop 2 cs)
      else of_nat (unat c) # percent_decode cs)"
| "percent_decode [] = []"
  by pat_completeness auto
termination by (relation "measure length") auto

declare well_escaped.simps(1) [simp del] upper_triplets.simps(1) [simp del]
  percent_decode.simps(1) [simp del]

section \<open>The encoder\<close>

lemma UPPER_HEX_nth:
  assumes "n < 16"
  shows "hex_digit (UPPER_HEX ! n)" "hex_digit_value (UPPER_HEX ! n) = n" "upper_unit (UPPER_HEX ! n) = UPPER_HEX ! n"
proof -
  have "n \<in> set [0..<16]" using assms by simp
  moreover have "\<forall>n \<in> set [0..<16]. hex_digit (UPPER_HEX ! n) \<and> hex_digit_value (UPPER_HEX ! n) = n
      \<and> upper_unit (UPPER_HEX ! n) = UPPER_HEX ! n" by code_simp
  ultimately show "hex_digit (UPPER_HEX ! n)" "hex_digit_value (UPPER_HEX ! n) = n"
    "upper_unit (UPPER_HEX ! n) = UPPER_HEX ! n" by blast+
qed

lemma byte_digits: "unat (b :: 8 word) div 16 < 16" "unat b mod 16 < 16"
proof -
  have "unat b < 256" using unsigned_less [of b] by simp
  then show "unat b div 16 < 16" "unat b mod 16 < 16" by auto
qed

lemma byte_unit: "unat (of_nat (unat (b :: 8 word)) :: 16 word) = unat b"
proof -
  have "unat b < 2 ^ LENGTH(8)" by (rule unsigned_less)
  then have "unat b < 65536" by simp
  then show ?thesis by (simp only: unsigned_of_nat) (simp add: take_bit_nat_eq_self)
qed

lemma not_PCT: "isUnreservedByte n \<Longrightarrow> n < 128 \<and> n \<noteq> 37"
  by (auto simp: isUnreservedByte_def)

lemma byte_not_PCT: "isUnreservedByte (unat (b :: 8 word)) \<Longrightarrow> of_nat (unat b) \<noteq> PCT"
  using byte_unit [of b] not_PCT [of "unat b"] by (auto simp: PCT_def simp del: of_nat_unat)

lemma isUnreservedOnly_encode_byte [simp]: "isUnreservedOnly (encode_byte b @ s) = isUnreservedOnly s"
proof (cases "isUnreservedByte (unat b)")
  case True
  then show ?thesis
    using not_PCT [OF True] byte_unit [of b] by (simp add: encode_byte_def isUnreservedOnly.simps)
next
  case False
  have "\<not> isUnreservedByte (unat PCT)" "\<not> unat PCT > 0x7f" by code_simp+
  then show ?thesis
    using False UPPER_HEX_nth(1) byte_digits
    by (simp add: encode_byte_def isUnreservedOnly.simps(1) [of PCT] isHex_def numeral_2_eq_2)
qed

lemma percent_decode_encode_byte [simp]: "percent_decode (encode_byte b @ s) = b # percent_decode s"
proof (cases "isUnreservedByte (unat b)")
  case True
  then show ?thesis
    using byte_not_PCT [OF True] byte_unit [of b] by (simp add: encode_byte_def percent_decode.simps)
next
  case False
  then show ?thesis
    using UPPER_HEX_nth(2) byte_digits [of b]
    by (simp add: encode_byte_def percent_decode.simps(1) [of PCT] numeral_2_eq_2)
qed

lemma decode_encode_bytes: "percent_decode (concat (map encode_byte bs)) = bs"
  by (induction bs) simp_all

lemma encoded_unreserved_only: "isUnreservedOnly (concat (map encode_byte bs))"
  by (induction bs) simp_all

section \<open>UTF-8 determines the text\<close>

definition utf8_tail :: "8 word \<Rightarrow> nat" where "utf8_tail b = unat b - 0x80"

text \<open>Reads the scalar at the head of a byte sequence.\<close>

fun utf8_read :: "8 word list \<Rightarrow> nat \<times> 8 word list" where
  "utf8_read (b # bs) =
     (if unat b < 0x80 then (unat b, bs)
      else if unat b < 0xe0 then ((unat b - 0xc0) * 64 + utf8_tail (bs ! 0), drop 1 bs)
      else if unat b < 0xf0 then
        ((unat b - 0xe0) * 4096 + utf8_tail (bs ! 0) * 64 + utf8_tail (bs ! 1), drop 2 bs)
      else ((unat b - 0xf0) * 262144 + utf8_tail (bs ! 0) * 4096 + utf8_tail (bs ! 1) * 64
              + utf8_tail (bs ! 2), drop 3 bs))"
| "utf8_read [] = (0, [])"

lemma unat_byte [simp]: "n < 256 \<Longrightarrow> unat (of_nat n :: 8 word) = n"
  by (simp add: unsigned_of_nat take_bit_nat_eq_self)

lemma utf8_tail_byte: "n < 64 \<Longrightarrow> utf8_tail (of_nat (0x80 + n)) = n"
  unfolding utf8_tail_def by (subst unat_byte) simp_all

lemma utf8_split:
  fixes n :: nat
  shows "n div 64 * 64 + n mod 64 = n"
    and "n div 4096 * 4096 + n div 64 mod 64 * 64 + n mod 64 = n"
    and "n div 262144 * 262144 + n div 4096 mod 64 * 4096 + n div 64 mod 64 * 64 + n mod 64 = n"
proof -
  have 1: "m div 64 * 64 + m mod 64 = m" for m :: nat by simp
  have d: "n div 4096 = n div 64 div 64" "n div 262144 = n div 64 div 64 div 64"
    by (simp_all add: div_mult2_eq [symmetric])
  show "n div 64 * 64 + n mod 64 = n" by (rule 1)
  show "n div 4096 * 4096 + n div 64 mod 64 * 64 + n mod 64 = n"
    using 1 [of n] 1 [of "n div 64"] unfolding d by linarith
  show "n div 262144 * 262144 + n div 4096 mod 64 * 4096 + n div 64 mod 64 * 64 + n mod 64 = n"
    using 1 [of n] 1 [of "n div 64"] 1 [of "n div 64 div 64"] unfolding d by linarith
qed

lemma base_1024: "x * 1024 + y = x' * 1024 + y' \<Longrightarrow> y < 1024 \<Longrightarrow> y' < 1024 \<Longrightarrow> x = x' \<and> y = (y' :: nat)"
proof -
  assume a: "x * 1024 + y = x' * 1024 + y'" "y < 1024" "y' < 1024"
  have "x = (x * 1024 + y) div 1024" "y = (x * 1024 + y) mod 1024" using a(2) by simp_all
  moreover have "x' = (x' * 1024 + y') div 1024" "y' = (x' * 1024 + y') mod 1024" using a(3) by simp_all
  ultimately show ?thesis using a(1) by argo
qed

lemma unit_eqI: "unat c = unat d \<Longrightarrow> (c :: 16 word) = d"
  by (rule unsigned_word_eqI)

lemma utf8_read_bytes:
  assumes "n < 0x110000"
  shows "utf8_read (utf8_bytes n @ bs) = (n, bs)"
proof -
  consider "n < 0x80" | "0x80 \<le> n" "n < 0x800" | "0x800 \<le> n" "n < 0x10000" | "0x10000 \<le> n" by linarith
  then show ?thesis
  proof cases
    case 1
    then show ?thesis by (simp add: utf8_bytes_def)
  next
    case 2
    then have lt: "n div 64 < 32" by (simp add: div_less_iff_less_mult)
    then have "unat (of_nat (0xc0 + n div 64) :: 8 word) = 0xc0 + n div 64" by (intro unat_byte) simp
    moreover have "utf8_tail (of_nat (0x80 + n mod 64)) = n mod 64" by (rule utf8_tail_byte) simp
    moreover note lt
    ultimately show ?thesis
      using 2 utf8_split(1) [of n] by (simp add: utf8_bytes_def lt del: of_nat_add)
  next
    case 3
    then have lt: "n div 4096 < 16" by (simp add: div_less_iff_less_mult)
    then have "unat (of_nat (0xe0 + n div 4096) :: 8 word) = 0xe0 + n div 4096" by (intro unat_byte) simp
    moreover have "utf8_tail (of_nat (0x80 + n mod 64)) = n mod 64"
      "utf8_tail (of_nat (0x80 + n div 64 mod 64)) = n div 64 mod 64" by (rule utf8_tail_byte, simp)+
    moreover note lt
    ultimately show ?thesis
      using 3 utf8_split(2) [of n] by (simp add: utf8_bytes_def del: of_nat_add)
  next
    case 4
    have "n div 262144 < 5" using assms by (simp add: div_less_iff_less_mult)
    then have "unat (of_nat (0xf0 + n div 262144) :: 8 word) = 0xf0 + n div 262144" by (intro unat_byte) simp
    moreover have "utf8_tail (of_nat (0x80 + n mod 64)) = n mod 64"
      "utf8_tail (of_nat (0x80 + n div 64 mod 64)) = n div 64 mod 64"
      "utf8_tail (of_nat (0x80 + n div 4096 mod 64)) = n div 4096 mod 64" by (rule utf8_tail_byte, simp)+
    ultimately show ?thesis
      using 4 utf8_split(3) [of n] by (simp add: utf8_bytes_def numeral_2_eq_2 numeral_3_eq_3 del: of_nat_add)
  qed
qed

lemma utf8_bytes_ne [simp]: "utf8_bytes n \<noteq> []"
  by (simp add: utf8_bytes_def)

lemma utf8_concat_inj:
  "\<forall>n \<in> set ns. n < 0x110000 \<Longrightarrow> \<forall>n \<in> set ms. n < 0x110000 \<Longrightarrow>
     concat (map utf8_bytes ns) = concat (map utf8_bytes ms) \<Longrightarrow> ns = ms"
proof (induction ns arbitrary: ms)
  case Nil
  then show ?case by (cases ms) auto
next
  case (Cons n ns)
  obtain m ms' where ms: "ms = m # ms'" using Cons.prems(3) by (cases ms) simp_all
  have "utf8_read (utf8_bytes n @ concat (map utf8_bytes ns))
      = utf8_read (utf8_bytes m @ concat (map utf8_bytes ms'))" using Cons.prems(3) ms by simp
  then have "n = m" "concat (map utf8_bytes ns) = concat (map utf8_bytes ms')"
    using Cons.prems(1,2) ms by (simp_all add: utf8_read_bytes)
  then show ?case using Cons.IH [of ms'] Cons.prems(1,2) ms by simp
qed

declare utf16_scalars.simps(2) [simp del]

lemma scalars_pair: "is_high_surrogate c \<Longrightarrow> is_low_surrogate n \<Longrightarrow> utf16_scalars (c # n # cs) =
    (0x10000 + (unat c - 0xd800) * 1024 + (unat n - 0xdc00)) # utf16_scalars cs"
  by (subst utf16_scalars.simps) simp

lemma scalars_plain: "plain_unit c \<Longrightarrow> utf16_scalars (c # cs) = unat c # utf16_scalars cs"
  by (subst utf16_scalars.simps) (simp add: plain_unit_def)

lemma scalars_lone: "lone c cs \<Longrightarrow> utf16_scalars (c # cs) = 0xfffd # utf16_scalars cs"
  by (subst utf16_scalars.simps) (auto simp: lone_def split: list.split)

lemma surrogate_nat:
  "is_high_surrogate c \<longleftrightarrow> 0xd800 \<le> unat c \<and> unat c \<le> 0xdbff"
  "is_low_surrogate c \<longleftrightarrow> 0xdc00 \<le> unat c \<and> unat c \<le> 0xdfff"
  by (simp_all add: is_high_surrogate_def is_low_surrogate_def word_le_nat_alt)

lemma unit_less: "unat (c :: 16 word) < 0x10000"
proof -
  have "unat c < 2 ^ LENGTH(16)" by (rule unsigned_less)
  then show ?thesis by simp
qed

lemma scalars_bound: "\<forall>n \<in> set (utf16_scalars s). n < 0x110000"
proof (induction s rule: length_induct)
  case (1 s)
  show ?case
  proof (cases s)
    case (Cons c cs)
    have IH: "\<forall>n \<in> set (utf16_scalars t). n < 0x110000" if "length t < length s" for t
      using 1 that by blast
    show ?thesis
    proof (cases rule: unit_cases [of cs c])
      case (pair n cs')
      then show ?thesis using Cons IH [of cs'] by (auto simp: scalars_pair surrogate_nat)
    next
      case lone
      then show ?thesis using Cons IH [of cs] by (auto simp: scalars_lone)
    next
      case plain
      then show ?thesis using Cons IH [of cs] unit_less [of c] by (auto simp: scalars_plain)
    qed
  qed simp
qed

lemma well_formed_plain: "plain_unit c \<Longrightarrow> well_formed_utf16 (c # cs) = well_formed_utf16 cs"
  using well_formed_plain_append [of "[c]" cs] by simp

lemma pair_inj:
  fixes c n d m :: "16 word"
  assumes "is_high_surrogate c" "is_low_surrogate n" "is_high_surrogate d" "is_low_surrogate m"
    and "0x10000 + (unat c - 0xd800) * 1024 + (unat n - 0xdc00) = 0x10000 + (unat d - 0xd800) * 1024 + (unat m - 0xdc00)"
  shows "c = d \<and> n = m"
proof -
  have "unat n - 0xdc00 < 1024" "unat m - 0xdc00 < 1024" using assms(2,4) by (auto simp: surrogate_nat)
  then have "unat c - 0xd800 = unat d - 0xd800" "unat n - 0xdc00 = unat m - 0xdc00"
    using assms(5) base_1024 [of "unat c - 0xd800" "unat n - 0xdc00"] by simp_all
  then show ?thesis using assms(1-4) by (auto simp: surrogate_nat intro!: unit_eqI)
qed

lemma scalars_inj:
  "well_formed_utf16 s \<Longrightarrow> well_formed_utf16 t \<Longrightarrow> utf16_scalars s = utf16_scalars t \<Longrightarrow> s = t"
proof (induction s arbitrary: t rule: length_induct)
  case (1 s)
  have ne: "utf16_scalars (c # cs) \<noteq> []" for c cs
    by (cases rule: unit_cases [of cs c]) (auto simp: scalars_pair scalars_lone scalars_plain)
  show ?case
  proof (cases s)
    case Nil
    then show ?thesis using 1(4) ne by (cases t) (auto simp: eq_commute [of "[]"])
  next
    case (Cons c cs)
    obtain d ds where t: "t = d # ds" using 1(4) ne Cons by (cases t) auto
    have IH: "s' = t'" if "length s' < length s" "well_formed_utf16 s'" "well_formed_utf16 t'"
      "utf16_scalars s' = utf16_scalars t'" for s' t' using 1(1) that by blast
    have nl: "\<not> lone c cs" "\<not> lone d ds" using 1(2,3) Cons t well_formed_lone by blast+
    show ?thesis
    proof (cases rule: unit_cases [of cs c])
      case (pair n cs')
      show ?thesis
      proof (cases rule: unit_cases [of ds d])
        case p: (pair m ds')
        have "c = d \<and> n = m" using 1(4) pair p Cons t by (intro pair_inj) (simp_all add: scalars_pair)
        moreover have "cs' = ds'"
          using 1(2-4) pair p Cons t by (intro IH) (simp_all add: scalars_pair well_formed_pair)
        ultimately show ?thesis using pair p Cons t by simp
      next
        case plain
        then show ?thesis using 1(4) pair Cons t unit_less [of d] by (simp add: scalars_pair scalars_plain)
      qed (use nl in simp)
    next
      case plain
      show ?thesis
      proof (cases rule: unit_cases [of ds d])
        case p: (pair m ds')
        then show ?thesis using 1(4) plain Cons t unit_less [of c] by (simp add: scalars_pair scalars_plain)
      next
        case p: plain
        have "unat c = unat d" using 1(4) plain p Cons t by (simp add: scalars_plain)
        moreover have "cs = ds"
          using 1(2-4) plain p Cons t by (intro IH) (simp_all add: scalars_plain well_formed_plain)
        ultimately show ?thesis using Cons t unit_eqI [of c d] by simp
      qed (use nl in simp)
    qed (use nl in simp)
  qed
qed

section \<open>The comparison\<close>

lemma upper_unit_hex: "hex_digit w \<Longrightarrow> hex_digit_value (upper_unit w) = hex_digit_value w \<and> upper_unit w \<noteq> PCT \<and> hex_digit (upper_unit w)"
proof -
  assume h: "hex_digit w"
  show ?thesis
  proof (cases "0x61 \<le> unat w")
    case True
    then have "unat (w - 0x20) = unat w - 0x20" by (subst unat_sub) (simp_all add: word_le_nat_alt)
    then show ?thesis using h True by (auto simp: hex_digit_def upper_unit_def hex_digit_value_def PCT_def)
  next
    case False
    then show ?thesis using h by (auto simp: hex_digit_def upper_unit_def PCT_def)
  qed
qed

lemma upper_unit_hex_iff: "upper_unit w = upper_unit v \<Longrightarrow> hex_digit v \<Longrightarrow> hex_digit w"
proof -
  assume e: "upper_unit w = upper_unit v" and v: "hex_digit v"
  have u: "hex_digit (upper_unit w)" using upper_unit_hex [OF v] e by simp
  show "hex_digit w"
  proof (cases "0x61 \<le> unat w \<and> unat w \<le> 0x7a")
    case True
    then have "unat (w - 0x20) = unat w - 0x20" by (subst unat_sub) (simp_all add: word_le_nat_alt)
    then show ?thesis using u True by (auto simp: hex_digit_def upper_unit_def)
  next
    case False
    then have "upper_unit w = w" by (simp add: upper_unit_def)
    then show ?thesis using u by simp
  qed
qed

lemma upper_pair:
  assumes "length xs = 2" "length ys = 2" "map upper_unit xs = map upper_unit ys" "isHex xs"
  shows "isHex ys"
proof -
  obtain a b c d where "xs = [a, b]" "ys = [c, d]"
    using assms(1,2) by (auto simp: numeral_2_eq_2 length_Suc_conv)
  then show ?thesis
    using assms upper_unit_hex_iff [of c a] upper_unit_hex_iff [of d b] by (auto simp: isHex_def)
qed

lemma equal_loop_iff:
  "length p = length e \<Longrightarrow> equal_loop p e \<longleftrightarrow> upper_triplets p = upper_triplets e \<and> well_escaped p"
proof (induction p e rule: equal_loop.induct)
  case (1 p ps e es)
  have len: "length ps = length es" using 1(3) by simp
  show ?case
  proof (cases "p = PCT \<and> e = PCT \<and> 2 \<le> length ps")
    case True
    have IH: "equal_loop (drop 2 ps) (drop 2 es) \<longleftrightarrow>
        upper_triplets (drop 2 ps) = upper_triplets (drop 2 es) \<and> well_escaped (drop 2 ps)"
      if "isHex (take 2 ps)" "isHex (take 2 es)" "map upper_unit (take 2 ps) = map upper_unit (take 2 es)"
      using 1(1) that True len by simp
    have l: "length (take 2 ps) = 2" "length (take 2 es) = 2" using True len by simp_all
    have u: "upper_triplets (p # ps) = PCT # map upper_unit (take 2 ps) @ upper_triplets (drop 2 ps)"
      "upper_triplets (e # es) = PCT # map upper_unit (take 2 es) @ upper_triplets (drop 2 es)"
      "well_escaped (p # ps) \<longleftrightarrow> isHex (take 2 ps) \<and> well_escaped (drop 2 ps)"
      using True len by (simp_all add: upper_triplets.simps(1) well_escaped.simps(1))
    show ?thesis
      unfolding u equal_loop.simps(1) [of p ps]
      using True IH l upper_pair [of "take 2 ps" "take 2 es"] by (auto simp: Let_def append_eq_append_conv)
  next
    case False
    have split: "upper_triplets (p # ps) = upper_triplets (e # es) \<Longrightarrow> p = e"
      by (simp add: upper_triplets.simps(1) split: if_splits)
    have "p = e \<Longrightarrow> upper_triplets (p # ps) = p # upper_triplets ps
        \<and> upper_triplets (e # es) = e # upper_triplets es \<and> well_escaped (p # ps) = well_escaped ps"
      using False len by (auto simp: upper_triplets.simps(1) well_escaped.simps(1))
    then show ?thesis
      using False split 1(2) len by (auto simp: equal_loop.simps(1))
  qed
qed simp_all

lemma divergence_loop_iff:
  "length p = length e \<Longrightarrow> divergence_loop i p e = None \<longleftrightarrow> equal_loop p e"
proof (induction i p e rule: divergence_loop.induct)
  case (1 i p ps e es)
  then show ?case by (auto simp: divergence_loop.simps(1) equal_loop.simps(1) Let_def)
qed simp_all

lemma percent_decode_upper: "well_escaped s \<Longrightarrow> percent_decode (upper_triplets s) = percent_decode s"
proof (induction s rule: upper_triplets.induct)
  case (1 c cs)
  show ?case
  proof (cases "c = PCT \<and> 2 \<le> length cs")
    case True
    then obtain a b rest where cs: "cs = a # b # rest"
      by (cases cs; cases "tl cs") auto
    have "hex_digit a" "hex_digit b" "well_escaped rest"
      using 1(3) True cs by (simp_all add: well_escaped.simps(1) isHex_def)
    then show ?thesis
      using 1(1) True cs upper_unit_hex
      by (simp add: upper_triplets.simps(1) percent_decode.simps(1) [of PCT])
  next
    case False
    have we: "well_escaped cs" using 1(3) False by (simp add: well_escaped.simps(1) split: if_splits)
    have len: "length (upper_triplets t) = length t" for t
      by (induction t rule: upper_triplets.induct) (auto simp: upper_triplets.simps(1))
    show ?thesis
      using 1(2) [OF False we] False len [of cs]
      by (auto simp: upper_triplets.simps(1) [of c] percent_decode.simps(1) [of c])
  qed
qed simp

lemma unreserved_only_well_escaped: "isUnreservedOnly s \<Longrightarrow> well_escaped s"
proof (induction s rule: isUnreservedOnly.induct)
  case (1 c cs)
  have "\<not> isUnreservedByte (unat PCT)" by code_simp
  then show ?case
    using 1 by (auto simp: isUnreservedOnly.simps(1) [of c] well_escaped.simps(1) [of c] split: if_splits)
qed simp

section \<open>Properties\<close>

text \<open>
  The encoder is safe and loses nothing: for every raw value, macro braces, CRLF and delimiters
  included, its output consists of unreserved characters and triplets only and decodes to exactly
  the UTF-8 bytes of the value.
\<close>

theorem encodeUnreserved_sound:
  "isUnreservedOnly (encodeUnreserved raw) \<and> percent_decode (encodeUnreserved raw) = text_encode raw"
  by (simp add: encodeUnreserved_def encoded_unreserved_only decode_encode_bytes)

text \<open>
  Two well-formed values have the same encoding only if they are the same value.
\<close>

theorem encodeUnreserved_injective:
  assumes "well_formed_utf16 a" "well_formed_utf16 b" "encodeUnreserved a = encodeUnreserved b"
  shows "a = b"
proof -
  have "text_encode a = text_encode b"
    using assms(3) by (metis decode_encode_bytes encodeUnreserved_def)
  then show ?thesis
    using utf8_concat_inj [OF scalars_bound scalars_bound] scalars_inj assms(1,2)
    by (auto simp: text_encode_def)
qed

theorem encodeUnreserved_injective_witness:
  "{b. well_formed_utf16 b \<and> encodeUnreserved b = encodeUnreserved [0x41, 0xd83d, 0xde00]}
     = {[0x41, 0xd83d, 0xde00]}"
proof -
  have "well_formed_utf16 [0x41, 0xd83d, 0xde00]" by code_simp
  then show ?thesis using encodeUnreserved_injective by blast
qed

text \<open>
  The comparison is equality up to the case of the hex digits in triplets, on texts whose
  triplets are well formed: it holds exactly when both texts have the same form with upper-case
  triplets and every percent sign of them with room for two digits is followed by two hex digits.
  A text with a malformed triplet is not even equal to itself.
\<close>

theorem equalUnderHexCasePolicy_iff:
  "equalUnderHexCasePolicy p e \<longleftrightarrow> upper_triplets p = upper_triplets e \<and> well_escaped p"
proof -
  have len: "length (upper_triplets t) = length t" for t
    by (induction t rule: upper_triplets.induct) (auto simp: upper_triplets.simps(1))
  show ?thesis
    using equal_loop_iff [of p e] len [of p] len [of e] by (auto simp: equalUnderHexCasePolicy_def)
qed

text \<open>
  No offset is reported for two texts exactly when the comparison accepts them.
\<close>

theorem divergenceOffset_iff:
  "divergenceOffset p e = -1 \<longleftrightarrow> equalUnderHexCasePolicy p e"
  using divergence_loop_iff [of p e 0]
  by (auto simp: divergenceOffset_def equalUnderHexCasePolicy_def split: option.splits)

lemma accepted_text_decodes:
  assumes "length p = length (encodeUnreserved raw)" "equal_loop p (encodeUnreserved raw)"
  shows "percent_decode p = text_encode raw"
proof -
  let ?e = "encodeUnreserved raw"
  have u: "upper_triplets p = upper_triplets ?e" "well_escaped p"
    using equal_loop_iff [OF assms(1)] assms(2) by simp_all
  have "isUnreservedOnly ?e" "percent_decode ?e = text_encode raw"
    by (simp_all add: encodeUnreserved_def encoded_unreserved_only decode_encode_bytes)
  then show ?thesis
    using u percent_decode_upper [of p] percent_decode_upper [of ?e] unreserved_only_well_escaped [of ?e] by simp
qed

text \<open>
  What the verifier accepts for a value carries that value: a text found equal to the encoding
  of a raw value under the policy decodes to the UTF-8 bytes of the raw value.
\<close>

theorem accepted_substitution_decodes:
  assumes "equalUnderHexCasePolicy p (encodeUnreserved raw)"
  shows "percent_decode p = text_encode raw"
  using accepted_text_decodes assms by (auto simp: equalUnderHexCasePolicy_def split: if_splits)

theorem accepted_substitution_decodes_witness:
  "percent_decode (js ''a%c3%a9%7D'') = text_encode (js ''a'' @ [0xe9] @ js ''}'')"
proof -
  have "equalUnderHexCasePolicy (js ''a%c3%a9%7D'') (encodeUnreserved (js ''a'' @ [0xe9] @ js ''}''))"
    by code_simp
  then show ?thesis by (rule accepted_substitution_decodes)
qed

text \<open>The comparison is not reflexive, although the source describes it as byte equality.\<close>

theorem comparison_not_reflexive: "\<not> equalUnderHexCasePolicy (js ''%zz'') (js ''%zz'')"
  by code_simp

end
