(* ===== verification/ReplayStore.thy ===== *)
theory ReplayStore
  imports Prelude
begin

text \<open>
  The in-process replay cache of verified signatures (\<open>src/lib/signing/replay.ts\<close>): nonces per
  \<open>(keyid, scope)\<close>, grouped in buckets by expiry so that whole buckets are pruned at once.  The
  JavaScript sets and maps are lists in insertion order; times are integral seconds, and minus
  infinity as the last pruned bucket is \<open>None\<close>.
\<close>

section \<open>State\<close>

datatype replay_insert_result = InsertOk | Replayed | RateAbuse

record replay_bucket =
  bucket_nonces :: "jsstr list"
  latestExpiry :: int

record key_state =
  nonces :: "jsstr list"
  buckets :: "(int \<times> replay_bucket) list"
  lastPrunedBucket :: "int option"

record replay_cfg =
  capPerKeyid :: nat
  bucketSize :: int

record replay_state =
  states :: "jsstr \<rightharpoonup> key_state"
  forcedCapHit :: "jsstr list"

definition compositeKey :: "jsstr \<Rightarrow> jsstr \<Rightarrow> jsstr" where
  "compositeKey keyid scope = keyid @ 0 # scope"

definition empty_replay :: replay_state where
  "empty_replay = \<lparr>states = Map.empty, forcedCapHit = []\<rparr>"

definition new_replay_cfg :: "nat option \<Rightarrow> int option \<Rightarrow> replay_cfg" where
  "new_replay_cfg maxEntries sz =
     \<lparr>capPerKeyid = (case maxEntries of None \<Rightarrow> 100000 | Some n \<Rightarrow> n),
      bucketSize = (case sz of None \<Rightarrow> 60 | Some n \<Rightarrow> n)\<rparr>"

section \<open>Operations\<close>

definition set_add :: "'a \<Rightarrow> 'a list \<Rightarrow> 'a list" where
  "set_add x xs = (if x \<in> set xs then xs else xs @ [x])"

definition setCapHitForTesting :: "jsstr \<Rightarrow> jsstr option \<Rightarrow> replay_state \<Rightarrow> replay_state" where
  "setCapHitForTesting keyid scope st =
     st\<lparr>forcedCapHit := set_add (case scope of None \<Rightarrow> keyid | Some s \<Rightarrow> compositeKey keyid s) (forcedCapHit st)\<rparr>"

definition new_key_state :: key_state where
  "new_key_state = \<lparr>nonces = [], buckets = [], lastPrunedBucket = None\<rparr>"

definition getOrCreate :: "jsstr \<Rightarrow> replay_state \<Rightarrow> key_state" where
  "getOrCreate composite st =
     (case states st composite of None \<Rightarrow> new_key_state | Some s \<Rightarrow> s)"

fun add_to_bucket :: "int \<Rightarrow> int \<Rightarrow> jsstr \<Rightarrow> (int \<times> replay_bucket) list \<Rightarrow> (int \<times> replay_bucket) list" where
  "add_to_bucket bk expires nonce [] =
     [(bk, \<lparr>bucket_nonces = [nonce], latestExpiry = expires\<rparr>)]"
| "add_to_bucket bk expires nonce ((k, b) # bs) =
     (if k = bk
      then (k, \<lparr>bucket_nonces = set_add nonce (bucket_nonces b),
                latestExpiry = (if expires > latestExpiry b then expires else latestExpiry b)\<rparr>) # bs
      else (k, b) # add_to_bucket bk expires nonce bs)"

definition insertEntry :: "replay_cfg \<Rightarrow> jsstr \<Rightarrow> int \<Rightarrow> key_state \<Rightarrow> key_state" where
  "insertEntry cfg nonce expires s =
     s\<lparr>buckets := add_to_bucket (expires div bucketSize cfg) expires nonce (buckets s),
       nonces := set_add nonce (nonces s)\<rparr>"

fun prune_loop :: "int \<Rightarrow> (int \<times> replay_bucket) list \<Rightarrow> jsstr list \<Rightarrow> (int \<times> replay_bucket) list \<times> jsstr list" where
  "prune_loop now [] ns = ([], ns)"
| "prune_loop now ((bk, b) # bs) ns =
     (if latestExpiry b \<le> now
      then prune_loop now bs (filter (\<lambda>n. n \<notin> set (bucket_nonces b)) ns)
      else (let (bs', ns') = prune_loop now bs ns in ((bk, b) # bs', ns')))"

definition prune :: "replay_cfg \<Rightarrow> int \<Rightarrow> key_state \<Rightarrow> key_state" where
  "prune cfg now s =
     (let currentBucket = now div bucketSize cfg in
      if lastPrunedBucket s = Some currentBucket then s
      else let (bs, ns) = prune_loop now (buckets s) (nonces s) in
           s\<lparr>lastPrunedBucket := Some currentBucket, buckets := bs, nonces := ns\<rparr>)"

definition set_key_state :: "jsstr \<Rightarrow> key_state \<Rightarrow> replay_state \<Rightarrow> replay_state" where
  "set_key_state composite s st = st\<lparr>states := (states st)(composite \<mapsto> s)\<rparr>"

definition has_nonce :: "replay_cfg \<Rightarrow> jsstr \<Rightarrow> jsstr \<Rightarrow> jsstr \<Rightarrow> int \<Rightarrow> replay_state \<Rightarrow> bool \<times> replay_state" where
  "has_nonce cfg keyid scope nonce now st =
     (case states st (compositeKey keyid scope) of
        None \<Rightarrow> (False, st)
      | Some s \<Rightarrow>
          let s' = prune cfg now s in
          (nonce \<in> set (nonces s'), set_key_state (compositeKey keyid scope) s' st))"

definition isCapHit :: "replay_cfg \<Rightarrow> jsstr \<Rightarrow> jsstr \<Rightarrow> int \<Rightarrow> replay_state \<Rightarrow> bool \<times> replay_state" where
  "isCapHit cfg keyid scope now st =
     (if keyid \<in> set (forcedCapHit st) then (True, st)
      else if compositeKey keyid scope \<in> set (forcedCapHit st) then (True, st)
      else
        (case states st (compositeKey keyid scope) of
           None \<Rightarrow> (False, st)
         | Some s \<Rightarrow>
             let s' = prune cfg now s in
             (length (nonces s') \<ge> capPerKeyid cfg, set_key_state (compositeKey keyid scope) s' st)))"

definition insert_nonce ::
    "replay_cfg \<Rightarrow> jsstr \<Rightarrow> jsstr \<Rightarrow> jsstr \<Rightarrow> int \<Rightarrow> int \<Rightarrow> replay_state
      \<Rightarrow> replay_insert_result \<times> replay_state" where
  "insert_nonce cfg keyid scope nonce ttlSeconds now st =
     (let composite = compositeKey keyid scope;
          s = prune cfg now (getOrCreate composite st) in
      if nonce \<in> set (nonces s) then (Replayed, set_key_state composite s st)
      else if keyid \<in> set (forcedCapHit st) \<or> composite \<in> set (forcedCapHit st)
           \<or> length (nonces s) \<ge> capPerKeyid cfg
      then (RateAbuse, set_key_state composite s st)
      else (InsertOk, set_key_state composite (insertEntry cfg nonce (now + ttlSeconds) s) st))"

definition preload ::
    "replay_cfg \<Rightarrow> jsstr \<Rightarrow> jsstr \<Rightarrow> jsstr \<Rightarrow> int \<Rightarrow> int \<Rightarrow> replay_state \<Rightarrow> replay_state" where
  "preload cfg keyid scope nonce ttlSeconds now st =
     (let composite = compositeKey keyid scope in
      set_key_state composite (insertEntry cfg nonce (now + ttlSeconds) (getOrCreate composite st)) st)"

section \<open>The invariant of a key's state\<close>

definition in_bucket :: "key_state \<Rightarrow> int \<Rightarrow> replay_bucket \<Rightarrow> jsstr \<Rightarrow> bool" where
  "in_bucket s k b n \<longleftrightarrow> (k, b) \<in> set (buckets s) \<and> n \<in> set (bucket_nonces b)"

definition key_inv :: "replay_cfg \<Rightarrow> key_state \<Rightarrow> bool" where
  "key_inv cfg s \<longleftrightarrow>
     distinct (map fst (buckets s)) \<and> distinct (nonces s)
     \<and> (\<forall>n. n \<in> set (nonces s) \<longleftrightarrow> (\<exists>k b. in_bucket s k b n))
     \<and> (\<forall>n k b k' b'. in_bucket s k b n \<longrightarrow> in_bucket s k' b' n \<longrightarrow> k = k')
     \<and> (\<forall>k b. (k, b) \<in> set (buckets s) \<longrightarrow> latestExpiry b div bucketSize cfg = k)
     \<and> (\<forall>c k b. lastPrunedBucket s = Some c \<longrightarrow> (k, b) \<in> set (buckets s) \<longrightarrow> c \<le> k)"

lemma key_invD:
  assumes "key_inv cfg s"
  shows "distinct (map fst (buckets s))" "distinct (nonces s)"
    and "n \<in> set (nonces s) \<longleftrightarrow> (\<exists>k b. in_bucket s k b n)"
    and "in_bucket s k b n \<Longrightarrow> in_bucket s k' b' n \<Longrightarrow> k = k'"
    and "(k, b) \<in> set (buckets s) \<Longrightarrow> latestExpiry b div bucketSize cfg = k"
    and "lastPrunedBucket s = Some c \<Longrightarrow> (k, b) \<in> set (buckets s) \<Longrightarrow> c \<le> k"
  using assms unfolding key_inv_def by blast+

lemma key_inv_new: "key_inv cfg new_key_state"
  by (simp add: key_inv_def new_key_state_def in_bucket_def)

lemma same_bucket: "key_inv cfg s \<Longrightarrow> (k, b) \<in> set (buckets s) \<Longrightarrow> (k, b') \<in> set (buckets s) \<Longrightarrow> b = b'"
  using key_invD(1) by (metis eq_key_imp_eq_value)

text \<open>A nonce is held for (at least) an expiry.\<close>

definition held :: "key_state \<Rightarrow> jsstr \<Rightarrow> int \<Rightarrow> bool" where
  "held s n e \<longleftrightarrow> (\<exists>k b. in_bucket s k b n \<and> e \<le> latestExpiry b)"

subsection \<open>Pruning\<close>

lemma prune_loop_result:
  "prune_loop now bs ns =
     (filter (\<lambda>(k, b). \<not> latestExpiry b \<le> now) bs,
      filter (\<lambda>n. \<forall>(k, b) \<in> set bs. latestExpiry b \<le> now \<longrightarrow> n \<notin> set (bucket_nonces b)) ns)"
  by (induction now bs ns rule: prune_loop.induct)
    (auto intro!: filter_cong simp del: set_filter)

lemma prune_cases:
  obtains "prune cfg now s = s" "lastPrunedBucket s = Some (now div bucketSize cfg)"
  | "buckets (prune cfg now s) = filter (\<lambda>(k, b). now < latestExpiry b) (buckets s)"
    "nonces (prune cfg now s) =
       filter (\<lambda>n. \<forall>k b. in_bucket s k b n \<longrightarrow> now < latestExpiry b) (nonces s)"
    "lastPrunedBucket (prune cfg now s) = Some (now div bucketSize cfg)"
proof (cases "lastPrunedBucket s = Some (now div bucketSize cfg)")
  case True
  then show thesis using that(1) by (simp add: prune_def)
next
  case False
  have "(\<lambda>n. \<forall>(k, b) \<in> set (buckets s). latestExpiry b \<le> now \<longrightarrow> n \<notin> set (bucket_nonces b))
      = (\<lambda>n. \<forall>k b. in_bucket s k b n \<longrightarrow> now < latestExpiry b)"
    unfolding in_bucket_def by (rule ext) fastforce
  then show thesis
    using that(2) False by (simp add: prune_def Let_def prune_loop_result not_le)
qed

lemma prune_last: "lastPrunedBucket (prune cfg now s) = Some (now div bucketSize cfg)"
  by (rule prune_cases [of cfg now s]) simp_all

lemma prune_inv:
  assumes inv: "key_inv cfg s" and size: "0 < bucketSize cfg"
  shows "key_inv cfg (prune cfg now s)"
proof (rule prune_cases [of cfg now s])
  assume "prune cfg now s = s"
  then show ?thesis using inv by simp
next
  let ?p = "prune cfg now s"
  assume b: "buckets ?p = filter (\<lambda>(k, b). now < latestExpiry b) (buckets s)"
    and n: "nonces ?p = filter (\<lambda>n. \<forall>k b. in_bucket s k b n \<longrightarrow> now < latestExpiry b) (nonces s)"
    and l: "lastPrunedBucket ?p = Some (now div bucketSize cfg)"
  have ib: "in_bucket ?p k b m \<longleftrightarrow> in_bucket s k b m \<and> now < latestExpiry b" for k b m
    by (auto simp: in_bucket_def b)
  have one: "in_bucket s k b m \<Longrightarrow> in_bucket s k' b' m \<Longrightarrow> k = k' \<and> b = b'" for k b k' b' m
    using key_invD(4) [OF inv] same_bucket [OF inv] unfolding in_bucket_def by metis
  have mono: "now < latestExpiry b \<Longrightarrow> now div bucketSize cfg \<le> latestExpiry b div bucketSize cfg" for b
    using size by (intro zdiv_mono1) simp_all
  show ?thesis
    unfolding key_inv_def
  proof (intro conjI allI impI)
    show "distinct (map fst (buckets ?p))"
      using key_invD(1) [OF inv] unfolding b by (simp add: distinct_map inj_on_def)
    show "distinct (nonces ?p)" using key_invD(2) [OF inv] by (simp add: n)
  next
    fix m
    show "m \<in> set (nonces ?p) \<longleftrightarrow> (\<exists>k b. in_bucket ?p k b m)"
      unfolding n ib set_filter mem_Collect_eq using key_invD(3) [OF inv, of m] one by metis
  next
    fix m k b k' b' assume "in_bucket ?p k b m" "in_bucket ?p k' b' m"
    then show "k = k'" using one unfolding ib by blast
  next
    fix k b' assume "(k, b') \<in> set (buckets ?p)"
    then show "latestExpiry b' div bucketSize cfg = k" using key_invD(5) [OF inv] by (auto simp: b)
  next
    fix c k b' assume "lastPrunedBucket ?p = Some c" "(k, b') \<in> set (buckets ?p)"
    then show "c \<le> k" using l mono key_invD(5) [OF inv] by (auto simp: b)
  qed
qed

lemma prune_held:
  assumes "held s n e" "now < e" "key_inv cfg s"
  shows "held (prune cfg now s) n e"
proof -
  obtain k b where kb: "in_bucket s k b n" "e \<le> latestExpiry b" using assms(1) by (auto simp: held_def)
  show ?thesis
  proof (rule prune_cases [of cfg now s])
    assume "buckets (prune cfg now s) = filter (\<lambda>(k, b). now < latestExpiry b) (buckets s)"
    then have "in_bucket (prune cfg now s) k b n" using kb assms(2) by (simp add: in_bucket_def)
    then show ?thesis using kb(2) by (auto simp: held_def)
  qed (use assms(1) in simp)
qed

subsection \<open>Inserting\<close>

definition new_bucket :: "int \<Rightarrow> jsstr \<Rightarrow> replay_bucket option \<Rightarrow> replay_bucket" where
  "new_bucket e n old =
     (case old of
        None \<Rightarrow> \<lparr>bucket_nonces = [n], latestExpiry = e\<rparr>
      | Some b \<Rightarrow> \<lparr>bucket_nonces = set_add n (bucket_nonces b), latestExpiry = max e (latestExpiry b)\<rparr>)"

lemma map_of_add_to_bucket:
  "map_of (add_to_bucket k e n bs) = (map_of bs)(k \<mapsto> new_bucket e n (map_of bs k))"
  by (induction bs) (auto simp: new_bucket_def max_def fun_upd_twist)

lemma add_to_bucket_keys: "set (map fst (add_to_bucket k e n bs)) = insert k (set (map fst bs))"
  by (induction k e n bs rule: add_to_bucket.induct) (simp_all add: insert_commute)

lemma add_to_bucket_distinct: "distinct (map fst bs) \<Longrightarrow> distinct (map fst (add_to_bucket k e n bs))"
proof (induction k e n bs rule: add_to_bucket.induct)
  case (2 k e n k' b bs)
  then show ?case using add_to_bucket_keys [of k e n bs] by (cases "k' = k") (simp_all del: set_map)
qed simp

lemma distinct_set_add: "distinct xs \<Longrightarrow> distinct (set_add x xs)"
  by (simp add: set_add_def)

lemma set_set_add: "set (set_add x xs) = insert x (set xs)"
  by (auto simp: set_add_def)

lemma new_bucket_simps:
  "n \<in> set (bucket_nonces (new_bucket e n old))" "e \<le> latestExpiry (new_bucket e n old)"
  "m \<in> set (bucket_nonces (new_bucket e n old)) \<longleftrightarrow>
     m = n \<or> (\<exists>b. old = Some b \<and> m \<in> set (bucket_nonces b))"
  "latestExpiry (new_bucket e n old) = e
     \<or> (\<exists>b. old = Some b \<and> latestExpiry (new_bucket e n old) = latestExpiry b)"
  "old = Some b \<Longrightarrow> latestExpiry b \<le> latestExpiry (new_bucket e n old)"
  by (auto simp: new_bucket_def set_set_add max_def split: option.splits)

lemma insertEntry_buckets:
  assumes "distinct (map fst (buckets s))"
  shows "(k, b) \<in> set (buckets (insertEntry cfg n e s)) \<longleftrightarrow>
    (if k = e div bucketSize cfg then b = new_bucket e n (map_of (buckets s) k) else (k, b) \<in> set (buckets s))"
proof -
  have "(k, b) \<in> set (buckets (insertEntry cfg n e s)) \<longleftrightarrow> map_of (buckets (insertEntry cfg n e s)) k = Some b"
    using add_to_bucket_distinct [OF assms] by (simp add: insertEntry_def)
  also have "\<dots> \<longleftrightarrow> (if k = e div bucketSize cfg then b = new_bucket e n (map_of (buckets s) k)
      else map_of (buckets s) k = Some b)"
    by (auto simp: insertEntry_def map_of_add_to_bucket)
  finally show ?thesis using assms by simp
qed

lemma insertEntry_in_bucket:
  assumes "distinct (map fst (buckets s))"
  shows "in_bucket (insertEntry cfg n e s) k b m \<longleftrightarrow>
    (if k = e div bucketSize cfg
     then b = new_bucket e n (map_of (buckets s) k) \<and> (m = n \<or> (\<exists>b'. in_bucket s k b' m))
     else in_bucket s k b m)"
  using insertEntry_buckets [OF assms] assms new_bucket_simps(3)
  by (auto simp: in_bucket_def map_of_eq_Some_iff)

lemma insertEntry_inv:
  assumes inv: "key_inv cfg s" and fresh: "n \<notin> set (nonces s)"
    and last: "\<And>c. lastPrunedBucket s = Some c \<Longrightarrow> c \<le> e div bucketSize cfg"
  shows "key_inv cfg (insertEntry cfg n e s)"
proof -
  note d = key_invD(1) [OF inv]
  note ib = insertEntry_in_bucket [OF d]
  have free: "\<not> in_bucket s k b n" for k b using key_invD(3) [OF inv] fresh by blast
  show ?thesis
    unfolding key_inv_def
  proof (intro conjI allI impI)
    show "distinct (map fst (buckets (insertEntry cfg n e s)))"
      using add_to_bucket_distinct [OF d] by (simp add: insertEntry_def)
    show "distinct (nonces (insertEntry cfg n e s))"
      using key_invD(2) [OF inv] by (simp add: insertEntry_def distinct_set_add)
  next
    fix m
    have "m \<in> set (nonces (insertEntry cfg n e s)) \<longleftrightarrow> m = n \<or> (\<exists>k b. in_bucket s k b m)"
      using key_invD(3) [OF inv] by (simp add: insertEntry_def set_set_add)
    also have "\<dots> \<longleftrightarrow> (\<exists>k b. in_bucket (insertEntry cfg n e s) k b m)"
      unfolding ib by (metis (full_types))
    finally show "m \<in> set (nonces (insertEntry cfg n e s)) \<longleftrightarrow> (\<exists>k b. in_bucket (insertEntry cfg n e s) k b m)" .
  next
    fix m k b k' b'
    assume "in_bucket (insertEntry cfg n e s) k b m" "in_bucket (insertEntry cfg n e s) k' b' m"
    then show "k = k'" using free key_invD(4) [OF inv] unfolding ib by (auto split: if_splits)
  next
    fix k b assume "(k, b) \<in> set (buckets (insertEntry cfg n e s))"
    then show "latestExpiry b div bucketSize cfg = k"
      using new_bucket_simps(4) [of e n "map_of (buckets s) k"] key_invD(5) [OF inv] d
      unfolding insertEntry_buckets [OF d] by (auto simp: map_of_eq_Some_iff split: if_splits)
  next
    fix c k b assume "lastPrunedBucket (insertEntry cfg n e s) = Some c" "(k, b) \<in> set (buckets (insertEntry cfg n e s))"
    then show "c \<le> k"
      using last key_invD(6) [OF inv] unfolding insertEntry_buckets [OF d]
      by (auto simp: insertEntry_def split: if_splits)
  qed
qed

lemma insertEntry_held_new:
  "distinct (map fst (buckets s)) \<Longrightarrow> held (insertEntry cfg n e s) n e"
  unfolding held_def insertEntry_in_bucket using new_bucket_simps(2) by fastforce

lemma insertEntry_held:
  assumes "distinct (map fst (buckets s))" "held s m x"
  shows "held (insertEntry cfg n e s) m x"
proof -
  obtain k b where kb: "in_bucket s k b m" "x \<le> latestExpiry b" using assms(2) by (auto simp: held_def)
  show ?thesis
  proof (cases "k = e div bucketSize cfg")
    case True
    have "map_of (buckets s) k = Some b" using kb(1) assms(1) by (simp add: in_bucket_def)
    then have "x \<le> latestExpiry (new_bucket e n (map_of (buckets s) k))"
      using kb(2) new_bucket_simps(5) [of "Some b" b e n] by simp
    then show ?thesis
      unfolding held_def insertEntry_in_bucket [OF assms(1)] using True kb(1) by auto
  next
    case False
    then show ?thesis unfolding held_def insertEntry_in_bucket [OF assms(1)] using kb by auto
  qed
qed

section \<open>Runs of the cache\<close>

datatype replay_op =
    HasOp jsstr jsstr jsstr int
  | CapOp jsstr jsstr int
  | InsertOp jsstr jsstr jsstr int int

fun run_replay_op :: "replay_cfg \<Rightarrow> replay_op \<Rightarrow> replay_state \<Rightarrow> replay_state" where
  "run_replay_op cfg (HasOp kid sc n now) st = snd (has_nonce cfg kid sc n now st)"
| "run_replay_op cfg (CapOp kid sc now) st = snd (isCapHit cfg kid sc now st)"
| "run_replay_op cfg (InsertOp kid sc n ttl now) st = snd (insert_nonce cfg kid sc n ttl now st)"

definition run_replay :: "replay_cfg \<Rightarrow> replay_op list \<Rightarrow> replay_state \<Rightarrow> replay_state" where
  "run_replay cfg ops st = fold (run_replay_op cfg) ops st"

fun op_now :: "replay_op \<Rightarrow> int" where
  "op_now (HasOp kid sc n now) = now"
| "op_now (CapOp kid sc now) = now"
| "op_now (InsertOp kid sc n ttl now) = now"

fun op_ttl_ok :: "replay_op \<Rightarrow> bool" where
  "op_ttl_ok (InsertOp kid sc n ttl now) = (0 \<le> ttl)"
| "op_ttl_ok _ = True"

definition replay_inv :: "replay_cfg \<Rightarrow> replay_state \<Rightarrow> bool" where
  "replay_inv cfg st \<longleftrightarrow> (\<forall>c s. states st c = Some s \<longrightarrow> key_inv cfg s)"

text \<open>An operation prunes the state of its own key and perhaps adds one nonce.\<close>

lemma run_op_effect:
  obtains "run_replay_op cfg op st = st"
  | c s where "run_replay_op cfg op st = set_key_state c (prune cfg (op_now op) s) st"
      "s = getOrCreate c st"
  | c s n e kid sc ttl now where "run_replay_op cfg op st = set_key_state c (insertEntry cfg n e (prune cfg (op_now op) s)) st"
      "s = getOrCreate c st" "n \<notin> set (nonces (prune cfg (op_now op) s))"
      "op = InsertOp kid sc n ttl now" "c = compositeKey kid sc" "e = now + ttl"
proof (cases op)
  case (HasOp kid sc n now)
  show ?thesis
  proof (cases "states st (compositeKey kid sc)")
    case None
    then show ?thesis using that(1) HasOp by (simp add: has_nonce_def)
  next
    case (Some s)
    then show ?thesis
      by (intro that(2) [of "compositeKey kid sc" s]) (simp_all add: HasOp has_nonce_def Let_def getOrCreate_def)
  qed
next
  case (CapOp kid sc now)
  show ?thesis
  proof (cases "kid \<in> set (forcedCapHit st) \<or> compositeKey kid sc \<in> set (forcedCapHit st)
      \<or> states st (compositeKey kid sc) = None")
    case True
    then show ?thesis using that(1) CapOp by (auto simp: isCapHit_def)
  next
    case False
    then obtain s where "states st (compositeKey kid sc) = Some s" by auto
    then show ?thesis
      using False by (intro that(2) [of "compositeKey kid sc" s])
        (simp_all add: CapOp isCapHit_def Let_def getOrCreate_def)
  qed
next
  case (InsertOp kid sc n ttl now)
  let ?s = "prune cfg now (getOrCreate (compositeKey kid sc) st)"
  show ?thesis
  proof (cases "n \<in> set (nonces ?s) \<or> kid \<in> set (forcedCapHit st) \<or> compositeKey kid sc \<in> set (forcedCapHit st)
      \<or> capPerKeyid cfg \<le> length (nonces ?s)")
    case True
    then show ?thesis
      by (intro that(2) [of "compositeKey kid sc" "getOrCreate (compositeKey kid sc) st"])
        (auto simp: InsertOp insert_nonce_def Let_def)
  next
    case False
    then show ?thesis
      by (intro that(3) [of "compositeKey kid sc" n "now + ttl" "getOrCreate (compositeKey kid sc) st"])
        (simp_all add: InsertOp insert_nonce_def Let_def)
  qed
qed

lemma getOrCreate_inv: "replay_inv cfg st \<Longrightarrow> key_inv cfg (getOrCreate c st)"
  using key_inv_new by (auto simp: replay_inv_def getOrCreate_def split: option.splits)

lemma set_key_state_inv: "replay_inv cfg st \<Longrightarrow> key_inv cfg s \<Longrightarrow> replay_inv cfg (set_key_state c s st)"
  by (auto simp: replay_inv_def set_key_state_def)

lemma run_op_inv:
  assumes inv: "replay_inv cfg st" and size: "0 < bucketSize cfg" and ttl: "op_ttl_ok op"
  shows "replay_inv cfg (run_replay_op cfg op st)"
proof (rule run_op_effect [of cfg op st])
  assume "run_replay_op cfg op st = st"
  then show ?thesis using inv by simp
next
  fix c s assume "run_replay_op cfg op st = set_key_state c (prune cfg (op_now op) s) st" "s = getOrCreate c st"
  then show ?thesis using set_key_state_inv prune_inv getOrCreate_inv inv size by metis
next
  fix c s n e kid sc ttl now
  assume r: "run_replay_op cfg op st = set_key_state c (insertEntry cfg n e (prune cfg (op_now op) s)) st"
    and s: "s = getOrCreate c st" "n \<notin> set (nonces (prune cfg (op_now op) s))"
    and o: "op = InsertOp kid sc n ttl now" "e = now + ttl"
  have "now div bucketSize cfg \<le> e div bucketSize cfg"
    using o ttl size by (intro zdiv_mono1) simp_all
  then have "key_inv cfg (insertEntry cfg n e (prune cfg (op_now op) s))"
    using s o prune_inv [OF getOrCreate_inv [OF inv] size] prune_last
    by (intro insertEntry_inv) (auto simp: prune_last)
  then show ?thesis using r set_key_state_inv inv by simp
qed

lemma run_replay_inv:
  "replay_inv cfg st \<Longrightarrow> 0 < bucketSize cfg \<Longrightarrow> list_all op_ttl_ok ops \<Longrightarrow> replay_inv cfg (run_replay cfg ops st)"
  by (induction ops arbitrary: st) (auto simp: run_replay_def run_op_inv)

lemma empty_replay_inv: "replay_inv cfg empty_replay"
  by (simp add: replay_inv_def empty_replay_def)

definition held_in :: "replay_state \<Rightarrow> jsstr \<Rightarrow> jsstr \<Rightarrow> int \<Rightarrow> bool" where
  "held_in st c n e \<longleftrightarrow> held (getOrCreate c st) n e \<and> states st c \<noteq> None"

lemma getOrCreate_set [simp]:
  "getOrCreate c (set_key_state c' s st) = (if c = c' then s else getOrCreate c st)"
  by (simp add: getOrCreate_def set_key_state_def)

lemma states_set [simp]: "states (set_key_state c s st) c' = (if c' = c then Some s else states st c')"
  by (simp add: set_key_state_def)

lemma run_op_held:
  assumes "replay_inv cfg st" "0 < bucketSize cfg" "op_now op < e" "held_in st c n e"
  shows "held_in (run_replay_op cfg op st) c n e"
proof -
  note k = getOrCreate_inv [OF assms(1)]
  have h: "held (prune cfg (op_now op) (getOrCreate c st)) n e"
    using prune_held k assms(3,4) by (simp add: held_in_def)
  have d: "distinct (map fst (buckets (prune cfg (op_now op) (getOrCreate c st))))"
    using key_invD(1) prune_inv [OF k assms(2)] by blast
  show ?thesis
    by (rule run_op_effect [of cfg op st])
      (use assms(4) h insertEntry_held [OF d h] in \<open>auto simp: held_in_def\<close>)
qed

lemma run_replay_held:
  "replay_inv cfg st \<Longrightarrow> 0 < bucketSize cfg \<Longrightarrow> list_all op_ttl_ok ops \<Longrightarrow> list_all (\<lambda>op. op_now op < e) ops
    \<Longrightarrow> held_in st c n e \<Longrightarrow> held_in (run_replay cfg ops st) c n e"
  by (induction ops arbitrary: st) (auto simp: run_replay_def run_op_held run_op_inv)

lemma held_is_nonce: "key_inv cfg s \<Longrightarrow> held s n e \<Longrightarrow> n \<in> set (nonces s)"
  using key_invD(3) unfolding held_def by blast

lemma insert_ok_held:
  assumes "replay_inv cfg st" "0 < bucketSize cfg" "insert_nonce cfg kid sc n ttl now st = (InsertOk, st')"
  shows "held_in st' (compositeKey kid sc) n (now + ttl)"
proof -
  have "distinct (map fst (buckets (prune cfg now (getOrCreate (compositeKey kid sc) st))))"
    using key_invD(1) prune_inv [OF getOrCreate_inv [OF assms(1)] assms(2)] by blast
  from insertEntry_held_new [OF this] show ?thesis
    using assms(3) by (auto simp: insert_nonce_def Let_def held_in_def split: if_splits)
qed

subsection \<open>Where a held nonce comes from\<close>

definition inserted_by :: "replay_cfg \<Rightarrow> replay_op list \<Rightarrow> jsstr \<Rightarrow> jsstr \<Rightarrow> int \<Rightarrow> bool" where
  "inserted_by cfg ops c n k \<longleftrightarrow>
     (\<exists>kid sc ttl now. InsertOp kid sc n ttl now \<in> set ops \<and> compositeKey kid sc = c
        \<and> (now + ttl) div bucketSize cfg = k)"

lemma run_op_origin:
  assumes inv: "replay_inv cfg st" and size: "0 < bucketSize cfg"
    and o: "\<And>c k b n. in_bucket (getOrCreate c st) k b n \<Longrightarrow> inserted_by cfg ops c n k"
    and b: "in_bucket (getOrCreate c (run_replay_op cfg op st)) k b n"
  shows "inserted_by cfg (ops @ [op]) c n k"
proof -
  have more: "inserted_by cfg ops c n k \<Longrightarrow> inserted_by cfg (ops @ [op]) c n k" for c n k
    unfolding inserted_by_def by auto
  have p: "in_bucket (prune cfg now s) k b n \<Longrightarrow> in_bucket s k b n" for now s k b n
    by (rule prune_cases [of cfg now s]) (auto simp: in_bucket_def)
  have d: "distinct (map fst (buckets (prune cfg (op_now op) (getOrCreate c st))))" for c
    using key_invD(1) prune_inv [OF getOrCreate_inv [OF inv] size] by blast
  show ?thesis
  proof (rule run_op_effect [of cfg op st])
    assume "run_replay_op cfg op st = st"
    then show ?thesis using o more b by simp
  next
    fix c' s assume "run_replay_op cfg op st = set_key_state c' (prune cfg (op_now op) s) st" "s = getOrCreate c' st"
    then have "in_bucket (getOrCreate c st) k b n" using b p by (cases "c = c'") auto
    then show ?thesis using o more by blast
  next
    fix c' s m e kid sc ttl now
    assume r: "run_replay_op cfg op st = set_key_state c' (insertEntry cfg m e (prune cfg (op_now op) s)) st"
      "s = getOrCreate c' st"
      and op: "op = InsertOp kid sc m ttl now" "c' = compositeKey kid sc" "e = now + ttl"
    show ?thesis
    proof (cases "c = c'")
      case True
      then have ib: "in_bucket (insertEntry cfg m e (prune cfg (op_now op) s)) k b n" using b r(1) by simp
      show ?thesis
      proof (cases "k = e div bucketSize cfg \<and> n = m")
        case True
        then show ?thesis using \<open>c = c'\<close> op unfolding inserted_by_def by auto
      next
        case False
        then have "\<exists>b'. in_bucket (prune cfg (op_now op) s) k b' n"
          using ib insertEntry_in_bucket [OF d [of c'], folded r(2)] by (auto split: if_splits)
        then show ?thesis using p o more r(2) \<open>c = c'\<close> by blast
      qed
    next
      case False
      then show ?thesis using b r(1) o more by simp
    qed
  qed
qed

lemma run_replay_origin:
  assumes "0 < bucketSize cfg" "list_all op_ttl_ok ops"
    "in_bucket (getOrCreate c (run_replay cfg ops empty_replay)) k b n"
  shows "inserted_by cfg ops c n k"
  using assms(2,3)
proof (induction ops arbitrary: c k b n rule: rev_induct)
  case Nil
  then show ?case by (simp add: run_replay_def empty_replay_def getOrCreate_def new_key_state_def in_bucket_def)
next
  case (snoc op ops)
  have "replay_inv cfg (run_replay cfg ops empty_replay)"
    using run_replay_inv [OF empty_replay_inv assms(1)] snoc.prems(1) by simp
  then show ?case
    using run_op_origin [OF _ assms(1), of "run_replay cfg ops empty_replay" ops] snoc
    by (simp add: run_replay_def)
qed

lemma pruned_bucket_recent:
  assumes "key_inv cfg s" "0 < bucketSize cfg" "in_bucket (prune cfg now s) k b n"
  shows "now div bucketSize cfg \<le> k"
  using key_invD(6) [OF prune_inv [OF assms(1,2)] prune_last] assms(3) unfolding in_bucket_def by blast

section \<open>Properties\<close>

text \<open>
  C11: no signature is accepted twice within its window.  In a run of the verifier's operations, once
  a nonce has been accepted at time \<open>t\<close> with lifetime \<open>ttl\<close>, every later attempt to insert it for
  the same key and scope before \<open>t + ttl\<close> is answered as replayed, whatever other operations (on
  this key or another, with clocks in any order before \<open>t + ttl\<close>) ran in between.
\<close>

theorem replay_rejected_within_window:
  assumes "0 < bucketSize cfg" "list_all op_ttl_ok ops0" "0 \<le> ttl"
    and "insert_nonce cfg kid sc n ttl t (run_replay cfg ops0 empty_replay) = (InsertOk, st)"
    and "list_all op_ttl_ok ops" "list_all (\<lambda>op. op_now op < t + ttl) ops" "t' < t + ttl"
  shows "fst (insert_nonce cfg kid sc n ttl' t' (run_replay cfg ops st)) = Replayed
    \<and> fst (has_nonce cfg kid sc n t' (run_replay cfg ops st))"
proof -
  let ?c = "compositeKey kid sc"
  let ?st = "run_replay cfg ops st"
  have i0: "replay_inv cfg (run_replay cfg ops0 empty_replay)"
    using run_replay_inv [OF empty_replay_inv] assms(1,2) by blast
  have i1: "replay_inv cfg st"
    using run_op_inv [OF i0 assms(1), of "InsertOp kid sc n ttl t"] assms(3,4) by simp
  have "held_in ?st ?c n (t + ttl)"
    using run_replay_held [OF i1 assms(1,5,6)] insert_ok_held [OF i0 assms(1,4)] by blast
  then have h: "held (getOrCreate ?c ?st) n (t + ttl)" "states ?st ?c \<noteq> None" by (simp_all add: held_in_def)
  have k: "key_inv cfg (getOrCreate ?c ?st)"
    using getOrCreate_inv run_replay_inv [OF i1 assms(1,5)] by blast
  have "n \<in> set (nonces (prune cfg t' (getOrCreate ?c ?st)))"
    using held_is_nonce [OF prune_inv [OF k assms(1)] prune_held [OF h(1) assms(7) k]] .
  then show ?thesis using h(2) by (auto simp: insert_nonce_def has_nonce_def Let_def getOrCreate_def)
qed

definition demo_replay_cfg :: replay_cfg where
  "demo_replay_cfg = new_replay_cfg None None"

theorem replay_rejected_within_window_witness:
  "fst (insert_nonce demo_replay_cfg (js ''kid'') (js ''https://a/x'') (js ''n1'') 300 299
      (run_replay demo_replay_cfg [InsertOp (js ''kid'') (js ''https://a/x'') (js ''n2'') 10 120, HasOp (js ''kid'') (js ''https://a/y'') (js ''n1'') 200]
        (snd (insert_nonce demo_replay_cfg (js ''kid'') (js ''https://a/x'') (js ''n1'') 300 0 empty_replay)))) = Replayed"
proof -
  have ok: "insert_nonce demo_replay_cfg (js ''kid'') (js ''https://a/x'') (js ''n1'') 300 0 (run_replay demo_replay_cfg [] empty_replay)
      = (InsertOk, snd (insert_nonce demo_replay_cfg (js ''kid'') (js ''https://a/x'') (js ''n1'') 300 0 empty_replay))"
    by (simp add: run_replay_def insert_nonce_def Let_def getOrCreate_def empty_replay_def new_key_state_def
        prune_def demo_replay_cfg_def new_replay_cfg_def)
  show ?thesis
    using replay_rejected_within_window [OF _ _ _ ok, where t' = 299 and ttl' = 300
        and ops = "[InsertOp (js ''kid'') (js ''https://a/x'') (js ''n2'') 10 120, HasOp (js ''kid'') (js ''https://a/y'') (js ''n1'') 200]"]
    by (simp add: demo_replay_cfg_def new_replay_cfg_def)
qed

text \<open>
  The cache does not reject fresh nonces: an insert is answered as replayed only when the same
  nonce was inserted before under the same composite key and its expiry lies less than one bucket
  in the past, so an entry outlives its window by less than a bucket.
\<close>

theorem replayed_only_if_recent:
  assumes "0 < bucketSize cfg" "list_all op_ttl_ok ops"
    and "fst (insert_nonce cfg kid sc n ttl now (run_replay cfg ops empty_replay)) = Replayed"
  shows "\<exists>kid' sc' ttl' t'. InsertOp kid' sc' n ttl' t' \<in> set ops
    \<and> compositeKey kid' sc' = compositeKey kid sc \<and> now - bucketSize cfg < t' + ttl'"
proof -
  let ?s = "getOrCreate (compositeKey kid sc) (run_replay cfg ops empty_replay)"
  have k: "key_inv cfg ?s" using getOrCreate_inv run_replay_inv [OF empty_replay_inv assms(1,2)] by blast
  have "n \<in> set (nonces (prune cfg now ?s))"
    using assms(3) by (auto simp: insert_nonce_def Let_def split: if_splits)
  then obtain bk b where b: "in_bucket (prune cfg now ?s) bk b n"
    using key_invD(3) [OF prune_inv [OF k assms(1)]] by blast
  have "in_bucket ?s bk b n"
    by (rule prune_cases [of cfg now ?s]) (use b in \<open>auto simp: in_bucket_def\<close>)
  then obtain kid' sc' ttl' t' where i: "InsertOp kid' sc' n ttl' t' \<in> set ops"
    "compositeKey kid' sc' = compositeKey kid sc" "(t' + ttl') div bucketSize cfg = bk"
    using run_replay_origin [OF assms(1,2)] unfolding inserted_by_def by blast
  have le: "now div bucketSize cfg \<le> bk" using pruned_bucket_recent [OF k assms(1) b] .
  have "now < (now div bucketSize cfg) * bucketSize cfg + bucketSize cfg"
    using div_mult_mod_eq [of now "bucketSize cfg"] pos_mod_bound [OF assms(1), of now] by linarith
  also have "\<dots> \<le> bk * bucketSize cfg + bucketSize cfg" using le assms(1) by simp
  also have "bk * bucketSize cfg \<le> t' + ttl'"
    using div_mult_mod_eq [of "t' + ttl'" "bucketSize cfg"] pos_mod_sign [OF assms(1), of "t' + ttl'"]
    unfolding i(3) by linarith
  finally have "now - bucketSize cfg < t' + ttl'" by simp
  then show ?thesis using i by blast
qed

theorem replayed_only_if_recent_witness:
  "\<exists>kid' sc' ttl' t'. InsertOp kid' sc' (js ''n1'') ttl' t' \<in> set [InsertOp (js ''kid'') (js ''u'') (js ''n1'') 300 0]
    \<and> compositeKey kid' sc' = compositeKey (js ''kid'') (js ''u'') \<and> 299 - bucketSize demo_replay_cfg < t' + ttl'"
  by (rule replayed_only_if_recent [where ttl = 300])
    (simp_all add: run_replay_def insert_nonce_def Let_def getOrCreate_def empty_replay_def new_key_state_def
        prune_def demo_replay_cfg_def new_replay_cfg_def insertEntry_def set_add_def js_def)

text \<open>
  Signatures are partitioned by endpoint: with key identifiers that contain no NUL, the replay
  state is keyed by key identifier and scope together, no two pairs share a state.
\<close>

theorem compositeKey_injective:
  assumes "0 \<notin> set kid" "0 \<notin> set kid'" "compositeKey kid sc = compositeKey kid' sc'"
  shows "kid = kid' \<and> sc = sc'"
  using assms(3) sep_append_inj [OF _ assms(1,2)] by (simp add: compositeKey_def)

theorem compositeKey_injective_witness:
  "compositeKey (js ''k'') (js ''https://a'') \<noteq> compositeKey (js ''k'') (js ''https://b'')"
  using compositeKey_injective [of "(js ''k'')" "(js ''k'')" "(js ''https://a'')" "(js ''https://b'')"] by (auto simp: js_def)

text \<open>
  A nonce preloaded with two lifetimes is forgotten with the earlier one: at second 130 it is
  accepted although the second preload covers it until second 300.
\<close>

theorem preload_twice_forgets:
  "fst (insert_nonce demo_replay_cfg (js ''kid'') (js ''u'') (js ''n1'') 300 130
      (preload demo_replay_cfg (js ''kid'') (js ''u'') (js ''n1'') 300 0
        (preload demo_replay_cfg (js ''kid'') (js ''u'') (js ''n1'') 60 0 empty_replay))) = InsertOk"
  by (simp add: insert_nonce_def Let_def getOrCreate_def empty_replay_def new_key_state_def prune_def
      demo_replay_cfg_def new_replay_cfg_def insertEntry_def preload_def set_add_def set_key_state_def js_def compositeKey_def)

end
