(* ===== verification/IdempotencyBackend.thy ===== *)
theory IdempotencyBackend
  imports Prelude
begin

text \<open>
  The storage interface of the idempotency store (\<open>IdempotencyBackend\<close> in
  \<open>src/lib/server/idempotency/store.ts\<close>) and its in-process implementation
  (\<open>src/lib/server/idempotency/backends/memory.ts\<close>).  A backend is a record of operations on
  an explicit state; the in-process one keeps a map from scoped keys to entries.  Values are
  immutable here, so the structured clones of the code only show in the defaulting of
  \<open>retainUntil\<close>.  Times are Unix seconds; an operation that reads the clock takes it as an
  argument.
\<close>

section \<open>Entries and the interface\<close>

text \<open>\<open>response\<close> is a JSON value or null; \<open>retainUntil\<close> is absent in legacy entries.\<close>

record 'r cache_entry =
  payloadHash :: string
  response :: "'r option"
  expiresAt :: int
  retainUntil :: "int option"

record ('s, 'r) idem_backend_ops =
  op_get :: "'s \<Rightarrow> string \<Rightarrow> 'r cache_entry option"
  op_put :: "'s \<Rightarrow> string \<Rightarrow> 'r cache_entry \<Rightarrow> 's"
  op_putIfAbsent :: "'s \<Rightarrow> string \<Rightarrow> 'r cache_entry \<Rightarrow> bool \<times> 's"
  op_replaceIfPayloadHash :: "'s \<Rightarrow> string \<Rightarrow> string \<Rightarrow> 'r cache_entry \<Rightarrow> bool \<times> 's"
  op_replaceIfPayloadHashAndExpired ::
    "'s \<Rightarrow> int \<Rightarrow> string \<Rightarrow> string \<Rightarrow> 'r cache_entry \<Rightarrow> bool \<times> 's"
  op_deleteIfPayloadHash :: "'s \<Rightarrow> string \<Rightarrow> string \<Rightarrow> bool \<times> 's"
  op_delete :: "'s \<Rightarrow> string \<Rightarrow> 's"

section \<open>The in-process backend\<close>

type_synonym 'r mem_store = "string \<rightharpoonup> 'r cache_entry"

definition retain_or_expiry :: "'r cache_entry \<Rightarrow> int" where
  "retain_or_expiry e = (case retainUntil e of None \<Rightarrow> expiresAt e | Some t \<Rightarrow> t)"

definition cloneEntry :: "'r cache_entry \<Rightarrow> 'r cache_entry" where
  "cloneEntry e = e\<lparr>retainUntil := Some (retain_or_expiry e)\<rparr>"

definition mem_get :: "'r mem_store \<Rightarrow> string \<Rightarrow> 'r cache_entry option" where
  "mem_get st k = (case st k of None \<Rightarrow> None | Some e \<Rightarrow> Some (cloneEntry e))"

definition mem_put :: "'r mem_store \<Rightarrow> string \<Rightarrow> 'r cache_entry \<Rightarrow> 'r mem_store" where
  "mem_put st k e = st(k \<mapsto> cloneEntry e)"

definition mem_putIfAbsent :: "'r mem_store \<Rightarrow> string \<Rightarrow> 'r cache_entry \<Rightarrow> bool \<times> 'r mem_store" where
  "mem_putIfAbsent st k e =
     (case st k of Some _ \<Rightarrow> (False, st) | None \<Rightarrow> (True, st(k \<mapsto> cloneEntry e)))"

definition mem_replaceIfPayloadHash ::
    "'r mem_store \<Rightarrow> string \<Rightarrow> string \<Rightarrow> 'r cache_entry \<Rightarrow> bool \<times> 'r mem_store" where
  "mem_replaceIfPayloadHash st k h e =
     (case st k of
        None \<Rightarrow> (False, st)
      | Some old \<Rightarrow>
          if payloadHash old \<noteq> h then (False, st) else (True, st(k \<mapsto> cloneEntry e)))"

definition mem_replaceIfPayloadHashAndExpired ::
    "'r mem_store \<Rightarrow> int \<Rightarrow> string \<Rightarrow> string \<Rightarrow> 'r cache_entry \<Rightarrow> bool \<times> 'r mem_store" where
  "mem_replaceIfPayloadHashAndExpired st now k h e =
     (case st k of
        None \<Rightarrow> (False, st)
      | Some old \<Rightarrow>
          if payloadHash old \<noteq> h \<or> expiresAt old \<ge> now then (False, st)
          else (True, st(k \<mapsto> cloneEntry e)))"

definition mem_deleteIfPayloadHash :: "'r mem_store \<Rightarrow> string \<Rightarrow> string \<Rightarrow> bool \<times> 'r mem_store" where
  "mem_deleteIfPayloadHash st k h =
     (case st k of
        None \<Rightarrow> (False, st)
      | Some old \<Rightarrow> if payloadHash old \<noteq> h then (False, st) else (True, st(k := None)))"

definition mem_delete :: "'r mem_store \<Rightarrow> string \<Rightarrow> 'r mem_store" where
  "mem_delete st k = st(k := None)"

definition mem_clearAll :: "'r mem_store \<Rightarrow> 'r mem_store" where
  "mem_clearAll st = Map.empty"

text \<open>One tick of the sweeper timer.\<close>

definition mem_sweep :: "int \<Rightarrow> 'r mem_store \<Rightarrow> 'r mem_store" where
  "mem_sweep now st =
     (\<lambda>k. case st k of None \<Rightarrow> None
          | Some e \<Rightarrow> if retain_or_expiry e < now then None else Some e)"

definition memoryBackend :: "('r mem_store, 'r) idem_backend_ops" where
  "memoryBackend =
     \<lparr>op_get = mem_get, op_put = mem_put, op_putIfAbsent = mem_putIfAbsent,
      op_replaceIfPayloadHash = mem_replaceIfPayloadHash,
      op_replaceIfPayloadHashAndExpired = mem_replaceIfPayloadHashAndExpired,
      op_deleteIfPayloadHash = mem_deleteIfPayloadHash, op_delete = mem_delete\<rparr>"

lemmas mem_defs =
  mem_get_def mem_put_def mem_putIfAbsent_def mem_replaceIfPayloadHash_def
  mem_replaceIfPayloadHashAndExpired_def mem_deleteIfPayloadHash_def mem_delete_def
  mem_clearAll_def mem_sweep_def

lemma cloneEntry_simps [simp]:
  "payloadHash (cloneEntry e) = payloadHash e" "response (cloneEntry e) = response e"
  "expiresAt (cloneEntry e) = expiresAt e" "retainUntil (cloneEntry e) = Some (retain_or_expiry e)"
  by (simp_all add: cloneEntry_def)

lemma retain_or_expiry_cloneEntry [simp]: "retain_or_expiry (cloneEntry e) = retain_or_expiry e"
  by (simp add: retain_or_expiry_def [of "cloneEntry e"])

lemma cloneEntry_idem [simp]: "cloneEntry (cloneEntry e) = cloneEntry e"
  by (simp add: cloneEntry_def retain_or_expiry_def)

lemma memoryBackend_simps [simp]:
  "op_get memoryBackend = mem_get" "op_put memoryBackend = mem_put"
  "op_putIfAbsent memoryBackend = mem_putIfAbsent"
  "op_replaceIfPayloadHash memoryBackend = mem_replaceIfPayloadHash"
  "op_replaceIfPayloadHashAndExpired memoryBackend = mem_replaceIfPayloadHashAndExpired"
  "op_deleteIfPayloadHash memoryBackend = mem_deleteIfPayloadHash"
  "op_delete memoryBackend = mem_delete"
  by (simp_all add: memoryBackend_def)

section \<open>The contract of a backend\<close>

text \<open>
  What the store relies on: the conditional writes are atomic tests of the stored hash, and a
  read returns what was last written, with \<open>stamp\<close> for the normalisation a backend may apply.
\<close>

locale idem_backend =
  fixes bk :: "('s, 'r) idem_backend_ops"
    and stamp :: "'r cache_entry \<Rightarrow> 'r cache_entry"
  assumes stamp_hash: "payloadHash (stamp e) = payloadHash e"
    and stamp_response: "response (stamp e) = response e"
    and stamp_expiry: "expiresAt (stamp e) = expiresAt e"
    and get_put: "op_get bk (op_put bk st k e) = (op_get bk st)(k \<mapsto> stamp e)"
    and get_delete: "op_get bk (op_delete bk st k) = (op_get bk st)(k := None)"
    and putIfAbsent: "op_putIfAbsent bk st k e = (b, st') \<Longrightarrow>
          (b \<longleftrightarrow> op_get bk st k = None)
          \<and> op_get bk st' = (if b then (op_get bk st)(k \<mapsto> stamp e) else op_get bk st)"
    and replaceIf: "op_replaceIfPayloadHash bk st k h e = (b, st') \<Longrightarrow>
          (b \<longleftrightarrow> (\<exists>old. op_get bk st k = Some old \<and> payloadHash old = h))
          \<and> op_get bk st' = (if b then (op_get bk st)(k \<mapsto> stamp e) else op_get bk st)"
    and deleteIf: "op_deleteIfPayloadHash bk st k h = (b, st') \<Longrightarrow>
          (b \<longleftrightarrow> (\<exists>old. op_get bk st k = Some old \<and> payloadHash old = h))
          \<and> op_get bk st' = (if b then (op_get bk st)(k := None) else op_get bk st)"
begin

text \<open>A token once replaced by another can never win a conditional write again.\<close>

lemma replaceIf_loser:
  assumes "op_replaceIfPayloadHash bk st k h e = (True, st1)" "payloadHash e \<noteq> h"
    and "op_replaceIfPayloadHash bk st1 k h e' = (b, st2)"
  shows "\<not> b"
  using replaceIf [OF assms(1)] replaceIf [OF assms(3)] assms(2) by (auto simp: stamp_hash)

lemma putIfAbsent_loser:
  assumes "op_putIfAbsent bk st k e = (True, st1)" "op_putIfAbsent bk st1 k e' = (b, st2)"
  shows "\<not> b"
  using putIfAbsent [OF assms(1)] putIfAbsent [OF assms(2)] by auto

end

interpretation mem: idem_backend memoryBackend cloneEntry
  by unfold_locales
     (auto simp: mem_defs intro!: ext split: option.splits if_splits)

lemma mem_sweep_keeps:
  "mem_get st k = Some e \<Longrightarrow> now \<le> retain_or_expiry e \<Longrightarrow> mem_get (mem_sweep now st) k = Some e"
  by (auto simp: mem_defs split: option.splits)

lemma mem_sweep_shrinks: "mem_get (mem_sweep now st) k = Some e \<Longrightarrow> mem_get st k = Some e"
  by (auto simp: mem_defs split: option.splits if_splits)

lemma mem_sweep_drops:
  "mem_get st k = Some e \<Longrightarrow> retain_or_expiry e < now \<Longrightarrow> mem_get (mem_sweep now st) k = None"
  by (auto simp: mem_defs split: option.splits)

section \<open>Properties\<close>

text \<open>
  Of any two conditional installs of one key on the in-process backend with nothing between
  them, at most one wins; the loser changes nothing, and a reader then sees the winner's entry.
\<close>

theorem memory_putIfAbsent_exclusive:
  assumes "mem_putIfAbsent st k e1 = (b1, st1)" "mem_putIfAbsent st1 k e2 = (b2, st2)"
  shows "\<not> b2 \<and> st2 = st1 \<and> (b1 \<longleftrightarrow> st k = None) \<and> (b1 \<longleftrightarrow> mem_get st k = None)
    \<and> (if b1 then mem_get st2 k = Some (cloneEntry e1) else mem_get st2 k = mem_get st k)"
  using assms by (auto simp: mem_defs split: option.splits)

theorem memory_putIfAbsent_exclusive_witness:
  "\<not> fst (mem_putIfAbsent (snd (mem_putIfAbsent Map.empty ''k''
        \<lparr>payloadHash = ''h'', response = Some (1::int), expiresAt = 5, retainUntil = None\<rparr>)) ''k''
        \<lparr>payloadHash = ''h2'', response = None, expiresAt = 6, retainUntil = Some 7\<rparr>)"
  using memory_putIfAbsent_exclusive [OF prod.collapse [symmetric] prod.collapse [symmetric]] by blast

text \<open>
  The sweeper removes exactly the entries whose retention has passed and changes no other;
  an entry without \<open>retainUntil\<close> is retained until it expires.
\<close>

theorem memory_sweep_exact:
  "mem_get (mem_sweep now st) k =
     (case mem_get st k of
        None \<Rightarrow> None
      | Some e \<Rightarrow> if the (retainUntil e) < now then None else Some e)"
  by (auto simp: mem_defs split: option.splits)

end
