(* ===== verification/IdempotencyStore.thy ===== *)
theory IdempotencyStore
  imports IdempotencyBackend Jcs
begin

text \<open>
  The idempotency store of \<open>src/lib/server/idempotency/store.ts\<close>: scope keys, the canonical
  payload hash, the claim protocol of \<open>check\<close>, and \<open>renew\<close>, \<open>save\<close>, \<open>release\<close> and
  \<open>saveTransientError\<close>.

  \<open>check\<close> awaits the backend several times, so other requests run between its steps.  It is
  modelled as a machine: a program counter holds what the last backend call returned, and one
  step runs the code from one await to the next, with the clock reading and the random UUID of
  that step as arguments.  The concurrent system lets any number of requests take their steps
  in any order.
\<close>

section \<open>Scope keys\<close>

abbreviation SCOPE_SEPARATOR :: char where
  "SCOPE_SEPARATOR \<equiv> CHR 0x1F"

definition MAX_SCOPE_SEGMENT_LENGTH :: nat where
  "MAX_SCOPE_SEGMENT_LENGTH = 4096"

definition validateScopeSegment :: "string \<Rightarrow> js_error + unit" where
  "validateScopeSegment value =
     (if length value = 0 \<or> length value > MAX_SCOPE_SEGMENT_LENGTH
      then Inl (TypeErr ''must be a non-empty string no longer than 4096 characters'')
      else if SCOPE_SEPARATOR \<in> set value
      then Inl (TypeErr ''U+001F is reserved as the internal scope separator'')
      else Inr ())"

definition scope :: "string \<Rightarrow> string \<Rightarrow> string option \<Rightarrow> js_error + string" where
  "scope prin key extraScope =
     bindE (validateScopeSegment prin) (\<lambda>_.
     bindE (validateScopeSegment key) (\<lambda>_.
     bindE (case extraScope of None \<Rightarrow> Inr () | Some x \<Rightarrow> validateScopeSegment x) (\<lambda>_.
       Inr (case extraScope of
              Some x \<Rightarrow> if x \<noteq> [] then prin @ SCOPE_SEPARATOR # x @ SCOPE_SEPARATOR # key
                        else prin @ SCOPE_SEPARATOR # key
            | None \<Rightarrow> prin @ SCOPE_SEPARATOR # key))))"

section \<open>Payload hash\<close>

definition is_plain_object :: "'n jsval \<Rightarrow> bool" where
  "is_plain_object v \<longleftrightarrow> (case v of JObj _ \<Rightarrow> True | _ \<Rightarrow> False)"

fun member :: "jsstr \<Rightarrow> (jsstr \<times> 'v) list \<Rightarrow> 'v option" where
  "member k [] = None"
| "member k ((k', v) # ms) = (if k' = k then Some v else member k ms)"

text \<open>\<open>{ ...config, authentication: authCopy }\<close>: the member keeps its place.\<close>

definition set_member :: "jsstr \<Rightarrow> 'v \<Rightarrow> (jsstr \<times> 'v) list \<Rightarrow> (jsstr \<times> 'v) list" where
  "set_member k v ms = map (\<lambda>(k', v'). if k' = k then (k', v) else (k', v')) ms"

definition stripWebhookAuthenticationCredentials ::
    "(jsstr \<times> 'n jsval) list \<Rightarrow> (jsstr \<times> 'n jsval) list" where
  "stripWebhookAuthenticationCredentials config =
     (case member (js ''authentication'') config of
        Some (JObj auth) \<Rightarrow>
          set_member (js ''authentication'')
            (JObj (filter (\<lambda>(k, v). k \<noteq> js ''credentials'') auth)) config
      | _ \<Rightarrow> config)"

definition HASH_EXCLUSION_FIELDS :: "jsstr list" where
  "HASH_EXCLUSION_FIELDS = [js ''idempotency_key'', js ''governance_context'']"

definition strip_member :: "jsstr \<times> 'n jsval \<Rightarrow> (jsstr \<times> 'n jsval) option" where
  "strip_member m = (case m of (k, v) \<Rightarrow>
     if k \<in> set HASH_EXCLUSION_FIELDS then None
     else if k = js ''context'' \<and> is_plain_object v then None
     else if k = js ''push_notification_config'' \<or> k = js ''reporting_webhook'' then
       (case v of JObj config \<Rightarrow> Some (k, JObj (stripWebhookAuthenticationCredentials config))
        | _ \<Rightarrow> Some (k, v))
     else Some (k, v))"

definition stripExclusions :: "'n jsval \<Rightarrow> 'n jsval" where
  "stripExclusions payload =
     (case payload of JObj src \<Rightarrow> JObj (List.map_filter strip_member src) | _ \<Rightarrow> payload)"

definition hashPayload ::
    "('n \<Rightarrow> jsstr option) \<Rightarrow> (jsstr \<Rightarrow> string) \<Rightarrow> 'n jsval \<Rightarrow> js_error + string" where
  "hashPayload nt sha256_hex payload =
     canonicalJsonSha256PreservingLoneSurrogates nt sha256_hex (stripExclusions payload)"

section \<open>Configuration\<close>

definition MIN_TTL :: int where "MIN_TTL = 3600"
definition MAX_TTL :: int where "MAX_TTL = 604800"
definition DEFAULT_TTL :: int where "DEFAULT_TTL = 86400"
definition DEFAULT_CLOCK_SKEW :: int where "DEFAULT_CLOCK_SKEW = 60"
definition UNRESOLVED_RETAIN_UNTIL :: int where "UNRESOLVED_RETAIN_UNTIL = 253402300799"
definition TRANSIENT_ERROR_TTL_SECONDS :: int where "TRANSIENT_ERROR_TTL_SECONDS = 10"
definition IN_FLIGHT_RETRY_HINT_CAP_SECONDS :: int where "IN_FLIGHT_RETRY_HINT_CAP_SECONDS = 30"
definition MAX_SAFE_INTEGER :: int where "MAX_SAFE_INTEGER = 9007199254740991"

record store_cfg =
  ttlSeconds :: int
  clockSkewSeconds :: int

text \<open>
  The argument of \<open>validateTtl\<close> is a number; \<open>None\<close> stands for one that is not a finite
  integer.
\<close>

definition validateTtl :: "int option \<Rightarrow> js_error + int" where
  "validateTtl seconds =
     (case seconds of
        None \<Rightarrow> Inl (GenericErr ''ttlSeconds must be a finite integer'')
      | Some s \<Rightarrow>
          if s < MIN_TTL then Inl (GenericErr ''ttlSeconds must be >= 3600'')
          else if s > MAX_TTL then Inl (GenericErr ''ttlSeconds must be <= 604800'')
          else Inr s)"

text \<open>
  The checks of \<open>createIdempotencyStore\<close> on its numeric options: an omitted option is the
  outer \<open>None\<close>, a non-integer the inner one; \<open>legacy_grace\<close> is the backend's
  \<open>legacyRetentionGraceSeconds\<close>.  The presence checks on the backend's methods are static in
  the record type of backends.
\<close>

definition createIdempotencyStore ::
    "int option option \<Rightarrow> int option option \<Rightarrow> int option \<Rightarrow> js_error + store_cfg" where
  "createIdempotencyStore ttl skew legacy_grace =
     bindE (validateTtl (case ttl of None \<Rightarrow> Some DEFAULT_TTL | Some t \<Rightarrow> t)) (\<lambda>ttlSecs.
       case (case skew of None \<Rightarrow> Some DEFAULT_CLOCK_SKEW | Some s \<Rightarrow> s) of
         None \<Rightarrow> Inl (TypeErr ''clockSkewSeconds must be a non-negative safe integer.'')
       | Some s \<Rightarrow>
           if s > MAX_SAFE_INTEGER \<or> s < 0
           then Inl (TypeErr ''clockSkewSeconds must be a non-negative safe integer.'')
           else if (case legacy_grace of None \<Rightarrow> False | Some g \<Rightarrow> g < s)
           then Inl (TypeErr ''legacy retention grace must be at least clockSkewSeconds'')
           else Inr \<lparr>ttlSeconds = ttlSecs, clockSkewSeconds = s\<rparr>)"

section \<open>Claim tokens\<close>

definition IN_FLIGHT_HASH_PREFIX :: string where
  "IN_FLIGHT_HASH_PREFIX = ''__adcp_in_flight__:''"

definition RETRYABLE_HASH_PREFIX :: string where
  "RETRYABLE_HASH_PREFIX = ''__adcp_retryable__:''"

definition isInFlightHash :: "string \<Rightarrow> bool" where
  "isInFlightHash h \<longleftrightarrow> starts_with IN_FLIGHT_HASH_PREFIX h"

definition lower_hex :: "char \<Rightarrow> bool" where
  "lower_hex c \<longleftrightarrow> c \<in> set ''0123456789abcdef''"

text \<open>The regular expression \<open>/^[0-9a-f]{64}$/\<close>.\<close>

definition is_sha256_hex :: "string \<Rightarrow> bool" where
  "is_sha256_hex s \<longleftrightarrow> length s = 64 \<and> list_all lower_hex s"

definition reservedRequestHash :: "string \<Rightarrow> string \<Rightarrow> string option" where
  "reservedRequestHash token pre =
     (if \<not> starts_with pre token then None
      else let suffix = drop (length pre) token in
        case index_of CHR '':'' suffix of
          None \<Rightarrow> None
        | Some separator \<Rightarrow>
            let requestHash = take separator suffix in
            if is_sha256_hex requestHash then Some requestHash else None)"

definition inFlightRequestHash :: "string \<Rightarrow> string option" where
  "inFlightRequestHash claimToken = reservedRequestHash claimToken IN_FLIGHT_HASH_PREFIX"

definition retryableRequestHash :: "string \<Rightarrow> string option" where
  "retryableRequestHash marker = reservedRequestHash marker RETRYABLE_HASH_PREFIX"

definition claim_token :: "string \<Rightarrow> string \<Rightarrow> string" where
  "claim_token ph uuid = IN_FLIGHT_HASH_PREFIX @ ph @ CHR '':'' # uuid"

definition retryable_marker :: "string \<Rightarrow> string \<Rightarrow> string" where
  "retryable_marker ph uuid = RETRYABLE_HASH_PREFIX @ ph @ CHR '':'' # uuid"

definition inFlightRetryAfter :: "int \<Rightarrow> int \<Rightarrow> int" where
  "inFlightRetryAfter expires now = max 1 (min IN_FLIGHT_RETRY_HINT_CAP_SECONDS (expires - now))"

lemmas token_defs =
  claim_token_def retryable_marker_def isInFlightHash_def inFlightRequestHash_def
  retryableRequestHash_def reservedRequestHash_def

lemma not_lower_hex [simp]: "\<not> lower_hex CHR '':''" "\<not> lower_hex CHR ''_''"
  by (simp_all add: lower_hex_def)

lemma sha256_hex_no_colon: "is_sha256_hex s \<Longrightarrow> CHR '':'' \<notin> set s"
  unfolding is_sha256_hex_def list_all_iff using not_lower_hex(1) by blast

lemma claim_token_inFlight [simp]: "isInFlightHash (claim_token ph u)"
  by (simp add: isInFlightHash_def claim_token_def)

lemma claim_token_request [simp]: "is_sha256_hex ph \<Longrightarrow> inFlightRequestHash (claim_token ph u) = Some ph"
  by (simp add: inFlightRequestHash_def reservedRequestHash_def claim_token_def sha256_hex_no_colon)

lemma marker_request [simp]:
  "is_sha256_hex ph \<Longrightarrow> retryableRequestHash (retryable_marker ph u) = Some ph"
  by (simp add: retryableRequestHash_def reservedRequestHash_def retryable_marker_def sha256_hex_no_colon)

lemma claim_token_eq_iff [simp]:
  "is_sha256_hex p \<Longrightarrow> is_sha256_hex q \<Longrightarrow> claim_token p u = claim_token q w \<longleftrightarrow> p = q \<and> u = w"
  by (auto simp: claim_token_def is_sha256_hex_def)

lemma retryable_not_inFlight: "retryableRequestHash h = Some p \<Longrightarrow> \<not> isInFlightHash h"
  by (auto simp: token_defs starts_with_def IN_FLIGHT_HASH_PREFIX_def RETRYABLE_HASH_PREFIX_def
      split: if_splits)

lemma marker_not_inFlight [simp]: "\<not> isInFlightHash (retryable_marker ph u)"
  by (simp add: isInFlightHash_def starts_with_def retryable_marker_def IN_FLIGHT_HASH_PREFIX_def
      RETRYABLE_HASH_PREFIX_def)

lemma sha256_hex_plain:
  assumes "is_sha256_hex h"
  shows "\<not> isInFlightHash h" "retryableRequestHash h = None"
proof -
  have "h \<noteq> []" using assms by (auto simp: is_sha256_hex_def)
  then obtain c cs where h: "h = c # cs" by (cases h) auto
  have "lower_hex c" using assms h by (simp add: is_sha256_hex_def)
  then have "c \<noteq> CHR ''_''" using not_lower_hex(2) by blast
  then show "\<not> isInFlightHash h" "retryableRequestHash h = None"
    using h by (simp_all add: token_defs starts_with_def IN_FLIGHT_HASH_PREFIX_def RETRYABLE_HASH_PREFIX_def)
qed

lemma claim_token_retryable [simp]: "retryableRequestHash (claim_token ph u) = None"
  by (simp add: token_defs starts_with_def IN_FLIGHT_HASH_PREFIX_def RETRYABLE_HASH_PREFIX_def)

section \<open>The check machine\<close>

datatype 'r check_result =
    Replay "'r option"
  | Conflict
  | Expired
  | InFlight (retryAfterSeconds: int)
  | Miss (miss_hash: string) (miss_token: string)

text \<open>Where a call of \<open>check\<close> is suspended, with the values it holds there.\<close>

datatype 'r check_pc =
    Start
  | GotCached "'r cache_entry option"
  | TriedReclaim string int bool
  | GotRaced int "'r cache_entry option"
  | TriedClaim string int bool
  | GotRecheck "'r cache_entry option"
  | TriedFence string int bool
  | Done "'r check_result"

definition claim_entry :: "string \<Rightarrow> int \<Rightarrow> int \<Rightarrow> 'r cache_entry" where
  "claim_entry token expires retain =
     \<lparr>payloadHash = token, response = None, expiresAt = expires, retainUntil = Some retain\<rparr>"

text \<open>The result for an entry that is neither in flight nor retryable.\<close>

definition replay_or_conflict :: "string \<Rightarrow> 'r cache_entry \<Rightarrow> 'r check_result" where
  "replay_or_conflict ph e = (if payloadHash e \<noteq> ph then Conflict else Replay (response e))"

definition raced_result :: "string \<Rightarrow> int \<Rightarrow> 'r cache_entry option \<Rightarrow> 'r check_result" where
  "raced_result ph nowSeconds raced =
     (case raced of
        None \<Rightarrow> InFlight 1
      | Some r \<Rightarrow>
          let racedRequestHash =
            (case retryableRequestHash (payloadHash r) of
               Some h \<Rightarrow> Some h | None \<Rightarrow> inFlightRequestHash (payloadHash r)) in
          if racedRequestHash \<noteq> None \<and> racedRequestHash \<noteq> Some ph then Conflict
          else if retryableRequestHash (payloadHash r) \<noteq> None then InFlight 1
          else if isInFlightHash (payloadHash r)
          then InFlight (inFlightRetryAfter (expiresAt r) nowSeconds)
          else replay_or_conflict ph r)"

definition recheck_result :: "string \<Rightarrow> int \<Rightarrow> 'r cache_entry option \<Rightarrow> 'r check_result" where
  "recheck_result ph nowSeconds recheck =
     (case recheck of
        None \<Rightarrow> InFlight 1
      | Some r \<Rightarrow>
          if isInFlightHash (payloadHash r) then
            (if inFlightRequestHash (payloadHash r) \<noteq> None
                \<and> inFlightRequestHash (payloadHash r) \<noteq> Some ph
             then Conflict
             else InFlight (inFlightRetryAfter (expiresAt r) nowSeconds))
          else (case retryableRequestHash (payloadHash r) of
              Some releasedPayloadHash \<Rightarrow>
                if releasedPayloadHash \<noteq> ph then Conflict else InFlight 1
            | None \<Rightarrow> replay_or_conflict ph r))"

text \<open>The entry found by the first read, when it is no retryable marker.\<close>

definition cached_result :: "int \<Rightarrow> string \<Rightarrow> int \<Rightarrow> 'r cache_entry \<Rightarrow> 'r check_result" where
  "cached_result skew ph nowSeconds cached =
     (if isInFlightHash (payloadHash cached) then
        (if inFlightRequestHash (payloadHash cached) \<noteq> None
            \<and> inFlightRequestHash (payloadHash cached) \<noteq> Some ph
         then Conflict
         else if expiresAt cached \<ge> nowSeconds
         then InFlight (inFlightRetryAfter (expiresAt cached) nowSeconds)
         else if expiresAt cached + skew \<ge> nowSeconds then InFlight 1
         else InFlight 1)
      else if expiresAt cached + skew < nowSeconds then Expired
      else replay_or_conflict ph cached)"

text \<open>One step of \<open>check\<close>: from one await to the next.\<close>

definition check_step ::
    "('s, 'r) idem_backend_ops \<Rightarrow> store_cfg \<Rightarrow> string \<Rightarrow> string \<Rightarrow> int \<Rightarrow> string
      \<Rightarrow> 'r check_pc \<Rightarrow> 's \<Rightarrow> 'r check_pc \<times> 's" where
  "check_step bk cfg scopedKey ph now uuid pc st =
     (case pc of
        Start \<Rightarrow> (GotCached (op_get bk st scopedKey), st)
      | GotCached (Some cached) \<Rightarrow>
          (case retryableRequestHash (payloadHash cached) of
             Some retryablePayloadHash \<Rightarrow>
               if expiresAt cached + clockSkewSeconds cfg < now then (Done Expired, st)
               else if retryablePayloadHash \<noteq> ph then (Done Conflict, st)
               else
                 let expires = now + ttlSeconds cfg;
                     retain = expires + clockSkewSeconds cfg;
                     token = claim_token ph uuid;
                     (reclaimed, st') = op_replaceIfPayloadHash bk st scopedKey (payloadHash cached)
                                          (claim_entry token expires retain)
                 in (TriedReclaim token now reclaimed, st')
           | None \<Rightarrow> (Done (cached_result (clockSkewSeconds cfg) ph now cached), st))
      | GotCached None \<Rightarrow>
          let expires = now + ttlSeconds cfg;
              token = claim_token ph uuid;
              (claimed, st') = op_putIfAbsent bk st scopedKey
                                 (claim_entry token expires UNRESOLVED_RETAIN_UNTIL)
          in (TriedClaim token expires claimed, st')
      | TriedReclaim token nowSeconds reclaimed \<Rightarrow>
          if reclaimed then (Done (Miss ph token), st)
          else (GotRaced nowSeconds (op_get bk st scopedKey), st)
      | GotRaced nowSeconds raced \<Rightarrow> (Done (raced_result ph nowSeconds raced), st)
      | TriedClaim token expires claimed \<Rightarrow>
          if \<not> claimed then (GotRecheck (op_get bk st scopedKey), st)
          else
            let (fenced, st') = op_replaceIfPayloadHash bk st scopedKey token
                                  (claim_entry token expires UNRESOLVED_RETAIN_UNTIL)
            in (TriedFence token expires fenced, st')
      | GotRecheck recheck \<Rightarrow> (Done (recheck_result ph now recheck), st)
      | TriedFence token expires fenced \<Rightarrow>
          if fenced then (Done (Miss ph token), st)
          else (Done (InFlight (inFlightRetryAfter expires now)), st)
      | Done r \<Rightarrow> (Done r, st))"

text \<open>
  \<open>check\<close> with no other request in between and a clock that stands still: five steps always
  reach the result.
\<close>

fun check_steps ::
    "nat \<Rightarrow> ('s, 'r) idem_backend_ops \<Rightarrow> store_cfg \<Rightarrow> string \<Rightarrow> string \<Rightarrow> int \<Rightarrow> string
      \<Rightarrow> 'r check_pc \<times> 's \<Rightarrow> 'r check_pc \<times> 's" where
  "check_steps 0 bk cfg k ph now uuid c = c"
| "check_steps (Suc n) bk cfg k ph now uuid c =
     check_steps n bk cfg k ph now uuid (check_step bk cfg k ph now uuid (fst c) (snd c))"

definition check ::
    "('s, 'r) idem_backend_ops \<Rightarrow> store_cfg \<Rightarrow> string \<Rightarrow> string \<Rightarrow> int \<Rightarrow> string
      \<Rightarrow> 's \<Rightarrow> 'r check_pc \<times> 's" where
  "check bk cfg scopedKey ph now uuid st = check_steps 5 bk cfg scopedKey ph now uuid (Start, st)"

section \<open>Renew, save, release\<close>

definition ownership_error :: "string \<Rightarrow> js_error" where
  "ownership_error action = GenericErr (''IdempotencyClaimOwnershipError: '' @ action)"

definition fenced_write ::
    "('s, 'r) idem_backend_ops \<Rightarrow> string \<Rightarrow> string \<Rightarrow> string \<Rightarrow> 'r cache_entry \<Rightarrow> 's
      \<Rightarrow> (js_error + unit) \<times> 's" where
  "fenced_write bk action scopedKey claimToken e st =
     (let (ok, st') = op_replaceIfPayloadHash bk st scopedKey claimToken e
      in (if ok then Inr () else Inl (ownership_error action), st'))"

definition renew ::
    "('s, 'r) idem_backend_ops \<Rightarrow> store_cfg \<Rightarrow> string \<Rightarrow> string \<Rightarrow> int \<Rightarrow> 's
      \<Rightarrow> (js_error + unit) \<times> 's" where
  "renew bk cfg scopedKey claimToken now st =
     (if claimToken = [] \<or> \<not> isInFlightHash claimToken
      then (Inl (GenericErr ''Idempotency renew requires the claimToken returned by check().''), st)
      else fenced_write bk ''renew'' scopedKey claimToken
             (claim_entry claimToken (now + ttlSeconds cfg) UNRESOLVED_RETAIN_UNTIL) st)"

definition save ::
    "('s, 'r) idem_backend_ops \<Rightarrow> store_cfg \<Rightarrow> string \<Rightarrow> string \<Rightarrow> string \<Rightarrow> 'r option \<Rightarrow> int \<Rightarrow> 's
      \<Rightarrow> (js_error + unit) \<times> 's" where
  "save bk cfg scopedKey ph claimToken resp now st =
     (let expires = now + ttlSeconds cfg in
      if claimToken = [] \<or> \<not> isInFlightHash claimToken
      then (Inl (GenericErr ''Idempotency save requires the claimToken returned by check().''), st)
      else fenced_write bk ''save'' scopedKey claimToken
             \<lparr>payloadHash = ph, response = resp, expiresAt = expires,
              retainUntil = Some (expires + clockSkewSeconds cfg)\<rparr> st)"

definition release ::
    "('s, 'r) idem_backend_ops \<Rightarrow> store_cfg \<Rightarrow> string \<Rightarrow> string \<Rightarrow> int \<Rightarrow> string \<Rightarrow> 's
      \<Rightarrow> (js_error + unit) \<times> 's" where
  "release bk cfg scopedKey claimToken now uuid st =
     (case (if claimToken = [] then None else inFlightRequestHash claimToken) of
        None \<Rightarrow> (Inl (GenericErr ''Idempotency release requires the claimToken returned by check().''), st)
      | Some ph \<Rightarrow>
          let expires = now + ttlSeconds cfg in
          fenced_write bk ''release'' scopedKey claimToken
            \<lparr>payloadHash = retryable_marker ph uuid, response = None, expiresAt = expires,
             retainUntil = Some (expires + clockSkewSeconds cfg)\<rparr> st)"

definition saveTransientError ::
    "('s, 'r) idem_backend_ops \<Rightarrow> store_cfg \<Rightarrow> string \<Rightarrow> string \<Rightarrow> string \<Rightarrow> 'r option \<Rightarrow> int \<Rightarrow> 's
      \<Rightarrow> (js_error + unit) \<times> 's" where
  "saveTransientError bk cfg scopedKey ph claimToken resp now st =
     (let expires = now + TRANSIENT_ERROR_TTL_SECONDS in
      if claimToken = [] \<or> \<not> isInFlightHash claimToken
      then (Inl (GenericErr ''Idempotency transient-error save requires the claimToken returned by check().''), st)
      else fenced_write bk ''transient-error save'' scopedKey claimToken
             \<lparr>payloadHash = ph, response = resp, expiresAt = expires,
              retainUntil = Some (expires + clockSkewSeconds cfg)\<rparr> st)"

lemma claim_token_not_Nil [simp]: "claim_token ph u \<noteq> []" "[] \<noteq> claim_token ph u"
  by (auto simp: claim_token_def IN_FLIGHT_HASH_PREFIX_def)

lemma inFlightRetryAfter_range:
  "1 \<le> inFlightRetryAfter e n \<and> inFlightRetryAfter e n \<le> IN_FLIGHT_RETRY_HINT_CAP_SECONDS"
  by (auto simp: inFlightRetryAfter_def IN_FLIGHT_RETRY_HINT_CAP_SECONDS_def)

section \<open>The sequential contract on a lawful backend\<close>

text \<open>A completed entry as \<open>save\<close> leaves it.\<close>

definition completed_entry :: "string \<Rightarrow> 'r option \<Rightarrow> int \<Rightarrow> 'r cache_entry \<Rightarrow> bool" where
  "completed_entry ph resp expires e \<longleftrightarrow>
     payloadHash e = ph \<and> response e = resp \<and> expiresAt e = expires"

lemma check_pc_done: "check_steps n bk cfg k ph now uuid (Done r, st) = (Done r, st)"
  by (induction n) (simp_all add: check_step_def)

context idem_backend begin

lemma check_existing:
  assumes "op_get bk st k = Some e" "retryableRequestHash (payloadHash e) = None"
  shows "check bk cfg k ph now uuid st = (Done (cached_result (clockSkewSeconds cfg) ph now e), st)"
  using assms by (simp add: check_def numeral_eq_Suc check_step_def)

lemma check_completed:
  assumes "op_get bk st k = Some e" "completed_entry h resp expires e" "is_sha256_hex h"
  shows "check bk cfg k ph now uuid st =
     (Done (if expires + clockSkewSeconds cfg < now then Expired
            else if h \<noteq> ph then Conflict else Replay resp), st)"
proof -
  have "payloadHash e = h" "response e = resp" "expiresAt e = expires"
    using assms(2) by (simp_all add: completed_entry_def)
  then show ?thesis
    using assms(3) sha256_hex_plain [of h] check_existing [OF assms(1)]
    by (simp add: cached_result_def replay_or_conflict_def)
qed

lemma check_fresh:
  assumes "op_get bk st k = None"
  obtains st' e where "check bk cfg k ph now uuid st = (Done (Miss ph (claim_token ph uuid)), st')"
    "op_get bk st' = (op_get bk st)(k \<mapsto> e)" "payloadHash e = claim_token ph uuid"
    "expiresAt e = now + ttlSeconds cfg"
proof -
  let ?e = "claim_entry (claim_token ph uuid) (now + ttlSeconds cfg) UNRESOLVED_RETAIN_UNTIL"
  obtain b1 st1 where p: "op_putIfAbsent bk st k ?e = (b1, st1)" by (cases "op_putIfAbsent bk st k ?e")
  obtain b2 st2 where r: "op_replaceIfPayloadHash bk st1 k (claim_token ph uuid) ?e = (b2, st2)"
    by (cases "op_replaceIfPayloadHash bk st1 k (claim_token ph uuid) ?e")
  have b1: "b1" and g1: "op_get bk st1 = (op_get bk st)(k \<mapsto> stamp ?e)"
    using putIfAbsent [OF p] assms by auto
  have b2: "b2" and g2: "op_get bk st2 = (op_get bk st)(k \<mapsto> stamp ?e)"
    using replaceIf [OF r] g1 by (auto simp: stamp_hash claim_entry_def)
  have c: "check bk cfg k ph now uuid st = (Done (Miss ph (claim_token ph uuid)), st2)"
    using assms p r b1 b2 by (simp add: check_def numeral_eq_Suc check_step_def)
  show ?thesis using that [OF c g2] by (simp add: stamp_hash stamp_expiry claim_entry_def)
qed

lemma fenced_write_owner:
  assumes "op_get bk st k = Some e" "payloadHash e = token"
  obtains st' where "fenced_write bk action k token e' st = (Inr (), st')"
    "op_get bk st' = (op_get bk st)(k \<mapsto> stamp e')"
  using assms replaceIf [of st k token e'] by (cases "op_replaceIfPayloadHash bk st k token e'")
    (auto simp: fenced_write_def)

lemma fenced_write_stranger:
  assumes "\<forall>e. op_get bk st k = Some e \<longrightarrow> payloadHash e \<noteq> token"
  obtains st' where "fenced_write bk action k token e' st = (Inl (ownership_error action), st')"
    "op_get bk st' = op_get bk st"
proof -
  obtain b st' where r: "op_replaceIfPayloadHash bk st k token e' = (b, st')"
    by (cases "op_replaceIfPayloadHash bk st k token e'")
  have "\<not> b" "op_get bk st' = op_get bk st" using replaceIf [OF r] assms by auto
  then show ?thesis using that [of st'] r by (simp add: fenced_write_def)
qed

end

section \<open>Properties\<close>

lemma scope_Inr_iff:
  "scope p k x = Inr s \<longleftrightarrow>
     validateScopeSegment p = Inr () \<and> validateScopeSegment k = Inr ()
     \<and> (case x of None \<Rightarrow> s = p @ SCOPE_SEPARATOR # k
        | Some y \<Rightarrow> validateScopeSegment y = Inr () \<and> s = p @ SCOPE_SEPARATOR # y @ SCOPE_SEPARATOR # k)"
  by (auto simp: scope_def bindE_eq_Inr_iff validateScopeSegment_def split: option.splits if_splits)

lemma segment_ok: "validateScopeSegment v = Inr () \<Longrightarrow> SCOPE_SEPARATOR \<notin> set v"
  by (auto simp: validateScopeSegment_def split: if_splits)

text \<open>
  Scope keys separate tenants: two requests have the same scoped key only if principal, key
  and extra scope all agree, so no choice of key or session lets one principal reach another's
  cached response.
\<close>

theorem scope_injective:
  assumes "scope p k x = Inr s" "scope p' k' x' = Inr s"
  shows "p = p' \<and> k = k' \<and> x = x'"
proof -
  note d = assms [unfolded scope_Inr_iff]
  have sep: "SCOPE_SEPARATOR \<notin> set p" "SCOPE_SEPARATOR \<notin> set p'" "SCOPE_SEPARATOR \<notin> set k"
    "SCOPE_SEPARATOR \<notin> set k'" using d segment_ok by blast+
  let ?rest = "\<lambda>k x. case x of None \<Rightarrow> k | Some y \<Rightarrow> y @ SCOPE_SEPARATOR # k"
  have "s = p @ SCOPE_SEPARATOR # ?rest k x" "s = p' @ SCOPE_SEPARATOR # ?rest k' x'"
    using d by (auto split: option.splits)
  then have p: "p = p'" and r: "?rest k x = ?rest k' x'"
    using sep_append_inj [of p SCOPE_SEPARATOR _ p'] sep by blast+
  show ?thesis
  proof (cases x; cases x')
    fix y y' assume x: "x = Some y" "x' = Some y'"
    then have "SCOPE_SEPARATOR \<notin> set y" "SCOPE_SEPARATOR \<notin> set y'" using d segment_ok by auto
    then show ?thesis using p r x sep_append_inj [of y SCOPE_SEPARATOR k y' k'] by simp
  qed (use p r sep in auto)
qed

theorem scope_injective_witness:
  "{(p, k, x). scope p k x = Inr (''acct'' @ SCOPE_SEPARATOR # ''s'' @ SCOPE_SEPARATOR # ''key-1'')}
     = {(''acct'', ''key-1'', Some ''s'')}"
proof -
  have s: "scope ''acct'' ''key-1'' (Some ''s'')
      = Inr (''acct'' @ SCOPE_SEPARATOR # ''s'' @ SCOPE_SEPARATOR # ''key-1'')"
    by (simp add: scope_Inr_iff validateScopeSegment_def MAX_SCOPE_SEGMENT_LENGTH_def)
  then show ?thesis using scope_injective [OF s] by blast
qed

text \<open>
  A retry after the first request has been saved.  On the in-process backend, the first
  check of an unused key is a miss, its save succeeds, and from then on a check replays the saved
  response for the same payload hash and reports a conflict for any other, until the replay
  window plus the clock skew is over; after that the key is expired.  No check re-executes.
\<close>

theorem save_then_check:
  assumes "is_sha256_hex h" "mem_get st k = None"
  shows "case check memoryBackend cfg k h t0 u0 st of (pc, st1) \<Rightarrow>
      pc = Done (Miss h (claim_token h u0)) \<and>
      (case save memoryBackend cfg k h (claim_token h u0) resp t1 st1 of (res, st2) \<Rightarrow>
        res = Inr () \<and>
        check memoryBackend cfg k ph t2 u2 st2 =
          (Done (if t1 + ttlSeconds cfg + clockSkewSeconds cfg < t2 then Expired
                 else if h \<noteq> ph then Conflict else Replay resp), st2))"
proof -
  let ?e = "\<lparr>payloadHash = h, response = resp, expiresAt = t1 + ttlSeconds cfg,
       retainUntil = Some (t1 + ttlSeconds cfg + clockSkewSeconds cfg)\<rparr>"
  have none: "op_get memoryBackend st k = None" using assms(2) by simp
  obtain st1 e where c: "check memoryBackend cfg k h t0 u0 st = (Done (Miss h (claim_token h u0)), st1)"
    and g: "op_get memoryBackend st1 = (op_get memoryBackend st)(k \<mapsto> e)" "payloadHash e = claim_token h u0"
    using mem.check_fresh [OF none, of cfg h t0 u0] by metis
  obtain st2 where s: "fenced_write memoryBackend ''save'' k (claim_token h u0) ?e st1 = (Inr (), st2)"
    "op_get memoryBackend st2 = (op_get memoryBackend st1)(k \<mapsto> cloneEntry ?e)"
    using mem.fenced_write_owner [of st1 k e "claim_token h u0" "''save''" ?e] g by (metis fun_upd_same)
  have sv: "save memoryBackend cfg k h (claim_token h u0) resp t1 st1 = (Inr (), st2)"
    using s(1) by (simp add: save_def Let_def)
  have "op_get memoryBackend st2 k = Some (cloneEntry ?e)"
    "completed_entry h resp (t1 + ttlSeconds cfg) (cloneEntry ?e)"
    using s(2) by (simp_all add: completed_entry_def)
  note later = mem.check_completed [OF this assms(1), of cfg ph t2 u2]
  show ?thesis using c sv later by simp
qed

definition demo_hash :: string where
  "demo_hash = replicate 64 CHR ''a''"

lemma demo_hash_hex: "is_sha256_hex demo_hash"
  by (simp add: demo_hash_def is_sha256_hex_def lower_hex_def list_all_iff)

definition demo_cfg :: store_cfg where
  "demo_cfg = \<lparr>ttlSeconds = 3600, clockSkewSeconds = 60\<rparr>"

theorem save_then_check_witness:
  "case check memoryBackend demo_cfg ''k'' demo_hash 0 ''u0'' (Map.empty :: int mem_store) of (pc, st1) \<Rightarrow>
     pc = Done (Miss demo_hash (claim_token demo_hash ''u0'')) \<and>
     (case save memoryBackend demo_cfg ''k'' demo_hash (claim_token demo_hash ''u0'') (Some 7) 10 st1 of (res, st2) \<Rightarrow>
       res = Inr () \<and>
       check memoryBackend demo_cfg ''k'' demo_hash 3670 ''u2'' st2 = (Done (Replay (Some 7)), st2))"
  using save_then_check [OF demo_hash_hex, where st = Map.empty and k = "''k''" and cfg = demo_cfg
      and ?t0.0 = 0 and ?u0.0 = "''u0''" and resp = "Some 7" and ?t1.0 = 10 and ph = demo_hash
      and ?t2.0 = 3670 and ?u2.0 = "''u2''"]
  by (simp add: mem_get_def demo_cfg_def)

text \<open>
  Whatever the backend holds and whenever the step runs, the retry hint that a check gives to
  a request it turns away is between one second and the cap of thirty seconds.
\<close>

theorem retry_hint_bounds:
  assumes "check_step bk cfg k ph now uuid pc st = (Done (InFlight n), st')" "pc \<noteq> Done (InFlight n)"
  shows "1 \<le> n \<and> n \<le> 30"
proof -
  note d = check_step_def cached_result_def raced_result_def recheck_result_def
    replay_or_conflict_def Let_def
  have "n = 1 \<or> (\<exists>e t. n = inFlightRetryAfter e t)"
    using assms by (cases pc) (auto simp: d split: option.splits if_splits prod.splits)
  then show ?thesis
    using inFlightRetryAfter_range by (auto simp: IN_FLIGHT_RETRY_HINT_CAP_SECONDS_def)
qed

theorem retry_hint_bounds_witness:
  "check_step memoryBackend demo_cfg ''k'' ''h'' 100 ''u'' (GotRecheck (Some
      (claim_entry (claim_token demo_hash ''u0'') 105 200) :: int cache_entry option)) Map.empty
     = (Done Conflict, Map.empty)
   \<and> check_step memoryBackend demo_cfg ''k'' demo_hash 100 ''u'' (GotRecheck (Some
      (claim_entry (claim_token demo_hash ''u0'') 105 200) :: int cache_entry option)) Map.empty
     = (Done (InFlight 5), Map.empty) \<and> (1 :: int) \<le> 5 \<and> (5 :: int) \<le> 30"
proof -
  have r: "inFlightRequestHash (claim_token demo_hash ''u0'') = Some demo_hash"
    using demo_hash_hex by simp
  have ne: "demo_hash \<noteq> ''h''" by (simp add: demo_hash_def numeral_eq_Suc)
  have s: "check_step memoryBackend demo_cfg ''k'' demo_hash 100 ''u'' (GotRecheck (Some
      (claim_entry (claim_token demo_hash ''u0'') 105 200) :: int cache_entry option)) Map.empty
     = (Done (InFlight 5), Map.empty)"
    by (simp add: check_step_def recheck_result_def claim_entry_def r inFlightRetryAfter_def
        IN_FLIGHT_RETRY_HINT_CAP_SECONDS_def)
  have "(1 :: int) \<le> 5 \<and> (5 :: int) \<le> 30" by (rule retry_hint_bounds [OF s]) simp
  then show ?thesis using s r ne by (simp add: check_step_def recheck_result_def claim_entry_def)
qed

text \<open>
  Store construction accepts exactly an integer replay window of one hour to seven days
  together with a non-negative safe-integer clock skew the backend can retain, and keeps those
  values unclamped.
\<close>

theorem createIdempotencyStore_accepts_iff:
  "createIdempotencyStore (Some (Some t)) (Some (Some s)) g = Inr c \<longleftrightarrow>
     3600 \<le> t \<and> t \<le> 604800 \<and> 0 \<le> s \<and> s \<le> MAX_SAFE_INTEGER
     \<and> (case g of None \<Rightarrow> True | Some x \<Rightarrow> s \<le> x) \<and> c = \<lparr>ttlSeconds = t, clockSkewSeconds = s\<rparr>"
  by (auto simp: createIdempotencyStore_def validateTtl_def MIN_TTL_def MAX_TTL_def split: option.splits)

text \<open>
  The text that is hashed: rotating what the exclusion list names does not change it.
\<close>

definition same_after_strip :: "jsstr \<times> 'n jsval \<Rightarrow> jsstr \<times> 'n jsval \<Rightarrow> bool" where
  "same_after_strip m n \<longleftrightarrow> strip_member m = strip_member n"

lemma strip_members_cong:
  "list_all2 same_after_strip ms ns \<Longrightarrow> List.map_filter strip_member ms = List.map_filter strip_member ns"
  by (induction rule: list_all2_induct) (auto simp: same_after_strip_def List.map_filter_simps split: option.splits)

text \<open>
  Two payloads are hashed to the same digest input exactly when, after the exclusion list is
  removed, they mean the same JSON value; so a retry with rotated keys, tokens, context or webhook
  credentials is a replay and a retry with any other change is a conflict (up to SHA-256).  The
  texts are taken to be well-formed Unicode.
\<close>

theorem hash_input_iff_same_request:
  assumes "num_text_ok nt"
    and "canonicalize nt (stripExclusions v) = Inr s" "canonicalize nt (stripExclusions w) = Inr t"
    and "well_formed_utf16 s" "well_formed_utf16 t"
  shows "hashPayload nt sha v = Inr (sha (escapeLoneSurrogates s))
      \<and> (escapeLoneSurrogates s = escapeLoneSurrogates t
          \<longleftrightarrow> norm nt (stripExclusions v) = norm nt (stripExclusions w))"
proof -
  have "s = t \<longleftrightarrow> norm nt (stripExclusions v) = norm nt (stripExclusions w)"
    using same_text_iff [OF assms(1-3)] .
  then show ?thesis
    using assms(2,4,5)
    by (simp add: escapeLoneSurrogates_id hashPayload_def canonicalJsonSha256PreservingLoneSurrogates_def)
qed

definition demo_request :: "string \<Rightarrow> nat \<Rightarrow> nat jsval" where
  "demo_request key budget = JObj [(js ''idempotency_key'', JStr (js key)), (js ''budget'', JNum budget)]"

theorem hash_input_iff_same_request_witness:
  "hashPayload demo_num (\<lambda>t. map (\<lambda>w. char_of (unat w)) t) (demo_request ''key-1'' 5)
     = Inr (''{'' @ CHR 0x22 # ''budget'' @ CHR 0x22 # '':5}'')
   \<and> norm demo_num (stripExclusions (demo_request ''key-1'' 5))
       = norm demo_num (stripExclusions (demo_request ''key-2'' 5))"
proof -
  let ?s = "js ''{'' @ 34 # js ''budget'' @ 34 # js '':5}''"
  have c: "canonicalize demo_num (stripExclusions (demo_request ''key-1'' 5)) = Inr ?s"
    "canonicalize demo_num (stripExclusions (demo_request ''key-2'' 5)) = Inr ?s"
    "well_formed_utf16 ?s" by code_simp+
  have "map (\<lambda>w. char_of (unat w)) (escapeLoneSurrogates ?s) = ''{'' @ CHR 0x22 # ''budget'' @ CHR 0x22 # '':5}''"
    by code_simp
  with hash_input_iff_same_request [OF demo_num_ok c(1) c(2) c(3) c(3)] show ?thesis by simp
qed

end
