(* ===== verification/IdempotencyConcurrency.thy ===== *)
theory IdempotencyConcurrency
  imports IdempotencyStore
begin

text \<open>
  Many requests against one store (\<open>src/lib/server/idempotency/store.ts\<close>).  Request \<open>i\<close> has a
  scoped key \<open>keyOf i\<close> and a payload hash \<open>hashOf i\<close>; the requests take the steps of
  \<open>check\<close> in any order, with any clock readings, and an owner may renew, save or release.
  The backend may also prune entries that are not claims in flight.  The invariant is that a
  request that holds a claim finds its own token in the backend, and that no two requests hold
  the same token.
\<close>

section \<open>The system\<close>

datatype 'r client = Checking "'r check_pc" | Finished

record ('s, 'r) idem_sys =
  be :: 's
  cl :: "nat \<Rightarrow> 'r client"
  used :: "string set"

text \<open>The token a request holds: it won the claim and has neither published nor released.\<close>

fun claims :: "'r client \<Rightarrow> string option" where
  "claims (Checking (TriedReclaim tok n True)) = Some tok"
| "claims (Checking (TriedClaim tok n True)) = Some tok"
| "claims (Checking (TriedFence tok n True)) = Some tok"
| "claims (Checking (Done (Miss h tok))) = Some tok"
| "claims _ = None"

definition owns :: "('s, 'r) idem_sys \<Rightarrow> nat \<Rightarrow> string \<Rightarrow> string \<Rightarrow> bool" where
  "owns s i h tok \<longleftrightarrow> cl s i = Checking (Done (Miss h tok))"

inductive idem_step ::
    "('s, 'r) idem_backend_ops \<Rightarrow> store_cfg \<Rightarrow> (nat \<Rightarrow> string) \<Rightarrow> (nat \<Rightarrow> string)
      \<Rightarrow> ('s, 'r) idem_sys \<Rightarrow> ('s, 'r) idem_sys \<Rightarrow> bool"
  for bk cfg keyOf hashOf where
  check_moves: "cl s i = Checking pc \<Longrightarrow> u \<notin> used s \<Longrightarrow>
     check_step bk cfg (keyOf i) (hashOf i) now u pc (be s) = (pc', st') \<Longrightarrow>
     idem_step bk cfg keyOf hashOf s
       (s\<lparr>be := st', cl := (cl s)(i := Checking pc'), used := insert u (used s)\<rparr>)"
| renews: "owns s i h tok \<Longrightarrow> renew bk cfg (keyOf i) tok now (be s) = (res, st') \<Longrightarrow>
     idem_step bk cfg keyOf hashOf s (s\<lparr>be := st'\<rparr>)"
| saves: "owns s i h tok \<Longrightarrow> save bk cfg (keyOf i) h tok resp now (be s) = (res, st') \<Longrightarrow>
     idem_step bk cfg keyOf hashOf s (s\<lparr>be := st', cl := (cl s)(i := Finished)\<rparr>)"
| saves_error: "owns s i h tok \<Longrightarrow>
     saveTransientError bk cfg (keyOf i) h tok resp now (be s) = (res, st') \<Longrightarrow>
     idem_step bk cfg keyOf hashOf s (s\<lparr>be := st', cl := (cl s)(i := Finished)\<rparr>)"
| releases: "owns s i h tok \<Longrightarrow> release bk cfg (keyOf i) tok now u (be s) = (res, st') \<Longrightarrow>
     idem_step bk cfg keyOf hashOf s (s\<lparr>be := st', cl := (cl s)(i := Finished)\<rparr>)"
| prunes: "(\<And>k. op_get bk st' k = None \<or> op_get bk st' k = op_get bk (be s) k) \<Longrightarrow>
     (\<And>k e. op_get bk (be s) k = Some e \<Longrightarrow> isInFlightHash (payloadHash e) \<Longrightarrow>
             op_get bk st' k = Some e) \<Longrightarrow>
     idem_step bk cfg keyOf hashOf s (s\<lparr>be := st'\<rparr>)"

definition idem_init :: "'s \<Rightarrow> ('s, 'r) idem_sys" where
  "idem_init st = \<lparr>be = st, cl = (\<lambda>_. Checking Start), used = {}\<rparr>"

section \<open>The invariant, over what the backend shows\<close>

definition claim_inv ::
    "(nat \<Rightarrow> string) \<Rightarrow> (nat \<Rightarrow> string) \<Rightarrow> (string \<Rightarrow> 'r cache_entry option)
      \<Rightarrow> (nat \<Rightarrow> string option) \<Rightarrow> string set \<Rightarrow> bool" where
  "claim_inv keyOf hashOf g c U \<longleftrightarrow>
     (\<forall>i tok. c i = Some tok \<longrightarrow>
        (\<exists>e. g (keyOf i) = Some e \<and> payloadHash e = tok) \<and> (\<exists>u \<in> U. tok = claim_token (hashOf i) u))
     \<and> (\<forall>i j tok. c i = Some tok \<longrightarrow> c j = Some tok \<longrightarrow> i = j)"

lemma claim_invD:
  assumes "claim_inv keyOf hashOf g c U" "c i = Some tok"
  shows "\<exists>e. g (keyOf i) = Some e \<and> payloadHash e = tok"
    and "\<exists>u \<in> U. tok = claim_token (hashOf i) u"
    and "c j = Some tok \<Longrightarrow> i = j"
  using assms unfolding claim_inv_def by blast+

lemma claim_inv_exclusive:
  "claim_inv keyOf hashOf g c U \<Longrightarrow> c i = Some t \<Longrightarrow> c j = Some t' \<Longrightarrow> keyOf i = keyOf j \<Longrightarrow> i = j"
  using claim_invD(1) [of keyOf hashOf g c U i t] claim_invD(1) [of keyOf hashOf g c U j t']
    claim_invD(3) [of keyOf hashOf g c U i t j] by force

lemma claim_inv_keep:
  assumes "claim_inv keyOf hashOf g c U" "x = c i \<or> x = None" "U \<subseteq> U'"
  shows "claim_inv keyOf hashOf g (c(i := x)) U'"
  using assms unfolding claim_inv_def by (auto split: if_splits) blast+

lemma claim_inv_new:
  assumes inv: "claim_inv keyOf hashOf g c U" and fresh: "u \<notin> U"
    and free: "\<And>old. g (keyOf i) = Some old \<Longrightarrow> \<not> isInFlightHash (payloadHash old)"
    and hex: "\<And>j. is_sha256_hex (hashOf j)"
    and e: "payloadHash e = claim_token (hashOf i) u"
  shows "claim_inv keyOf hashOf (g(keyOf i \<mapsto> e)) (c(i := Some (claim_token (hashOf i) u))) (insert u U)"
proof -
  have other: "keyOf j \<noteq> keyOf i \<and> tok \<noteq> claim_token (hashOf i) u" if cj: "c j = Some tok" for j tok
  proof -
    obtain w where w: "w \<in> U" "tok = claim_token (hashOf j) w" using claim_invD(2) [OF inv cj] by blast
    have "keyOf j \<noteq> keyOf i"
    proof
      assume "keyOf j = keyOf i"
      then obtain old where "g (keyOf i) = Some old" "payloadHash old = tok"
        using claim_invD(1) [OF inv cj] by auto
      then show False using free w(2) by force
    qed
    moreover have "tok \<noteq> claim_token (hashOf i) u" using w fresh hex by auto
    ultimately show ?thesis ..
  qed
  show ?thesis
    unfolding claim_inv_def
  proof (intro conjI allI impI)
    fix j tok assume c: "(c(i := Some (claim_token (hashOf i) u))) j = Some tok"
    show "\<exists>e'. (g(keyOf i \<mapsto> e)) (keyOf j) = Some e' \<and> payloadHash e' = tok"
      using c e other claim_invD(1) [OF inv] by (cases "j = i") auto
    show "\<exists>w \<in> insert u U. tok = claim_token (hashOf j) w"
      using c claim_invD(2) [OF inv] by (cases "j = i") auto
  next
    fix j k tok
    assume "(c(i := Some (claim_token (hashOf i) u))) j = Some tok"
      "(c(i := Some (claim_token (hashOf i) u))) k = Some tok"
    then show "j = k" using other claim_invD(3) [OF inv] by (auto split: if_splits)
  qed
qed

lemma claim_inv_own:
  assumes inv: "claim_inv keyOf hashOf g c U" and ci: "c i = Some tok"
    and x: "payloadHash e = tok \<and> x = Some tok \<or> x = None"
  shows "claim_inv keyOf hashOf (g(keyOf i \<mapsto> e)) (c(i := x)) U"
proof -
  have other: "keyOf j \<noteq> keyOf i" if "c j = Some t" "j \<noteq> i" for j t
    using claim_inv_exclusive [OF inv that(1) ci] that(2) by blast
  show ?thesis
    unfolding claim_inv_def
  proof (intro conjI allI impI)
    fix j t assume c: "(c(i := x)) j = Some t"
    show "\<exists>e'. (g(keyOf i \<mapsto> e)) (keyOf j) = Some e' \<and> payloadHash e' = t"
      using c x other claim_invD(1) [OF inv] by (cases "j = i") auto
    show "\<exists>w \<in> U. t = claim_token (hashOf j) w"
      using c x ci claim_invD(2) [OF inv] by (cases "j = i") auto
  next
    fix j k t assume "(c(i := x)) j = Some t" "(c(i := x)) k = Some t"
    then show "j = k" using x ci claim_invD(3) [OF inv] by (auto split: if_splits)
  qed
qed

lemma claim_inv_prune:
  assumes "claim_inv keyOf hashOf g c U"
    and "\<And>k e. g k = Some e \<Longrightarrow> isInFlightHash (payloadHash e) \<Longrightarrow> g' k = Some e"
  shows "claim_inv keyOf hashOf g' c U"
  using assms unfolding claim_inv_def by (metis claim_token_inFlight)

section \<open>The effect of each operation\<close>

definition sys_inv ::
    "('s, 'r) idem_backend_ops \<Rightarrow> (nat \<Rightarrow> string) \<Rightarrow> (nat \<Rightarrow> string) \<Rightarrow> ('s, 'r) idem_sys \<Rightarrow> bool" where
  "sys_inv bk keyOf hashOf s \<longleftrightarrow>
     claim_inv keyOf hashOf (op_get bk (be s)) (\<lambda>i. claims (cl s i)) (used s)"

lemma no_claim_results [simp]:
  "claims (Checking (Done (cached_result sk ph n e))) = None"
  "claims (Checking (Done (raced_result ph n r))) = None"
  "claims (Checking (Done (recheck_result ph n r))) = None"
  by (auto simp: cached_result_def raced_result_def recheck_result_def replay_or_conflict_def Let_def
      split: option.splits)

lemma claims_upd:
  "(\<lambda>j. claims (if j = i then x else c j)) = (\<lambda>j. claims (c j))(i := claims x)"
  by auto

context idem_backend begin

lemma check_step_effect:
  assumes step: "check_step bk cfg k ph now u pc st = (pc', st')"
  shows "(op_get bk st' = op_get bk st
            \<and> (claims (Checking pc') = claims (Checking pc) \<or> claims (Checking pc') = None))
    \<or> (claims (Checking pc') = Some (claim_token ph u)
        \<and> (\<exists>e. op_get bk st' = (op_get bk st)(k \<mapsto> e) \<and> payloadHash e = claim_token ph u)
        \<and> (\<forall>old. op_get bk st k = Some old \<longrightarrow> \<not> isInFlightHash (payloadHash old)))
    \<or> (\<exists>tok e. claims (Checking pc) = Some tok \<and> claims (Checking pc') = Some tok
        \<and> op_get bk st' = (op_get bk st)(k \<mapsto> e) \<and> payloadHash e = tok)"
proof (cases pc)
  case (GotCached c)
  show ?thesis
  proof (cases c)
    case None
    obtain b st1 where p: "op_putIfAbsent bk st k
        (claim_entry (claim_token ph u) (now + ttlSeconds cfg) UNRESOLVED_RETAIN_UNTIL) = (b, st1)"
      by (metis surj_pair)
    show ?thesis
      using step GotCached None p putIfAbsent [OF p]
      by (cases b) (auto simp: check_step_def Let_def stamp_hash claim_entry_def)
  next
    case (Some cached)
    show ?thesis
    proof (cases "retryableRequestHash (payloadHash cached)")
      case None
      then show ?thesis using step GotCached Some by (auto simp: check_step_def)
    next
      case (Some h)
      let ?e = "claim_entry (claim_token ph u) (now + ttlSeconds cfg)
             (now + ttlSeconds cfg + clockSkewSeconds cfg)"
      obtain b st1 where r: "op_replaceIfPayloadHash bk st k (payloadHash cached) ?e = (b, st1)"
        by (metis surj_pair)
      show ?thesis
      proof (cases b)
        case True
        have "op_get bk st1 = (op_get bk st)(k \<mapsto> stamp ?e)"
          "\<exists>old. op_get bk st k = Some old \<and> payloadHash old = payloadHash cached"
          using replaceIf [OF r] True by auto
        then show ?thesis
          using step GotCached \<open>c = Some cached\<close> Some r True retryable_not_inFlight [OF Some]
          by (auto simp: check_step_def Let_def stamp_hash claim_entry_def split: if_splits)
      next
        case False
        then have "op_get bk st1 = op_get bk st" using replaceIf [OF r] by auto
        then show ?thesis
          using step GotCached \<open>c = Some cached\<close> Some r False
          by (auto simp: check_step_def Let_def split: if_splits)
      qed
    qed
  qed
next
  case (TriedClaim tok e b)
  obtain f st1 where r: "op_replaceIfPayloadHash bk st k tok
      (claim_entry tok e UNRESOLVED_RETAIN_UNTIL) = (f, st1)" by (metis surj_pair)
  show ?thesis
  proof (cases "b \<and> f")
    case True
    then have "op_get bk st1 = (op_get bk st)(k \<mapsto> stamp (claim_entry tok e UNRESOLVED_RETAIN_UNTIL))"
      using replaceIf [OF r] by auto
    then show ?thesis
      using step TriedClaim r True by (auto simp: check_step_def stamp_hash claim_entry_def)
  next
    case False
    then have "b \<Longrightarrow> op_get bk st1 = op_get bk st" using replaceIf [OF r] by auto
    then show ?thesis using step TriedClaim r False by (cases b) (auto simp: check_step_def)
  qed
qed (use step in \<open>auto simp: check_step_def split: if_splits\<close>)

lemma fenced_write_effect:
  assumes "fenced_write bk action k tok e st = (res, st')"
  shows "(op_get bk st' = op_get bk st) \<or> (op_get bk st' = (op_get bk st)(k \<mapsto> stamp e))"
  using assms replaceIf [of st k tok e]
  by (cases "op_replaceIfPayloadHash bk st k tok e") (auto simp: fenced_write_def split: if_splits)

lemma write_effects:
  "save bk cfg k h tok resp now st = (res, st')
    \<Longrightarrow> \<exists>e. op_get bk st' = op_get bk st \<or> op_get bk st' = (op_get bk st)(k \<mapsto> e)"
  "saveTransientError bk cfg k h tok resp now st = (res, st')
    \<Longrightarrow> \<exists>e. op_get bk st' = op_get bk st \<or> op_get bk st' = (op_get bk st)(k \<mapsto> e)"
  "release bk cfg k tok now u st = (res, st')
    \<Longrightarrow> \<exists>e. op_get bk st' = op_get bk st \<or> op_get bk st' = (op_get bk st)(k \<mapsto> e)"
  by (auto simp: save_def saveTransientError_def release_def Let_def split: if_splits option.splits
      dest: fenced_write_effect)

lemma inv_after_write:
  assumes inv: "sys_inv bk keyOf hashOf s" and own: "owns s i h tok"
    and g: "op_get bk st' = op_get bk (be s) \<or> op_get bk st' = (op_get bk (be s))(keyOf i \<mapsto> e)"
  shows "sys_inv bk keyOf hashOf (s\<lparr>be := st', cl := (cl s)(i := Finished)\<rparr>)"
proof -
  have c: "claims (cl s i) = Some tok" using own by (simp add: owns_def)
  show ?thesis
    using g claim_inv_own [where i = i and x = None, OF inv [unfolded sys_inv_def] c, of e]
      claim_inv_keep [where i = i and x = None, OF inv [unfolded sys_inv_def]]
    by (auto simp: sys_inv_def claims_upd)
qed

lemma idem_step_inv:
  assumes step: "idem_step bk cfg keyOf hashOf s t" and inv: "sys_inv bk keyOf hashOf s"
    and hex: "\<And>i. is_sha256_hex (hashOf i)"
  shows "sys_inv bk keyOf hashOf t"
  using step
proof cases
  case (check_moves i pc u now pc' st')
  note inv' = inv [unfolded sys_inv_def]
  have c: "claims (cl s i) = claims (Checking pc)" using check_moves by simp
  note eff = check_step_effect [OF check_moves(4), folded c]
  from eff show ?thesis
  proof (elim disjE exE conjE)
    assume "op_get bk st' = op_get bk (be s)" "claims (Checking pc') = claims (cl s i)"
    then show ?thesis
      using claim_inv_keep [where i = i and x = "claims (Checking pc')" and U' = "insert u (used s)", OF inv']
      by (auto simp: sys_inv_def claims_upd check_moves(1))
  next
    assume "op_get bk st' = op_get bk (be s)" "claims (Checking pc') = None"
    then show ?thesis
      using claim_inv_keep [where i = i and x = None and U' = "insert u (used s)", OF inv']
      by (auto simp: sys_inv_def claims_upd check_moves(1))
  next
    fix e
    assume "claims (Checking pc') = Some (claim_token (hashOf i) u)"
        "op_get bk st' = (op_get bk (be s))(keyOf i \<mapsto> e)" "payloadHash e = claim_token (hashOf i) u"
        "\<forall>old. op_get bk (be s) (keyOf i) = Some old \<longrightarrow> \<not> isInFlightHash (payloadHash old)"
    then show ?thesis
      using claim_inv_new [OF inv' check_moves(3), of i e] hex
      by (simp add: sys_inv_def claims_upd check_moves(1))
  next
    fix tok e
    assume own: "claims (cl s i) = Some tok" "claims (Checking pc') = Some tok"
        "op_get bk st' = (op_get bk (be s))(keyOf i \<mapsto> e)" "payloadHash e = tok"
    have "claim_inv keyOf hashOf ((op_get bk (be s))(keyOf i \<mapsto> e))
        ((\<lambda>i. claims (cl s i))(i := Some tok)) (used s)"
      by (rule claim_inv_own [OF inv' own(1)]) (use own in simp)
    from claim_inv_keep [where i = i and x = "Some tok" and U' = "insert u (used s)", OF this]
    show ?thesis using own by (auto simp: sys_inv_def claims_upd check_moves(1))
  qed
next
  case (renews i h tok now res st')
  note inv' = inv [unfolded sys_inv_def]
  have c: "claims (cl s i) = Some tok" using renews by (simp add: owns_def)
  have tok: "isInFlightHash tok" "tok \<noteq> []" using claim_invD(2) [OF inv' c] by auto
  have "op_get bk st' = op_get bk (be s) \<or> op_get bk st' = (op_get bk (be s))(keyOf i \<mapsto>
      stamp (claim_entry tok (now + ttlSeconds cfg) UNRESOLVED_RETAIN_UNTIL))"
    using renews(3) tok fenced_write_effect by (auto simp: renew_def)
  then show ?thesis
    using claim_inv_own [where i = i and x = "Some tok", OF inv' c] inv' c renews(1)
    by (auto simp: sys_inv_def stamp_hash claim_entry_def fun_upd_idem [of "\<lambda>i. claims (cl s i)"])
next
  case (saves i h tok resp now res st')
  then show ?thesis using inv_after_write [OF inv] write_effects [of cfg] by metis
next
  case (saves_error i h tok resp now res st')
  then show ?thesis using inv_after_write [OF inv] write_effects [of cfg] by metis
next
  case (releases i h tok now u res st')
  then show ?thesis using inv_after_write [OF inv] write_effects [of cfg] by metis
next
  case (prunes st')
  then show ?thesis
    using claim_inv_prune [OF inv [unfolded sys_inv_def], of "op_get bk st'"]
    by (simp add: sys_inv_def)
qed

lemma reachable_inv:
  assumes "(idem_step bk cfg keyOf hashOf)\<^sup>*\<^sup>* (idem_init st) s" "\<And>i. is_sha256_hex (hashOf i)"
  shows "sys_inv bk keyOf hashOf s"
  using assms(1)
proof (induction rule: rtranclp_induct)
  case base
  show ?case by (simp add: sys_inv_def claim_inv_def idem_init_def)
next
  case (step s t)
  then show ?case using idem_step_inv assms(2) by blast
qed

lemma reachable_exclusive:
  assumes "(idem_step bk cfg keyOf hashOf)\<^sup>*\<^sup>* (idem_init st) s" "\<And>i. is_sha256_hex (hashOf i)"
    and "owns s i h tok" "owns s j h' tok'" "keyOf i = keyOf j"
  shows "i = j"
proof -
  have "claims (cl s i) = Some tok" "claims (cl s j) = Some tok'" using assms(3,4) by (simp_all add: owns_def)
  then show ?thesis
    using claim_inv_exclusive [OF reachable_inv [OF assms(1,2), unfolded sys_inv_def]] assms(5) by blast
qed

lemma reachable_owner_writes:
  assumes "(idem_step bk cfg keyOf hashOf)\<^sup>*\<^sup>* (idem_init st) s" "\<And>i. is_sha256_hex (hashOf i)"
    and "owns s i h tok"
  obtains e where "op_get bk (be s) (keyOf i) = Some e" "payloadHash e = tok"
    "isInFlightHash tok" "inFlightRequestHash tok = Some (hashOf i)"
proof -
  have c: "claims (cl s i) = Some tok" using assms(3) by (simp add: owns_def)
  note inv = reachable_inv [OF assms(1,2), unfolded sys_inv_def]
  show ?thesis using claim_invD(1,2) [OF inv c] that assms(2) by auto
qed

end

section \<open>The in-process sweeper\<close>

text \<open>
  Sweeping is a pruning step of the system as long as no claim in flight has outlived its
  retention.
\<close>

lemma sweep_is_prune:
  assumes "\<And>k e. mem_get (be s) k = Some e \<Longrightarrow> isInFlightHash (payloadHash e) \<Longrightarrow> now \<le> retain_or_expiry e"
  shows "idem_step memoryBackend cfg keyOf hashOf s (s\<lparr>be := mem_sweep now (be s)\<rparr>)"
proof (rule idem_step.prunes)
  fix k
  show "op_get memoryBackend (mem_sweep now (be s)) k = None
      \<or> op_get memoryBackend (mem_sweep now (be s)) k = op_get memoryBackend (be s) k"
    using mem_sweep_shrinks [of now "be s" k] by (cases "mem_get (mem_sweep now (be s)) k") auto
next
  fix k e
  assume "op_get memoryBackend (be s) k = Some e" "isInFlightHash (payloadHash e)"
  then show "op_get memoryBackend (mem_sweep now (be s)) k = Some e"
    using mem_sweep_keeps [OF _ assms] by simp
qed

section \<open>Properties\<close>


lemma rtranclp_snoc: "r\<^sup>*\<^sup>* a b \<Longrightarrow> r b c \<Longrightarrow> r\<^sup>*\<^sup>* a c"
  by (rule rtranclp.rtrancl_into_rtrancl)

lemma check_movesI:
  "cl s i = Checking pc \<Longrightarrow> u \<notin> used s
    \<Longrightarrow> check_step bk cfg (keyOf i) (hashOf i) now u pc (be s) = (pc', st')
    \<Longrightarrow> t = s\<lparr>be := st', cl := (cl s)(i := Checking pc'), used := insert u (used s)\<rparr>
    \<Longrightarrow> idem_step bk cfg keyOf hashOf s t"
  using idem_step.check_moves by metis

text \<open>A run in which request 0 becomes the owner of an unused key.\<close>

definition demo_sys :: "(int mem_store, int) idem_sys" where
  "demo_sys = \<lparr>be = [''k'' \<mapsto> cloneEntry (claim_entry (claim_token demo_hash ''u1'') 3600 UNRESOLVED_RETAIN_UNTIL)],
     cl = (\<lambda>_. Checking Start)(0 := Checking (Done (Miss demo_hash (claim_token demo_hash ''u1'')))),
     used = {''u0'', ''u1'', ''u2'', ''u3''}\<rparr>"

lemma demo_sys_reachable:
  "(idem_step memoryBackend demo_cfg (\<lambda>_. ''k'') (\<lambda>_. demo_hash))\<^sup>*\<^sup>* (idem_init Map.empty) demo_sys"
proof -
  let ?R = "idem_step memoryBackend demo_cfg (\<lambda>_. ''k'') (\<lambda>_. demo_hash)"
  let ?tok = "claim_token demo_hash ''u1''"
  let ?e = "claim_entry ?tok 3600 UNRESOLVED_RETAIN_UNTIL :: int cache_entry"
  let ?s0 = "idem_init Map.empty :: (int mem_store, int) idem_sys"
  let ?s1 = "?s0\<lparr>be := Map.empty, cl := (cl ?s0)(0 := Checking (GotCached None)), used := {''u0''}\<rparr>"
  let ?s2 = "?s1\<lparr>be := [''k'' \<mapsto> cloneEntry ?e], cl := (cl ?s1)(0 := Checking (TriedClaim ?tok 3600 True)),
    used := {''u1'', ''u0''}\<rparr>"
  let ?s3 = "?s2\<lparr>be := [''k'' \<mapsto> cloneEntry ?e], cl := (cl ?s2)(0 := Checking (TriedFence ?tok 3600 True)),
    used := {''u2'', ''u1'', ''u0''}\<rparr>"
  let ?s4 = "?s3\<lparr>be := [''k'' \<mapsto> cloneEntry ?e], cl := (cl ?s3)(0 := Checking (Done (Miss demo_hash ?tok))),
    used := {''u3'', ''u2'', ''u1'', ''u0''}\<rparr>"
  have ttl: "ttlSeconds demo_cfg = 3600" by (simp add: demo_cfg_def)
  have 1: "?R ?s0 ?s1"
    by (rule check_movesI [where i = 0 and pc = Start and u = "''u0''" and now = 0])
      (simp_all add: idem_init_def check_step_def mem_get_def)
  have 2: "?R ?s1 ?s2"
    by (rule check_movesI [where i = 0 and pc = "GotCached None" and u = "''u1''" and now = 0])
      (simp_all add: idem_init_def check_step_def mem_putIfAbsent_def ttl Let_def)
  have 3: "?R ?s2 ?s3"
    by (rule check_movesI [where i = 0 and pc = "TriedClaim ?tok 3600 True" and u = "''u2''" and now = 0])
      (simp_all add: idem_init_def check_step_def mem_replaceIfPayloadHash_def claim_entry_def)
  have 4: "?R ?s3 ?s4"
    by (rule check_movesI [where i = 0 and pc = "TriedFence ?tok 3600 True" and u = "''u3''" and now = 0])
      (simp_all add: idem_init_def check_step_def)
  have r1: "?R\<^sup>*\<^sup>* ?s0 ?s1" by (rule r_into_rtranclp [where r = ?R, OF 1])
  have r2: "?R\<^sup>*\<^sup>* ?s0 ?s2" by (rule rtranclp_snoc [where r = ?R, OF r1 2])
  have r3: "?R\<^sup>*\<^sup>* ?s0 ?s3" by (rule rtranclp_snoc [where r = ?R, OF r2 3])
  have r4: "?R\<^sup>*\<^sup>* ?s0 ?s4" by (rule rtranclp_snoc [where r = ?R, OF r3 4])
  have "?s4 = demo_sys" by (auto simp: demo_sys_def idem_init_def)
  then show ?thesis using r4 by simp
qed




section \<open>The sweeper and claims in flight\<close>

lemma check_memory_fresh:
  assumes "mem_get st k = None"
  shows "check memoryBackend cfg k h now u st =
     (Done (Miss h (claim_token h u)),
      st(k \<mapsto> claim_entry (claim_token h u) (now + ttlSeconds cfg) UNRESOLVED_RETAIN_UNTIL))"
proof -
  have "st k = None" using assms by (simp add: mem_get_def split: option.splits)
  then show ?thesis
    using assms
    by (simp add: check_def numeral_eq_Suc check_step_def mem_putIfAbsent_def mem_replaceIfPayloadHash_def
        claim_entry_def cloneEntry_def retain_or_expiry_def Let_def)
qed

lemma release_memory:
  assumes "st k = Some e" "payloadHash e = claim_token h u" "is_sha256_hex h"
  shows "release memoryBackend cfg k (claim_token h u) now u' st =
     (Inr (), st(k \<mapsto> \<lparr>payloadHash = retryable_marker h u', response = None, expiresAt = now + ttlSeconds cfg,
        retainUntil = Some (now + ttlSeconds cfg + clockSkewSeconds cfg)\<rparr>))"
  using assms
  by (simp add: release_def fenced_write_def mem_replaceIfPayloadHash_def cloneEntry_def
      retain_or_expiry_def Let_def)

lemma check_memory_reclaims:
  assumes "st k = Some \<lparr>payloadHash = retryable_marker h u', response = None, expiresAt = exp, retainUntil = r\<rparr>"
    "now \<le> exp + clockSkewSeconds cfg" "is_sha256_hex h"
  shows "check memoryBackend cfg k h now u st =
     (Done (Miss h (claim_token h u)),
      st(k \<mapsto> claim_entry (claim_token h u) (now + ttlSeconds cfg)
        (now + ttlSeconds cfg + clockSkewSeconds cfg)))"
  using assms
  by (simp add: check_def numeral_eq_Suc check_step_def mem_get_def mem_replaceIfPayloadHash_def
      claim_entry_def cloneEntry_def retain_or_expiry_def Let_def)

text \<open>
  After a first attempt releases its claim (its handler failed before doing anything), the
  next check of the same payload is a new miss with a token of its own, a different payload is a
  conflict, and the old token can no longer write.
\<close>

theorem release_then_check:
  assumes "is_sha256_hex h" "mem_get st k = None" "u0 \<noteq> u2" "t2 \<le> t1 + ttlSeconds cfg + clockSkewSeconds cfg"
  shows "case check memoryBackend cfg k h t0 u0 st of (_, st1) \<Rightarrow>
     (case release memoryBackend cfg k (claim_token h u0) t1 u1 st1 of (res, st2) \<Rightarrow>
       res = Inr ()
       \<and> (ph \<noteq> h \<longrightarrow> check memoryBackend cfg k ph t2 u2 st2 = (Done Conflict, st2))
       \<and> (case check memoryBackend cfg k h t2 u2 st2 of (pc, st3) \<Rightarrow>
            pc = Done (Miss h (claim_token h u2))
            \<and> save memoryBackend cfg k h (claim_token h u0) resp t3 st3
                = (Inl (ownership_error ''save''), st3)))"
  using assms
  by (simp add: check_memory_fresh release_memory check_memory_reclaims claim_entry_def)
    (simp add: check_def numeral_eq_Suc check_step_def save_def fenced_write_def mem_get_def
      mem_replaceIfPayloadHash_def cloneEntry_def retain_or_expiry_def Let_def)

theorem release_then_check_witness:
  "case check memoryBackend demo_cfg ''k'' demo_hash 0 ''u0'' (Map.empty :: int mem_store) of (_, st1) \<Rightarrow>
     (case release memoryBackend demo_cfg ''k'' (claim_token demo_hash ''u0'') 5 ''u1'' st1 of (res, st2) \<Rightarrow>
       res = Inr ()
       \<and> (''h'' \<noteq> demo_hash \<longrightarrow> check memoryBackend demo_cfg ''k'' ''h'' 6 ''u2'' st2 = (Done Conflict, st2))
       \<and> (case check memoryBackend demo_cfg ''k'' demo_hash 6 ''u2'' st2 of (pc, st3) \<Rightarrow>
            pc = Done (Miss demo_hash (claim_token demo_hash ''u2''))
            \<and> save memoryBackend demo_cfg ''k'' demo_hash (claim_token demo_hash ''u0'') (Some 7) 9 st3
                = (Inl (ownership_error ''save''), st3)))"
  by (rule release_then_check) (simp_all add: demo_hash_hex mem_get_def demo_cfg_def)

text \<open>
  C40: the in-process sweeper against claims whose handler has not finished.  A first claim stays:
  a sweep at any time up to the end of its retention leaves it and a retry is told to wait.  A
  claim taken over from a released attempt is retained only for the replay window plus the skew,
  so a sweep after that removes it while its handler may still run, and the retry is a miss: the
  two owners hold different tokens for one key.
\<close>

theorem sweep_and_unfinished_claims:
  assumes "is_sha256_hex h" "st k = None" "t2 \<le> t1 + ttlSeconds cfg + clockSkewSeconds cfg"
    "t2 + ttlSeconds cfg + clockSkewSeconds cfg < t3" "t3 \<le> UNRESOLVED_RETAIN_UNTIL"
  shows "case check memoryBackend cfg k h t0 u0 st of (_, st1) \<Rightarrow>
     (\<exists>n. fst (check memoryBackend cfg k h t3 u3 (mem_sweep t3 st1)) = Done (InFlight n))
     \<and> (case release memoryBackend cfg k (claim_token h u0) t1 u1 st1 of (_, st2) \<Rightarrow>
          case check memoryBackend cfg k h t2 u2 st2 of (pc2, st3) \<Rightarrow>
            pc2 = Done (Miss h (claim_token h u2))
            \<and> fst (check memoryBackend cfg k h t3 u3 (mem_sweep t3 st3))
                = Done (Miss h (claim_token h u3)))"
proof -
  let ?e = "claim_entry (claim_token h u0) (t0 + ttlSeconds cfg) UNRESOLVED_RETAIN_UNTIL"
  let ?st1 = "st(k \<mapsto> ?e)"
  let ?e3 = "claim_entry (claim_token h u2) (t2 + ttlSeconds cfg) (t2 + ttlSeconds cfg + clockSkewSeconds cfg)"
  have none: "mem_get st k = None" using assms(2) by (simp add: mem_get_def)
  have kept: "mem_get (mem_sweep t3 ?st1) k = Some (cloneEntry ?e)"
    using assms(5) by (intro mem_sweep_keeps) (simp_all add: mem_get_def claim_entry_def retain_or_expiry_def)
  have gone: "mem_get (mem_sweep t3 (st'(k \<mapsto> ?e3))) k = None" for st'
    using assms(4)
    by (intro mem_sweep_drops [of _ _ "cloneEntry ?e3"]) (simp_all add: mem_get_def claim_entry_def retain_or_expiry_def)
  have wait: "\<exists>n. fst (check memoryBackend cfg k h t3 u3 (mem_sweep t3 ?st1)) = Done (InFlight n)"
    using kept assms(1)
    by (simp add: check_def numeral_eq_Suc check_step_def cached_result_def claim_entry_def)
  show ?thesis
    using assms wait
    by (simp add: check_memory_fresh [OF none] release_memory check_memory_reclaims claim_entry_def
        gone [unfolded claim_entry_def] check_memory_fresh [OF gone, unfolded claim_entry_def])
qed

theorem sweep_and_unfinished_claims_witness:
  "case check memoryBackend demo_cfg ''k'' demo_hash 0 ''u0'' (Map.empty :: int mem_store) of (_, st1) \<Rightarrow>
     (\<exists>n. fst (check memoryBackend demo_cfg ''k'' demo_hash 4000 ''u3'' (mem_sweep 4000 st1)) = Done (InFlight n))
     \<and> (case release memoryBackend demo_cfg ''k'' (claim_token demo_hash ''u0'') 5 ''u1'' st1 of (_, st2) \<Rightarrow>
          case check memoryBackend demo_cfg ''k'' demo_hash 6 ''u2'' st2 of (pc2, st3) \<Rightarrow>
            pc2 = Done (Miss demo_hash (claim_token demo_hash ''u2''))
            \<and> fst (check memoryBackend demo_cfg ''k'' demo_hash 4000 ''u3'' (mem_sweep 4000 st3))
                = Done (Miss demo_hash (claim_token demo_hash ''u3'')))"
  by (rule sweep_and_unfinished_claims)
    (simp_all add: demo_hash_hex demo_cfg_def UNRESOLVED_RETAIN_UNTIL_def)

end
