(* ===== verification/ProposalStore.thy ===== *)
theory ProposalStore
  imports Prelude "HOL-Library.AList"
begin

text \<open>
  The proposal store of the decisioning server (\<open>src/lib/server/decisioning/proposal/store.ts\<close>): the
  \<open>ProposalStore\<close> interface as a record of operations on an explicit state, its in-process
  implementation, and the contract of the interface as a locale.  JavaScript maps keyed by
  strings are association lists in insertion order (\<open>AList.update\<close> overwrites in place, as
  \<open>Map.set\<close> does).  Times are milliseconds; an operation that reads the clock takes \<open>now\<close>.
  Recipes have an opaque type \<open>'r\<close>; payloads have type \<open>'p\<close>, and \<open>json\<close> is \<open>JSON.stringify\<close> on
  them.
\<close>

section \<open>Records and the interface\<close>

datatype proposal_state = Draft | Committed | Consuming | Consumed

record ('r, 'p) proposal_record =
  proposalId :: string
  accountId :: string
  pstate :: proposal_state
  recipes :: "(string \<times> 'r) list"
  proposalPayload :: 'p
  holdExpiresAt :: "int option"
  mediaBuyId :: "string option"
  recipeSchemaVersion :: "int option"

record ('s, 'r, 'p) proposal_ops =
  op_putDraft :: "int \<Rightarrow> string \<Rightarrow> string \<Rightarrow> (string \<times> 'r) list \<Rightarrow> 'p \<Rightarrow> 's \<Rightarrow> (js_error + unit) \<times> 's"
  op_getProposal :: "int \<Rightarrow> string \<Rightarrow> string \<Rightarrow> 's \<Rightarrow> ('r, 'p) proposal_record option \<times> 's"
  op_commit :: "int \<Rightarrow> string \<Rightarrow> int option \<Rightarrow> 'p \<Rightarrow> string option \<Rightarrow> 's \<Rightarrow> (js_error + unit) \<times> 's"
  op_tryReserveConsumption ::
    "int \<Rightarrow> string \<Rightarrow> string \<Rightarrow> int option \<Rightarrow> 's \<Rightarrow> (js_error + ('r, 'p) proposal_record) \<times> 's"
  op_finalizeConsumption :: "string \<Rightarrow> string \<Rightarrow> string \<Rightarrow> 's \<Rightarrow> (js_error + unit) \<times> 's"
  op_releaseConsumption :: "string \<Rightarrow> string \<Rightarrow> 's \<Rightarrow> (js_error + unit) \<times> 's"
  op_discard :: "string \<Rightarrow> string option \<Rightarrow> 's \<Rightarrow> (js_error + unit) \<times> 's"
  op_getByMediaBuyId :: "int \<Rightarrow> string \<Rightarrow> string \<Rightarrow> 's \<Rightarrow> ('r, 'p) proposal_record option \<times> 's"

section \<open>The in-process store\<close>

record ('r, 'p) mem_proposals =
  records :: "(string \<times> ('r, 'p) proposal_record) list"
  mediaBuyIndex :: "(string \<times> string) list"
  creationTimes :: "(string \<times> int) list"

record proposal_store_cfg =
  draftTtlMs :: int
  committedGraceMs :: int

definition DEFAULT_DRAFT_TTL_MS :: int where "DEFAULT_DRAFT_TTL_MS = 24 * 60 * 60 * 1000"
definition DEFAULT_COMMITTED_GRACE_MS :: int where "DEFAULT_COMMITTED_GRACE_MS = 7 * 24 * 60 * 60 * 1000"

definition new_proposal_cfg :: "int option \<Rightarrow> int option \<Rightarrow> proposal_store_cfg" where
  "new_proposal_cfg ttl grace =
     \<lparr>draftTtlMs = (case ttl of None \<Rightarrow> DEFAULT_DRAFT_TTL_MS | Some t \<Rightarrow> t),
      committedGraceMs = (case grace of None \<Rightarrow> DEFAULT_COMMITTED_GRACE_MS | Some g \<Rightarrow> g)\<rparr>"

definition empty_proposals :: "('r, 'p) mem_proposals" where
  "empty_proposals = \<lparr>records = [], mediaBuyIndex = [], creationTimes = []\<rparr>"

definition mediaBuyKey :: "string \<Rightarrow> string \<Rightarrow> string" where
  "mediaBuyKey account mediaBuy = json_string_array [account, mediaBuy]"

definition proposalKey :: "string \<Rightarrow> string \<Rightarrow> string" where
  "proposalKey account proposal = json_string_array [account, proposal]"

abbreviation internal_error :: js_error where
  "internal_error \<equiv> adcp_throw ''INTERNAL_ERROR'' (Some ''terminal'') None"

abbreviation proposal_error :: "string \<Rightarrow> js_error" where
  "proposal_error c \<equiv> adcp_throw c (Some ''correctable'') (Some ''proposal_id'')"

definition legacyProposalKey :: "('r, 'p) mem_proposals \<Rightarrow> string \<Rightarrow> js_error + string option" where
  "legacyProposalKey st proposal =
     (let found = filter (\<lambda>(k, r). proposalId r = proposal) (records st) in
      if length found > 1 then Inl internal_error
      else Inr (case found of [] \<Rightarrow> None | (k, r) # _ \<Rightarrow> Some k))"

definition expired_record :: "proposal_store_cfg \<Rightarrow> int \<Rightarrow> int \<Rightarrow> ('r, 'p) proposal_record \<Rightarrow> bool" where
  "expired_record cfg now created r =
     (if pstate r = Draft then now - created > draftTtlMs cfg
      else if pstate r \<noteq> Consuming then
        (case holdExpiresAt r of
           None \<Rightarrow> False
         | Some t \<Rightarrow> now > t + committedGraceMs cfg)
      else False)"

text \<open>A record leaves together with its creation time and, if it has a media buy, its index entry.\<close>

definition truthy :: "string option \<Rightarrow> bool" where
  "truthy s \<longleftrightarrow> s \<noteq> None \<and> s \<noteq> Some []"

definition remove_record :: "string \<Rightarrow> ('r, 'p) mem_proposals \<Rightarrow> ('r, 'p) mem_proposals" where
  "remove_record recordKey st =
     (let removed = map_of (records st) recordKey;
          st' = st\<lparr>records := AList.delete recordKey (records st),
                   creationTimes := AList.delete recordKey (creationTimes st)\<rparr> in
      (case removed of
         None \<Rightarrow> st'
       | Some r \<Rightarrow>
           if truthy (mediaBuyId r)
           then st'\<lparr>mediaBuyIndex := AList.delete (mediaBuyKey (accountId r) (the (mediaBuyId r))) (mediaBuyIndex st')\<rparr>
           else st'))"

definition evictExpired :: "proposal_store_cfg \<Rightarrow> int \<Rightarrow> ('r, 'p) mem_proposals \<Rightarrow> ('r, 'p) mem_proposals" where
  "evictExpired cfg now st =
     (let toRemove = map fst (filter (\<lambda>(k, r).
            expired_record cfg now (case map_of (creationTimes st) k of None \<Rightarrow> now | Some c \<Rightarrow> c) r) (records st))
      in fold remove_record toRemove st)"

definition mem_putDraft ::
    "proposal_store_cfg \<Rightarrow> int \<Rightarrow> string \<Rightarrow> string \<Rightarrow> (string \<times> 'r) list \<Rightarrow> 'p
      \<Rightarrow> ('r, 'p) mem_proposals \<Rightarrow> (js_error + unit) \<times> ('r, 'p) mem_proposals" where
  "mem_putDraft cfg now proposal account rs payload st0 =
     (let st = evictExpired cfg now st0;
          recordKey = proposalKey account proposal in
      if (case map_of (records st) recordKey of Some existing \<Rightarrow> pstate existing \<noteq> Draft | None \<Rightarrow> False)
      then (Inl internal_error, st)
      else
        (let r = \<lparr>proposalId = proposal, accountId = account, pstate = Draft, recipes = rs,
                  proposalPayload = payload, holdExpiresAt = None, mediaBuyId = None,
                  recipeSchemaVersion = None\<rparr> in
         (Inr (), st\<lparr>records := AList.update recordKey r (records st),
                     creationTimes :=
                       (if map_of (creationTimes st) recordKey = None
                        then AList.update recordKey now (creationTimes st) else creationTimes st)\<rparr>)))"

definition mem_getProposal ::
    "proposal_store_cfg \<Rightarrow> int \<Rightarrow> string \<Rightarrow> string \<Rightarrow> ('r, 'p) mem_proposals
      \<Rightarrow> ('r, 'p) proposal_record option \<times> ('r, 'p) mem_proposals" where
  "mem_getProposal cfg now proposal expectedAccount st0 =
     (let st = evictExpired cfg now st0 in
      (map_of (records st) (proposalKey expectedAccount proposal), st))"

text \<open>\<open>expires = None\<close> is a date that is not valid.\<close>

definition mem_commit ::
    "proposal_store_cfg \<Rightarrow> ('p \<Rightarrow> string) \<Rightarrow> int \<Rightarrow> string \<Rightarrow> int option \<Rightarrow> 'p \<Rightarrow> string option
      \<Rightarrow> ('r, 'p) mem_proposals \<Rightarrow> (js_error + unit) \<times> ('r, 'p) mem_proposals" where
  "mem_commit cfg json now proposal expires payload expectedAccount st0 =
     (let st = evictExpired cfg now st0 in
      case expires of
        None \<Rightarrow> (Inl (TypeErr ''InMemoryProposalStore.commit expiresAt must be a valid Date.''), st)
      | Some t \<Rightarrow>
          (case (case expectedAccount of
                   Some a \<Rightarrow> Inr (Some (proposalKey a proposal))
                 | None \<Rightarrow> legacyProposalKey st proposal) of
             Inl e \<Rightarrow> (Inl e, st)
           | Inr key \<Rightarrow>
               (case key of
                  None \<Rightarrow> (Inl internal_error, st)
                | Some recordKey \<Rightarrow>
                    (case map_of (records st) recordKey of
                       None \<Rightarrow> (Inl internal_error, st)
                     | Some r \<Rightarrow>
                         if pstate r = Committed then
                           (if holdExpiresAt r = Some t \<and> json (proposalPayload r) = json payload
                            then (Inr (), st) else (Inl internal_error, st))
                         else if pstate r \<noteq> Draft then (Inl internal_error, st)
                         else (Inr (), st\<lparr>records := AList.update recordKey
                                 (r\<lparr>pstate := Committed, holdExpiresAt := Some t, proposalPayload := payload\<rparr>)
                                 (records st)\<rparr>)))))"

definition mem_tryReserveConsumption ::
    "proposal_store_cfg \<Rightarrow> int \<Rightarrow> string \<Rightarrow> string \<Rightarrow> int option \<Rightarrow> ('r, 'p) mem_proposals
      \<Rightarrow> (js_error + ('r, 'p) proposal_record) \<times> ('r, 'p) mem_proposals" where
  "mem_tryReserveConsumption cfg now proposal expectedAccount cutoff st0 =
     (let st = evictExpired cfg now st0;
          recordKey = proposalKey expectedAccount proposal in
      case map_of (records st) recordKey of
        None \<Rightarrow> (Inl (proposal_error ''PROPOSAL_NOT_FOUND''), st)
      | Some r \<Rightarrow>
          if accountId r \<noteq> expectedAccount then (Inl (proposal_error ''PROPOSAL_NOT_FOUND''), st)
          else if pstate r \<noteq> Committed then (Inl (proposal_error ''PROPOSAL_NOT_COMMITTED''), st)
          else if (case (holdExpiresAt r, cutoff) of (Some t, Some c) \<Rightarrow> t < c | _ \<Rightarrow> False)
          then (Inl (proposal_error ''PROPOSAL_NOT_COMMITTED''), st)
          else (let reserved = r\<lparr>pstate := Consuming\<rparr> in
                (Inr reserved, st\<lparr>records := AList.update recordKey reserved (records st)\<rparr>)))"

definition mem_finalizeConsumption ::
    "string \<Rightarrow> string \<Rightarrow> string \<Rightarrow> ('r, 'p) mem_proposals \<Rightarrow> (js_error + unit) \<times> ('r, 'p) mem_proposals" where
  "mem_finalizeConsumption proposal buy expectedAccount st =
     (let recordKey = proposalKey expectedAccount proposal in
      case map_of (records st) recordKey of
        None \<Rightarrow> (Inl internal_error, st)
      | Some r \<Rightarrow>
          if accountId r \<noteq> expectedAccount then (Inl internal_error, st)
          else if pstate r = Consumed then
            (if mediaBuyId r = Some buy then (Inr (), st) else (Inl internal_error, st))
          else if pstate r \<noteq> Consuming then (Inl internal_error, st)
          else (Inr (), st\<lparr>records := AList.update recordKey (r\<lparr>pstate := Consumed, mediaBuyId := Some buy\<rparr>) (records st),
                           mediaBuyIndex := AList.update (mediaBuyKey (accountId r) buy) recordKey (mediaBuyIndex st)\<rparr>))"

definition mem_releaseConsumption ::
    "string \<Rightarrow> string \<Rightarrow> ('r, 'p) mem_proposals \<Rightarrow> (js_error + unit) \<times> ('r, 'p) mem_proposals" where
  "mem_releaseConsumption proposal expectedAccount st =
     (let recordKey = proposalKey expectedAccount proposal in
      case map_of (records st) recordKey of
        None \<Rightarrow> (Inr (), st)
      | Some r \<Rightarrow>
          if accountId r \<noteq> expectedAccount then (Inr (), st)
          else if pstate r = Committed then (Inr (), st)
          else if pstate r \<noteq> Consuming then (Inl internal_error, st)
          else (Inr (), st\<lparr>records := AList.update recordKey (r\<lparr>pstate := Committed\<rparr>) (records st)\<rparr>))"

definition mem_discard ::
    "string \<Rightarrow> string option \<Rightarrow> ('r, 'p) mem_proposals \<Rightarrow> (js_error + unit) \<times> ('r, 'p) mem_proposals" where
  "mem_discard proposal expectedAccount st =
     (case (case expectedAccount of
              Some a \<Rightarrow> Inr (Some (proposalKey a proposal))
            | None \<Rightarrow> legacyProposalKey st proposal) of
        Inl e \<Rightarrow> (Inl e, st)
      | Inr None \<Rightarrow> (Inr (), st)
      | Inr (Some recordKey) \<Rightarrow> (Inr (), remove_record recordKey st))"

definition mem_getByMediaBuyId ::
    "proposal_store_cfg \<Rightarrow> int \<Rightarrow> string \<Rightarrow> string \<Rightarrow> ('r, 'p) mem_proposals
      \<Rightarrow> ('r, 'p) proposal_record option \<times> ('r, 'p) mem_proposals" where
  "mem_getByMediaBuyId cfg now buy expectedAccount st0 =
     (let st = evictExpired cfg now st0;
          key = mediaBuyKey expectedAccount buy in
      case map_of (mediaBuyIndex st) key of
        None \<Rightarrow> (None, st)
      | Some recordKey \<Rightarrow>
          (case map_of (records st) recordKey of
             None \<Rightarrow> (None, st\<lparr>mediaBuyIndex := AList.delete key (mediaBuyIndex st)\<rparr>)
           | Some r \<Rightarrow> (Some r, st)))"

definition memoryProposals ::
    "proposal_store_cfg \<Rightarrow> ('p \<Rightarrow> string) \<Rightarrow> (('r, 'p) mem_proposals, 'r, 'p) proposal_ops" where
  "memoryProposals cfg json =
     \<lparr>op_putDraft = mem_putDraft cfg, op_getProposal = mem_getProposal cfg, op_commit = mem_commit cfg json,
      op_tryReserveConsumption = mem_tryReserveConsumption cfg,
      op_finalizeConsumption = mem_finalizeConsumption, op_releaseConsumption = mem_releaseConsumption,
      op_discard = mem_discard, op_getByMediaBuyId = mem_getByMediaBuyId cfg\<rparr>"

section \<open>The contract\<close>

text \<open>
  What a client may see of a store: the record of a proposal of an account.  Between two
  operations a store may drop records that are not being consumed.
\<close>

type_synonym ('r, 'p) proposal_view = "string \<Rightarrow> string \<Rightarrow> ('r, 'p) proposal_record option"

definition view_set :: "('r, 'p) proposal_view \<Rightarrow> string \<Rightarrow> string \<Rightarrow> ('r, 'p) proposal_record \<Rightarrow> ('r, 'p) proposal_view" where
  "view_set v a i r = (\<lambda>a' i'. if a' = a \<and> i' = i then Some r else v a' i')"

definition evicted :: "('r, 'p) proposal_view \<Rightarrow> ('r, 'p) proposal_view \<Rightarrow> bool" where
  "evicted v v' \<longleftrightarrow>
     (\<forall>a i. v' a i = v a i \<or> v' a i = None \<and> (\<exists>r. v a i = Some r \<and> pstate r \<noteq> Consuming))"

lemma evicted_refl [simp]: "evicted v v"
  by (simp add: evicted_def)

lemma evicted_trans: "evicted v v' \<Longrightarrow> evicted v' v'' \<Longrightarrow> evicted v v''"
  unfolding evicted_def by (metis option.distinct(1))

lemma evicted_Some: "evicted v v' \<Longrightarrow> v' a i = Some r \<Longrightarrow> v a i = Some r"
  unfolding evicted_def by (metis option.distinct(1))

lemma evicted_Consuming: "evicted v v' \<Longrightarrow> v a i = Some r \<Longrightarrow> pstate r = Consuming \<Longrightarrow> v' a i = Some r"
  unfolding evicted_def by (metis option.inject)

locale proposal_store =
  fixes ops :: "('s, 'r, 'p) proposal_ops"
    and view :: "'s \<Rightarrow> ('r, 'p) proposal_view"
    and ok :: "'s \<Rightarrow> bool"
  assumes view_ids: "ok st \<Longrightarrow> view st a i = Some r \<Longrightarrow> accountId r = a \<and> proposalId r = i"
    and get_result: "ok st \<Longrightarrow> op_getProposal ops now i a st = (q, st') \<Longrightarrow>
          ok st' \<and> evicted (view st) (view st') \<and> q = view st' a i"
    and put_result: "ok st \<Longrightarrow> op_putDraft ops now i a rs p st = (res, st') \<Longrightarrow>
          ok st' \<and> (\<exists>v. evicted (view st) v \<and>
            (res = Inr () \<and> (\<forall>r. v a i = Some r \<longrightarrow> pstate r = Draft)
               \<and> (\<exists>r. view st' = view_set v a i r \<and> pstate r = Draft)
             \<or> res \<noteq> Inr () \<and> view st' = v))"
    and commit_result: "ok st \<Longrightarrow> op_commit ops now i t p (Some a) st = (res, st') \<Longrightarrow>
          ok st' \<and> (\<exists>v. evicted (view st) v \<and>
            (view st' = v \<or> (\<exists>r t'. t = Some t' \<and> res = Inr () \<and> v a i = Some r \<and> pstate r = Draft \<and>
               view st' = view_set v a i (r\<lparr>pstate := Committed, holdExpiresAt := Some t', proposalPayload := p\<rparr>))))"
    and reserve_result: "ok st \<Longrightarrow> op_tryReserveConsumption ops now i a cutoff st = (resv, st') \<Longrightarrow>
          ok st' \<and> (\<exists>v. evicted (view st) v \<and>
            (case resv of
               Inl e \<Rightarrow> view st' = v \<and> (e = proposal_error ''PROPOSAL_NOT_FOUND'' \<or> e = proposal_error ''PROPOSAL_NOT_COMMITTED'')
             | Inr r' \<Rightarrow> \<exists>r. v a i = Some r \<and> pstate r = Committed \<and> r' = r\<lparr>pstate := Consuming\<rparr>
                 \<and> (\<forall>t c. holdExpiresAt r = Some t \<longrightarrow> cutoff = Some c \<longrightarrow> c \<le> t)
                 \<and> view st' = view_set v a i r'))"
    and finalize_result: "ok st \<Longrightarrow> op_finalizeConsumption ops i buy a st = (res, st') \<Longrightarrow>
          ok st' \<and> (case view st a i of
             None \<Rightarrow> res \<noteq> Inr () \<and> view st' = view st
           | Some r \<Rightarrow>
               if pstate r = Consuming
               then res = Inr () \<and> view st' = view_set (view st) a i (r\<lparr>pstate := Consumed, mediaBuyId := Some buy\<rparr>)
               else view st' = view st \<and> (res = Inr () \<longleftrightarrow> pstate r = Consumed \<and> mediaBuyId r = Some buy))"
    and release_result: "ok st \<Longrightarrow> op_releaseConsumption ops i a st = (res, st') \<Longrightarrow>
          ok st' \<and> (case view st a i of
             None \<Rightarrow> res = Inr () \<and> view st' = view st
           | Some r \<Rightarrow>
               if pstate r = Consuming
               then res = Inr () \<and> view st' = view_set (view st) a i (r\<lparr>pstate := Committed\<rparr>)
               else view st' = view st \<and> (res = Inr () \<longleftrightarrow> pstate r = Committed))"
    and lookup_result: "ok st \<Longrightarrow> op_getByMediaBuyId ops now m a st = (q, st') \<Longrightarrow>
          ok st' \<and> evicted (view st) (view st')"

section \<open>The in-process store meets the contract\<close>

lemma proposalKey_inj [simp]: "proposalKey a i = proposalKey a' i' \<longleftrightarrow> a = a' \<and> i = i'"
  by (simp add: proposalKey_def)

lemma mediaBuyKey_inj [simp]: "mediaBuyKey a i = mediaBuyKey a' i' \<longleftrightarrow> a = a' \<and> i = i'"
  by (simp add: mediaBuyKey_def)

definition mem_view :: "('r, 'p) mem_proposals \<Rightarrow> ('r, 'p) proposal_view" where
  "mem_view st a i = map_of (records st) (proposalKey a i)"

definition mem_ok :: "('r, 'p) mem_proposals \<Rightarrow> bool" where
  "mem_ok st \<longleftrightarrow>
     distinct (map fst (records st))
     \<and> (\<forall>k r. map_of (records st) k = Some r \<longrightarrow> k = proposalKey (accountId r) (proposalId r)
           \<and> (mediaBuyId r \<noteq> None \<longleftrightarrow> pstate r = Consumed))
     \<and> (\<forall>a m k. m \<noteq> [] \<longrightarrow> map_of (mediaBuyIndex st) (mediaBuyKey a m) = Some k \<longrightarrow>
           (\<exists>r. map_of (records st) k = Some r \<and> accountId r = a \<and> mediaBuyId r = Some m))"

lemma mem_okD:
  assumes "mem_ok st"
  shows "distinct (map fst (records st))"
    and "map_of (records st) k = Some r \<Longrightarrow> k = proposalKey (accountId r) (proposalId r)"
    and "map_of (records st) k = Some r \<Longrightarrow> mediaBuyId r \<noteq> None \<longleftrightarrow> pstate r = Consumed"
    and "m \<noteq> [] \<Longrightarrow> map_of (mediaBuyIndex st) (mediaBuyKey a m) = Some k \<Longrightarrow>
           \<exists>r. map_of (records st) k = Some r \<and> accountId r = a \<and> mediaBuyId r = Some m"
  using assms unfolding mem_ok_def by blast+

lemma mem_ok_empty: "mem_ok empty_proposals"
  by (simp add: mem_ok_def empty_proposals_def)

text \<open>Removing records.\<close>

lemma remove_record_records [simp]:
  "map_of (records (remove_record k st)) = (map_of (records st))(k := None)"
  by (simp add: remove_record_def Let_def delete_conv' split: option.splits)

lemma remove_record_index:
  "map_of (mediaBuyIndex (remove_record k st)) =
     (case map_of (records st) k of
        Some r \<Rightarrow> if truthy (mediaBuyId r)
          then (map_of (mediaBuyIndex st))(mediaBuyKey (accountId r) (the (mediaBuyId r)) := None)
          else map_of (mediaBuyIndex st)
      | None \<Rightarrow> map_of (mediaBuyIndex st))"
  by (simp add: remove_record_def Let_def delete_conv' split: option.splits)

lemma remove_record_distinct: "distinct (map fst (records st)) \<Longrightarrow> distinct (map fst (records (remove_record k st)))"
  by (simp add: remove_record_def Let_def distinct_delete split: option.splits)

lemma remove_record_ok:
  assumes "mem_ok st"
  shows "mem_ok (remove_record k st)"
  unfolding mem_ok_def
proof (intro conjI allI impI)
  show "distinct (map fst (records (remove_record k st)))"
    using remove_record_distinct mem_okD(1) [OF assms] .
next
  fix k' r assume "map_of (records (remove_record k st)) k' = Some r"
  then have r: "map_of (records st) k' = Some r" by (simp split: if_splits)
  show "k' = proposalKey (accountId r) (proposalId r)" using mem_okD(2) [OF assms r] .
  show "(mediaBuyId r \<noteq> None) = (pstate r = Consumed)" using mem_okD(3) [OF assms r] .
next
  fix a m k' assume m: "m \<noteq> []" and i: "map_of (mediaBuyIndex (remove_record k st)) (mediaBuyKey a m) = Some k'"
  have i': "map_of (mediaBuyIndex st) (mediaBuyKey a m) = Some k'"
    using i by (auto simp: remove_record_index split: option.splits if_splits)
  obtain r where r: "map_of (records st) k' = Some r" "accountId r = a" "mediaBuyId r = Some m"
    using mem_okD(4) [OF assms m i'] by blast
  have "k' \<noteq> k"
    using i r m by (auto simp: remove_record_index truthy_def split: option.splits if_splits)
  then show "\<exists>r. map_of (records (remove_record k st)) k' = Some r \<and> accountId r = a \<and> mediaBuyId r = Some m"
    using r by simp
qed

lemma fold_remove_records:
  "map_of (records (fold remove_record ks st)) k = (if k \<in> set ks then None else map_of (records st) k)"
  by (induction ks arbitrary: st) auto

lemma fold_remove_ok: "mem_ok st \<Longrightarrow> mem_ok (fold remove_record ks st)"
  by (induction ks arbitrary: st) (auto simp: remove_record_ok)

lemma evictExpired_ok: "mem_ok st \<Longrightarrow> mem_ok (evictExpired cfg now st)"
  by (simp add: evictExpired_def Let_def fold_remove_ok)

lemma member_map_filter_key:
  assumes "distinct (map fst xs)" "(k, r) \<in> set xs"
  shows "k \<in> set (map fst (filter P xs)) \<longleftrightarrow> P (k, r)"
proof
  assume "k \<in> set (map fst (filter P xs))"
  then obtain r' where "(k, r') \<in> set xs" "P (k, r')" by auto
  then show "P (k, r)" using assms by (metis eq_key_imp_eq_value)
next
  assume "P (k, r)"
  then show "k \<in> set (map fst (filter P xs))" using assms(2) by force
qed

lemma evictExpired_records:
  assumes "mem_ok st"
  shows "map_of (records (evictExpired cfg now st)) k =
    (case map_of (records st) k of
       None \<Rightarrow> None
     | Some r \<Rightarrow>
         if expired_record cfg now (case map_of (creationTimes st) k of None \<Rightarrow> now | Some c \<Rightarrow> c) r
         then None else Some r)"
proof (cases "map_of (records st) k")
  case None
  then show ?thesis by (simp add: evictExpired_def Let_def fold_remove_records)
next
  case (Some r)
  have mem: "(k, r) \<in> set (records st)" using Some by (rule map_of_SomeD)
  show ?thesis
    unfolding evictExpired_def Let_def fold_remove_records member_map_filter_key [OF mem_okD(1) [OF assms] mem]
    using Some by simp
qed

lemma expired_not_Consuming: "expired_record cfg now c r \<Longrightarrow> pstate r \<noteq> Consuming"
  by (auto simp: expired_record_def)

lemma evictExpired_view: "mem_ok st \<Longrightarrow> evicted (mem_view st) (mem_view (evictExpired cfg now st))"
  unfolding evicted_def mem_view_def
  by (intro allI, subst (1 2) evictExpired_records) (auto split: option.splits dest: expired_not_Consuming)

text \<open>Writing one record.\<close>

lemma put_record_view:
  "mem_view (st\<lparr>records := AList.update (proposalKey a i) r (records st)\<rparr>) = view_set (mem_view st) a i r"
  by (intro ext) (auto simp: mem_view_def view_set_def update_conv')

lemma put_record_ok:
  assumes ok: "mem_ok st" and r: "accountId r = a" "proposalId r = i" "mediaBuyId r = None" "pstate r \<noteq> Consumed"
    and old: "\<And>r'. map_of (records st) (proposalKey a i) = Some r' \<Longrightarrow> mediaBuyId r' = None"
  shows "mem_ok (st\<lparr>records := AList.update (proposalKey a i) r (records st), creationTimes := c\<rparr>)"
  unfolding mem_ok_def
proof (intro conjI allI impI)
  show "distinct (map fst (records (st\<lparr>records := AList.update (proposalKey a i) r (records st), creationTimes := c\<rparr>)))"
    using mem_okD(1) [OF ok] by (simp add: distinct_update)
next
  fix k' r'
  assume "map_of (records (st\<lparr>records := AList.update (proposalKey a i) r (records st), creationTimes := c\<rparr>)) k' = Some r'"
  then have "k' = proposalKey a i \<and> r' = r \<or> map_of (records st) k' = Some r'"
    by (auto simp: update_conv' split: if_splits)
  then show "k' = proposalKey (accountId r') (proposalId r')" "(mediaBuyId r' \<noteq> None) = (pstate r' = Consumed)"
    using r mem_okD(2,3) [OF ok, of k' r'] by auto
next
  fix a' m k'
  assume m: "m \<noteq> []" and "map_of (mediaBuyIndex (st\<lparr>records := AList.update (proposalKey a i) r (records st), creationTimes := c\<rparr>)) (mediaBuyKey a' m) = Some k'"
  then obtain r' where r': "map_of (records st) k' = Some r'" "accountId r' = a'" "mediaBuyId r' = Some m"
    using mem_okD(4) [OF ok m] by auto
  then have "k' \<noteq> proposalKey a i" using old by auto
  then show "\<exists>r''. map_of (records (st\<lparr>records := AList.update (proposalKey a i) r (records st), creationTimes := c\<rparr>)) k' = Some r''
      \<and> accountId r'' = a' \<and> mediaBuyId r'' = Some m"
    using r' by (simp add: update_conv')
qed

lemma put_record_ok':
  assumes "mem_ok st" "accountId r = a" "proposalId r = i" "mediaBuyId r = None" "pstate r \<noteq> Consumed"
    and "\<And>r'. map_of (records st) (proposalKey a i) = Some r' \<Longrightarrow> mediaBuyId r' = None"
  shows "mem_ok (st\<lparr>records := AList.update (proposalKey a i) r (records st)\<rparr>)"
  using put_record_ok [OF assms, of "creationTimes st"] by simp

lemma not_consumed: "mem_ok st \<Longrightarrow> map_of (records st) k = Some r \<Longrightarrow> pstate r \<noteq> Consumed \<Longrightarrow> mediaBuyId r = None"
  using mem_okD(3) by blast

lemma view_creationTimes [simp]: "mem_view (st\<lparr>creationTimes := c\<rparr>) = mem_view st"
  by (intro ext) (simp add: mem_view_def)

lemma view_index [simp]: "mem_view (st\<lparr>mediaBuyIndex := c\<rparr>) = mem_view st"
  by (intro ext) (simp add: mem_view_def)

lemma put_draft_view:
  "mem_view (st\<lparr>records := AList.update (proposalKey a i) r (records st), creationTimes := c\<rparr>) = view_set (mem_view st) a i r"
  by (intro ext) (auto simp: mem_view_def view_set_def update_conv')

lemma consume_ok:
  assumes ok: "mem_ok st" and old: "map_of (records st) (proposalKey a i) = Some r" "pstate r = Consuming"
  shows "mem_ok (st\<lparr>records := AList.update (proposalKey a i) (r\<lparr>pstate := Consumed, mediaBuyId := Some buy\<rparr>) (records st),
      mediaBuyIndex := AList.update (mediaBuyKey (accountId r) buy) (proposalKey a i) (mediaBuyIndex st)\<rparr>)"
    (is "mem_ok ?st")
  unfolding mem_ok_def
proof (intro conjI allI impI)
  have k: "proposalKey a i = proposalKey (accountId r) (proposalId r)" using mem_okD(2) [OF ok old(1)] .
  show "distinct (map fst (records ?st))" using mem_okD(1) [OF ok] by (simp add: distinct_update)
  {
    fix k' r' assume "map_of (records ?st) k' = Some r'"
    then have "k' = proposalKey a i \<and> r' = r\<lparr>pstate := Consumed, mediaBuyId := Some buy\<rparr> \<or> map_of (records st) k' = Some r'"
      by (auto simp: update_conv' split: if_splits)
    then show "k' = proposalKey (accountId r') (proposalId r')" "(mediaBuyId r' \<noteq> None) = (pstate r' = Consumed)"
      using k mem_okD(2,3) [OF ok, of k' r'] by auto
  }
  fix a' m k' assume m: "m \<noteq> []" and i: "map_of (mediaBuyIndex ?st) (mediaBuyKey a' m) = Some k'"
  show "\<exists>r''. map_of (records ?st) k' = Some r'' \<and> accountId r'' = a' \<and> mediaBuyId r'' = Some m"
  proof (cases "a' = accountId r \<and> m = buy")
    case True
    then show ?thesis using i by (auto simp: update_conv')
  next
    case False
    then have "map_of (mediaBuyIndex st) (mediaBuyKey a' m) = Some k'" using i by (auto simp: update_conv')
    then obtain r' where r': "map_of (records st) k' = Some r'" "accountId r' = a'" "mediaBuyId r' = Some m"
      using mem_okD(4) [OF ok m] by auto
    then have "k' \<noteq> proposalKey a i" using old not_consumed [OF ok old(1)] by auto
    then show ?thesis using r' by (simp add: update_conv')
  qed
qed

lemma consume_view:
  "mem_view (st\<lparr>records := AList.update (proposalKey a i) r (records st), mediaBuyIndex := x\<rparr>) = view_set (mem_view st) a i r"
  by (intro ext) (auto simp: mem_view_def view_set_def update_conv')

lemma memoryProposals_simps [simp]:
  "op_putDraft (memoryProposals cfg json) = mem_putDraft cfg"
  "op_getProposal (memoryProposals cfg json) = mem_getProposal cfg"
  "op_commit (memoryProposals cfg json) = mem_commit cfg json"
  "op_tryReserveConsumption (memoryProposals cfg json) = mem_tryReserveConsumption cfg"
  "op_finalizeConsumption (memoryProposals cfg json) = mem_finalizeConsumption"
  "op_releaseConsumption (memoryProposals cfg json) = mem_releaseConsumption"
  "op_discard (memoryProposals cfg json) = mem_discard"
  "op_getByMediaBuyId (memoryProposals cfg json) = mem_getByMediaBuyId cfg"
  by (simp_all add: memoryProposals_def)

lemma key_record:
  assumes "mem_ok st" "map_of (records st) (proposalKey a i) = Some r"
  shows "accountId r = a" "proposalId r = i"
  using mem_okD(2) [OF assms] by simp_all

lemma mem_put_law:
  assumes ok: "mem_ok st" and step: "mem_putDraft cfg now i a rs p st = (res, st')"
  shows "mem_ok st' \<and> (\<exists>v. evicted (mem_view st) v \<and>
            (res = Inr () \<and> (\<forall>r. v a i = Some r \<longrightarrow> pstate r = Draft)
               \<and> (\<exists>r. mem_view st' = view_set v a i r \<and> pstate r = Draft)
             \<or> res \<noteq> Inr () \<and> mem_view st' = v))"
proof -
  let ?e = "evictExpired cfg now st"
  have e: "mem_ok ?e" "evicted (mem_view st) (mem_view ?e)"
    using evictExpired_ok evictExpired_view ok by blast+
  show ?thesis
  proof (cases "case map_of (records ?e) (proposalKey a i) of Some x \<Rightarrow> pstate x \<noteq> Draft | None \<Rightarrow> False")
    case True
    then show ?thesis using step e by (auto simp: mem_putDraft_def Let_def)
  next
    case False
    then have d: "\<And>x. map_of (records ?e) (proposalKey a i) = Some x \<Longrightarrow> pstate x = Draft" by auto
    let ?r = "\<lparr>proposalId = i, accountId = a, pstate = Draft, recipes = rs, proposalPayload = p,
        holdExpiresAt = None, mediaBuyId = None, recipeSchemaVersion = None\<rparr>"
    obtain c where st': "res = Inr ()"
      "st' = ?e\<lparr>records := AList.update (proposalKey a i) ?r (records ?e), creationTimes := c\<rparr>"
      using step False by (auto simp: mem_putDraft_def Let_def)
    have old: "\<And>x. map_of (records ?e) (proposalKey a i) = Some x \<Longrightarrow> mediaBuyId x = None"
      using d not_consumed [OF e(1)] by force
    have "mem_ok st'" unfolding st'(2) by (rule put_record_ok [OF e(1)]) (simp_all add: old)
    moreover have "mem_view st' = view_set (mem_view ?e) a i ?r" unfolding st'(2) by (rule put_draft_view)
    moreover have "\<forall>r. mem_view ?e a i = Some r \<longrightarrow> pstate r = Draft" using d by (simp add: mem_view_def)
    moreover have "pstate ?r = Draft" by simp
    ultimately show ?thesis using e(2) st'(1) by blast
  qed
qed

lemma mem_commit_law:
  assumes ok: "mem_ok st" and step: "mem_commit cfg json now i t p (Some a) st = (res, st')"
  shows "mem_ok st' \<and> (\<exists>v. evicted (mem_view st) v \<and>
            (mem_view st' = v \<or> (\<exists>r t'. t = Some t' \<and> res = Inr () \<and> v a i = Some r \<and> pstate r = Draft \<and>
               mem_view st' = view_set v a i (r\<lparr>pstate := Committed, holdExpiresAt := Some t', proposalPayload := p\<rparr>))))"
proof -
  let ?e = "evictExpired cfg now st"
  have e: "mem_ok ?e" "evicted (mem_view st) (mem_view ?e)"
    using evictExpired_ok evictExpired_view ok by blast+
  show ?thesis
  proof (cases "\<exists>r t'. t = Some t' \<and> map_of (records ?e) (proposalKey a i) = Some r \<and> pstate r = Draft")
    case False
    then have "st' = ?e" using step
      by (auto simp: mem_commit_def Let_def split: option.splits if_splits)
    then show ?thesis using e by blast
  next
    case True
    then obtain r t' where r: "t = Some t'" "map_of (records ?e) (proposalKey a i) = Some r" "pstate r = Draft" by blast
    let ?r = "r\<lparr>pstate := Committed, holdExpiresAt := Some t', proposalPayload := p\<rparr>"
    have st': "res = Inr ()" "st' = ?e\<lparr>records := AList.update (proposalKey a i) ?r (records ?e)\<rparr>"
      using step r by (auto simp: mem_commit_def Let_def)
    have "mediaBuyId r = None" using not_consumed [OF e(1) r(2)] r(3) by simp
    then have "mem_ok st'"
      unfolding st'(2) using r key_record [OF e(1) r(2)] by (intro put_record_ok' [OF e(1)]) simp_all
    moreover have "mem_view st' = view_set (mem_view ?e) a i ?r" unfolding st'(2) by (rule put_record_view)
    moreover have "mem_view ?e a i = Some r" using r(2) by (simp add: mem_view_def)
    ultimately show ?thesis using e(2) st'(1) r(1,3) by blast
  qed
qed

lemma mem_reserve_law:
  assumes ok: "mem_ok st" and step: "mem_tryReserveConsumption cfg now i a cutoff st = (res, st')"
  shows "mem_ok st' \<and> (\<exists>v. evicted (mem_view st) v \<and>
            (case res of
               Inl e \<Rightarrow> mem_view st' = v \<and> (e = proposal_error ''PROPOSAL_NOT_FOUND'' \<or> e = proposal_error ''PROPOSAL_NOT_COMMITTED'')
             | Inr r' \<Rightarrow> \<exists>r. v a i = Some r \<and> pstate r = Committed \<and> r' = r\<lparr>pstate := Consuming\<rparr>
                 \<and> (\<forall>t c. holdExpiresAt r = Some t \<longrightarrow> cutoff = Some c \<longrightarrow> c \<le> t)
                 \<and> mem_view st' = view_set v a i r'))"
proof -
  let ?e = "evictExpired cfg now st"
  have e: "mem_ok ?e" "evicted (mem_view st) (mem_view ?e)"
    using evictExpired_ok evictExpired_view ok by blast+
  show ?thesis
  proof (cases res)
    case (Inl x)
    then have "st' = ?e" "x = proposal_error ''PROPOSAL_NOT_FOUND'' \<or> x = proposal_error ''PROPOSAL_NOT_COMMITTED''"
      using step by (auto simp: mem_tryReserveConsumption_def Let_def split: option.splits if_splits)
    then show ?thesis using e Inl by auto
  next
    case (Inr r')
    then obtain r where r: "map_of (records ?e) (proposalKey a i) = Some r" "pstate r = Committed"
      and r': "r' = r\<lparr>pstate := Consuming\<rparr>"
      and st': "st' = ?e\<lparr>records := AList.update (proposalKey a i) r' (records ?e)\<rparr>"
      and "\<not> (case (holdExpiresAt r, cutoff) of (Some t, Some c) \<Rightarrow> t < c | _ \<Rightarrow> False)"
      using step by (auto simp: mem_tryReserveConsumption_def Let_def split: option.splits if_split_asm)
    then have hold: "\<forall>t c. holdExpiresAt r = Some t \<longrightarrow> cutoff = Some c \<longrightarrow> c \<le> t" by auto
    have "mediaBuyId r = None" using not_consumed [OF e(1) r(1)] r(2) by simp
    then have "mem_ok st'"
      unfolding st' using r r' key_record [OF e(1) r(1)] by (intro put_record_ok' [OF e(1)]) simp_all
    moreover have "mem_view st' = view_set (mem_view ?e) a i r'" unfolding st' by (rule put_record_view)
    moreover have "mem_view ?e a i = Some r" using r(1) by (simp add: mem_view_def)
    ultimately show ?thesis using e(2) r(2) r' hold Inr by auto
  qed
qed

lemma mem_finalize_law:
  assumes ok: "mem_ok st" and step: "mem_finalizeConsumption i buy a st = (res, st')"
  shows "mem_ok st' \<and> (case mem_view st a i of
             None \<Rightarrow> res \<noteq> Inr () \<and> mem_view st' = mem_view st
           | Some r \<Rightarrow>
               if pstate r = Consuming
               then res = Inr () \<and> mem_view st' = view_set (mem_view st) a i (r\<lparr>pstate := Consumed, mediaBuyId := Some buy\<rparr>)
               else mem_view st' = mem_view st \<and> (res = Inr () \<longleftrightarrow> pstate r = Consumed \<and> mediaBuyId r = Some buy))"
proof (cases "map_of (records st) (proposalKey a i)")
  case None
  then show ?thesis using ok step by (auto simp: mem_finalizeConsumption_def mem_view_def)
next
  case (Some r)
  note k = key_record [OF ok Some]
  show ?thesis
  proof (cases "pstate r = Consuming")
    case True
    then show ?thesis
      using step Some k consume_ok [OF ok Some True, of buy]
      by (auto simp: mem_finalizeConsumption_def Let_def mem_view_def [of st a i] put_record_view)
  next
    case False
    then show ?thesis
      using step Some k ok by (auto simp: mem_finalizeConsumption_def Let_def mem_view_def [of st a i] split: if_splits)
  qed
qed

lemma mem_release_law:
  assumes ok: "mem_ok st" and step: "mem_releaseConsumption i a st = (res, st')"
  shows "mem_ok st' \<and> (case mem_view st a i of
             None \<Rightarrow> res = Inr () \<and> mem_view st' = mem_view st
           | Some r \<Rightarrow>
               if pstate r = Consuming
               then res = Inr () \<and> mem_view st' = view_set (mem_view st) a i (r\<lparr>pstate := Committed\<rparr>)
               else mem_view st' = mem_view st \<and> (res = Inr () \<longleftrightarrow> pstate r = Committed))"
proof (cases "map_of (records st) (proposalKey a i)")
  case None
  then show ?thesis using ok step by (auto simp: mem_releaseConsumption_def mem_view_def)
next
  case (Some r)
  note k = key_record [OF ok Some]
  show ?thesis
  proof (cases "pstate r = Consuming")
    case True
    have "mediaBuyId r = None" using not_consumed [OF ok Some] True by simp
    then have "mem_ok (st\<lparr>records := AList.update (proposalKey a i) (r\<lparr>pstate := Committed\<rparr>) (records st)\<rparr>)"
      using k Some by (intro put_record_ok' [OF ok]) simp_all
    then show ?thesis
      using step Some k True
      by (auto simp: mem_releaseConsumption_def Let_def mem_view_def [of st a i] put_record_view)
  next
    case False
    then show ?thesis
      using step Some k ok by (auto simp: mem_releaseConsumption_def Let_def mem_view_def [of st a i] split: if_splits)
  qed
qed

lemma mem_lookup_ok:
  assumes "mem_ok st"
  shows "mem_ok (snd (mem_getByMediaBuyId cfg now m a st))"
    "mem_view (snd (mem_getByMediaBuyId cfg now m a st)) = mem_view (evictExpired cfg now st)"
proof -
  have e: "mem_ok (evictExpired cfg now st)" using evictExpired_ok [OF assms] .
  have d: "mem_ok (st'\<lparr>mediaBuyIndex := AList.delete k (mediaBuyIndex st')\<rparr>)"
    if "mem_ok st'" for st' :: "('r, 'p) mem_proposals" and k
    using that unfolding mem_ok_def by (auto simp: delete_conv' split: if_splits)
  show "mem_ok (snd (mem_getByMediaBuyId cfg now m a st))"
    "mem_view (snd (mem_getByMediaBuyId cfg now m a st)) = mem_view (evictExpired cfg now st)"
    using e d [OF e] by (auto simp: mem_getByMediaBuyId_def Let_def split: option.splits)
qed

interpretation memp: proposal_store "memoryProposals cfg json" mem_view mem_ok
proof (unfold_locales, unfold memoryProposals_simps)
  fix st :: "('r, 'p) mem_proposals" and a i r
  assume "mem_ok st" "mem_view st a i = Some r"
  then show "accountId r = a \<and> proposalId r = i" using key_record by (auto simp: mem_view_def)
next
  fix st st' :: "('r, 'p) mem_proposals" and now i a q
  assume "mem_ok st" "mem_getProposal cfg now i a st = (q, st')"
  then show "mem_ok st' \<and> evicted (mem_view st) (mem_view st') \<and> q = mem_view st' a i"
    using evictExpired_ok evictExpired_view by (auto simp: mem_getProposal_def Let_def mem_view_def [of _ a i])
next
  fix st st' :: "('r, 'p) mem_proposals" and now m a q
  assume "mem_ok st" "mem_getByMediaBuyId cfg now m a st = (q, st')"
  then show "mem_ok st' \<and> evicted (mem_view st) (mem_view st')"
    using mem_lookup_ok [of st cfg now m a] evictExpired_view [of st cfg now] by simp
qed (fact mem_put_law mem_commit_law mem_reserve_law mem_finalize_law mem_release_law)+

section \<open>Runs of the in-process store\<close>

datatype ('r, 'p) proposal_cmd =
    PutCmd int string string "(string \<times> 'r) list" 'p
  | GetCmd int string string
  | CommitCmd int string "int option" 'p "string option"
  | ReserveCmd int string string "int option"
  | FinalizeCmd string string string
  | ReleaseCmd string string
  | DiscardCmd string "string option"
  | LookupCmd int string string

fun run_proposal_cmd ::
    "proposal_store_cfg \<Rightarrow> ('p \<Rightarrow> string) \<Rightarrow> ('r, 'p) proposal_cmd \<Rightarrow> ('r, 'p) mem_proposals \<Rightarrow> ('r, 'p) mem_proposals" where
  "run_proposal_cmd cfg json (PutCmd now i a rs p) st = snd (mem_putDraft cfg now i a rs p st)"
| "run_proposal_cmd cfg json (GetCmd now i a) st = snd (mem_getProposal cfg now i a st)"
| "run_proposal_cmd cfg json (CommitCmd now i t p a) st = snd (mem_commit cfg json now i t p a st)"
| "run_proposal_cmd cfg json (ReserveCmd now i a c) st = snd (mem_tryReserveConsumption cfg now i a c st)"
| "run_proposal_cmd cfg json (FinalizeCmd i m a) st = snd (mem_finalizeConsumption i m a st)"
| "run_proposal_cmd cfg json (ReleaseCmd i a) st = snd (mem_releaseConsumption i a st)"
| "run_proposal_cmd cfg json (DiscardCmd i a) st = snd (mem_discard i a st)"
| "run_proposal_cmd cfg json (LookupCmd now m a) st = snd (mem_getByMediaBuyId cfg now m a st)"

definition run_proposals ::
    "proposal_store_cfg \<Rightarrow> ('p \<Rightarrow> string) \<Rightarrow> ('r, 'p) proposal_cmd list \<Rightarrow> ('r, 'p) mem_proposals \<Rightarrow> ('r, 'p) mem_proposals" where
  "run_proposals cfg json cmds st = fold (run_proposal_cmd cfg json) cmds st"

lemma legacy_key:
  assumes "mem_ok st" "legacyProposalKey st i = Inr (Some k)"
  obtains a r where "k = proposalKey a i" "map_of (records st) k = Some r" "accountId r = a"
proof -
  let ?found = "filter (\<lambda>(k, r). proposalId r = i) (records st)"
  obtain x xs where f: "?found = x # xs" "fst x = k"
    using assms(2) by (auto simp: legacyProposalKey_def Let_def split: list.splits if_splits prod.splits)
  then obtain r where x: "x = (k, r)" by (cases x) auto
  have "x \<in> set ?found" by (simp add: f(1))
  then have r: "(k, r) \<in> set (records st)" "proposalId r = i" by (auto simp: x)
  then have "map_of (records st) k = Some r" using mem_okD(1) [OF assms(1)] by simp
  then show thesis using that mem_okD(2) [OF assms(1)] r(2) by metis
qed

lemma mem_commit_legacy:
  assumes "mem_ok st"
  shows "snd (mem_commit cfg json now i t p None st) = evictExpired cfg now st
    \<or> (\<exists>a. mem_commit cfg json now i t p None st = mem_commit cfg json now i t p (Some a) st)"
proof (cases "legacyProposalKey (evictExpired cfg now st) i")
  case (Inl e)
  then show ?thesis by (auto simp: mem_commit_def Let_def split: option.splits)
next
  case (Inr k)
  show ?thesis
  proof (cases k)
    case None
    then show ?thesis using Inr by (auto simp: mem_commit_def Let_def split: option.splits)
  next
    case (Some k')
    then obtain a where "k' = proposalKey a i"
      using legacy_key [OF evictExpired_ok [OF assms]] Inr by metis
    then have "mem_commit cfg json now i t p None st = mem_commit cfg json now i t p (Some a) st"
      using Inr Some by (cases t) (simp_all add: mem_commit_def Let_def)
    then show ?thesis by blast
  qed
qed

lemma run_cmd_ok:
  assumes "mem_ok st"
  shows "mem_ok (run_proposal_cmd cfg json c st)"
proof (cases c)
  case (CommitCmd now i t p a)
  show ?thesis
  proof (cases a)
    case None
    then show ?thesis
      using mem_commit_legacy [OF assms, of cfg json now i t p] mem_commit_law [OF assms, of cfg json now i t p]
        evictExpired_ok [OF assms] CommitCmd by (metis prod.collapse run_proposal_cmd.simps(3))
  next
    case (Some b)
    then show ?thesis
      using mem_commit_law [OF assms, of cfg json now i t p] CommitCmd by (metis prod.collapse run_proposal_cmd.simps(3))
  qed
next
  case (PutCmd now i a rs p)
  then show ?thesis using mem_put_law [OF assms] by (metis prod.collapse run_proposal_cmd.simps(1))
next
  case (ReserveCmd now i a c)
  then show ?thesis using mem_reserve_law [OF assms] by (metis prod.collapse run_proposal_cmd.simps(4))
next
  case (FinalizeCmd i m a)
  then show ?thesis using mem_finalize_law [OF assms] by (metis prod.collapse run_proposal_cmd.simps(5))
next
  case (ReleaseCmd i a)
  then show ?thesis using mem_release_law [OF assms] by (metis prod.collapse run_proposal_cmd.simps(6))
next
  case (DiscardCmd i a)
  then show ?thesis
    using remove_record_ok [OF assms] assms by (auto simp: mem_discard_def split: sum.splits option.splits)
qed (simp_all add: mem_getProposal_def Let_def evictExpired_ok mem_lookup_ok assms)

lemma run_proposals_ok: "mem_ok st \<Longrightarrow> mem_ok (run_proposals cfg json cmds st)"
  by (induction cmds arbitrary: st) (auto simp: run_proposals_def run_cmd_ok)

subsection \<open>The lifecycle of one proposal\<close>

definition state_of :: "('r, 'p) proposal_record option \<Rightarrow> proposal_state option" where
  "state_of r = map_option pstate r"

definition lifecycle_edge :: "proposal_state option \<Rightarrow> proposal_state option \<Rightarrow> bool" where
  "lifecycle_edge x y \<longleftrightarrow>
     x = y \<or> (x, y) \<in> {(None, Some Draft), (Some Draft, Some Committed), (Some Committed, Some Consuming),
                        (Some Consuming, Some Committed), (Some Consuming, Some Consumed)}"

text \<open>The proposal that a command names; a lookup names none.\<close>

fun cmd_account :: "('r, 'p) proposal_cmd \<Rightarrow> string option" where
  "cmd_account (PutCmd now i a rs p) = Some a"
| "cmd_account (GetCmd now i a) = Some a"
| "cmd_account (CommitCmd now i t p a) = a"
| "cmd_account (ReserveCmd now i a c) = Some a"
| "cmd_account (FinalizeCmd i m a) = Some a"
| "cmd_account (ReleaseCmd i a) = Some a"
| "cmd_account (DiscardCmd i a) = a"
| "cmd_account (LookupCmd now m a) = Some a"

fun is_discard :: "('r, 'p) proposal_cmd \<Rightarrow> bool" where
  "is_discard (DiscardCmd i a) = True"
| "is_discard _ = False"

definition one_edge :: "('r, 'p) proposal_view \<Rightarrow> ('r, 'p) proposal_view \<Rightarrow> string \<Rightarrow> bool" where
  "one_edge v v' a \<longleftrightarrow>
     (\<exists>i. (\<forall>a' i'. a' \<noteq> a \<or> i' \<noteq> i \<longrightarrow> v' a' i' = v a' i') \<and> lifecycle_edge (state_of (v a i)) (state_of (v' a i)))"

lemma one_edge_refl [simp]: "one_edge v v a"
  by (simp add: one_edge_def lifecycle_edge_def)

lemma one_edge_set: "lifecycle_edge (state_of (v a i)) (Some (pstate r)) \<Longrightarrow> one_edge v (view_set v a i r) a"
  unfolding one_edge_def by (rule exI [of _ i]) (simp add: view_set_def state_of_def)

lemma run_cmd_edge:
  assumes ok: "mem_ok st" and nd: "\<not> is_discard c" and acc: "cmd_account c = Some a"
  shows "\<exists>v. evicted (mem_view st) v \<and> one_edge v (mem_view (run_proposal_cmd cfg json c st)) a"
proof (cases c)
  case (PutCmd now i b rs p)
  have b: "b = a" using acc PutCmd by simp
  obtain res st' where s: "mem_putDraft cfg now i a rs p st = (res, st')" by (metis surj_pair)
  then obtain v where v: "evicted (mem_view st) v"
    "(\<forall>r. v a i = Some r \<longrightarrow> pstate r = Draft) \<and> (\<exists>r. mem_view st' = view_set v a i r \<and> pstate r = Draft) \<or> mem_view st' = v"
    using mem_put_law [OF ok s] by blast
  have e: "(\<forall>r. v a i = Some r \<longrightarrow> pstate r = Draft) \<Longrightarrow> lifecycle_edge (state_of (v a i)) (Some Draft)"
    by (cases "v a i") (auto simp: lifecycle_edge_def state_of_def)
  have "one_edge v (mem_view st') a"
  proof (cases "mem_view st' = v")
    case False
    then obtain r where "mem_view st' = view_set v a i r" "pstate r = Draft"
      "\<forall>r. v a i = Some r \<longrightarrow> pstate r = Draft" using v(2) by blast
    then show ?thesis using one_edge_set [of v a i r] e by simp
  qed simp
  then show ?thesis using v(1) PutCmd s b by auto
next
  case (GetCmd now i b)
  then show ?thesis
    using evictExpired_view [OF ok, of cfg now]
    by (auto simp: mem_getProposal_def Let_def intro!: exI [of _ "mem_view (evictExpired cfg now st)"])
next
  case (CommitCmd now i t p b)
  obtain res st' where s: "mem_commit cfg json now i t p (Some a) st = (res, st')" by (metis surj_pair)
  obtain v where v: "evicted (mem_view st) v"
    "mem_view st' = v \<or> (\<exists>r t'. v a i = Some r \<and> pstate r = Draft \<and>
       mem_view st' = view_set v a i (r\<lparr>pstate := Committed, holdExpiresAt := Some t', proposalPayload := p\<rparr>))"
    using mem_commit_law [OF ok s] by blast
  then have "one_edge v (mem_view st') a"
    by (auto intro!: one_edge_set simp: lifecycle_edge_def state_of_def)
  then show ?thesis using v(1) CommitCmd s acc by auto
next
  case (ReserveCmd now i b cut)
  obtain res st' where s: "mem_tryReserveConsumption cfg now i a cut st = (res, st')" by (metis surj_pair)
  obtain v where v: "evicted (mem_view st) v"
    "mem_view st' = v \<or> (\<exists>r. v a i = Some r \<and> pstate r = Committed \<and> mem_view st' = view_set v a i (r\<lparr>pstate := Consuming\<rparr>))"
    using mem_reserve_law [OF ok s] by (cases res) (simp, blast, simp, blast)
  then have "one_edge v (mem_view st') a"
    by (auto intro!: one_edge_set simp: lifecycle_edge_def state_of_def)
  then show ?thesis using v(1) ReserveCmd s acc by auto
next
  case (FinalizeCmd i m b)
  obtain res st' where s: "mem_finalizeConsumption i m a st = (res, st')" by (metis surj_pair)
  have "one_edge (mem_view st) (mem_view st') a"
    using mem_finalize_law [OF ok s]
    by (auto intro!: one_edge_set simp: lifecycle_edge_def state_of_def split: option.splits if_splits)
  then show ?thesis using FinalizeCmd s acc by (auto intro: exI [of _ "mem_view st"])
next
  case (ReleaseCmd i b)
  obtain res st' where s: "mem_releaseConsumption i a st = (res, st')" by (metis surj_pair)
  have "one_edge (mem_view st) (mem_view st') a"
    using mem_release_law [OF ok s]
    by (auto intro!: one_edge_set simp: lifecycle_edge_def state_of_def split: option.splits if_splits)
  then show ?thesis using ReleaseCmd s acc by (auto intro: exI [of _ "mem_view st"])
next
  case (LookupCmd now m b)
  then show ?thesis
    using evictExpired_view [OF ok, of cfg now] mem_lookup_ok(2) [OF ok]
    by (auto intro!: exI [of _ "mem_view (evictExpired cfg now st)"])
qed (use nd in simp)

lemma one_edge_other: "one_edge v v' a \<Longrightarrow> a' \<noteq> a \<Longrightarrow> v' a' i' = v a' i'"
  unfolding one_edge_def by blast

section \<open>Properties\<close>


definition demo_proposal_cfg :: proposal_store_cfg where
  "demo_proposal_cfg = new_proposal_cfg None None"


text \<open>
  The reverse index is sound: in every state the store can reach, the record found for a media
  buy and an account belongs to that account, is consumed, and was consumed by that media buy.
\<close>

theorem media_buy_lookup_sound:
  assumes "fst (mem_getByMediaBuyId cfg now m a (run_proposals cfg json cmds empty_proposals)) = Some r" "m \<noteq> []"
  shows "accountId r = a \<and> mediaBuyId r = Some m \<and> pstate r = Consumed"
proof -
  let ?e = "evictExpired cfg now (run_proposals cfg json cmds empty_proposals)"
  have ok: "mem_ok ?e" using evictExpired_ok run_proposals_ok mem_ok_empty by blast
  obtain k where k: "map_of (mediaBuyIndex ?e) (mediaBuyKey a m) = Some k" "map_of (records ?e) k = Some r"
    using assms(1) by (auto simp: mem_getByMediaBuyId_def Let_def split: option.splits)
  then show ?thesis using mem_okD(4) [OF ok assms(2) k(1)] mem_okD(3) [OF ok k(2)] by auto
qed

definition demo_consumed :: "(nat, string) proposal_cmd list" where
  "demo_consumed =
    [PutCmd 0 ''p1'' ''acct'' [(''prod'', 1)] ''{}'', CommitCmd 5 ''p1'' (Some 100) ''{1}'' (Some ''acct''),
     ReserveCmd 6 ''p1'' ''acct'' (Some 6), FinalizeCmd ''p1'' ''mb1'' ''acct'']"

theorem media_buy_lookup_sound_witness:
  "\<exists>r. fst (mem_getByMediaBuyId demo_proposal_cfg 7 ''mb1'' ''acct'' (run_proposals demo_proposal_cfg id demo_consumed empty_proposals)) = Some r
    \<and> accountId r = ''acct'' \<and> mediaBuyId r = Some ''mb1'' \<and> pstate r = Consumed"
proof -
  have "fst (mem_getByMediaBuyId demo_proposal_cfg 7 ''mb1'' ''acct'' (run_proposals demo_proposal_cfg id demo_consumed empty_proposals)) \<noteq> None"
    by code_simp
  then obtain r where r: "fst (mem_getByMediaBuyId demo_proposal_cfg 7 ''mb1'' ''acct'' (run_proposals demo_proposal_cfg id demo_consumed empty_proposals)) = Some r"
    by blast
  then show ?thesis using media_buy_lookup_sound [OF r] by simp
qed

text \<open>
  Two proposals of one account that are consumed with the same media buy identifier share one
  entry of the reverse index, so discarding the first makes the second unreachable by it.
\<close>

theorem shared_media_buy_loses_index:
  "fst (mem_getByMediaBuyId demo_proposal_cfg 7 ''mb1'' ''acct''
      (run_proposals demo_proposal_cfg id (demo_consumed @
        [PutCmd 0 ''p2'' ''acct'' [] ''{}'', CommitCmd 5 ''p2'' (Some 100) ''{1}'' (Some ''acct''),
         ReserveCmd 6 ''p2'' ''acct'' (Some 6), FinalizeCmd ''p2'' ''mb1'' ''acct'', DiscardCmd ''p1'' (Some ''acct'')])
        empty_proposals)) = None"
  by code_simp

end
