(* ===== verification/ProposalDispatch.thy ===== *)
theory ProposalDispatch
  imports ProposalStore
begin

text \<open>
  What the server does with proposals around its handlers: the pure checks of
  \<open>src/lib/server/decisioning/proposal/lifecycle.ts\<close> (hold expiry, capability overlap, finalize
  detection) and the dispatch seams of \<open>src/lib/server/decisioning/proposal/dispatch.ts\<close>
  (finalize interception, draft persistence, reservation, hydration).  The functions take the
  store's operations as a \<open>proposal_ops\<close> record; the seller's \<open>finalizeProposal\<close> is a parameter.
  Log lines are left out.  Sets of strings are lists; \<open>None\<close> is an undefined field.  A function
  that reads the clock several times takes its readings in order, as \<open>clk 0\<close>, \<open>clk 1\<close>, \<dots>
\<close>

section \<open>Recipes and packages\<close>

record capability_overlap =
  pricingModels :: "string list option"
  targetingDimensions :: "string list option"
  deliveryTypes :: "string list option"
  signalTypes :: "string list option"

record recipe =
  recipe_kind :: string
  recipe_overlap :: "capability_overlap option"

record package_like =
  product_id :: "string option"
  pricing_model :: "string option"
  delivery_type :: "string option"
  signal_type :: "string option"
  targeting_overlay :: "string list option"
  resolved_pricing_model :: "string option"
  resolved_delivery_type :: "string option"

record wire_product =
  wire_product_id :: "string option"
  pricing_options :: "string option list option"
  wire_delivery_type :: "string option"
  implementation_config :: "recipe option"

definition or_else :: "'a option \<Rightarrow> 'a option \<Rightarrow> 'a option" where
  "or_else x y = (case x of None \<Rightarrow> y | Some v \<Rightarrow> Some v)"

section \<open>Capability overlap\<close>

fun decimal :: "nat \<Rightarrow> string" where
  "decimal n = (if n < 10 then [char_of (48 + n)] else decimal (n div 10) @ [char_of (48 + n mod 10)])"

declare decimal.simps [simp del]

definition field_at :: "string \<Rightarrow> nat \<Rightarrow> string \<Rightarrow> string" where
  "field_at pre i name = pre @ ''['' @ decimal i @ ''].'' @ name"

abbreviation invalid_package :: "string \<Rightarrow> nat \<Rightarrow> string \<Rightarrow> js_error" where
  "invalid_package pre i name \<equiv> adcp_throw ''INVALID_REQUEST'' (Some ''terminal'') (Some (field_at pre i name))"

definition choice_refused :: "string list option \<Rightarrow> string option \<Rightarrow> bool" where
  "choice_refused allowed requested =
     (case allowed of None \<Rightarrow> False
      | Some xs \<Rightarrow> (case requested of None \<Rightarrow> False | Some v \<Rightarrow> v \<notin> set xs))"

definition check_package :: "string \<Rightarrow> nat \<Rightarrow> capability_overlap \<Rightarrow> package_like \<Rightarrow> js_error + unit" where
  "check_package pre i ov pkg =
     (if choice_refused (pricingModels ov) (or_else (resolved_pricing_model pkg) (pricing_model pkg))
      then Inl (invalid_package pre i ''pricing_option_id'')
      else if (case targetingDimensions ov of None \<Rightarrow> False
               | Some ds \<Rightarrow>
                   filter (\<lambda>k. k \<notin> set ds) (case targeting_overlay pkg of None \<Rightarrow> [] | Some ks \<Rightarrow> ks) \<noteq> [])
      then Inl (invalid_package pre i ''targeting_overlay'')
      else if choice_refused (deliveryTypes ov) (or_else (resolved_delivery_type pkg) (delivery_type pkg))
      then Inl (invalid_package pre i ''delivery_type'')
      else if choice_refused (signalTypes ov) (signal_type pkg)
      then Inl (invalid_package pre i ''signal_type'')
      else Inr ())"

text \<open>The overlap a package is checked against: none for a package without a product or recipe.\<close>

definition package_overlap :: "(string \<times> recipe) list \<Rightarrow> package_like \<Rightarrow> capability_overlap option" where
  "package_overlap rs pkg =
     (if \<not> truthy (product_id pkg) then None
      else (case map_of rs (the (product_id pkg)) of None \<Rightarrow> None | Some r \<Rightarrow> recipe_overlap r))"

fun validate_packages :: "string \<Rightarrow> nat \<Rightarrow> (string \<times> recipe) list \<Rightarrow> package_like list \<Rightarrow> js_error + unit" where
  "validate_packages pre i rs [] = Inr ()"
| "validate_packages pre i rs (pkg # pkgs) =
     (case package_overlap rs pkg of
        None \<Rightarrow> validate_packages pre (Suc i) rs pkgs
      | Some ov \<Rightarrow> bindE (check_package pre i ov pkg) (\<lambda>_. validate_packages pre (Suc i) rs pkgs))"

definition validateCapabilityOverlap ::
    "package_like list \<Rightarrow> (string \<times> recipe) list \<Rightarrow> string option \<Rightarrow> js_error + unit" where
  "validateCapabilityOverlap packages rs fieldPathPrefix =
     validate_packages (case fieldPathPrefix of None \<Rightarrow> ''packages'' | Some p \<Rightarrow> p) 0 rs packages"

definition wirePricingModels :: "wire_product \<Rightarrow> string list" where
  "wirePricingModels p =
     (case pricing_options p of None \<Rightarrow> []
      | Some opts \<Rightarrow> List.map_filter (\<lambda>m. if truthy m then m else None) opts)"

definition wireDeliveryTypes :: "wire_product \<Rightarrow> string list" where
  "wireDeliveryTypes p = (if truthy (wire_delivery_type p) then [the (wire_delivery_type p)] else [])"

fun productsById :: "wire_product list \<Rightarrow> (string \<times> wire_product) list \<Rightarrow> (string \<times> wire_product) list" where
  "productsById [] m = m"
| "productsById (p # ps) m =
     productsById ps (if truthy (wire_product_id p) then AList.update (the (wire_product_id p)) p m else m)"

definition extras :: "string list option \<Rightarrow> string list \<Rightarrow> string list" where
  "extras declared wire = (case declared of None \<Rightarrow> [] | Some xs \<Rightarrow> filter (\<lambda>x. x \<notin> set wire) xs)"

fun subset_of_wire :: "(string \<times> wire_product) list \<Rightarrow> (string \<times> recipe) list \<Rightarrow> js_error + unit" where
  "subset_of_wire byId [] = Inr ()"
| "subset_of_wire byId ((productId, r) # rs) =
     (case (recipe_overlap r, map_of byId productId) of
        (Some ov, Some product) \<Rightarrow>
          if extras (pricingModels ov) (wirePricingModels product) \<noteq> [] then Inl internal_error
          else if extras (deliveryTypes ov) (wireDeliveryTypes product) \<noteq> [] \<and> wireDeliveryTypes product \<noteq> []
          then Inl internal_error
          else subset_of_wire byId rs
      | _ \<Rightarrow> subset_of_wire byId rs)"

definition validateOverlapSubsetOfWire :: "(string \<times> recipe) list \<Rightarrow> wire_product list \<Rightarrow> js_error + unit" where
  "validateOverlapSubsetOfWire rs products = subset_of_wire (productsById products []) rs"

section \<open>Hold expiry\<close>

definition enforceProposalExpiry ::
    "('s, 'r, 'p) proposal_ops \<Rightarrow> int \<Rightarrow> int \<Rightarrow> string \<Rightarrow> string \<Rightarrow> int option \<Rightarrow> 's
      \<Rightarrow> (js_error + ('r, 'p) proposal_record) \<times> 's" where
  "enforceProposalExpiry ops storeNow current proposal expectedAccount graceSeconds st =
     (let (found, st') = op_getProposal ops storeNow proposal expectedAccount st in
      (case found of
         None \<Rightarrow> Inl (proposal_error ''PROPOSAL_NOT_FOUND'')
       | Some r \<Rightarrow>
           if pstate r \<noteq> Committed then Inl (proposal_error ''PROPOSAL_NOT_COMMITTED'')
           else (case holdExpiresAt r of
                   None \<Rightarrow> Inr r
                 | Some t \<Rightarrow>
                     if current > t + (case graceSeconds of None \<Rightarrow> 0 | Some g \<Rightarrow> g) * 1000
                     then Inl (proposal_error ''PROPOSAL_EXPIRED'') else Inr r), st'))"

section \<open>Finalize detection\<close>

record refine_entry =
  entry_action :: "string option"
  entry_scope :: "string option"
  entry_proposal_id :: "string option"
  entry_product_id :: "string option"
  entry_ask :: "string option"

text \<open>
  \<open>refine\<close> as it arrives: missing or no object, an object that is no array, or an array whose
  elements are objects (\<open>Some\<close>) or anything else (\<open>None\<close>).  A string field that is absent or no
  string is \<open>None\<close>.
\<close>

datatype refine_value = NoRefine | RefineObject "string option" | RefineArray "refine_entry option list"

record finalize_ref =
  ref_index :: nat
  ref_proposalId :: string
  ref_ask :: "string option"

definition isFinalizeEntry :: "refine_entry option \<Rightarrow> bool" where
  "isFinalizeEntry v = (case v of None \<Rightarrow> False | Some e \<Rightarrow> entry_action e = Some ''finalize'')"

abbreviation invalidFinalizeRequest :: js_error where
  "invalidFinalizeRequest \<equiv> adcp_throw ''INVALID_REQUEST'' (Some ''correctable'') (Some ''refine'')"

definition detectFinalizeAction :: "string option \<Rightarrow> refine_value \<Rightarrow> js_error + finalize_ref option" where
  "detectFinalizeAction buying_mode refine =
     (case refine of
        NoRefine \<Rightarrow> Inr None
      | RefineObject act \<Rightarrow> if act = Some ''finalize'' then Inl invalidFinalizeRequest else Inr None
      | RefineArray es \<Rightarrow>
          (case filter (\<lambda>(i, e). isFinalizeEntry e) (enumerate 0 es) of
             [] \<Rightarrow> Inr None
           | (index, e) # others \<Rightarrow>
               if buying_mode \<noteq> Some ''refine'' then Inl invalidFinalizeRequest
               else if list_ex (\<lambda>e. \<not> isFinalizeEntry e \<or>
                      (case e of None \<Rightarrow> True
                       | Some x \<Rightarrow> entry_scope x \<noteq> Some ''proposal'' \<or> \<not> truthy (entry_proposal_id x))) es
               then Inl invalidFinalizeRequest
               else if others \<noteq> []
               then Inl (adcp_throw ''MULTI_FINALIZE_UNSUPPORTED'' (Some ''correctable'') (Some ''refine''))
               else Inr (Some \<lparr>ref_index = index, ref_proposalId = the (entry_proposal_id (the e)),
                               ref_ask = entry_ask (the e)\<rparr>)))"

section \<open>Finalize interception\<close>

record proposal_manager =
  cap_finalize :: bool
  cap_graceSeconds :: "int option"
  has_finalizeProposal :: bool

definition hasFinalizeCapability :: "proposal_manager option \<Rightarrow> bool" where
  "hasFinalizeCapability m =
     (case m of None \<Rightarrow> False | Some x \<Rightarrow> cap_finalize x \<and> has_finalizeProposal x)"

record 'p finalize_request =
  freq_proposalId :: string
  freq_recipes :: "(string \<times> recipe) list"
  freq_payload :: 'p
  freq_ask :: "string option"

datatype 'p intercept = Pass | Intercepted "'p finalize_request"

definition maybeInterceptFinalize ::
    "('s, recipe, 'p) proposal_ops \<Rightarrow> int \<Rightarrow> string option \<Rightarrow> refine_value \<Rightarrow> proposal_manager option
      \<Rightarrow> bool \<Rightarrow> string \<Rightarrow> 's \<Rightarrow> (js_error + 'p intercept) \<times> 's" where
  "maybeInterceptFinalize ops now buying_mode refine manager hasStore account st =
     (if \<not> hasFinalizeCapability manager \<or> \<not> hasStore then (Inr Pass, st)
      else
        (case detectFinalizeAction buying_mode refine of
           Inl e \<Rightarrow> (Inl e, st)
         | Inr None \<Rightarrow> (Inr Pass, st)
         | Inr (Some ref) \<Rightarrow>
             let fieldPath = field_at ''refine'' (ref_index ref) ''proposal_id'';
                 (found, st') = op_getProposal ops now (ref_proposalId ref) account st in
             (case found of
                None \<Rightarrow> (Inl (adcp_throw ''PROPOSAL_NOT_FOUND'' (Some ''correctable'') (Some fieldPath)), st')
              | Some r \<Rightarrow>
                  if pstate r \<noteq> Draft
                  then (Inl (adcp_throw ''PROPOSAL_NOT_COMMITTED'' (Some ''correctable'') (Some fieldPath)), st')
                  else (Inr (Intercepted \<lparr>freq_proposalId = ref_proposalId ref, freq_recipes = recipes r,
                               freq_payload = proposalPayload r, freq_ask = ref_ask ref\<rparr>), st'))))"

datatype applied = AppliedProposal string | AppliedProduct string | AppliedRequest

definition projectFinalizeResponse :: "refine_value \<Rightarrow> string \<Rightarrow> applied list" where
  "projectFinalizeResponse refine finalizeProposalId =
     (case refine of
        RefineArray es \<Rightarrow>
          map (\<lambda>e. case e of
                 None \<Rightarrow> AppliedRequest
               | Some x \<Rightarrow>
                   if entry_scope x = Some ''proposal'' then
                     AppliedProposal (case entry_proposal_id x of Some i \<Rightarrow> i | None \<Rightarrow> finalizeProposalId)
                   else if entry_scope x = Some ''product'' then
                     AppliedProduct (case entry_product_id x of Some i \<Rightarrow> i | None \<Rightarrow> [])
                   else AppliedRequest) es
      | _ \<Rightarrow> [])"

text \<open>
  The continuation that commits what the seller's \<open>finalizeProposal\<close> resolved to; \<open>None\<close> is a
  value of another shape.
\<close>

definition finalize_project ::
    "('s, recipe, 'p) proposal_ops \<Rightarrow> int \<Rightarrow> refine_value \<Rightarrow> string \<Rightarrow> string \<Rightarrow> ('p \<times> int option) option \<Rightarrow> 's
      \<Rightarrow> (js_error + 'p \<times> applied list) \<times> 's" where
  "finalize_project ops now refine proposal account success st =
     (case success of
        None \<Rightarrow> (Inl internal_error, st)
      | Some (payload, expires) \<Rightarrow>
          let (res, st') = op_commit ops now proposal expires payload (Some account) st in
          (bindE res (\<lambda>_. Inr (payload, projectFinalizeResponse refine proposal)), st'))"

section \<open>Draft persistence\<close>

text \<open>
  A proposal of a response: its id, the product ids of its allocations and of its legacy product
  list (each \<open>None\<close> where the array is missing, its elements \<open>None\<close> where no string), its payload.
\<close>

record 'p response_proposal =
  resp_proposal_id :: "string option"
  resp_allocations :: "string option list option"
  resp_products :: "string option list option"
  resp_payload :: 'p

definition collectRecipesFromProducts ::
    "wire_product list \<Rightarrow> 'p response_proposal \<Rightarrow> (string \<times> recipe) list" where
  "collectRecipesFromProducts products pr =
     (let referenced = (case resp_allocations pr of
            Some xs \<Rightarrow> Some (List.map_filter id xs)
          | None \<Rightarrow> map_option (List.map_filter id) (resp_products pr))
      in fold (\<lambda>p m.
           if \<not> truthy (wire_product_id p) then m
           else if (case referenced of None \<Rightarrow> False | Some ids \<Rightarrow> the (wire_product_id p) \<notin> set ids) then m
           else (case implementation_config p of
                   None \<Rightarrow> m
                 | Some r \<Rightarrow> AList.update (the (wire_product_id p)) r m)) products [])"

fun persist_drafts ::
    "('s, recipe, 'p) proposal_ops \<Rightarrow> int \<Rightarrow> wire_product list \<Rightarrow> string \<Rightarrow> 'p response_proposal list \<Rightarrow> 's
      \<Rightarrow> (js_error + unit) \<times> 's" where
  "persist_drafts ops now products account [] st = (Inr (), st)"
| "persist_drafts ops now products account (pr # prs) st =
     (if \<not> truthy (resp_proposal_id pr) then persist_drafts ops now products account prs st
      else
        let rs = collectRecipesFromProducts products pr in
        (case (if rs \<noteq> [] then validateOverlapSubsetOfWire rs products else Inr ()) of
           Inl e \<Rightarrow> (Inl e, st)
         | Inr _ \<Rightarrow>
             (case op_putDraft ops now (the (resp_proposal_id pr)) account rs (resp_payload pr) st of
                (Inl e, st') \<Rightarrow> (Inl e, st')
              | (Inr _, st') \<Rightarrow> persist_drafts ops now products account prs st')))"

definition maybePersistDraftAfterGetProducts ::
    "('s, recipe, 'p) proposal_ops \<Rightarrow> int \<Rightarrow> 'p response_proposal list option \<Rightarrow> wire_product list option
      \<Rightarrow> bool \<Rightarrow> string \<Rightarrow> 's \<Rightarrow> (js_error + unit) \<times> 's" where
  "maybePersistDraftAfterGetProducts ops now proposals products hasStore account st =
     (if \<not> hasStore then (Inr (), st)
      else (case proposals of
              None \<Rightarrow> (Inr (), st)
            | Some ps \<Rightarrow>
                if ps = [] then (Inr (), st)
                else persist_drafts ops now (case products of None \<Rightarrow> [] | Some xs \<Rightarrow> xs) account ps st))"

section \<open>Reservation and hydration\<close>

definition nonempty_packages :: "package_like list option \<Rightarrow> package_like list" where
  "nonempty_packages ps = (case ps of None \<Rightarrow> [] | Some xs \<Rightarrow> xs)"

definition maybeReserveProposalForCreateMediaBuy ::
    "('s, recipe, 'p) proposal_ops \<Rightarrow> (nat \<Rightarrow> int) \<Rightarrow> string option \<Rightarrow> package_like list option
      \<Rightarrow> proposal_manager option \<Rightarrow> bool \<Rightarrow> string \<Rightarrow> int option \<Rightarrow> 's
      \<Rightarrow> (js_error + (recipe, 'p) proposal_record option) \<times> 's" where
  "maybeReserveProposalForCreateMediaBuy ops clk proposal packages manager hasStore account now st0 =
     (if \<not> truthy proposal \<or> \<not> hasStore then (Inr None, st0)
      else
        let i = the proposal;
            graceSeconds = (case manager of None \<Rightarrow> 0
                            | Some m \<Rightarrow> (case cap_graceSeconds m of None \<Rightarrow> 0 | Some g \<Rightarrow> g)) in
        (case enforceProposalExpiry ops (clk 0) (case now of Some n \<Rightarrow> n | None \<Rightarrow> clk 1) i account
                (Some graceSeconds) st0 of
           (Inl e, st1) \<Rightarrow> (Inl e, st1)
         | (Inr _, st1) \<Rightarrow>
             let current = (case now of Some n \<Rightarrow> n | None \<Rightarrow> clk 2) in
             (case op_tryReserveConsumption ops (clk 3) i account (Some (current - graceSeconds * 1000)) st1 of
                (Inl e, st2) \<Rightarrow> (Inl e, st2)
              | (Inr reserved, st2) \<Rightarrow>
                  (case (if nonempty_packages packages \<noteq> []
                         then validateCapabilityOverlap (nonempty_packages packages) (recipes reserved) None
                         else Inr ()) of
                     Inl e \<Rightarrow>
                       (case op_releaseConsumption ops i account st2 of
                          (Inl e', st3) \<Rightarrow> (Inl e', st3)
                        | (Inr _, st3) \<Rightarrow> (Inl e, st3))
                   | Inr _ \<Rightarrow> (Inr (Some reserved), st2)))))"

definition finalizeProposalConsumption ::
    "('s, recipe, 'p) proposal_ops \<Rightarrow> bool \<Rightarrow> (recipe, 'p) proposal_record \<Rightarrow> string \<Rightarrow> 's
      \<Rightarrow> (js_error + unit) \<times> 's" where
  "finalizeProposalConsumption ops hasStore r buy st =
     (if \<not> hasStore then (Inr (), st)
      else op_finalizeConsumption ops (proposalId r) buy (accountId r) st)"

text \<open>A failure to release is logged and swallowed.\<close>

definition releaseProposalReservation ::
    "('s, recipe, 'p) proposal_ops \<Rightarrow> bool \<Rightarrow> (recipe, 'p) proposal_record \<Rightarrow> 's \<Rightarrow> (js_error + unit) \<times> 's" where
  "releaseProposalReservation ops hasStore r st =
     (if \<not> hasStore then (Inr (), st)
      else (Inr (), snd (op_releaseConsumption ops (proposalId r) (accountId r) st)))"

definition maybeHydrateRecipesForMediaBuyId ::
    "('s, recipe, 'p) proposal_ops \<Rightarrow> int \<Rightarrow> string option \<Rightarrow> bool \<Rightarrow> string \<Rightarrow> package_like list option \<Rightarrow> 's
      \<Rightarrow> (js_error + (recipe, 'p) proposal_record option) \<times> 's" where
  "maybeHydrateRecipesForMediaBuyId ops now buy hasStore account packages st =
     (if \<not> truthy buy \<or> \<not> hasStore then (Inr None, st)
      else
        let (found, st') = op_getByMediaBuyId ops now (the buy) account st in
        (case found of
           None \<Rightarrow> (Inr None, st')
         | Some r \<Rightarrow>
             (bindE (if nonempty_packages packages \<noteq> []
                     then validateCapabilityOverlap (nonempty_packages packages) (recipes r) None else Inr ())
                (\<lambda>_. Inr (Some r)), st')))"

section \<open>The checks, characterised\<close>

definition choice_allowed :: "string list option \<Rightarrow> string option \<Rightarrow> bool" where
  "choice_allowed allowed requested \<longleftrightarrow>
     (\<forall>xs v. allowed = Some xs \<longrightarrow> requested = Some v \<longrightarrow> v \<in> set xs)"

text \<open>What a seller's recipe allows a buyer to ask for in a package.\<close>

definition package_allowed :: "(string \<times> recipe) list \<Rightarrow> package_like \<Rightarrow> bool" where
  "package_allowed rs pkg \<longleftrightarrow>
     (\<forall>ov. package_overlap rs pkg = Some ov \<longrightarrow>
        choice_allowed (pricingModels ov) (or_else (resolved_pricing_model pkg) (pricing_model pkg))
        \<and> (\<forall>ds ks. targetingDimensions ov = Some ds \<longrightarrow> targeting_overlay pkg = Some ks \<longrightarrow> set ks \<subseteq> set ds)
        \<and> choice_allowed (deliveryTypes ov) (or_else (resolved_delivery_type pkg) (delivery_type pkg))
        \<and> choice_allowed (signalTypes ov) (signal_type pkg))"

lemma choice_refused_iff: "choice_refused allowed requested \<longleftrightarrow> \<not> choice_allowed allowed requested"
  by (auto simp: choice_refused_def choice_allowed_def split: option.splits)

lemma check_package_ok:
  assumes "package_overlap rs pkg = Some ov"
  shows "check_package pre i ov pkg = Inr () \<longleftrightarrow> package_allowed rs pkg"
proof -
  have dims: "(case targetingDimensions ov of None \<Rightarrow> False
      | Some ds \<Rightarrow> filter (\<lambda>k. k \<notin> set ds) (case targeting_overlay pkg of None \<Rightarrow> [] | Some ks \<Rightarrow> ks) \<noteq> [])
      \<longleftrightarrow> \<not> (\<forall>ds ks. targetingDimensions ov = Some ds \<longrightarrow> targeting_overlay pkg = Some ks \<longrightarrow> set ks \<subseteq> set ds)"
    by (cases "targetingDimensions ov"; cases "targeting_overlay pkg") (auto simp: filter_empty_conv)
  show ?thesis
    unfolding check_package_def choice_refused_iff dims package_allowed_def using assms by auto
qed

lemma check_package_error:
  "check_package pre i ov pkg = Inl e \<Longrightarrow> \<exists>name. e = invalid_package pre i name"
  by (auto simp: check_package_def split: if_splits)

lemma filter_enumerate_Nil: "filter (\<lambda>(j, x). P x) (enumerate i xs) = [] \<longleftrightarrow> filter P xs = []"
  by (induction xs arbitrary: i) auto

lemma filter_enumerate_ConsD:
  "filter (\<lambda>(j, x). P x) (enumerate i xs) = (j, x) # rest \<Longrightarrow>
     i \<le> j \<and> j - i < length xs \<and> xs ! (j - i) = x \<and> P x \<and> (\<forall>k < j - i. \<not> P (xs ! k))"
proof (induction xs arbitrary: i)
  case (Cons y ys)
  show ?case
  proof (cases "P y")
    case True
    then show ?thesis using Cons.prems by auto
  next
    case False
    then have "Suc i \<le> j \<and> j - Suc i < length ys \<and> ys ! (j - Suc i) = x \<and> P x \<and> (\<forall>k < j - Suc i. \<not> P (ys ! k))"
      using Cons by simp
    then show ?thesis using False by (auto simp: nth_Cons' Suc_diff_Suc less_diff_conv)
  qed
qed simp

lemma validate_packages_spec:
  "validate_packages pre i rs pkgs =
     (case filter (\<lambda>(j, pkg). \<not> package_allowed rs pkg) (enumerate i pkgs) of
        [] \<Rightarrow> Inr ()
      | (j, pkg) # _ \<Rightarrow> check_package pre j (the (package_overlap rs pkg)) pkg)"
proof (induction pkgs arbitrary: i)
  case (Cons pkg pkgs)
  show ?case
  proof (cases "package_overlap rs pkg")
    case None
    then have "package_allowed rs pkg" by (simp add: package_allowed_def)
    then show ?thesis using None Cons.IH by simp
  next
    case (Some ov)
    show ?thesis
    proof (cases "package_allowed rs pkg")
      case True
      then show ?thesis using Some Cons.IH check_package_ok [OF Some] by simp
    next
      case False
      then obtain e where "check_package pre i ov pkg = Inl e"
        using check_package_ok [OF Some, of pre i] by (cases "check_package pre i ov pkg") auto
      then show ?thesis using False Some by simp
    qed
  qed
qed simp

lemma validateCapabilityOverlap_ok:
  "validateCapabilityOverlap pkgs rs pre = Inr () \<longleftrightarrow> (\<forall>pkg \<in> set pkgs. package_allowed rs pkg)"
proof -
  have one: "package_overlap rs pkg \<noteq> None" if "\<not> package_allowed rs pkg" for pkg
    using that by (auto simp: package_allowed_def)
  show ?thesis
  proof (cases "filter (\<lambda>(j, pkg). \<not> package_allowed rs pkg) (enumerate 0 pkgs)")
    case Nil
    then have "\<forall>pkg \<in> set pkgs. package_allowed rs pkg"
      unfolding filter_enumerate_Nil by (simp add: filter_empty_conv)
    then show ?thesis using Nil by (simp add: validateCapabilityOverlap_def validate_packages_spec)
  next
    case (Cons x xs)
    obtain j pkg where x: "x = (j, pkg)" by (cases x)
    have "x \<in> set (filter (\<lambda>(j, pkg). \<not> package_allowed rs pkg) (enumerate 0 pkgs))" by (simp add: Cons)
    then have bad: "\<not> package_allowed rs pkg" "pkg \<in> set pkgs"
      by (auto simp: x in_set_enumerate_eq)
    obtain ov where ov: "package_overlap rs pkg = Some ov" using one [OF bad(1)] by blast
    then have "check_package pre' j ov pkg \<noteq> Inr ()" for pre' using bad(1) check_package_ok by blast
    then show ?thesis
      using Cons x ov bad by (auto simp: validateCapabilityOverlap_def validate_packages_spec)
  qed
qed

section \<open>The seams on a store that keeps the contract\<close>

context proposal_store begin

lemma enforce_result:
  assumes "ok st" "enforceProposalExpiry ops t n i a g st = (res, st')"
  shows "ok st' \<and> evicted (view st) (view st') \<and>
    (\<forall>r. res = Inr r \<longrightarrow> view st' a i = Some r \<and> pstate r = Committed
       \<and> (\<forall>x. holdExpiresAt r = Some x \<longrightarrow> n \<le> x + (case g of None \<Rightarrow> 0 | Some s \<Rightarrow> s) * 1000))"
proof -
  obtain q where g: "op_getProposal ops t i a st = (q, st')"
    using assms(2) by (auto simp: enforceProposalExpiry_def Let_def split: prod.splits)
  show ?thesis
    using get_result [OF assms(1) g] assms(2) g
    by (auto simp: enforceProposalExpiry_def split: option.splits if_splits)
qed

end

lemma view_set_back [simp]: "v a i = Some r \<Longrightarrow> view_set (view_set v a i r') a i r = v"
  by (intro ext) (auto simp: view_set_def)

lemma view_set_same [simp]: "view_set v a i r a i = Some r"
  by (simp add: view_set_def)

lemma state_back [simp]: "pstate r = Committed \<Longrightarrow> r\<lparr>pstate := Committed\<rparr> = r"
  by (cases r) simp

definition grace_ms :: "proposal_manager option \<Rightarrow> int" where
  "grace_ms m = (case m of None \<Rightarrow> 0
     | Some x \<Rightarrow> (case cap_graceSeconds x of None \<Rightarrow> 0 | Some g \<Rightarrow> g)) * 1000"

text \<open>What a reservation gave: the record it took over, the state after it.\<close>

definition reserved_from ::
    "(recipe, 'p) proposal_view \<Rightarrow> (recipe, 'p) proposal_view \<Rightarrow> string \<Rightarrow> string \<Rightarrow> int \<Rightarrow> package_like list option
      \<Rightarrow> (recipe, 'p) proposal_record \<Rightarrow> bool" where
  "reserved_from v v' a i deadline packages r \<longleftrightarrow>
     (\<exists>r0. v a i = Some r0 \<and> pstate r0 = Committed \<and> r = r0\<lparr>pstate := Consuming\<rparr> \<and> v' = view_set v a i r
        \<and> (\<forall>x. holdExpiresAt r0 = Some x \<longrightarrow> deadline \<le> x)
        \<and> (\<forall>pkg \<in> set (nonempty_packages packages). package_allowed (recipes r0) pkg))"

locale recipe_proposal_store = proposal_store ops view ok
  for ops :: "('s, recipe, 'p) proposal_ops" and view and ok

context recipe_proposal_store begin

lemma reserve_flow:
  assumes "ok st"
    and step: "maybeReserveProposalForCreateMediaBuy ops clk proposal packages m hasStore a now st = (res, st')"
  shows "ok st' \<and> (case res of
      Inl e \<Rightarrow> evicted (view st) (view st')
    | Inr None \<Rightarrow> st' = st
    | Inr (Some r) \<Rightarrow> \<exists>v. evicted (view st) v \<and>
        reserved_from v (view st') a (the proposal)
          ((case now of Some n \<Rightarrow> n | None \<Rightarrow> clk 2) - grace_ms m) packages r)"
proof (cases "truthy proposal \<and> hasStore")
  case False
  then show ?thesis using assms by (auto simp: maybeReserveProposalForCreateMediaBuy_def)
next
  case True
  let ?i = "the proposal"
  let ?g = "case m of None \<Rightarrow> 0 | Some x \<Rightarrow> (case cap_graceSeconds x of None \<Rightarrow> 0 | Some g \<Rightarrow> g)"
  let ?cut = "(case now of Some n \<Rightarrow> n | None \<Rightarrow> clk 2) - ?g * 1000"
  obtain e1 st1 where en: "enforceProposalExpiry ops (clk 0) (case now of Some n \<Rightarrow> n | None \<Rightarrow> clk 1) ?i a (Some ?g) st = (e1, st1)"
    by (metis surj_pair)
  note s1 = enforce_result [OF assms(1) en]
  show ?thesis
  proof (cases e1)
    case (Inl e)
    then show ?thesis using step True en s1 by (auto simp: maybeReserveProposalForCreateMediaBuy_def Let_def)
  next
    case (Inr r1)
    obtain r2 st2 where rs: "op_tryReserveConsumption ops (clk 3) ?i a (Some ?cut) st1 = (r2, st2)" by (metis surj_pair)
    obtain v where ok2: "ok st2" and v: "evicted (view st1) v" and v2: "case r2 of
        Inl e \<Rightarrow> view st2 = v \<and> (e = proposal_error ''PROPOSAL_NOT_FOUND'' \<or> e = proposal_error ''PROPOSAL_NOT_COMMITTED'')
      | Inr r' \<Rightarrow> \<exists>r. v a ?i = Some r \<and> pstate r = Committed \<and> r' = r\<lparr>pstate := Consuming\<rparr>
          \<and> (\<forall>t c. holdExpiresAt r = Some t \<longrightarrow> Some ?cut = Some c \<longrightarrow> c \<le> t) \<and> view st2 = view_set v a ?i r'"
      using reserve_result [OF conjunct1 [OF s1] rs] by blast
    have ev: "evicted (view st) v" using s1 v evicted_trans by blast
    show ?thesis
    proof (cases r2)
      case (Inl e)
      then show ?thesis using step True en Inr rs ok2 v2 ev
        by (auto simp: maybeReserveProposalForCreateMediaBuy_def Let_def)
    next
      case r2: (Inr r')
      obtain r0 where r0: "v a ?i = Some r0" "pstate r0 = Committed" "r' = r0\<lparr>pstate := Consuming\<rparr>"
        "\<forall>t. holdExpiresAt r0 = Some t \<longrightarrow> ?cut \<le> t" "view st2 = view_set v a ?i r'"
        using v2 r2 by auto
      let ?check = "if nonempty_packages packages \<noteq> []
          then validateCapabilityOverlap (nonempty_packages packages) (recipes r') None else Inr ()"
      show ?thesis
      proof (cases ?check)
        case (Inl e)
        obtain r3 st3 where rl: "op_releaseConsumption ops ?i a st2 = (r3, st3)" by (metis surj_pair)
        have "ok st3" "view st3 = v"
          using release_result [OF ok2 rl] r0 by simp_all
        moreover have "st' = st3 \<and> (\<exists>e. res = Inl e)"
          using step True en Inr rs r2 Inl rl
          by (auto simp: maybeReserveProposalForCreateMediaBuy_def Let_def split: sum.splits)
        ultimately show ?thesis using ev by auto
      next
        case check: (Inr u)
        have res: "res = Inr (Some r')" "st' = st2"
          using step True en Inr rs r2 check
          by (auto simp: maybeReserveProposalForCreateMediaBuy_def Let_def)
        have "\<forall>pkg \<in> set (nonempty_packages packages). package_allowed (recipes r0) pkg"
          using check r0(3) validateCapabilityOverlap_ok [of "nonempty_packages packages" "recipes r'" None]
          by (auto split: if_splits)
        then have "reserved_from v (view st') a ?i ?cut packages r'"
          using r0 res unfolding reserved_from_def by auto
        then show ?thesis using res ok2 ev by (auto simp: grace_ms_def)
      qed
    qed
  qed
qed

end

section \<open>Requests in parallel\<close>

record 's reservation_sys =
  pst :: 's
  holds :: "nat \<Rightarrow> (string \<times> string) option"

text \<open>
  Requests \<open>j\<close> reserve, finalize and release; any operation but discard may come in between.
\<close>

inductive reservation_step :: "('s, 'r, 'p) proposal_ops \<Rightarrow> 's reservation_sys \<Rightarrow> 's reservation_sys \<Rightarrow> bool"
  for ops where
  reserves: "holds s j = None \<Longrightarrow> op_tryReserveConsumption ops now i a cutoff (pst s) = (Inr r, st') \<Longrightarrow>
     reservation_step ops s (s\<lparr>pst := st', holds := (holds s)(j := Some (a, i))\<rparr>)"
| refused: "op_tryReserveConsumption ops now i a cutoff (pst s) = (Inl e, st') \<Longrightarrow>
     reservation_step ops s (s\<lparr>pst := st'\<rparr>)"
| finalizes: "holds s j = Some (a, i) \<Longrightarrow> op_finalizeConsumption ops i buy a (pst s) = (res, st') \<Longrightarrow>
     reservation_step ops s (s\<lparr>pst := st', holds := (holds s)(j := None)\<rparr>)"
| releases: "holds s j = Some (a, i) \<Longrightarrow> op_releaseConsumption ops i a (pst s) = (res, st') \<Longrightarrow>
     reservation_step ops s (s\<lparr>pst := st', holds := (holds s)(j := None)\<rparr>)"
| reads: "op_getProposal ops now i a (pst s) = (q, st') \<Longrightarrow> reservation_step ops s (s\<lparr>pst := st'\<rparr>)"
| looks_up: "op_getByMediaBuyId ops now m a (pst s) = (q, st') \<Longrightarrow> reservation_step ops s (s\<lparr>pst := st'\<rparr>)"
| drafts: "op_putDraft ops now i a rs p (pst s) = (res, st') \<Longrightarrow> reservation_step ops s (s\<lparr>pst := st'\<rparr>)"
| commits: "op_commit ops now i t p (Some a) (pst s) = (res, st') \<Longrightarrow> reservation_step ops s (s\<lparr>pst := st'\<rparr>)"

definition no_holds :: "'s \<Rightarrow> 's reservation_sys" where
  "no_holds st = \<lparr>pst = st, holds = (\<lambda>_. None)\<rparr>"

definition consuming_at :: "('r, 'p) proposal_view \<Rightarrow> string \<times> string \<Rightarrow> bool" where
  "consuming_at v x \<longleftrightarrow> (\<exists>r. v (fst x) (snd x) = Some r \<and> pstate r = Consuming)"

definition holds_inv :: "('r, 'p) proposal_view \<Rightarrow> (nat \<Rightarrow> (string \<times> string) option) \<Rightarrow> bool" where
  "holds_inv v h \<longleftrightarrow>
     (\<forall>j x. h j = Some x \<longrightarrow> consuming_at v x) \<and> (\<forall>j k x. h j = Some x \<longrightarrow> h k = Some x \<longrightarrow> j = k)"

lemma consuming_evicted: "evicted v v' \<Longrightarrow> consuming_at v x \<Longrightarrow> consuming_at v' x"
  unfolding consuming_at_def using evicted_Consuming by metis

lemma consuming_set_other: "x \<noteq> (a, i) \<Longrightarrow> consuming_at (view_set v a i r) x = consuming_at v x"
  by (cases x) (auto simp: consuming_at_def view_set_def)

lemma consuming_set_same: "consuming_at (view_set v a i r) (a, i) \<longleftrightarrow> pstate r = Consuming"
  by (simp add: consuming_at_def)

lemma holds_evicted: "holds_inv v h \<Longrightarrow> evicted v v' \<Longrightarrow> holds_inv v' h"
  unfolding holds_inv_def using consuming_evicted by metis

lemma holds_set_free: "holds_inv v h \<Longrightarrow> \<not> consuming_at v (a, i) \<Longrightarrow> holds_inv (view_set v a i r) h"
  unfolding holds_inv_def using consuming_set_other by metis

lemma holds_new:
  assumes "holds_inv v h" "\<not> consuming_at v (a, i)" "pstate r = Consuming"
  shows "holds_inv (view_set v a i r) (h(j := Some (a, i)))"
  unfolding holds_inv_def
proof (intro conjI allI impI)
  fix k x assume "(h(j := Some (a, i))) k = Some x"
  then show "consuming_at (view_set v a i r) x"
    using assms consuming_set_same consuming_set_other unfolding holds_inv_def by (metis fun_upd_apply option.inject)
next
  fix k l x assume "(h(j := Some (a, i))) k = Some x" "(h(j := Some (a, i))) l = Some x"
  then show "k = l"
    using assms(1,2) unfolding holds_inv_def by (cases x; cases "k = j"; cases "l = j") (simp; blast)+
qed

lemma holds_drop:
  assumes inv: "holds_inv v h" and h: "h j = Some (a, i)"
  shows "holds_inv v (h(j := None))" "holds_inv (view_set v a i r) (h(j := None))"
proof -
  show *: "holds_inv v (h(j := None))" using inv unfolding holds_inv_def by (auto split: if_splits)
  have "(h(j := None)) k = Some x \<Longrightarrow> x \<noteq> (a, i)" for k x
    using inv h unfolding holds_inv_def by (metis fun_upd_apply option.distinct(1))
  then show "holds_inv (view_set v a i r) (h(j := None))"
    using * consuming_set_other unfolding holds_inv_def by metis
qed

context proposal_store begin

lemma reservation_step_inv:
  assumes step: "reservation_step ops s t" and ok: "ok (pst s)" and inv: "holds_inv (view (pst s)) (holds s)"
  shows "ok (pst t) \<and> holds_inv (view (pst t)) (holds t)"
  using step
proof cases
  case (reserves j now i a cutoff r st')
  obtain v r0 where v: "ok st'" "evicted (view (pst s)) v" "v a i = Some r0" "pstate r0 = Committed"
    "r = r0\<lparr>pstate := Consuming\<rparr>" "view st' = view_set v a i r"
    using reserve_result [OF ok reserves(3)] by auto
  have "\<not> consuming_at v (a, i)" using v by (simp add: consuming_at_def)
  then show ?thesis using reserves(1) v holds_new [OF holds_evicted [OF inv v(2)]] by simp
next
  case (refused now i a cutoff e st')
  then show ?thesis using reserve_result [OF ok refused(2)] holds_evicted [OF inv] by auto
next
  case (finalizes j a i buy res st')
  then show ?thesis
    using finalize_result [OF ok finalizes(3)] holds_drop [OF inv finalizes(2)]
    by (auto split: option.splits if_splits)
next
  case (releases j a i res st')
  then show ?thesis
    using release_result [OF ok releases(3)] holds_drop [OF inv releases(2)]
    by (auto split: option.splits if_splits)
next
  case (reads now i a q st')
  then show ?thesis using get_result [OF ok reads(2)] holds_evicted [OF inv] by simp
next
  case (looks_up now m a q st')
  then show ?thesis using lookup_result [OF ok looks_up(2)] holds_evicted [OF inv] by simp
next
  case (drafts now i a rs p res st')
  obtain v where v: "ok st'" "evicted (view (pst s)) v"
    "(\<forall>r. v a i = Some r \<longrightarrow> pstate r = Draft) \<and> (\<exists>r. view st' = view_set v a i r) \<or> view st' = v"
    using put_result [OF ok drafts(2)] by blast
  have "holds_inv (view st') (holds s)"
    using v(3) holds_evicted [OF inv v(2)] holds_set_free by (fastforce simp: consuming_at_def)
  then show ?thesis using drafts v(1) by simp
next
  case (commits now i t' p a res st')
  obtain v where v: "ok st'" "evicted (view (pst s)) v"
    "view st' = v \<or> (\<exists>r r'. v a i = Some r \<and> pstate r = Draft \<and> view st' = view_set v a i r')"
    using commit_result [OF ok commits(2)] by blast
  have "holds_inv (view st') (holds s)"
    using v(3) holds_evicted [OF inv v(2)] holds_set_free by (fastforce simp: consuming_at_def)
  then show ?thesis using commits v(1) by simp
qed

lemma reservation_reachable:
  assumes "(reservation_step ops)\<^sup>*\<^sup>* (no_holds st) s" "ok st"
  shows "ok (pst s) \<and> holds_inv (view (pst s)) (holds s)"
  using assms(1)
proof (induction rule: rtranclp_induct)
  case base
  then show ?case using assms(2) by (simp add: no_holds_def holds_inv_def)
next
  case (step s t)
  then show ?case using reservation_step_inv by blast
qed

lemma holder_finalizes:
  assumes "(reservation_step ops)\<^sup>*\<^sup>* (no_holds st) s" "ok st" "holds s j = Some (a, i)"
  shows "\<exists>st' r. op_finalizeConsumption ops i buy a (pst s) = (Inr (), st') \<and> view (pst s) a i = Some r
    \<and> view st' = view_set (view (pst s)) a i (r\<lparr>pstate := Consumed, mediaBuyId := Some buy\<rparr>)"
proof -
  have inv: "ok (pst s)" "consuming_at (view (pst s)) (a, i)"
    using reservation_reachable [OF assms(1,2)] assms(3) by (auto simp: holds_inv_def)
  then obtain r where r: "view (pst s) a i = Some r" "pstate r = Consuming" by (auto simp: consuming_at_def)
  obtain res st' where f: "op_finalizeConsumption ops i buy a (pst s) = (res, st')" by (metis surj_pair)
  show ?thesis using finalize_result [OF inv(1) f] r f by auto
qed

end

interpretation memr: recipe_proposal_store "memoryProposals cfg json" mem_view mem_ok
  by unfold_locales

section \<open>Finalize detection and wire subsets, characterised\<close>

lemma detect_single:
  "detectFinalizeAction mode refine = Inr (Some ref) \<longleftrightarrow>
     mode = Some ''refine'' \<and>
     (\<exists>e i. refine = RefineArray [Some e] \<and> entry_action e = Some ''finalize'' \<and> entry_scope e = Some ''proposal''
        \<and> entry_proposal_id e = Some i \<and> i \<noteq> [] \<and> ref = \<lparr>ref_index = 0, ref_proposalId = i, ref_ask = entry_ask e\<rparr>)"
    (is "?l \<longleftrightarrow> ?r")
proof
  assume ?r
  then show ?l by (auto simp: detectFinalizeAction_def isFinalizeEntry_def truthy_def)
next
  assume l: ?l
  obtain es where es: "refine = RefineArray es"
    using l by (cases refine) (auto simp: detectFinalizeAction_def split: if_splits)
  let ?f = "filter (\<lambda>(i, e). isFinalizeEntry e) (enumerate 0 es)"
  obtain x where f: "?f = [x]" and mode: "mode = Some ''refine''"
    and all: "\<not> list_ex (\<lambda>e. \<not> isFinalizeEntry e \<or> (case e of None \<Rightarrow> True
        | Some x \<Rightarrow> entry_scope x \<noteq> Some ''proposal'' \<or> \<not> truthy (entry_proposal_id x))) es"
    and ref: "ref = \<lparr>ref_index = fst x, ref_proposalId = the (entry_proposal_id (the (snd x))), ref_ask = entry_ask (the (snd x))\<rparr>"
    using l es by (auto simp: detectFinalizeAction_def split: list.splits if_splits prod.splits)
  have "filter (\<lambda>(i, e). isFinalizeEntry e) (enumerate n xs) = enumerate n xs" if "list_all isFinalizeEntry xs" for n xs
    using that by (induction xs arbitrary: n) auto
  moreover have "list_all isFinalizeEntry es" using all by (auto simp: list_ex_iff list_all_iff)
  ultimately have "enumerate 0 es = [x]" using f by simp
  then obtain e where e: "es = [e]" "x = (0, e)" by (cases es; cases "tl es") auto
  then obtain y where "e = Some y" using all by (cases e) auto
  then show ?r
    using e es mode all ref by (auto simp: isFinalizeEntry_def truthy_def)
qed

lemma productsById_map:
  "map_of (productsById ps m) i =
     (case find (\<lambda>p. wire_product_id p = Some i \<and> i \<noteq> []) (rev ps) of Some p \<Rightarrow> Some p | None \<Rightarrow> map_of m i)"
proof (induction ps arbitrary: m)
  case (Cons p ps)
  have app: "find P (xs @ [x]) = (case find P xs of Some y \<Rightarrow> Some y | None \<Rightarrow> if P x then Some x else None)"
    for P and xs :: "wire_product list" and x
    by (induction xs) auto
  show ?case
    unfolding productsById.simps Cons.IH rev.simps app
    by (auto simp: update_conv' truthy_def split: option.splits)
qed simp

definition wire_product_of :: "wire_product list \<Rightarrow> string \<Rightarrow> wire_product option" where
  "wire_product_of ps i = find (\<lambda>p. wire_product_id p = Some i \<and> i \<noteq> []) (rev ps)"

lemma extras_Nil: "extras declared wire = [] \<longleftrightarrow> (\<forall>xs. declared = Some xs \<longrightarrow> set xs \<subseteq> set wire)"
  by (auto simp: extras_def filter_empty_conv split: option.splits)

lemma subset_of_wire_ok:
  "subset_of_wire byId rs = Inr () \<longleftrightarrow>
     (\<forall>(i, r) \<in> set rs. \<forall>ov p. recipe_overlap r = Some ov \<longrightarrow> map_of byId i = Some p \<longrightarrow>
        extras (pricingModels ov) (wirePricingModels p) = []
        \<and> (wireDeliveryTypes p = [] \<or> extras (deliveryTypes ov) (wireDeliveryTypes p) = []))"
proof (induction rs)
  case (Cons x rs)
  obtain i r where x: "x = (i, r)" by (cases x)
  show ?case
    unfolding x subset_of_wire.simps using Cons.IH
    by (cases "recipe_overlap r"; cases "map_of byId i") auto
qed simp

section \<open>Properties\<close>


definition demo_committed :: "(recipe, string) proposal_cmd list" where
  "demo_committed =
    [PutCmd 0 ''p1'' ''acct'' [(''prod'', \<lparr>recipe_kind = ''gam'', recipe_overlap = None\<rparr>)] ''{}'',
     CommitCmd 5 ''p1'' (Some 100) ''{1}'' (Some ''acct'')]"


text \<open>
  A refused \<open>create_media_buy\<close> costs the buyer nothing: whenever the reservation seam answers
  with an error (unknown, not committed, expired, raced, or packages outside the seller's recipe),
  every proposal is as it was before, apart from evictions; in particular a proposal reserved and
  then refused for its packages is committed again.
\<close>

theorem refused_reservation_restores:
  assumes "maybeReserveProposalForCreateMediaBuy (memoryProposals cfg json) clk proposal packages m hasStore a now
      (run_proposals cfg json cmds empty_proposals) = (Inl e, st')"
  shows "evicted (mem_view (run_proposals cfg json cmds empty_proposals)) (mem_view st')"
  using memr.reserve_flow [OF run_proposals_ok [OF mem_ok_empty] assms] by simp

definition demo_packages :: "package_like list" where
  "demo_packages = [\<lparr>product_id = Some ''prod'', pricing_model = Some ''cpm'', delivery_type = None, signal_type = None,
     targeting_overlay = None, resolved_pricing_model = None, resolved_delivery_type = None\<rparr>]"

definition demo_gated :: "(recipe, string) proposal_cmd list" where
  "demo_gated =
    [PutCmd 0 ''p1'' ''acct'' [(''prod'', \<lparr>recipe_kind = ''gam'', recipe_overlap = Some \<lparr>pricingModels = Some [''flat''],
        targetingDimensions = None, deliveryTypes = None, signalTypes = None\<rparr>\<rparr>)] ''{}'',
     CommitCmd 5 ''p1'' (Some 100) ''{1}'' (Some ''acct'')]"

theorem refused_reservation_restores_witness:
  "\<exists>e st'. maybeReserveProposalForCreateMediaBuy (memoryProposals demo_proposal_cfg id) (\<lambda>_. 6) (Some ''p1'')
      (Some demo_packages) None True ''acct'' None (run_proposals demo_proposal_cfg id demo_gated empty_proposals) = (Inl e, st')
    \<and> evicted (mem_view (run_proposals demo_proposal_cfg id demo_gated empty_proposals)) (mem_view st')"
proof -
  let ?r = "maybeReserveProposalForCreateMediaBuy (memoryProposals demo_proposal_cfg id) (\<lambda>_. 6) (Some ''p1'')
      (Some demo_packages) None True ''acct'' None (run_proposals demo_proposal_cfg id demo_gated empty_proposals)"
  have "isl (fst ?r)" by code_simp
  then obtain e st' where "?r = (Inl e, st')" by (metis isl_def prod.collapse)
  then show ?thesis using refused_reservation_restores by blast
qed

text \<open>
  What a granted reservation guarantees: the proposal is the account's own and was committed,
  its hold (with the seller's grace) had not run out when it was reserved, every package of the
  request stays inside the seller's recipe, and the proposal is now being consumed; nothing else
  changed but evictions.
\<close>

theorem granted_reservation_checked:
  assumes "maybeReserveProposalForCreateMediaBuy (memoryProposals cfg json) clk proposal packages m hasStore a now
      (run_proposals cfg json cmds empty_proposals) = (Inr (Some r), st')"
  shows "\<exists>v. evicted (mem_view (run_proposals cfg json cmds empty_proposals)) v
    \<and> reserved_from v (mem_view st') a (the proposal)
        ((case now of Some n \<Rightarrow> n | None \<Rightarrow> clk 2) - grace_ms m) packages r"
  using memr.reserve_flow [OF run_proposals_ok [OF mem_ok_empty] assms] by simp

theorem granted_reservation_checked_witness:
  "\<exists>r st' v. maybeReserveProposalForCreateMediaBuy (memoryProposals demo_proposal_cfg id) (\<lambda>_. 6) (Some ''p1'')
      (Some demo_packages) None True ''acct'' None (run_proposals demo_proposal_cfg id demo_committed empty_proposals)
        = (Inr (Some r), st')
    \<and> reserved_from v (mem_view st') ''acct'' ''p1'' 6 (Some demo_packages) r"
proof -
  let ?r = "maybeReserveProposalForCreateMediaBuy (memoryProposals demo_proposal_cfg id) (\<lambda>_. 6) (Some ''p1'')
      (Some demo_packages) None True ''acct'' None (run_proposals demo_proposal_cfg id demo_committed empty_proposals)"
  have "(case fst ?r of Inr (Some r) \<Rightarrow> True | _ \<Rightarrow> False)" by code_simp
  then obtain r st' where r: "?r = (Inr (Some r), st')"
    by (cases ?r; cases "fst ?r") (auto split: option.splits)
  then show ?thesis using granted_reservation_checked [OF r] by (auto simp: grace_ms_def)
qed

text \<open>
  The capability-overlap gate accepts exactly the package lists in which every package stays
  inside its recipe, and otherwise reports the first package that does not.
\<close>

theorem overlap_gate_exact:
  "case validateCapabilityOverlap pkgs rs pre of
     Inr _ \<Rightarrow> \<forall>pkg \<in> set pkgs. package_allowed rs pkg
   | Inl e \<Rightarrow> \<exists>j name. j < length pkgs \<and> \<not> package_allowed rs (pkgs ! j) \<and> (\<forall>k < j. package_allowed rs (pkgs ! k))
       \<and> e = invalid_package (case pre of None \<Rightarrow> ''packages'' | Some p \<Rightarrow> p) j name"
proof (cases "validateCapabilityOverlap pkgs rs pre")
  case (Inr u)
  then show ?thesis using validateCapabilityOverlap_ok [of pkgs rs pre] by simp
next
  case (Inl e)
  let ?p = "case pre of None \<Rightarrow> ''packages'' | Some p \<Rightarrow> p"
  obtain j pkg rest where f: "filter (\<lambda>(j, pkg). \<not> package_allowed rs pkg) (enumerate 0 pkgs) = (j, pkg) # rest"
    and e: "check_package ?p j (the (package_overlap rs pkg)) pkg = Inl e"
    using Inl by (auto simp: validateCapabilityOverlap_def validate_packages_spec split: list.splits)
  show ?thesis
    using filter_enumerate_ConsD [OF f] check_package_error [OF e] Inl by auto
qed

theorem overlap_gate_exact_witness:
  "\<exists>name. validateCapabilityOverlap demo_packages [(''prod'', \<lparr>recipe_kind = ''gam'', recipe_overlap = Some
      \<lparr>pricingModels = Some [''flat''], targetingDimensions = None, deliveryTypes = None, signalTypes = None\<rparr>\<rparr>)] None
    = Inl (invalid_package ''packages'' 0 name)"
proof -
  let ?rs = "[(''prod'', \<lparr>recipe_kind = ''gam'', recipe_overlap = Some
      \<lparr>pricingModels = Some [''flat''], targetingDimensions = None, deliveryTypes = None, signalTypes = None\<rparr>\<rparr>)]"
  have "isl (validateCapabilityOverlap demo_packages ?rs None)" by code_simp
  then obtain e where e: "validateCapabilityOverlap demo_packages ?rs None = Inl e" by (metis isl_def)
  have len: "length demo_packages = 1" by (simp add: demo_packages_def)
  show ?thesis using overlap_gate_exact [of demo_packages ?rs None] unfolding e by (auto simp: len)
qed

text \<open>
  A request is taken as a finalization exactly when it is in refine mode and its refine list is
  a single finalize entry that names a proposal; a list without any finalize entry passes, and
  every other use of finalize is an error.
\<close>

theorem finalize_detection_exact:
  "(detectFinalizeAction mode refine = Inr (Some ref) \<longleftrightarrow>
      mode = Some ''refine'' \<and>
      (\<exists>e i. refine = RefineArray [Some e] \<and> entry_action e = Some ''finalize'' \<and> entry_scope e = Some ''proposal''
         \<and> entry_proposal_id e = Some i \<and> i \<noteq> [] \<and> ref = \<lparr>ref_index = 0, ref_proposalId = i, ref_ask = entry_ask e\<rparr>))
   \<and> (detectFinalizeAction mode (RefineArray es) = Inr None \<longleftrightarrow> \<not> list_ex isFinalizeEntry es)"
proof -
  have "detectFinalizeAction mode (RefineArray es) = Inr None
      \<longleftrightarrow> filter (\<lambda>(i, e). isFinalizeEntry e) (enumerate 0 es) = []"
    by (auto simp: detectFinalizeAction_def split: list.splits if_splits prod.splits)
  then have "detectFinalizeAction mode (RefineArray es) = Inr None \<longleftrightarrow> filter isFinalizeEntry es = []"
    unfolding filter_enumerate_Nil .
  then show ?thesis
    using detect_single [of mode refine ref] by (simp add: filter_empty_conv list_ex_iff)
qed

text \<open>
  A recipe set passes the wire check exactly when every recipe only offers what its product
  advertises: its pricing models, and its delivery types where the product states one.
\<close>

theorem wire_subset_exact:
  "validateOverlapSubsetOfWire rs products = Inr () \<longleftrightarrow>
     (\<forall>(i, r) \<in> set rs. \<forall>ov p. recipe_overlap r = Some ov \<longrightarrow> wire_product_of products i = Some p \<longrightarrow>
        (\<forall>xs. pricingModels ov = Some xs \<longrightarrow> set xs \<subseteq> set (wirePricingModels p))
        \<and> (\<forall>xs. deliveryTypes ov = Some xs \<longrightarrow> wireDeliveryTypes p = [] \<or> set xs \<subseteq> set (wireDeliveryTypes p)))"
  unfolding validateOverlapSubsetOfWire_def subset_of_wire_ok productsById_map extras_Nil wire_product_of_def
  by (fastforce split: option.splits)

theorem wire_subset_exact_witness:
  "validateOverlapSubsetOfWire [(''prod'', \<lparr>recipe_kind = ''gam'', recipe_overlap = Some \<lparr>pricingModels = Some [''cpm''],
        targetingDimensions = None, deliveryTypes = None, signalTypes = None\<rparr>\<rparr>)]
     [\<lparr>wire_product_id = Some ''prod'', pricing_options = Some [Some ''cpm'', Some ''flat''], wire_delivery_type = None,
       implementation_config = None\<rparr>] = Inr ()"
  unfolding wire_subset_exact by (auto simp: wire_product_of_def wirePricingModels_def List.map_filter_simps truthy_def)

text \<open>
  After a finalization has been answered, the proposal is committed under the account with the
  hold and payload the seller returned.
\<close>

theorem finalize_commits:
  assumes "finalize_project (memoryProposals cfg json) now refine proposal a success st = (Inr (p, applied), st')"
  shows "\<exists>r t. success = Some (p, Some t) \<and> mem_view st' a proposal = Some r \<and> pstate r = Committed
    \<and> holdExpiresAt r = Some t \<and> json (proposalPayload r) = json p"
proof -
  obtain q x where s: "success = Some (q, x)" using assms by (cases success) (auto simp: finalize_project_def)
  have c: "mem_commit cfg json now proposal x q (Some a) st = (Inr (), st')" "p = q"
    using assms s by (auto simp: finalize_project_def bindE_eq_Inr_iff split: prod.splits)
  then show ?thesis
    using s by (auto simp: mem_commit_def Let_def mem_view_def update_conv' split: option.splits if_splits)
qed

theorem finalize_commits_witness:
  "\<exists>r. mem_view (snd (finalize_project (memoryProposals demo_proposal_cfg id) 5 NoRefine ''p1'' ''acct'' (Some (''{1}'', Some 100))
      (run_proposals demo_proposal_cfg id [PutCmd 0 ''p1'' ''acct'' [] ''{}''] empty_proposals))) ''acct'' ''p1'' = Some r
    \<and> pstate r = Committed \<and> holdExpiresAt r = Some 100"
proof -
  let ?f = "finalize_project (memoryProposals demo_proposal_cfg id) 5 NoRefine ''p1'' ''acct'' (Some (''{1}'', Some 100))
      (run_proposals demo_proposal_cfg id [PutCmd 0 ''p1'' ''acct'' [] ''{}''] empty_proposals)"
  have "fst ?f = Inr (''{1}'', [])" by code_simp
  then have "?f = (Inr (''{1}'', []), snd ?f)" by (metis prod.collapse)
  from finalize_commits [OF this] show ?thesis by auto
qed

end
