(* ===== verification/JsNumber.thy ===== *)
theory JsNumber
  imports Complex_Main
begin

text \<open>
  JavaScript numbers as the models that need fractions use them: a rational value, or one of the
  values \<open>Number.isFinite\<close> refuses.  Rounding is not modelled.
\<close>

datatype js_num = Fin rat | NonFinite

fun is_finite :: "js_num \<Rightarrow> bool" where
  "is_finite (Fin q) = True"
| "is_finite NonFinite = False"

fun is_integer :: "js_num \<Rightarrow> bool" where
  "is_integer (Fin q) = (snd (quotient_of q) = 1)"
| "is_integer NonFinite = False"

end
