(* ===== verification/TaskRegistry.thy ===== *)
theory TaskRegistry
  imports Jcs JsNumber "HOL-Library.AList"
begin

text \<open>
  The task registry of the decisioning runtime
  (\<open>src/lib/server/decisioning/runtime/task-registry.ts\<close>): task records in their account and
  principal scope, their lifecycle, the opaque registry identity that invalidates old handles, and
  the helpers with which approval workers settle a task.  Records are immutable values here, so
  the in-place updates of the code are map updates.  Clock readings and UUIDs are arguments.
  Results have type \<open>'v\<close>, structured errors type \<open>'e\<close>; what sanitises them before storage
  (\<open>sanitizeTaskResultForWire\<close>, \<open>sanitizeStructuredAdcpError\<close>) is an argument of the helpers.
  Progress payloads are JavaScript values over rational or non-finite numbers.
\<close>

section \<open>Status and records\<close>

datatype task_status =
    TSubmitted | TWorking | TInputRequired | TCompleted | TCanceled | TFailed | TRejected | TAuthRequired | TUnknown

definition TERMINAL_TASK_STATUSES :: "task_status list" where
  "TERMINAL_TASK_STATUSES = [TCompleted, TFailed, TRejected, TCanceled]"

definition isTerminalTaskStatus :: "task_status \<Rightarrow> bool" where
  "isTerminalTaskStatus s \<longleftrightarrow> s \<in> set TERMINAL_TASK_STATUSES"

type_synonym progress = "js_num jsval"

record ('v, 'e) task_record =
  taskId :: string
  tool :: string
  task_account :: string
  task_owner :: "string option"
  status :: task_status
  statusMessage :: "string option"
  task_result :: "'v option"
  task_error :: "'e option"
  task_progress :: "progress option"
  hasWebhook :: bool
  createdAt :: int
  updatedAt :: int

record task_scope =
  scope_account :: string
  scope_owner :: string
  scope_registry :: "string option"

record scoped_task_ref = task_scope +
  ref_taskId :: string

datatype mutation_outcome = Applied | AlreadyTerminal task_status | NotFoundInScope

definition account_owner :: "string \<Rightarrow> string" where
  "account_owner account = ''account:'' @ account"

definition taskRecordMatchesScope :: "('v, 'e) task_record \<Rightarrow> task_scope \<Rightarrow> bool" where
  "taskRecordMatchesScope r sc =
     (if task_account r \<noteq> scope_account sc then False
      else task_owner r = Some (scope_owner sc)
           \<or> task_owner r = None \<and> scope_owner sc = account_owner (scope_account sc))"

definition taskStorageKey :: "string \<Rightarrow> 'a task_scope_scheme \<Rightarrow> string" where
  "taskStorageKey tid sc = json_string_array [scope_account sc, scope_owner sc, tid]"

section \<open>Progress\<close>

definition MAX_PROGRESS_BYTES :: nat where "MAX_PROGRESS_BYTES = 64 * 1024"

definition PRIVATE_PROGRESS_KEYS :: "jsstr list" where
  "PRIVATE_PROGRESS_KEYS = map js
    [''authorization'', ''bearer'', ''token'', ''accesstoken'', ''refreshtoken'', ''apikey'', ''clientsecret'',
     ''password'', ''secret'', ''credential'', ''credentials'', ''privatekey'', ''ctxmetadata'',
     ''implementationconfig'', ''taskref'', ''taskid'', ''accountid'', ''ownerscope'', ''registryid'']"

definition js_endsWith :: "jsstr \<Rightarrow> jsstr \<Rightarrow> bool" where
  "js_endsWith s p \<longleftrightarrow> length p \<le> length s \<and> drop (length s - length p) s = p"

text \<open>\<open>lower\<close> is \<open>toLowerCase\<close>.\<close>

definition isPrivateProgressKey :: "(jsstr \<Rightarrow> jsstr) \<Rightarrow> jsstr \<Rightarrow> bool" where
  "isPrivateProgressKey lower key =
     (let normalized = lower (filter (\<lambda>c. c \<noteq> 0x5f \<and> c \<noteq> 0x2d) key) in
      normalized \<in> set PRIVATE_PROGRESS_KEYS
      \<or> list_ex (\<lambda>p. js_endsWith normalized (js p))
          [''token'', ''secret'', ''password'', ''credential'', ''credentials'', ''privatekey'', ''apikey''])"

text \<open>
  \<open>JSON.stringify\<close> with the replacer followed by \<open>JSON.parse\<close>: members with a private key go, at
  every depth; \<open>None\<close> is a value JSON leaves out, and a big integer throws.  An object that is
  not plain is taken to have no members of its own.
\<close>

function (sequential) drop_private :: "(jsstr \<Rightarrow> jsstr) \<Rightarrow> progress \<Rightarrow> js_error + progress option" where
  "drop_private lower (JNum n) = Inr (Some (case n of Fin q \<Rightarrow> JNum n | NonFinite \<Rightarrow> JNull))"
| "drop_private lower (JArr xs) =
     bindE (mapE (drop_private lower) xs)
       (\<lambda>ys. Inr (Some (JArr (map (\<lambda>y. case y of None \<Rightarrow> JNull | Some v \<Rightarrow> v) ys))))"
| "drop_private lower (JObj ms) =
     bindE (mapE (\<lambda>m. if isPrivateProgressKey lower (fst m) then Inr None
                      else bindE (drop_private lower (snd m)) (\<lambda>v. Inr (map_option (Pair (fst m)) v))) ms)
       (\<lambda>ys. Inr (Some (JObj (List.map_filter id ys))))"
| "drop_private lower JBigInt = Inl (TypeErr ''Do not know how to serialize a BigInt'')"
| "drop_private lower JUndefined = Inr None"
| "drop_private lower JFunction = Inr None"
| "drop_private lower JSymbol = Inr None"
| "drop_private lower JExotic = Inr (Some (JObj []))"
| "drop_private lower v = Inr (Some v)"
  by pat_completeness auto
termination
proof (relation "measure (\<lambda>(_, v). size v)", goal_cases)
  case (2 lower xs x)
  then show ?case by (auto simp: less_Suc_eq_le intro: size_list_estimation' [where y = "size x"])
next
  case (3 lower ms m)
  then have "size (snd m) < Suc (size_list (size_prod (\<lambda>_. 0) size) ms)"
    by (induction ms) (auto simp: size_prod_def split: prod.splits)
  then show ?case by (cases m) (auto simp: size_prod_def)
qed simp

fun progress_field :: "jsstr \<Rightarrow> progress \<Rightarrow> progress" where
  "progress_field k (JObj ((k', v) # ms)) = (if k' = k then v else progress_field k (JObj ms))"
| "progress_field k _ = JUndefined"

definition text_field_ok :: "progress \<Rightarrow> bool" where
  "text_field_ok v = (case v of JUndefined \<Rightarrow> True | JStr _ \<Rightarrow> True | _ \<Rightarrow> False)"

definition step_field_ok :: "progress \<Rightarrow> bool" where
  "step_field_ok v =
     (case v of JUndefined \<Rightarrow> True | JNum (Fin q) \<Rightarrow> snd (quotient_of q) = 1 \<and> 1 \<le> q | _ \<Rightarrow> False)"

definition is_object :: "progress \<Rightarrow> bool" where
  "is_object v = (case v of JObj _ \<Rightarrow> True | JExotic \<Rightarrow> True | _ \<Rightarrow> False)"

text \<open>\<open>json_bytes\<close> is the UTF-8 length of the JSON text of a value.\<close>

definition sanitizeTaskProgressForStorage ::
    "(jsstr \<Rightarrow> jsstr) \<Rightarrow> (progress \<Rightarrow> nat) \<Rightarrow> progress \<Rightarrow> js_error + progress" where
  "sanitizeTaskProgressForStorage lower json_bytes progress =
     (if \<not> is_object progress then Inl (TypeErr ''Task progress must be an object'')
      else if \<not> text_field_ok (progress_field (js ''message'') progress)
      then Inl (TypeErr ''Task progress message must be a string'')
      else if \<not> text_field_ok (progress_field (js ''current_step'') progress)
      then Inl (TypeErr ''Task progress current_step must be a string'')
      else
        bindE (case progress_field (js ''percentage'') progress of
           JUndefined \<Rightarrow> Inr ()
         | JNum (Fin q) \<Rightarrow>
             if q < 0 \<or> q > 100 then Inl (RangeErr ''Task progress percentage must be between 0 and 100'') else Inr ()
         | _ \<Rightarrow> Inl (TypeErr ''Task progress percentage must be a finite number''))
        (\<lambda>_.
        if \<not> step_field_ok (progress_field (js ''step_number'') progress)
        then Inl (RangeErr ''Task progress step_number must be an integer of at least 1'')
        else if \<not> step_field_ok (progress_field (js ''total_steps'') progress)
        then Inl (RangeErr ''Task progress total_steps must be an integer of at least 1'')
        else bindE (drop_private lower progress) (\<lambda>json.
          case json of
            None \<Rightarrow> Inl (TypeErr ''Task progress must be JSON-serializable'')
          | Some v \<Rightarrow>
              if json_bytes v > MAX_PROGRESS_BYTES then Inl (GenericErr ''Task progress JSON exceeds 65536 bytes'')
              else Inr v)))"

section \<open>The in-process registry\<close>

text \<open>\<open>backgrounds\<close> maps storage keys to the promise registered last, by an identifier.\<close>

record ('v, 'e) task_registry =
  tasks :: "(string \<times> ('v, 'e) task_record) list"
  backgrounds :: "(string \<times> nat) list"
  registryId :: string

record create_opts =
  opt_tool :: string
  opt_account :: string
  opt_owner :: "string option"
  opt_webhook :: bool
  opt_overrideTaskId :: "string option"

definition createInMemoryTaskRegistry :: "string \<Rightarrow> ('v, 'e) task_registry" where
  "createInMemoryTaskRegistry uuid = \<lparr>tasks = [], backgrounds = [], registryId = ''memory:'' @ uuid\<rparr>"

definition reg_create ::
    "create_opts \<Rightarrow> string \<Rightarrow> int \<Rightarrow> ('v, 'e) task_registry \<Rightarrow> (js_error + scoped_task_ref) \<times> ('v, 'e) task_registry" where
  "reg_create opts uuid now reg =
     (let tid = (case opt_overrideTaskId opts of Some t \<Rightarrow> t | None \<Rightarrow> ''task_'' @ uuid);
          owner = (case opt_owner opts of Some w \<Rightarrow> w | None \<Rightarrow> account_owner (opt_account opts));
          storageKey = json_string_array [opt_account opts, owner, tid] in
      if map_of (tasks reg) storageKey \<noteq> None
      then (Inl (GenericErr (''task_id already registered: '' @ tid)), reg)
      else (Inr \<lparr>scope_account = opt_account opts, scope_owner = owner, scope_registry = Some (registryId reg),
                 ref_taskId = tid\<rparr>,
            reg\<lparr>tasks := AList.update storageKey
                  \<lparr>taskId = tid, tool = opt_tool opts, task_account = opt_account opts, task_owner = Some owner,
                   status = TSubmitted, statusMessage = None, task_result = None, task_error = None,
                   task_progress = None, hasWebhook = opt_webhook opts, createdAt = now, updatedAt = now\<rparr>
                  (tasks reg)\<rparr>))"

definition wrong_registry :: "'a task_scope_scheme \<Rightarrow> ('v, 'e) task_registry \<Rightarrow> bool" where
  "wrong_registry sc reg \<longleftrightarrow> scope_registry sc \<noteq> None \<and> scope_registry sc \<noteq> Some (registryId reg)"

definition reg_getTask ::
    "string \<Rightarrow> 'a task_scope_scheme \<Rightarrow> ('v, 'e) task_registry \<Rightarrow> ('v, 'e) task_record option" where
  "reg_getTask tid sc reg =
     (if wrong_registry sc reg then None else map_of (tasks reg) (taskStorageKey tid sc))"

definition reg_list :: "string \<Rightarrow> string \<Rightarrow> ('v, 'e) task_registry \<Rightarrow> ('v, 'e) task_record list" where
  "reg_list account owner reg =
     filter (\<lambda>r. task_account r = account \<and> task_owner r = Some owner) (map snd (tasks reg))"

text \<open>
  The frame the mutations share: the registry check, the scoped lookup, the terminal check; then
  the record is rewritten (or the rewriting throws and nothing is stored).
\<close>

definition reg_mutate ::
    "string \<Rightarrow> 'a task_scope_scheme \<Rightarrow> (('v, 'e) task_record \<Rightarrow> js_error + ('v, 'e) task_record)
      \<Rightarrow> ('v, 'e) task_registry \<Rightarrow> (js_error + mutation_outcome) \<times> ('v, 'e) task_registry" where
  "reg_mutate tid sc f reg =
     (if wrong_registry sc reg then (Inr NotFoundInScope, reg)
      else (case map_of (tasks reg) (taskStorageKey tid sc) of
              None \<Rightarrow> (Inr NotFoundInScope, reg)
            | Some existing \<Rightarrow>
                if isTerminalTaskStatus (status existing) then (Inr (AlreadyTerminal (status existing)), reg)
                else (case f existing of
                        Inl e \<Rightarrow> (Inl e, reg)
                      | Inr r \<Rightarrow> (Inr Applied, reg\<lparr>tasks := AList.update (taskStorageKey tid sc) r (tasks reg)\<rparr>))))"

definition reg_complete ::
    "string \<Rightarrow> 'a task_scope_scheme \<Rightarrow> 'v \<Rightarrow> int \<Rightarrow> ('v, 'e) task_registry
      \<Rightarrow> (js_error + mutation_outcome) \<times> ('v, 'e) task_registry" where
  "reg_complete tid sc result now =
     reg_mutate tid sc (\<lambda>r. Inr (r\<lparr>status := TCompleted, task_result := Some result, updatedAt := now\<rparr>))"

definition reg_fail ::
    "('e \<Rightarrow> string) \<Rightarrow> string \<Rightarrow> 'a task_scope_scheme \<Rightarrow> 'e \<Rightarrow> 'v option \<Rightarrow> int \<Rightarrow> ('v, 'e) task_registry
      \<Rightarrow> (js_error + mutation_outcome) \<times> ('v, 'e) task_registry" where
  "reg_fail error_message tid sc err result now =
     reg_mutate tid sc (\<lambda>r. Inr (r\<lparr>status := TFailed, task_error := Some err,
       task_result := (case result of Some v \<Rightarrow> Some v | None \<Rightarrow> task_result r),
       statusMessage := Some (error_message err), updatedAt := now\<rparr>))"

text \<open>\<open>reason\<close>: \<open>None\<close> is undefined, \<open>Some None\<close> a value that is no string.\<close>

definition reg_reject ::
    "string \<Rightarrow> 'a task_scope_scheme \<Rightarrow> 'v \<Rightarrow> string option option \<Rightarrow> int \<Rightarrow> ('v, 'e) task_registry
      \<Rightarrow> (js_error + mutation_outcome) \<times> ('v, 'e) task_registry" where
  "reg_reject tid sc result reason now reg =
     (if reason = Some None then (Inl (TypeErr ''Task rejection reason must be a string''), reg)
      else reg_mutate tid sc (\<lambda>r. Inr (r\<lparr>status := TRejected, task_result := Some result, task_error := None,
             statusMessage := (case reason of Some m \<Rightarrow> m | None \<Rightarrow> None), updatedAt := now\<rparr>)) reg)"

definition reg_updateProgress ::
    "(jsstr \<Rightarrow> jsstr) \<Rightarrow> (progress \<Rightarrow> nat) \<Rightarrow> string \<Rightarrow> 'a task_scope_scheme \<Rightarrow> progress \<Rightarrow> int
      \<Rightarrow> ('v, 'e) task_registry \<Rightarrow> (js_error + mutation_outcome) \<times> ('v, 'e) task_registry" where
  "reg_updateProgress lower json_bytes tid sc p now =
     reg_mutate tid sc (\<lambda>r. bindE (sanitizeTaskProgressForStorage lower json_bytes p)
       (\<lambda>sanitized. Inr (r\<lparr>status := (if status r = TSubmitted then TWorking else status r),
                            task_progress := Some sanitized, updatedAt := now\<rparr>)))"

definition reg_registerBackground ::
    "string \<Rightarrow> 'a task_scope_scheme \<Rightarrow> nat \<Rightarrow> ('v, 'e) task_registry \<Rightarrow> ('v, 'e) task_registry" where
  "reg_registerBackground tid sc composed reg =
     reg\<lparr>backgrounds := AList.update (taskStorageKey tid sc) composed (backgrounds reg)\<rparr>"

text \<open>The callback of a registered promise: it removes its entry unless it was replaced.\<close>

definition reg_settleBackground ::
    "string \<Rightarrow> 'a task_scope_scheme \<Rightarrow> nat \<Rightarrow> ('v, 'e) task_registry \<Rightarrow> ('v, 'e) task_registry" where
  "reg_settleBackground tid sc composed reg =
     (if map_of (backgrounds reg) (taskStorageKey tid sc) = Some composed
      then reg\<lparr>backgrounds := AList.delete (taskStorageKey tid sc) (backgrounds reg)\<rparr> else reg)"

text \<open>The promise a call waits for, if any.\<close>

definition reg_awaitTask :: "string \<Rightarrow> 'a task_scope_scheme \<Rightarrow> ('v, 'e) task_registry \<Rightarrow> nat option" where
  "reg_awaitTask tid sc reg =
     (if wrong_registry sc reg then None else map_of (backgrounds reg) (taskStorageKey tid sc))"

definition reg_clear :: "string \<Rightarrow> ('v, 'e) task_registry \<Rightarrow> ('v, 'e) task_registry" where
  "reg_clear uuid reg = reg\<lparr>tasks := [], backgrounds := [], registryId := ''memory:'' @ uuid\<rparr>"

section \<open>The registry interface and the worker helpers\<close>

text \<open>
  What the helpers use of a registry.  Custom registries may return no outcome (\<open>None\<close>), have no
  identity, or no \<open>reject\<close>.
\<close>

record ('s, 'v, 'e) registry_ops =
  op_registryId :: "'s \<Rightarrow> string option"
  op_getTask :: "string \<Rightarrow> task_scope \<Rightarrow> 's \<Rightarrow> ('v, 'e) task_record option"
  op_complete :: "string \<Rightarrow> task_scope \<Rightarrow> 'v \<Rightarrow> 's \<Rightarrow> (js_error + mutation_outcome option) \<times> 's"
  op_fail :: "string \<Rightarrow> task_scope \<Rightarrow> 'e \<Rightarrow> 'v option \<Rightarrow> 's \<Rightarrow> (js_error + mutation_outcome option) \<times> 's"
  op_reject :: "(string \<Rightarrow> task_scope \<Rightarrow> 'v \<Rightarrow> string option option \<Rightarrow> 's \<Rightarrow> (js_error + mutation_outcome option) \<times> 's) option"
  op_updateProgress :: "string \<Rightarrow> task_scope \<Rightarrow> progress \<Rightarrow> 's \<Rightarrow> (js_error + mutation_outcome option) \<times> 's"

definition requireMutationOutcome :: "mutation_outcome option \<Rightarrow> js_error + mutation_outcome" where
  "requireMutationOutcome outcome =
     (case outcome of
        None \<Rightarrow> Inl (GenericErr ''Custom TaskRegistry returned no lifecycle mutation outcome.'')
      | Some oc \<Rightarrow> Inr oc)"

definition verifyWorkerRefBinding ::
    "('s, 'v, 'e) registry_ops \<Rightarrow> task_scope \<Rightarrow> 's \<Rightarrow> js_error + mutation_outcome option" where
  "verifyWorkerRefBinding ops ref st =
     (case op_registryId ops st of
        None \<Rightarrow> Inl (GenericErr ''TaskRegistry has no registryId.'')
      | Some rid \<Rightarrow>
          if rid = [] then Inl (GenericErr ''TaskRegistry has no registryId.'')
          else (case scope_registry ref of
                  None \<Rightarrow> Inl (GenericErr ''ScopedTaskRef has no registryId.'')
                | Some r \<Rightarrow>
                    if r = [] then Inl (GenericErr ''ScopedTaskRef has no registryId.'')
                    else if rid \<noteq> r then Inr (Some NotFoundInScope) else Inr None))"

definition ensureWorkerSettlementIsSafe ::
    "('s, 'v, 'e) registry_ops \<Rightarrow> string \<Rightarrow> task_scope \<Rightarrow> 's \<Rightarrow> js_error + mutation_outcome option" where
  "ensureWorkerSettlementIsSafe ops tid ref st =
     bindE (verifyWorkerRefBinding ops ref st) (\<lambda>mismatch.
       case mismatch of
         Some oc \<Rightarrow> Inr (Some oc)
       | None \<Rightarrow>
           (case op_getTask ops tid ref st of
              None \<Rightarrow> Inr (Some NotFoundInScope)
            | Some r \<Rightarrow>
                if hasWebhook r
                then Inl (GenericErr ''Registry-only scoped settlement is unavailable for tasks with push notifications.'')
                else Inr None))"

definition settle_with ::
    "js_error + mutation_outcome option \<Rightarrow> ('s \<Rightarrow> (js_error + mutation_outcome option) \<times> 's) \<Rightarrow> 's
      \<Rightarrow> (js_error + mutation_outcome) \<times> 's" where
  "settle_with refused act st =
     (case refused of
        Inl e \<Rightarrow> (Inl e, st)
      | Inr (Some oc) \<Rightarrow> (Inr oc, st)
      | Inr None \<Rightarrow> (let (res, st') = act st in (bindE res requireMutationOutcome, st')))"

definition completeScopedTask ::
    "('s, 'v, 'e) registry_ops \<Rightarrow> ('v \<Rightarrow> 'v) \<Rightarrow> string \<Rightarrow> task_scope \<Rightarrow> 'v \<Rightarrow> 's
      \<Rightarrow> (js_error + mutation_outcome) \<times> 's" where
  "completeScopedTask ops sanitize tid ref result st =
     settle_with (ensureWorkerSettlementIsSafe ops tid ref st) (op_complete ops tid ref (sanitize result)) st"

definition failScopedTask ::
    "('s, 'v, 'e) registry_ops \<Rightarrow> ('v \<Rightarrow> 'v) \<Rightarrow> ('e \<Rightarrow> 'e) \<Rightarrow> string \<Rightarrow> task_scope \<Rightarrow> 'e \<Rightarrow> 'v option \<Rightarrow> 's
      \<Rightarrow> (js_error + mutation_outcome) \<times> 's" where
  "failScopedTask ops sanitize sanitizeError tid ref err result st =
     settle_with (ensureWorkerSettlementIsSafe ops tid ref st)
       (op_fail ops tid ref (sanitizeError err) (map_option sanitize result)) st"

definition rejectScopedTask ::
    "('s, 'v, 'e) registry_ops \<Rightarrow> ('v \<Rightarrow> 'v) \<Rightarrow> string \<Rightarrow> task_scope \<Rightarrow> 'v \<Rightarrow> string option option \<Rightarrow> 's
      \<Rightarrow> (js_error + mutation_outcome) \<times> 's" where
  "rejectScopedTask ops sanitize tid ref result reason st =
     (case ensureWorkerSettlementIsSafe ops tid ref st of
        Inr None \<Rightarrow>
          (case op_reject ops of
             None \<Rightarrow> (Inl (GenericErr ''TaskRegistry does not implement reject().''), st)
           | Some rej \<Rightarrow> settle_with (Inr None) (rej tid ref (sanitize result) reason) st)
      | refused \<Rightarrow> settle_with refused (\<lambda>st. (Inr None, st)) st)"

definition updateScopedTaskProgress ::
    "('s, 'v, 'e) registry_ops \<Rightarrow> (jsstr \<Rightarrow> jsstr) \<Rightarrow> (progress \<Rightarrow> nat) \<Rightarrow> string \<Rightarrow> task_scope \<Rightarrow> progress \<Rightarrow> 's
      \<Rightarrow> (js_error + mutation_outcome) \<times> 's" where
  "updateScopedTaskProgress ops lower json_bytes tid ref p st =
     (case verifyWorkerRefBinding ops ref st of
        Inr None \<Rightarrow>
          (case sanitizeTaskProgressForStorage lower json_bytes p of
             Inl e \<Rightarrow> (Inl e, st)
           | Inr sanitized \<Rightarrow> settle_with (Inr None) (op_updateProgress ops tid ref sanitized) st)
      | refused \<Rightarrow> settle_with refused (\<lambda>st. (Inr None, st)) st)"

definition lift_outcome :: "(js_error + mutation_outcome) \<times> 's \<Rightarrow> (js_error + mutation_outcome option) \<times> 's" where
  "lift_outcome x = (case fst x of Inl e \<Rightarrow> Inl e | Inr oc \<Rightarrow> Inr (Some oc), snd x)"

definition memoryRegistry ::
    "(jsstr \<Rightarrow> jsstr) \<Rightarrow> (progress \<Rightarrow> nat) \<Rightarrow> ('e \<Rightarrow> string) \<Rightarrow> int \<Rightarrow> (('v, 'e) task_registry, 'v, 'e) registry_ops" where
  "memoryRegistry lower json_bytes error_message now =
     \<lparr>op_registryId = (\<lambda>reg. Some (registryId reg)), op_getTask = reg_getTask,
      op_complete = (\<lambda>tid sc v reg. lift_outcome (reg_complete tid sc v now reg)),
      op_fail = (\<lambda>tid sc e v reg. lift_outcome (reg_fail error_message tid sc e v now reg)),
      op_reject = Some (\<lambda>tid sc v reason reg. lift_outcome (reg_reject tid sc v reason now reg)),
      op_updateProgress = (\<lambda>tid sc p reg. lift_outcome (reg_updateProgress lower json_bytes tid sc p now reg))\<rparr>"

end
