(* ===== verification/TaskLifecycle.thy ===== *)
theory TaskLifecycle
  imports TaskRegistry
begin

text \<open>
  What the task registry promises.  A locale states the laws of a registry that settles tasks at
  most once and proves what the worker helpers make of them; the in-process registry is its
  instance.  Then every run of registry commands is considered: the life of a task record, the
  isolation of account and principal scopes, and the handles a reset invalidates.
\<close>

section \<open>Settlements\<close>

datatype ('v, 'e) settlement = Complete 'v | Fail 'e "'v option" | Reject 'v "string option option"

fun settled_status :: "('v, 'e) settlement \<Rightarrow> task_status" where
  "settled_status (Complete v) = TCompleted"
| "settled_status (Fail e v) = TFailed"
| "settled_status (Reject v reason) = TRejected"

text \<open>A rejection reason that is no string is refused before anything else.\<close>

fun well_typed :: "('v, 'e) settlement \<Rightarrow> bool" where
  "well_typed (Reject v (Some None)) = False"
| "well_typed s = True"

text \<open>The registry operation of a settlement.\<close>

definition op_settle ::
    "('s, 'v, 'e) registry_ops \<Rightarrow> ('v, 'e) settlement \<Rightarrow> string \<Rightarrow> task_scope \<Rightarrow> 's
      \<Rightarrow> (js_error + mutation_outcome option) \<times> 's" where
  "op_settle ops s tid sc =
     (case s of Complete v \<Rightarrow> op_complete ops tid sc v
      | Fail e v \<Rightarrow> op_fail ops tid sc e v
      | Reject v reason \<Rightarrow> (case op_reject ops of None \<Rightarrow> (\<lambda>st. (Inr None, st)) | Some rej \<Rightarrow> rej tid sc v reason))"

text \<open>The worker helper of a settlement, and workers that settle one task one after another.\<close>

definition worker_settle ::
    "('s, 'v, 'e) registry_ops \<Rightarrow> ('v \<Rightarrow> 'v) \<Rightarrow> ('e \<Rightarrow> 'e) \<Rightarrow> string \<Rightarrow> task_scope \<Rightarrow> ('v, 'e) settlement \<Rightarrow> 's
      \<Rightarrow> (js_error + mutation_outcome) \<times> 's" where
  "worker_settle ops san sanE tid ref s =
     (case s of Complete v \<Rightarrow> completeScopedTask ops san tid ref v
      | Fail e v \<Rightarrow> failScopedTask ops san sanE tid ref e v
      | Reject v reason \<Rightarrow> rejectScopedTask ops san tid ref v reason)"

fun settle_all ::
    "(int \<Rightarrow> ('s, 'v, 'e) registry_ops) \<Rightarrow> ('v \<Rightarrow> 'v) \<Rightarrow> ('e \<Rightarrow> 'e) \<Rightarrow> string \<Rightarrow> task_scope
      \<Rightarrow> (int \<times> ('v, 'e) settlement) list \<Rightarrow> 's \<Rightarrow> (js_error + mutation_outcome) list \<times> 's" where
  "settle_all ops san sanE tid ref [] st = ([], st)"
| "settle_all ops san sanE tid ref ((t, s) # xs) st =
     (let (res, st1) = worker_settle (ops t) san sanE tid ref s st;
          (rest, st2) = settle_all ops san sanE tid ref xs st1 in (res # rest, st2))"

definition sanitized :: "('v \<Rightarrow> 'v) \<Rightarrow> ('e \<Rightarrow> 'e) \<Rightarrow> ('v, 'e) settlement \<Rightarrow> ('v, 'e) settlement" where
  "sanitized san sanE s =
     (case s of Complete v \<Rightarrow> Complete (san v)
      | Fail e v \<Rightarrow> Fail (sanE e) (map_option san v)
      | Reject v reason \<Rightarrow> Reject (san v) reason)"

lemma sanitized_simps [simp]:
  "settled_status (sanitized san sanE s) = settled_status s" "well_typed (sanitized san sanE s) = well_typed s"
  by (cases s rule: well_typed.cases; simp add: sanitized_def)+

definition bound_to :: "('s, 'v, 'e) registry_ops \<Rightarrow> task_scope \<Rightarrow> 's \<Rightarrow> bool" where
  "bound_to ops ref st \<longleftrightarrow> (\<exists>rid. rid \<noteq> [] \<and> op_registryId ops st = Some rid \<and> scope_registry ref = Some rid)"

lemma verifyWorkerRefBinding_bound: "bound_to ops ref st \<Longrightarrow> verifyWorkerRefBinding ops ref st = Inr None"
  by (auto simp: bound_to_def verifyWorkerRefBinding_def)

text \<open>Every worker settlement is the safety check followed by the registry's own operation.\<close>

lemma worker_settle_eq:
  assumes "op_reject ops \<noteq> None"
  shows "worker_settle ops san sanE tid ref s st =
     settle_with (ensureWorkerSettlementIsSafe ops tid ref st) (op_settle ops (sanitized san sanE s) tid ref) st"
  using assms
  by (cases s) (auto simp: worker_settle_def op_settle_def sanitized_def completeScopedTask_def failScopedTask_def
      rejectScopedTask_def settle_with_def split: sum.splits option.splits)

lemma refused_unchanged:
  "ensureWorkerSettlementIsSafe ops tid ref st = Inl e \<Longrightarrow> worker_settle ops san sanE tid ref s st = (Inl e, st)"
  "ensureWorkerSettlementIsSafe ops tid ref st = Inr (Some oc) \<Longrightarrow> worker_settle ops san sanE tid ref s st = (Inr oc, st)"
  by (cases s; simp add: worker_settle_def completeScopedTask_def failScopedTask_def rejectScopedTask_def settle_with_def)+

locale settling_registry =
  fixes ops :: "int \<Rightarrow> ('s, 'v, 'e) registry_ops"
  assumes can_reject: "op_reject (ops t) \<noteq> None"
    and identity_const: "op_registryId (ops t) = op_registryId (ops t')"
    and getTask_const: "op_getTask (ops t) = op_getTask (ops t')"
    and settle_terminal: "op_getTask (ops t) tid sc st = Some r \<Longrightarrow> isTerminalTaskStatus (status r) \<Longrightarrow> well_typed s
      \<Longrightarrow> op_settle (ops t) s tid sc st = (Inr (Some (AlreadyTerminal (status r))), st)"
    and settle_open: "op_getTask (ops t) tid sc st = Some r \<Longrightarrow> \<not> isTerminalTaskStatus (status r) \<Longrightarrow> well_typed s
      \<Longrightarrow> \<exists>st' r'. op_settle (ops t) s tid sc st = (Inr (Some Applied), st')
            \<and> op_getTask (ops t) tid sc st' = Some r' \<and> status r' = settled_status s
            \<and> hasWebhook r' = hasWebhook r \<and> op_registryId (ops t) st' = op_registryId (ops t) st"
begin

lemma safe: "bound_to (ops t) ref st \<Longrightarrow> op_getTask (ops t) tid ref st = Some r \<Longrightarrow> \<not> hasWebhook r
    \<Longrightarrow> ensureWorkerSettlementIsSafe (ops t) tid ref st = Inr None"
  by (simp add: ensureWorkerSettlementIsSafe_def verifyWorkerRefBinding_bound)

lemma settle_again:
  assumes "bound_to (ops t) ref st" "op_getTask (ops t) tid ref st = Some r" "\<not> hasWebhook r"
    and "isTerminalTaskStatus (status r)" "well_typed s"
  shows "worker_settle (ops t) san sanE tid ref s st = (Inr (AlreadyTerminal (status r)), st)"
  using assms settle_terminal [OF assms(2,4), of "sanitized san sanE s"]
  by (simp add: worker_settle_eq [OF can_reject] safe settle_with_def requireMutationOutcome_def)

lemma settle_first:
  assumes "bound_to (ops t) ref st" "op_getTask (ops t) tid ref st = Some r" "\<not> hasWebhook r"
    and "\<not> isTerminalTaskStatus (status r)" "well_typed s"
  shows "\<exists>st' r'. worker_settle (ops t) san sanE tid ref s st = (Inr Applied, st') \<and> bound_to (ops t) ref st'
    \<and> op_getTask (ops t) tid ref st' = Some r' \<and> status r' = settled_status s \<and> \<not> hasWebhook r'"
  using assms settle_open [OF assms(2,4), of "sanitized san sanE s"]
  by (auto simp: worker_settle_eq [OF can_reject] safe settle_with_def requireMutationOutcome_def bound_to_def)

lemma settle_rest:
  assumes "bound_to (ops t) ref st" "op_getTask (ops t) tid ref st = Some r" "\<not> hasWebhook r"
    and "isTerminalTaskStatus (status r)" "list_all (well_typed \<circ> snd) xs"
  shows "settle_all ops san sanE tid ref xs st = (map (\<lambda>_. Inr (AlreadyTerminal (status r))) xs, st)"
  using assms(5)
proof (induction xs)
  case (Cons x xs)
  obtain t' s where x: "x = (t', s)" by (cases x)
  have "bound_to (ops t') ref st" "op_getTask (ops t') tid ref st = Some r"
    using assms(1,2) identity_const [of t' t] getTask_const [of t' t] by (simp_all add: bound_to_def)
  from settle_again [OF this assms(3,4)] Cons x show ?case by simp
qed simp

lemma first_settlement:
  assumes "bound_to (ops t) ref st" "op_getTask (ops t) tid ref st = Some r" "\<not> hasWebhook r"
    and "\<not> isTerminalTaskStatus (status r)" "list_all (well_typed \<circ> snd) ((t, s) # xs)"
  shows "settle_all ops san sanE tid ref ((t, s) # xs) st
    = (Inr Applied # map (\<lambda>_. Inr (AlreadyTerminal (settled_status s))) xs,
       snd (worker_settle (ops t) san sanE tid ref s st))"
proof -
  from settle_first [OF assms(1-4), of s san sanE] assms(5) obtain st' r' where w:
    "worker_settle (ops t) san sanE tid ref s st = (Inr Applied, st')" "bound_to (ops t) ref st'"
    "op_getTask (ops t) tid ref st' = Some r'" "status r' = settled_status s" "\<not> hasWebhook r'" by auto
  have "isTerminalTaskStatus (status r')"
    by (cases s) (simp_all add: w(4) isTerminalTaskStatus_def TERMINAL_TASK_STATUSES_def)
  from settle_rest [OF w(2,3,5) this, of xs] w assms(5) show ?thesis by simp
qed

end

section \<open>The in-process registry settles once\<close>

lemma reg_mutate_cases:
  "reg_getTask tid sc reg = None \<Longrightarrow> reg_mutate tid sc f reg = (Inr NotFoundInScope, reg)"
  "reg_getTask tid sc reg = Some r \<Longrightarrow> isTerminalTaskStatus (status r)
     \<Longrightarrow> reg_mutate tid sc f reg = (Inr (AlreadyTerminal (status r)), reg)"
  "reg_getTask tid sc reg = Some r \<Longrightarrow> \<not> isTerminalTaskStatus (status r) \<Longrightarrow> f r = Inl e
     \<Longrightarrow> reg_mutate tid sc f reg = (Inl e, reg)"
  "reg_getTask tid sc reg = Some r \<Longrightarrow> \<not> isTerminalTaskStatus (status r) \<Longrightarrow> f r = Inr r'
     \<Longrightarrow> reg_mutate tid sc f reg = (Inr Applied, reg\<lparr>tasks := AList.update (taskStorageKey tid sc) r' (tasks reg)\<rparr>)"
  by (auto simp: reg_mutate_def reg_getTask_def split: option.splits if_splits)

lemma reg_getTask_update [simp]:
  "reg_getTask tid sc (reg\<lparr>tasks := AList.update (taskStorageKey tid sc) r (tasks reg)\<rparr>)
     = (if wrong_registry sc reg then None else Some r)"
  by (simp add: reg_getTask_def wrong_registry_def update_conv')

lemma reg_getTask_bound: "reg_getTask tid sc reg = Some r \<Longrightarrow> \<not> wrong_registry sc reg"
  by (auto simp: reg_getTask_def split: if_splits)

lemmas memory_registry_defs = op_settle_def memoryRegistry_def lift_outcome_def reg_complete_def reg_fail_def reg_reject_def

interpretation memt: settling_registry
  "memoryRegistry lower json_bytes error_message :: int \<Rightarrow> (('v, 'e) task_registry, 'v, 'e) registry_ops"
  for lower json_bytes and error_message :: "'e \<Rightarrow> string"
proof
  fix t tid sc reg r and s :: "('v, 'e) settlement"
  let ?ops = "memoryRegistry lower json_bytes error_message t :: (_, 'v, 'e) registry_ops"
  assume r: "op_getTask ?ops tid sc reg = Some r" and ty: "well_typed s"
  then have g: "reg_getTask tid sc reg = Some r" by (simp add: memoryRegistry_def)
  show "op_settle ?ops s tid sc reg = (Inr (Some (AlreadyTerminal (status r))), reg)"
    if "isTerminalTaskStatus (status r)"
    using ty that by (cases s rule: well_typed.cases) (simp_all add: memory_registry_defs reg_mutate_cases(2) [OF g])
  show "\<exists>st' r'. op_settle ?ops s tid sc reg = (Inr (Some Applied), st')
      \<and> op_getTask ?ops tid sc st' = Some r' \<and> status r' = settled_status s
      \<and> hasWebhook r' = hasWebhook r \<and> op_registryId ?ops st' = op_registryId ?ops reg"
    if "\<not> isTerminalTaskStatus (status r)"
    using ty that reg_getTask_bound [OF g]
    by (cases s rule: well_typed.cases) (simp_all add: memory_registry_defs reg_mutate_cases(4) [OF g])
qed (simp_all add: memoryRegistry_def)


section \<open>Runs of the registry\<close>

datatype ('v, 'e) registry_cmd =
    CreateCmd create_opts string int
  | SettleCmd "('v, 'e) settlement" string task_scope int
  | ProgressCmd string task_scope progress int
  | BackgroundCmd string task_scope nat
  | SettledCmd string task_scope nat
  | ClearCmd string

type_synonym 'e registry_env = "(jsstr \<Rightarrow> jsstr) \<times> (progress \<Rightarrow> nat) \<times> ('e \<Rightarrow> string)"

fun run_registry_cmd :: "'e registry_env \<Rightarrow> ('v, 'e) registry_cmd \<Rightarrow> ('v, 'e) task_registry \<Rightarrow> ('v, 'e) task_registry" where
  "run_registry_cmd (lower, jb, em) (CreateCmd opts uuid now) reg = snd (reg_create opts uuid now reg)"
| "run_registry_cmd (lower, jb, em) (SettleCmd s tid sc now) reg = snd (op_settle (memoryRegistry lower jb em now) s tid sc reg)"
| "run_registry_cmd (lower, jb, em) (ProgressCmd tid sc p now) reg = snd (reg_updateProgress lower jb tid sc p now reg)"
| "run_registry_cmd (lower, jb, em) (BackgroundCmd tid sc c) reg = reg_registerBackground tid sc c reg"
| "run_registry_cmd (lower, jb, em) (SettledCmd tid sc c) reg = reg_settleBackground tid sc c reg"
| "run_registry_cmd (lower, jb, em) (ClearCmd uuid) reg = reg_clear uuid reg"

definition run_registry :: "'e registry_env \<Rightarrow> ('v, 'e) registry_cmd list \<Rightarrow> ('v, 'e) task_registry \<Rightarrow> ('v, 'e) task_registry" where
  "run_registry env cmds reg = fold (run_registry_cmd env) cmds reg"

lemma run_registry_simps [simp]:
  "run_registry env [] reg = reg"
  "run_registry env (c # cs) reg = run_registry env cs (run_registry_cmd env c reg)"
  by (simp_all add: run_registry_def)

fun is_clear :: "('v, 'e) registry_cmd \<Rightarrow> bool" where
  "is_clear (ClearCmd uuid) = True"
| "is_clear c = False"

text \<open>What a command may do to one record.\<close>

definition same_identity :: "('v, 'e) task_record \<Rightarrow> ('v, 'e) task_record \<Rightarrow> bool" where
  "same_identity r r' \<longleftrightarrow> taskId r' = taskId r \<and> tool r' = tool r \<and> task_account r' = task_account r
     \<and> task_owner r' = task_owner r \<and> hasWebhook r' = hasWebhook r \<and> createdAt r' = createdAt r"

fun status_edge :: "task_status \<Rightarrow> task_status \<Rightarrow> bool" where
  "status_edge TSubmitted t = (t \<in> {TWorking, TCompleted, TFailed, TRejected})"
| "status_edge TWorking t = (t \<in> {TWorking, TCompleted, TFailed, TRejected})"
| "status_edge s t = False"

fun record_step :: "('v, 'e) task_record option \<Rightarrow> ('v, 'e) task_record option \<Rightarrow> bool" where
  "record_step None None = True"
| "record_step None (Some r') = (status r' = TSubmitted)"
| "record_step (Some r) None = False"
| "record_step (Some r) (Some r') = (r' = r \<or> same_identity r r' \<and> status_edge (status r) (status r'))"

lemma record_step_refl [simp]: "record_step x x"
  by (cases x) auto

text \<open>The tasks a registry can hold, and where it keeps them.\<close>

definition live_statuses :: "task_status set" where
  "live_statuses = {TSubmitted, TWorking, TCompleted, TFailed, TRejected}"

definition record_ok :: "string \<times> ('v, 'e) task_record \<Rightarrow> bool" where
  "record_ok kr \<longleftrightarrow> (\<exists>owner. task_owner (snd kr) = Some owner
     \<and> fst kr = json_string_array [task_account (snd kr), owner, taskId (snd kr)]) \<and> status (snd kr) \<in> live_statuses"

definition registry_inv :: "('v, 'e) task_registry \<Rightarrow> bool" where
  "registry_inv reg \<longleftrightarrow> distinct (map fst (tasks reg)) \<and> (\<forall>kr \<in> set (tasks reg). record_ok kr)"

lemma registry_inv_lookup: "registry_inv reg \<Longrightarrow> map_of (tasks reg) k = Some r \<Longrightarrow> record_ok (k, r)"
  by (auto simp: registry_inv_def dest: map_of_SomeD)

lemma registry_inv_update:
  "registry_inv reg \<Longrightarrow> record_ok (k, r) \<Longrightarrow> registry_inv (reg\<lparr>tasks := AList.update k r (tasks reg)\<rparr>)"
  using set_update_subset [of k r "tasks reg"] by (auto simp: registry_inv_def distinct_update)

text \<open>A registry command stores at most one record, and only one a step may lead to.\<close>

definition registry_moves :: "('v, 'e) task_registry \<Rightarrow> ('v, 'e) task_registry \<Rightarrow> bool" where
  "registry_moves reg reg' \<longleftrightarrow> registryId reg' = registryId reg \<and>
     (tasks reg' = tasks reg \<or>
      (\<exists>k r'. tasks reg' = AList.update k r' (tasks reg) \<and> record_step (map_of (tasks reg) k) (Some r')
         \<and> (map_of (tasks reg) k = None \<longrightarrow> record_ok (k, r'))))"

lemma registry_moves_store:
  "record_step (map_of (tasks reg) k) (Some r') \<Longrightarrow> (map_of (tasks reg) k = None \<Longrightarrow> record_ok (k, r'))
    \<Longrightarrow> registry_moves reg (reg\<lparr>tasks := AList.update k r' (tasks reg)\<rparr>)"
  unfolding registry_moves_def by (rule conjI, simp, rule disjI2, rule exI [of _ k], rule exI [of _ r']) simp

lemma registry_moves_refl [simp]: "registry_moves reg reg"
  by (simp add: registry_moves_def)

lemma reg_mutate_moves:
  assumes "registry_inv reg" "\<And>r r'. status r \<in> {TSubmitted, TWorking} \<Longrightarrow> f r = Inr r' \<Longrightarrow> record_step (Some r) (Some r')"
  shows "registry_moves reg (snd (reg_mutate tid sc f reg))"
proof (cases "reg_getTask tid sc reg")
  case (Some r)
  then have m: "map_of (tasks reg) (taskStorageKey tid sc) = Some r" by (auto simp: reg_getTask_def split: if_splits)
  then have "status r \<in> live_statuses" using registry_inv_lookup [OF assms(1)] by (auto simp: record_ok_def)
  show ?thesis
  proof (cases "isTerminalTaskStatus (status r)")
    case False
    then have "status r \<in> {TSubmitted, TWorking}" using \<open>status r \<in> live_statuses\<close>
      by (auto simp: live_statuses_def isTerminalTaskStatus_def TERMINAL_TASK_STATUSES_def)
    from assms(2) [OF this] m show ?thesis
      by (cases "f r") (auto simp: reg_mutate_cases(3,4) [OF Some False] intro!: registry_moves_store)
  qed (simp add: reg_mutate_cases(2) [OF Some])
qed (simp add: reg_mutate_cases(1))

lemma registry_moves_run:
  assumes "registry_inv reg" "\<not> is_clear c"
  shows "registry_moves reg (run_registry_cmd env c reg)"
proof -
  obtain lower jb em where env: "env = (lower, jb, em)" by (cases env)
  note moves = reg_mutate_moves [OF assms(1)]
  show ?thesis
  proof (cases c)
    case (CreateCmd opts uuid now)
    then show ?thesis
      by (auto simp: env reg_create_def Let_def record_ok_def live_statuses_def intro!: registry_moves_store)
  next
    case (SettleCmd s tid sc now)
    have "registry_moves reg (snd (op_settle (memoryRegistry lower jb em now) s tid sc reg))"
    proof (cases s)
      case (Complete v)
      have "registry_moves reg (snd (reg_complete tid sc v now reg))"
        unfolding reg_complete_def by (rule moves) (auto simp: same_identity_def)
      then show ?thesis by (simp add: Complete op_settle_def memoryRegistry_def lift_outcome_def)
    next
      case (Fail e v)
      have "registry_moves reg (snd (reg_fail em tid sc e v now reg))"
        unfolding reg_fail_def by (rule moves) (auto simp: same_identity_def)
      then show ?thesis by (simp add: Fail op_settle_def memoryRegistry_def lift_outcome_def)
    next
      case (Reject v reason)
      have "registry_moves reg (snd (reg_reject tid sc v reason now reg))"
        unfolding reg_reject_def by (auto intro!: moves simp: same_identity_def)
      then show ?thesis by (simp add: Reject op_settle_def memoryRegistry_def lift_outcome_def)
    qed
    then show ?thesis by (simp add: SettleCmd env)
  next
    case (ProgressCmd tid sc p now)
    have "registry_moves reg (snd (reg_updateProgress lower jb tid sc p now reg))"
      unfolding reg_updateProgress_def by (rule moves) (auto simp: same_identity_def bindE_eq_Inr_iff)
    then show ?thesis by (simp add: ProgressCmd env)
  qed (use assms(2) in \<open>simp_all add: env registry_moves_def reg_registerBackground_def reg_settleBackground_def\<close>)
qed

lemma registry_moves_inv: "registry_inv reg \<Longrightarrow> registry_moves reg reg' \<Longrightarrow> registry_inv reg'"
  unfolding registry_moves_def
proof (elim conjE disjE exE)
  fix k r' assume inv: "registry_inv reg" and t: "tasks reg' = AList.update k r' (tasks reg)"
    and st: "record_step (map_of (tasks reg) k) (Some r')"
    and new: "map_of (tasks reg) k = None \<longrightarrow> record_ok (k, r')"
  have "record_ok (k, r')"
  proof (cases "map_of (tasks reg) k")
    case (Some r)
    then have "record_ok (k, r)" by (rule registry_inv_lookup [OF inv])
    with st Some show ?thesis
      by (cases "status r") (auto simp: record_ok_def same_identity_def live_statuses_def)
  qed (use new in simp)
  from registry_inv_update [OF inv this] t show "registry_inv reg'" by (simp add: registry_inv_def)
qed (simp add: registry_inv_def)

lemma registry_inv_cmd: "registry_inv reg \<Longrightarrow> registry_inv (run_registry_cmd env c reg)"
proof (cases "is_clear c")
  case True
  then obtain uuid where "c = ClearCmd uuid" by (cases c) auto
  then show ?thesis by (cases env) (simp add: reg_clear_def registry_inv_def)
qed (blast intro: registry_moves_inv registry_moves_run)

lemma registry_inv_run: "registry_inv reg \<Longrightarrow> registry_inv (run_registry env cmds reg)"
  by (induction cmds arbitrary: reg) (auto intro: registry_inv_cmd)

lemma registry_inv_create [simp]: "registry_inv (createInMemoryTaskRegistry uuid)"
  by (simp add: registry_inv_def createInMemoryTaskRegistry_def)

lemmas registry_inv_reachable = registry_inv_run [OF registry_inv_create]

lemma registry_moves_step:
  "registry_moves reg reg' \<Longrightarrow> record_step (reg_getTask tid sc reg) (reg_getTask tid sc reg')"
  by (auto simp: registry_moves_def reg_getTask_def wrong_registry_def update_conv')

lemma record_step_terminal: "record_step (Some r) y \<Longrightarrow> isTerminalTaskStatus (status r) \<Longrightarrow> y = Some r"
  by (cases y; cases "status r") (auto simp: isTerminalTaskStatus_def TERMINAL_TASK_STATUSES_def)

lemma registryId_run_cmd:
  "registryId st \<noteq> old \<Longrightarrow> (\<And>u. c = ClearCmd u \<Longrightarrow> ''memory:'' @ u \<noteq> old) \<Longrightarrow> registryId (run_registry_cmd env c st) \<noteq> old"
proof (cases c)
  case (SettleCmd s tid sc now)
  have "registryId (snd (reg_mutate tid sc f st)) = registryId st" for f
    by (auto simp: reg_mutate_def split: option.splits sum.splits)
  then show "registryId st \<noteq> old \<Longrightarrow> ?thesis"
    by (cases env; cases s) (auto simp: SettleCmd memory_registry_defs)
next
  case (ProgressCmd tid sc p now)
  have "registryId (snd (reg_mutate tid sc f st)) = registryId st" for f
    by (auto simp: reg_mutate_def split: option.splits sum.splits)
  then show "registryId st \<noteq> old \<Longrightarrow> ?thesis" by (cases env) (simp add: ProgressCmd reg_updateProgress_def)
qed (cases env; auto simp: reg_create_def Let_def reg_registerBackground_def reg_settleBackground_def reg_clear_def)+

section \<open>Properties\<close>

definition demo_env :: "string registry_env" where
  "demo_env = (id, \<lambda>p. 2, id)"

definition demo_opts :: create_opts where
  "demo_opts = \<lparr>opt_tool = ''create_media_buy'', opt_account = ''acct'', opt_owner = Some ''agent:a'', opt_webhook = False,
     opt_overrideTaskId = Some ''t1''\<rparr>"

definition demo_scope :: task_scope where
  "demo_scope = \<lparr>scope_account = ''acct'', scope_owner = ''agent:a'', scope_registry = Some ''memory:u0''\<rparr>"

definition demo_registry :: "(int, string) task_registry" where
  "demo_registry = run_registry demo_env [CreateCmd demo_opts ''x'' 5] (createInMemoryTaskRegistry ''u0'')"

lemma demo_registry_task:
  "\<exists>r. reg_getTask ''t1'' demo_scope demo_registry = Some r \<and> status r = TSubmitted \<and> \<not> hasWebhook r"
  "registryId demo_registry = ''memory:u0''" "scope_registry demo_scope = Some ''memory:u0''"
  by (simp_all add: demo_registry_def demo_env_def demo_opts_def demo_scope_def createInMemoryTaskRegistry_def
      reg_create_def Let_def reg_getTask_def wrong_registry_def taskStorageKey_def)

text \<open>
  C5: A task is settled once.  Whatever workers settle a pending task through the helpers, one
  after another and at any times, the first settlement is applied and every later one, complete,
  fail or reject alike, is answered already_terminal with the status of the first and leaves the
  registry as the first left it.
\<close>

theorem first_settlement_wins:
  fixes reg :: "('v, 'e) task_registry"
  assumes "reg_getTask tid ref reg = Some r" "\<not> hasWebhook r" "\<not> isTerminalTaskStatus (status r)"
    and "scope_registry ref = Some (registryId reg)" "registryId reg \<noteq> []"
    and "list_all (well_typed \<circ> snd) ((t, s) # later)"
  shows "settle_all (memoryRegistry lower jb em) san sanE tid ref ((t, s) # later) reg
    = (Inr Applied # map (\<lambda>_. Inr (AlreadyTerminal (settled_status s))) later,
       snd (worker_settle (memoryRegistry lower jb em t) san sanE tid ref s reg))"
proof (rule memt.first_settlement [OF _ _ assms(2,3,6)])
  show "bound_to (memoryRegistry lower jb em t) ref reg"
    using assms(4,5) by (simp add: bound_to_def memoryRegistry_def)
  show "op_getTask (memoryRegistry lower jb em t) tid ref reg = Some r"
    using assms(1) by (simp add: memoryRegistry_def)
qed

theorem first_settlement_wins_witness:
  "fst (settle_all (memoryRegistry id (\<lambda>_. 0) id) id id ''t1'' demo_scope [(6, Complete 1), (7, Fail ''no'' None), (8, Reject 2 None)]
      demo_registry)
    = [Inr Applied, Inr (AlreadyTerminal TCompleted), Inr (AlreadyTerminal TCompleted)]"
proof -
  obtain r where r: "reg_getTask ''t1'' demo_scope demo_registry = Some r" "status r = TSubmitted" "\<not> hasWebhook r"
    using demo_registry_task(1) by blast
  show ?thesis
    using r by (subst first_settlement_wins [OF r(1,3)])
      (simp_all add: demo_registry_task isTerminalTaskStatus_def TERMINAL_TASK_STATUSES_def)
qed

text \<open>
  C36: The life of a task record.  In every registry reached by any run, a command other than a
  reset leaves the record a handle reads as it is, or creates it as submitted, or moves it along
  submitted to working to completed, failed or rejected, never changing who owns it, what tool
  started it or when.
\<close>

theorem task_lifecycle:
  assumes "\<not> is_clear c"
  shows "record_step (reg_getTask tid sc (run_registry env cmds (createInMemoryTaskRegistry uuid)))
    (reg_getTask tid sc (run_registry_cmd env c (run_registry env cmds (createInMemoryTaskRegistry uuid))))"
  by (rule registry_moves_step [OF registry_moves_run [OF registry_inv_reachable assms]])

theorem task_lifecycle_witness:
  "record_step (reg_getTask ''t1'' demo_scope (run_registry demo_env [CreateCmd demo_opts ''x'' 5] (createInMemoryTaskRegistry ''u0'')))
    (reg_getTask ''t1'' demo_scope (run_registry_cmd demo_env (SettleCmd (Complete (1 :: int)) ''t1'' demo_scope 6)
       (run_registry demo_env [CreateCmd demo_opts ''x'' 5] (createInMemoryTaskRegistry ''u0''))))"
  by (rule task_lifecycle) simp

text \<open>
  A terminal record is final: once the record a handle reads is completed, failed or
  rejected, every run of commands without a reset leaves exactly that record.
\<close>

theorem terminal_record_final:
  assumes "reg_getTask tid sc (run_registry env cmds (createInMemoryTaskRegistry uuid)) = Some r"
    and "isTerminalTaskStatus (status r)" "\<not> list_ex is_clear later"
  shows "reg_getTask tid sc (run_registry env (cmds @ later) (createInMemoryTaskRegistry uuid)) = Some r"
proof -
  have "reg_getTask tid sc (run_registry env later reg) = Some r"
    if "registry_inv reg" "reg_getTask tid sc reg = Some r" "\<not> list_ex is_clear later" for reg
    using that
  proof (induction later arbitrary: reg)
    case (Cons c cs)
    then have "record_step (Some r) (reg_getTask tid sc (run_registry_cmd env c reg))"
      using registry_moves_step [OF registry_moves_run [of reg c env], of tid sc] by simp
    from record_step_terminal [OF this assms(2)] Cons.IH [OF registry_inv_cmd [OF Cons.prems(1)]] Cons.prems(3)
    show ?case by simp
  qed simp
  from this [OF registry_inv_reachable assms(1,3)] show ?thesis by (simp add: run_registry_def)
qed

lemma demo_completed:
  "\<exists>r. reg_getTask ''t1'' demo_scope (run_registry demo_env [CreateCmd demo_opts ''x'' 5, SettleCmd (Complete (1 :: int)) ''t1'' demo_scope 6]
      (createInMemoryTaskRegistry ''u0'')) = Some r \<and> status r = TCompleted"
  by (simp add: demo_env_def demo_opts_def demo_scope_def createInMemoryTaskRegistry_def memory_registry_defs
      reg_create_def Let_def reg_mutate_def reg_getTask_def wrong_registry_def taskStorageKey_def
      isTerminalTaskStatus_def TERMINAL_TASK_STATUSES_def)

theorem terminal_record_final_witness:
  "\<exists>r. status r = TCompleted \<and> reg_getTask ''t1'' demo_scope (run_registry demo_env
      ([CreateCmd demo_opts ''x'' 5, SettleCmd (Complete (1 :: int)) ''t1'' demo_scope 6]
        @ [SettleCmd (Fail ''no'' None) ''t1'' demo_scope 7, ProgressCmd ''t1'' demo_scope (JObj []) 8, CreateCmd demo_opts ''y'' 9])
      (createInMemoryTaskRegistry ''u0'')) = Some r"
proof -
  obtain r where r: "reg_getTask ''t1'' demo_scope (run_registry demo_env
      [CreateCmd demo_opts ''x'' 5, SettleCmd (Complete (1 :: int)) ''t1'' demo_scope 6] (createInMemoryTaskRegistry ''u0'')) = Some r"
    "status r = TCompleted" using demo_completed by blast
  have "reg_getTask ''t1'' demo_scope (run_registry demo_env
      ([CreateCmd demo_opts ''x'' 5, SettleCmd (Complete (1 :: int)) ''t1'' demo_scope 6]
        @ [SettleCmd (Fail ''no'' None) ''t1'' demo_scope 7, ProgressCmd ''t1'' demo_scope (JObj []) 8, CreateCmd demo_opts ''y'' 9])
      (createInMemoryTaskRegistry ''u0'')) = Some r"
    by (rule terminal_record_final [OF r(1)]) (simp_all add: r(2) isTerminalTaskStatus_def TERMINAL_TASK_STATUSES_def)
  with r(2) show ?thesis by blast
qed

text \<open>
  C37: Reads stay in their scope.  In every reachable registry a handle reads only the record of
  its own task, account and owner, one that the boundary check accepts; and a list holds exactly the
  records that a handle of that account and owner can read.
\<close>

theorem scope_isolation:
  fixes reg :: "('v, 'e) task_registry"
  assumes reg: "reg = run_registry env cmds (createInMemoryTaskRegistry uuid)"
  shows "(\<forall>tid sc r. reg_getTask tid sc reg = Some r \<longrightarrow>
            taskId r = tid \<and> task_account r = scope_account sc \<and> task_owner r = Some (scope_owner sc)
            \<and> taskRecordMatchesScope r sc)
    \<and> (\<forall>account owner. set (reg_list account owner reg)
          = {r. \<exists>tid. reg_getTask tid \<lparr>scope_account = account, scope_owner = owner, scope_registry = None\<rparr> reg = Some r})"
proof -
  have inv: "registry_inv reg" unfolding reg by (rule registry_inv_reachable)
  have key: "taskId r = tid \<and> task_account r = scope_account sc \<and> task_owner r = Some (scope_owner sc)"
    if "reg_getTask tid sc reg = Some r" for tid and sc :: task_scope and r
    using that registry_inv_lookup [OF inv] by (force simp: reg_getTask_def taskStorageKey_def record_ok_def split: if_splits)
  have "set (reg_list account owner reg)
      = {r. \<exists>tid. reg_getTask tid \<lparr>scope_account = account, scope_owner = owner, scope_registry = None\<rparr> reg = Some r}" for account owner
  proof (intro set_eqI iffI)
    fix r assume "r \<in> set (reg_list account owner reg)"
    then obtain k where k: "(k, r) \<in> set (tasks reg)" "task_account r = account" "task_owner r = Some owner"
      by (auto simp: reg_list_def)
    then have "k = json_string_array [account, owner, taskId r]"
      using inv by (auto simp: registry_inv_def record_ok_def)
    moreover have "map_of (tasks reg) k = Some r" using inv k(1) by (simp add: registry_inv_def)
    ultimately show "r \<in> {r. \<exists>tid. reg_getTask tid \<lparr>scope_account = account, scope_owner = owner, scope_registry = None\<rparr> reg = Some r}"
      by (auto simp: reg_getTask_def wrong_registry_def taskStorageKey_def)
  next
    fix r assume "r \<in> {r. \<exists>tid. reg_getTask tid \<lparr>scope_account = account, scope_owner = owner, scope_registry = None\<rparr> reg = Some r}"
    then obtain tid where g: "reg_getTask tid \<lparr>scope_account = account, scope_owner = owner, scope_registry = None\<rparr> reg = Some r" by blast
    then have "r \<in> snd ` set (tasks reg)"
      by (auto simp: reg_getTask_def split: if_splits dest!: map_of_SomeD intro: rev_image_eqI)
    with key [OF g] show "r \<in> set (reg_list account owner reg)" by (simp add: reg_list_def)
  qed
  with key show ?thesis by (fastforce simp: taskRecordMatchesScope_def)
qed

theorem scope_isolation_witness:
  "\<exists>r. reg_getTask ''t1'' demo_scope demo_registry = Some r \<and> taskRecordMatchesScope r demo_scope"
  using demo_registry_task(1) scope_isolation [OF demo_registry_def] by blast

text \<open>
  A reset invalidates every handle issued before.  After a reset, and whatever runs later, an
  old handle reads nothing, and settling or updating through it is a scoped miss that changes
  nothing, even if its task id is in use again; the one assumption is that no reset mints the
  identity of the old handle.
\<close>

theorem reset_invalidates_handles:
  fixes reg :: "('v, 'e) task_registry"
  assumes "scope_registry sc = Some old" "old \<notin> {''memory:'' @ u |u. ClearCmd u \<in> set (ClearCmd uuid # cmds)}"
    and "well_typed s" "reg' = run_registry env cmds (reg_clear uuid reg)"
  shows "reg_getTask tid sc reg' = None
    \<and> op_settle (memoryRegistry lower jb em now) s tid sc reg' = (Inr (Some NotFoundInScope), reg')
    \<and> reg_updateProgress lower jb tid sc p now reg' = (Inr NotFoundInScope, reg')"
proof -
  have "registryId (run_registry env cmds st) \<noteq> old" if "registryId st \<noteq> old" for st
    using that assms(2)
  proof (induction cmds arbitrary: st)
    case (Cons c cs)
    have "registryId (run_registry_cmd env c st) \<noteq> old" using Cons.prems by (intro registryId_run_cmd) auto
    then show ?case using Cons by auto
  qed simp
  moreover have "registryId (reg_clear uuid reg) \<noteq> old" using assms(2) by (auto simp: reg_clear_def)
  ultimately have "wrong_registry sc reg'" using assms(1,4) by (auto simp: wrong_registry_def)
  then have none: "reg_getTask tid sc reg' = None" by (simp add: reg_getTask_def)
  note miss = reg_mutate_cases(1) [OF none]
  have "op_settle (memoryRegistry lower jb em now) s tid sc reg' = (Inr (Some NotFoundInScope), reg')"
    using assms(3) by (cases s rule: well_typed.cases) (simp_all add: memory_registry_defs miss)
  then show ?thesis by (simp add: none miss reg_updateProgress_def)
qed

theorem reset_invalidates_handles_witness:
  "reg_getTask ''t1'' demo_scope (run_registry demo_env [CreateCmd demo_opts ''y'' 9] (reg_clear ''u1'' demo_registry)) = None"
  by (rule reset_invalidates_handles [where s = "Complete 1" and old = "''memory:u0''" and uuid = "''u1''"
        and cmds = "[CreateCmd demo_opts ''y'' 9]" and env = demo_env and reg = demo_registry, THEN conjunct1])
    (simp_all add: demo_registry_task)

text \<open>
  The worker helpers refuse what they cannot settle safely.  For any registry, a task that
  carries a webhook, a handle of another registry, a missing task and a handle or registry without
  an identity are each refused, by an error or a scoped miss, without calling the registry's
  operation: its state is unchanged.
\<close>

theorem unsafe_settlement_refused:
  assumes "\<not> bound_to ops ref st \<or> op_getTask ops tid ref st = None
    \<or> (\<exists>r. op_getTask ops tid ref st = Some r \<and> hasWebhook r)"
  shows "snd (worker_settle ops san sanE tid ref s st) = st
    \<and> (fst (worker_settle ops san sanE tid ref s st) = Inr NotFoundInScope \<or> isl (fst (worker_settle ops san sanE tid ref s st)))"
proof -
  have "ensureWorkerSettlementIsSafe ops tid ref st = Inr (Some NotFoundInScope)
      \<or> (\<exists>e. ensureWorkerSettlementIsSafe ops tid ref st = Inl e)"
    using assms by (auto simp: ensureWorkerSettlementIsSafe_def verifyWorkerRefBinding_def bound_to_def split: option.splits)
  then show ?thesis using refused_unchanged [where ops = ops and st = st] by fastforce
qed

theorem unsafe_settlement_refused_witness:
  "snd (worker_settle (memoryRegistry id (\<lambda>_. 0) id 6) id id ''t2'' demo_scope (Complete (1 :: int)) demo_registry) = demo_registry"
proof (rule unsafe_settlement_refused [THEN conjunct1])
  have "reg_getTask ''t2'' demo_scope demo_registry = None"
    by (simp add: demo_registry_def demo_env_def demo_opts_def demo_scope_def createInMemoryTaskRegistry_def
      reg_create_def Let_def reg_getTask_def wrong_registry_def taskStorageKey_def)
  then show "\<not> bound_to (memoryRegistry id (\<lambda>_. 0) id 6) demo_scope demo_registry
    \<or> op_getTask (memoryRegistry id (\<lambda>_. 0) id 6) ''t2'' demo_scope demo_registry = None
    \<or> (\<exists>r. op_getTask (memoryRegistry id (\<lambda>_. 0) id 6) ''t2'' demo_scope demo_registry = Some r \<and> hasWebhook r)"
    by (simp add: memoryRegistry_def)
qed

end
