(* ===== verification/TaskProgress.thy ===== *)
theory TaskProgress
  imports TaskRegistry
begin

text \<open>
  What buyers can read of the progress a task reports (\<open>sanitizeTaskProgressForStorage\<close>): the
  stored value is plain JSON with no private member at any depth, it is within the size limit, and
  the fields that are not private are those reported.
\<close>

fun clean_json :: "(jsstr \<Rightarrow> jsstr) \<Rightarrow> progress \<Rightarrow> bool" where
  "clean_json lower (JNum n) = (n \<noteq> NonFinite)"
| "clean_json lower (JArr xs) = list_all (clean_json lower) xs"
| "clean_json lower (JObj ms) = list_all (\<lambda>m. \<not> isPrivateProgressKey lower (fst m) \<and> clean_json lower (snd m)) ms"
| "clean_json lower v = (v = JNull \<or> v = JBool True \<or> v = JBool False \<or> (\<exists>s. v = JStr s))"

lemma mapE_Inr_set: "mapE f xs = Inr ys \<Longrightarrow> y \<in> set ys \<Longrightarrow> \<exists>x \<in> set xs. f x = Inr y"
  by (induction xs arbitrary: ys) (auto simp: bindE_eq_Inr_iff)

lemma mapE_all_Inr: "(\<And>x. x \<in> set xs \<Longrightarrow> f x = Inr (g x)) \<Longrightarrow> mapE f xs = Inr (map g xs)"
  by (induction xs) auto

lemma drop_private_clean: "drop_private lower v = Inr (Some w) \<Longrightarrow> clean_json lower w"
proof (induction lower v arbitrary: w rule: drop_private.induct)
  case (2 lower xs)
  then obtain ys where ys: "mapE (drop_private lower) xs = Inr ys"
    and w: "w = JArr (map (\<lambda>y. case y of None \<Rightarrow> JNull | Some v \<Rightarrow> v) ys)"
    by (auto simp: bindE_eq_Inr_iff)
  have "clean_json lower (case y of None \<Rightarrow> JNull | Some v \<Rightarrow> v)" if y: "y \<in> set ys" for y
    using mapE_Inr_set [OF ys y] "2.IH" by (auto split: option.split)
  then show ?case by (simp add: w list_all_iff)
next
  case (3 lower ms)
  let ?f = "\<lambda>m. if isPrivateProgressKey lower (fst m) then Inr None
      else bindE (drop_private lower (snd m)) (\<lambda>v. Inr (map_option (Pair (fst m)) v))"
  from 3 obtain ys where ys: "mapE ?f ms = Inr ys" and w: "w = JObj (List.map_filter id ys)"
    by (auto simp: bindE_eq_Inr_iff)
  have "\<not> isPrivateProgressKey lower (fst m) \<and> clean_json lower (snd m)" if m: "Some m \<in> set ys" for m
    using mapE_Inr_set [OF ys m] "3.IH" by (auto simp: bindE_eq_Inr_iff split: if_splits)
  then show ?case by (auto simp: w list_all_iff List.map_filter_def)
qed (auto split: js_num.splits)

lemma clean_drop_private: "clean_json lower v \<Longrightarrow> drop_private lower v = Inr (Some v)"
proof (induction lower v rule: drop_private.induct)
  case (2 lower xs)
  then have "mapE (drop_private lower) xs = Inr (map Some xs)"
    by (intro mapE_all_Inr) (auto simp: list_all_iff)
  then show ?case by (simp add: comp_def)
next
  case (3 lower ms)
  then have "mapE (\<lambda>m. if isPrivateProgressKey lower (fst m) then Inr None
      else bindE (drop_private lower (snd m)) (\<lambda>v. Inr (map_option (Pair (fst m)) v))) ms = Inr (map Some ms)"
    by (intro mapE_all_Inr) (auto simp: list_all_iff)
  then show ?case by (simp add: List.map_filter_def comp_def)
qed (auto split: js_num.splits)

lemma drop_private_field:
  "drop_private lower (JObj ms) = Inr (Some w) \<Longrightarrow> \<not> isPrivateProgressKey lower k
    \<Longrightarrow> drop_private lower (progress_field k (JObj ms)) = Inr (Some y) \<Longrightarrow> progress_field k w = y"
proof (induction ms arbitrary: w)
  case (Cons m ms)
  obtain k' v where m: "m = (k', v)" by (cases m)
  let ?f = "\<lambda>m. if isPrivateProgressKey lower (fst m) then Inr None
      else bindE (drop_private lower (snd m)) (\<lambda>v. Inr (map_option (Pair (fst m)) v))"
  from Cons.prems(1) obtain z zs where z: "?f (k', v) = Inr z" "mapE ?f ms = Inr zs"
    and w: "w = JObj (List.map_filter id (z # zs))" by (auto simp: m bindE_eq_Inr_iff)
  have rest: "drop_private lower (JObj ms) = Inr (Some (JObj (List.map_filter id zs)))" by (simp add: z(2))
  show ?case
  proof (cases "k' = k")
    case True
    with Cons.prems(2,3) z(1) have "z = Some (k, y)" by (simp add: m)
    then show ?thesis by (simp add: w List.map_filter_simps)
  next
    case False
    with Cons.prems(3) Cons.IH [OF rest Cons.prems(2)] have "progress_field k (JObj (List.map_filter id zs)) = y" by (simp add: m)
    moreover have "z = None \<or> (\<exists>v'. z = Some (k', v'))" using z(1) by (auto simp: bindE_eq_Inr_iff split: if_splits)
    ultimately show ?thesis using False by (auto simp: w List.map_filter_simps)
  qed
qed simp

text \<open>
  Stored progress is safe to show.  If the sanitiser accepts a report, what it stores is plain
  JSON of at most 64 KiB in which no object at any depth has a private key; the reported
  percentage, if any, was between 0 and 100; every field with a public name is stored as reported,
  less its own private parts; and a second pass over the stored value would change nothing.
\<close>

theorem sanitized_progress_public:
  assumes "sanitizeTaskProgressForStorage lower json_bytes p = Inr v"
  shows "clean_json lower v \<and> json_bytes v \<le> 65536
    \<and> (progress_field (js ''percentage'') p = JUndefined
       \<or> (\<exists>q. progress_field (js ''percentage'') p = JNum (Fin q) \<and> 0 \<le> q \<and> q \<le> 100))
    \<and> (\<forall>k y. \<not> isPrivateProgressKey lower k \<longrightarrow> drop_private lower (progress_field k p) = Inr (Some y) \<longrightarrow> progress_field k v = y)
    \<and> drop_private lower v = Inr (Some v)"
proof -
  from assms have d: "drop_private lower p = Inr (Some v)" and b: "json_bytes v \<le> 65536" and obj: "is_object p"
    by (auto simp: sanitizeTaskProgressForStorage_def MAX_PROGRESS_BYTES_def bindE_eq_Inr_iff split: if_splits option.splits)
  have pct: "progress_field (js ''percentage'') p = JUndefined
      \<or> (\<exists>q. progress_field (js ''percentage'') p = JNum (Fin q) \<and> 0 \<le> q \<and> q \<le> 100)"
    using assms by (auto simp: sanitizeTaskProgressForStorage_def bindE_eq_Inr_iff split: if_splits jsval.splits js_num.splits)
  have field: "progress_field k v = y"
    if "\<not> isPrivateProgressKey lower k" "drop_private lower (progress_field k p) = Inr (Some y)" for k y
  proof (cases p)
    case (JObj ms)
    with d that show ?thesis using drop_private_field by blast
  qed (use that obj in \<open>auto simp: is_object_def\<close>)
  note clean = drop_private_clean [OF d]
  show ?thesis using clean b pct field clean_drop_private [OF clean] by blast
qed

theorem sanitized_progress_public_witness:
  "clean_json id (JObj [(js ''percentage'', JNum (Fin 40)), (js ''debug'', JObj [])])"
proof (rule sanitized_progress_public [THEN conjunct1])
  show "sanitizeTaskProgressForStorage id (\<lambda>_. 30)
      (JObj [(js ''percentage'', JNum (Fin 40)), (js ''debug'', JObj [(js ''api_key'', JStr (js ''s3''))])])
    = Inr (JObj [(js ''percentage'', JNum (Fin 40)), (js ''debug'', JObj [])])"
    by (simp add: sanitizeTaskProgressForStorage_def is_object_def js_def text_field_ok_def step_field_ok_def
        isPrivateProgressKey_def PRIVATE_PROGRESS_KEYS_def js_endsWith_def MAX_PROGRESS_BYTES_def List.map_filter_simps)
qed

end
