(* ===== verification/MemoryStorage.thy ===== *)
theory MemoryStorage
  imports Prelude JsNumber "HOL-Library.AList"
begin

text \<open>
  The default storage of the client (\<open>src/lib/storage/MemoryStorage.ts\<close>): a map with expiring
  items, compare-and-swap on a continuation version, and the routes from settlement operations to
  the key of their continuation.  Keys are UTF-16 strings.  The values have any type; the three fields the
  storage reads off them are arguments.  \<open>clk i\<close> is the \<open>i\<close>-th reading of the clock during a call,
  in milliseconds; a time to live is in seconds.
\<close>

section \<open>State\<close>

record 'v stored_item =
  item_value :: 'v
  item_expiresAt :: "rat option"
  item_createdAt :: rat

record 'v memory_storage =
  items :: "(jsstr \<times> 'v stored_item) list"
  settlementOperationRoutes :: "(jsstr \<times> jsstr) list"
  lastCleanup :: rat

text \<open>What the storage reads of a value: \<open>None\<close> where the value or the field is missing.\<close>

record 'v continuation_fields =
  continuationVersion :: "'v \<Rightarrow> jsstr option"
  settlementOperationId :: "'v \<Rightarrow> jsstr option"
  settlementOperationRouteRequired :: "'v \<Rightarrow> bool"

definition empty_storage :: "'v memory_storage" where
  "empty_storage = \<lparr>items = [], settlementOperationRoutes = [], lastCleanup = 0\<rparr>"

section \<open>Expiry\<close>

text \<open>Two tests the code uses: \<open>expiresAt && now >= expiresAt\<close>, where 0 counts as unset, and
  \<open>expiresAt !== undefined && now >= expiresAt\<close>.\<close>

definition expired :: "rat \<Rightarrow> 'v stored_item \<Rightarrow> bool" where
  "expired now i = (case item_expiresAt i of None \<Rightarrow> False | Some e \<Rightarrow> e \<noteq> 0 \<and> e \<le> now)"

definition expired_strict :: "rat \<Rightarrow> 'v stored_item \<Rightarrow> bool" where
  "expired_strict now i = (case item_expiresAt i of None \<Rightarrow> False | Some e \<Rightarrow> e \<le> now)"

definition bad_ttl :: "js_num option \<Rightarrow> bool" where
  "bad_ttl ttl = (case ttl of None \<Rightarrow> False | Some NonFinite \<Rightarrow> True | Some (Fin q) \<Rightarrow> q \<le> 0)"

definition expiry :: "rat \<Rightarrow> js_num option \<Rightarrow> rat option" where
  "expiry now ttl = (case ttl of Some (Fin q) \<Rightarrow> Some (now + q * 1000) | _ \<Rightarrow> None)"

definition storedItem :: "'v \<Rightarrow> js_num option \<Rightarrow> rat \<Rightarrow> 'v stored_item" where
  "storedItem v ttl now = \<lparr>item_value = v, item_expiresAt = expiry now ttl, item_createdAt = now\<rparr>"

abbreviation ttl_error :: js_error where
  "ttl_error \<equiv> GenericErr ''MemoryStorage TTL must be a positive finite number.''"

abbreviation atomic_ttl_error :: js_error where
  "atomic_ttl_error \<equiv> GenericErr ''MemoryStorage atomic TTL must be a positive finite number.''"

definition assertAtomicTtl :: "js_num option \<Rightarrow> js_error + unit" where
  "assertAtomicTtl ttl = (if bad_ttl ttl then Inl atomic_ttl_error else Inr ())"

definition deleteSettlementRouteForKey :: "jsstr \<Rightarrow> 'v memory_storage \<Rightarrow> 'v memory_storage" where
  "deleteSettlementRouteForKey key st =
     st\<lparr>settlementOperationRoutes := filter (\<lambda>(oper, routedKey). routedKey \<noteq> key) (settlementOperationRoutes st)\<rparr>"

definition drop_key :: "jsstr \<Rightarrow> 'v memory_storage \<Rightarrow> 'v memory_storage" where
  "drop_key key st = deleteSettlementRouteForKey key (st\<lparr>items := AList.delete key (items st)\<rparr>)"

definition put_item :: "jsstr \<Rightarrow> 'v stored_item \<Rightarrow> 'v memory_storage \<Rightarrow> 'v memory_storage" where
  "put_item key i st = st\<lparr>items := AList.update key i (items st)\<rparr>"

definition liveItem :: "jsstr \<Rightarrow> rat \<Rightarrow> 'v memory_storage \<Rightarrow> 'v stored_item option \<times> 'v memory_storage" where
  "liveItem key now st =
     (case map_of (items st) key of
        None \<Rightarrow> (None, st)
      | Some i \<Rightarrow> if expired_strict now i then (None, drop_key key st) else (Some i, st))"

definition cleanupExpired :: "rat \<Rightarrow> 'v memory_storage \<Rightarrow> nat \<times> 'v memory_storage" where
  "cleanupExpired now st =
     (let gone = map fst (filter (\<lambda>(k, i). expired now i) (items st)) in
      (length gone, (fold drop_key gone st)\<lparr>lastCleanup := now\<rparr>))"

section \<open>Single keys\<close>

definition ms_get :: "rat \<Rightarrow> jsstr \<Rightarrow> 'v memory_storage \<Rightarrow> 'v option \<times> 'v memory_storage" where
  "ms_get now key st =
     (case map_of (items st) key of
        None \<Rightarrow> (None, st)
      | Some i \<Rightarrow> if expired now i then (None, drop_key key st) else (Some (item_value i), st))"

definition ms_take :: "rat \<Rightarrow> jsstr \<Rightarrow> 'v memory_storage \<Rightarrow> 'v option \<times> 'v memory_storage" where
  "ms_take now key st =
     (case map_of (items st) key of
        None \<Rightarrow> (None, st)
      | Some i \<Rightarrow> (if expired now i then None else Some (item_value i), drop_key key st))"

text \<open>\<open>maxItems || 10000\<close>.\<close>

definition max_items :: "nat option \<Rightarrow> nat" where
  "max_items m = (case m of None \<Rightarrow> 10000 | Some n \<Rightarrow> if n = 0 then 10000 else n)"

definition ms_set ::
    "nat option \<Rightarrow> (nat \<Rightarrow> rat) \<Rightarrow> jsstr \<Rightarrow> 'v \<Rightarrow> js_num option \<Rightarrow> 'v memory_storage \<Rightarrow> (js_error + unit) \<times> 'v memory_storage" where
  "ms_set maxItems clk key v ttl st =
     (if bad_ttl ttl then (Inl ttl_error, st)
      else
        let st' = put_item key (storedItem v ttl (clk 0)) st in
        (Inr (), if length (items st') > max_items maxItems then snd (cleanupExpired (clk 1) st') else st'))"

definition ms_putIfAbsent ::
    "nat option \<Rightarrow> (nat \<Rightarrow> rat) \<Rightarrow> jsstr \<Rightarrow> 'v \<Rightarrow> js_num option \<Rightarrow> 'v memory_storage \<Rightarrow> (js_error + bool) \<times> 'v memory_storage" where
  "ms_putIfAbsent maxItems clk key v ttl st =
     (if bad_ttl ttl then (Inl atomic_ttl_error, st)
      else
        let put = (\<lambda>st'. let (res, st'') = ms_set maxItems (\<lambda>i. clk (Suc i)) key v ttl st'
                         in (bindE res (\<lambda>_. Inr True), st'')) in
        (case map_of (items st) key of
           None \<Rightarrow> put st
         | Some existing \<Rightarrow> if \<not> expired (clk 0) existing then (Inr False, st) else put (drop_key key st)))"

definition ms_replaceIfVersion ::
    "'v continuation_fields \<Rightarrow> rat \<Rightarrow> jsstr \<Rightarrow> jsstr \<Rightarrow> 'v \<Rightarrow> js_num option \<Rightarrow> 'v memory_storage
      \<Rightarrow> (js_error + bool) \<times> 'v memory_storage" where
  "ms_replaceIfVersion fs now key expectedVersion v ttl st =
     (if bad_ttl ttl then (Inl atomic_ttl_error, st)
      else
        (case map_of (items st) key of
           None \<Rightarrow> (Inr False, st)
         | Some existing \<Rightarrow>
             if expired_strict now existing then (Inr False, drop_key key st)
             else if continuationVersion fs (item_value existing) \<noteq> Some expectedVersion then (Inr False, st)
             else (Inr True, put_item key (storedItem v ttl now) st)))"

definition ms_takeIfVersion ::
    "'v continuation_fields \<Rightarrow> rat \<Rightarrow> jsstr \<Rightarrow> jsstr \<Rightarrow> 'v memory_storage \<Rightarrow> 'v option \<times> 'v memory_storage" where
  "ms_takeIfVersion fs now key expectedVersion st =
     (case map_of (items st) key of
        None \<Rightarrow> (None, st)
      | Some existing \<Rightarrow>
          if expired_strict now existing then (None, drop_key key st)
          else if continuationVersion fs (item_value existing) \<noteq> Some expectedVersion then (None, st)
          else (Some (item_value existing), drop_key key st))"

definition ms_delete :: "jsstr \<Rightarrow> 'v memory_storage \<Rightarrow> 'v memory_storage" where
  "ms_delete key st = drop_key key st"

definition ms_has :: "rat \<Rightarrow> jsstr \<Rightarrow> 'v memory_storage \<Rightarrow> bool \<times> 'v memory_storage" where
  "ms_has now key st = (let (v, st') = ms_get now key st in (v \<noteq> None, st'))"

definition ms_clear :: "'v memory_storage \<Rightarrow> 'v memory_storage" where
  "ms_clear st = st\<lparr>items := [], settlementOperationRoutes := []\<rparr>"

definition ms_keys :: "rat \<Rightarrow> 'v memory_storage \<Rightarrow> jsstr list" where
  "ms_keys now st = map fst (filter (\<lambda>(k, i). \<not> expired now i) (items st))"

definition ms_size :: "rat \<Rightarrow> 'v memory_storage \<Rightarrow> nat" where
  "ms_size now st = length (ms_keys now st)"

section \<open>Settlement operations\<close>

definition routed_value :: "'v continuation_fields \<Rightarrow> jsstr \<Rightarrow> 'v \<Rightarrow> bool" where
  "routed_value fs oper v \<longleftrightarrow> settlementOperationId fs v = Some oper \<and> settlementOperationRouteRequired fs v"

definition set_route :: "jsstr \<Rightarrow> jsstr \<Rightarrow> 'v memory_storage \<Rightarrow> 'v memory_storage" where
  "set_route oper key st = st\<lparr>settlementOperationRoutes := AList.update oper key (settlementOperationRoutes st)\<rparr>"

definition delete_route :: "jsstr \<Rightarrow> 'v memory_storage \<Rightarrow> 'v memory_storage" where
  "delete_route oper st = st\<lparr>settlementOperationRoutes := AList.delete oper (settlementOperationRoutes st)\<rparr>"

text \<open>The key an operation is routed to; the empty key counts as none (\<open>if (routedKey)\<close>).\<close>

definition route_of :: "'v memory_storage \<Rightarrow> jsstr \<Rightarrow> jsstr option" where
  "route_of st oper = (case map_of (settlementOperationRoutes st) oper of Some k \<Rightarrow> if k = [] then None else Some k | None \<Rightarrow> None)"

text \<open>Whether the operation still has a live continuation; a dead route is dropped.\<close>

definition route_busy :: "rat \<Rightarrow> jsstr \<Rightarrow> 'v memory_storage \<Rightarrow> bool \<times> 'v memory_storage" where
  "route_busy now oper st =
     (case route_of st oper of
        None \<Rightarrow> (False, st)
      | Some routedKey \<Rightarrow>
          let (live, st') = liveItem routedKey now st in
          if live \<noteq> None then (True, st') else (False, delete_route oper st'))"

definition ms_putForSettlementOperationIfAbsent ::
    "'v continuation_fields \<Rightarrow> rat \<Rightarrow> jsstr \<Rightarrow> jsstr \<Rightarrow> 'v \<Rightarrow> js_num option \<Rightarrow> 'v memory_storage
      \<Rightarrow> (js_error + bool) \<times> 'v memory_storage" where
  "ms_putForSettlementOperationIfAbsent fs now oper key v ttl st =
     (case assertAtomicTtl ttl of
        Inl e \<Rightarrow> (Inl e, st)
      | Inr _ \<Rightarrow>
          if \<not> routed_value fs oper v then (Inr False, st)
          else
            let (busy, st1) = route_busy now oper st in
            if busy then (Inr False, st1)
            else
              let (live, st2) = liveItem key now st1 in
              if live \<noteq> None then (Inr False, st2)
              else (Inr True, set_route oper key (put_item key (storedItem v ttl now)
                      (st2\<lparr>items := AList.delete key (items st2)\<rparr>))))"

definition ms_getBySettlementOperationId ::
    "'v continuation_fields \<Rightarrow> rat \<Rightarrow> jsstr \<Rightarrow> 'v memory_storage \<Rightarrow> (jsstr \<times> 'v) option \<times> 'v memory_storage" where
  "ms_getBySettlementOperationId fs now oper st =
     (case route_of st oper of
        None \<Rightarrow> (None, st)
      | Some token \<Rightarrow>
          let (live, st') = liveItem token now st in
          (case live of
             None \<Rightarrow> (None, delete_route oper st')
           | Some i \<Rightarrow>
               if settlementOperationId fs (item_value i) \<noteq> Some oper then (None, delete_route oper st')
               else (Some (token, item_value i), st')))"

definition ms_replaceForSettlementOperationIfVersion ::
    "'v continuation_fields \<Rightarrow> rat \<Rightarrow> jsstr \<Rightarrow> jsstr \<Rightarrow> jsstr \<Rightarrow> jsstr \<Rightarrow> 'v \<Rightarrow> js_num option \<Rightarrow> 'v memory_storage
      \<Rightarrow> (js_error + bool) \<times> 'v memory_storage" where
  "ms_replaceForSettlementOperationIfVersion fs now oper currentKey expectedVersion replacementKey v ttl st =
     (case assertAtomicTtl ttl of
        Inl e \<Rightarrow> (Inl e, st)
      | Inr _ \<Rightarrow>
          if \<not> routed_value fs oper v then (Inr False, st)
          else if map_of (settlementOperationRoutes st) oper \<noteq> Some currentKey then (Inr False, st)
          else
            let (current, st1) = liveItem currentKey now st in
            (case current of
               None \<Rightarrow> (Inr False, st1)
             | Some i \<Rightarrow>
                 if continuationVersion fs (item_value i) \<noteq> Some expectedVersion \<or> \<not> routed_value fs oper (item_value i)
                 then (Inr False, st1)
                 else
                   let store = (\<lambda>st2. set_route oper replacementKey (put_item replacementKey (storedItem v ttl now) st2)) in
                   if replacementKey = currentKey then (Inr True, store st1)
                   else
                     let (other, st2) = liveItem replacementKey now st1 in
                     if other \<noteq> None then (Inr False, st2)
                     else (Inr True, store (st2\<lparr>items := AList.delete replacementKey (items st2)\<rparr>))))"

section \<open>Batches and patterns\<close>

fun ms_mget :: "(nat \<Rightarrow> rat) \<Rightarrow> jsstr list \<Rightarrow> 'v memory_storage \<Rightarrow> 'v option list \<times> 'v memory_storage" where
  "ms_mget clk [] st = ([], st)"
| "ms_mget clk (k # ks) st =
     (let (v, st') = ms_get (clk 0) k st; (vs, st'') = ms_mget (\<lambda>i. clk (Suc i)) ks st' in (v # vs, st''))"

text \<open>A refused entry rejects the batch, but the others are stored all the same.\<close>

fun ms_mset ::
    "nat option \<Rightarrow> (nat \<Rightarrow> rat) \<Rightarrow> (jsstr \<times> 'v \<times> js_num option) list \<Rightarrow> 'v memory_storage \<Rightarrow> (js_error + unit) \<times> 'v memory_storage" where
  "ms_mset maxItems clk [] st = (Inr (), st)"
| "ms_mset maxItems clk ((k, v, ttl) # es) st =
     (let (res, st') = ms_set maxItems clk k v ttl st;
          (rest, st'') = ms_mset maxItems (\<lambda>i. clk (i + 2)) es st' in
      (bindE res (\<lambda>_. rest), st''))"

fun ms_mdel :: "jsstr list \<Rightarrow> 'v memory_storage \<Rightarrow> nat \<times> 'v memory_storage" where
  "ms_mdel [] st = (0, st)"
| "ms_mdel (k # ks) st =
     (if map_of (items st) k \<noteq> None
      then let (n, st') = ms_mdel ks (drop_key k st) in (Suc n, st')
      else ms_mdel ks st)"

text \<open>
  The regular expression of a pattern: \<open>*\<close> is any run and \<open>?\<close> any one of the code units \<open>.\<close> matches,
  all but the line terminators; every other code unit stands for itself.
\<close>

definition line_terminator :: "16 word \<Rightarrow> bool" where
  "line_terminator c \<longleftrightarrow> c \<in> {0x0a, 0x0d, 0x2028, 0x2029}"

fun glob_match :: "jsstr \<Rightarrow> jsstr \<Rightarrow> bool" where
  "glob_match [] [] = True"
| "glob_match [] (c # cs) = False"
| "glob_match (p # ps) [] = (p = 0x2a \<and> glob_match ps [])"
| "glob_match (p # ps) (c # cs) =
     (if p = 0x2a then glob_match ps (c # cs) \<or> (\<not> line_terminator c \<and> glob_match (p # ps) cs)
      else if p = 0x3f then \<not> line_terminator c \<and> glob_match ps cs
      else p = c \<and> glob_match ps cs)"

definition ms_scan :: "rat \<Rightarrow> jsstr \<Rightarrow> 'v memory_storage \<Rightarrow> jsstr list" where
  "ms_scan now pattern st = filter (glob_match pattern) (ms_keys now st)"

definition ms_deletePattern :: "rat \<Rightarrow> jsstr \<Rightarrow> 'v memory_storage \<Rightarrow> nat \<times> 'v memory_storage" where
  "ms_deletePattern now pattern st = ms_mdel (ms_scan now pattern st) st"

section \<open>Statistics\<close>

record storage_stats =
  totalItems :: nat
  expiredItems :: nat
  memoryUsage :: nat
  stats_lastCleanup :: rat
  oldestItem :: "rat option"
  newestItem :: "rat option"

text \<open>\<open>json_length\<close> is the length of the JSON text of a value.\<close>

definition estimateMemoryUsage :: "('v \<Rightarrow> nat) \<Rightarrow> 'v memory_storage \<Rightarrow> nat" where
  "estimateMemoryUsage json_length st =
     fold (\<lambda>(k, i) bytes. bytes + length k * 2 + json_length (item_value i) * 2 + 64) (items st) 0"

text \<open>\<open>!oldestItem\<close> also holds of 0.\<close>

definition older :: "'v stored_item \<Rightarrow> rat option \<Rightarrow> rat option" where
  "older i best = (case best of None \<Rightarrow> Some (item_createdAt i)
     | Some b \<Rightarrow> if b = 0 \<or> item_createdAt i < b then Some (item_createdAt i) else best)"

definition newer :: "'v stored_item \<Rightarrow> rat option \<Rightarrow> rat option" where
  "newer i best = (case best of None \<Rightarrow> Some (item_createdAt i)
     | Some b \<Rightarrow> if b = 0 \<or> item_createdAt i > b then Some (item_createdAt i) else best)"

definition getStats :: "('v \<Rightarrow> nat) \<Rightarrow> rat \<Rightarrow> 'v memory_storage \<Rightarrow> storage_stats" where
  "getStats json_length now st =
     \<lparr>totalItems = length (items st),
      expiredItems = length (filter (\<lambda>(k, i). expired now i) (items st)),
      memoryUsage = estimateMemoryUsage json_length st,
      stats_lastCleanup = lastCleanup st,
      oldestItem = fold (\<lambda>(k, i). older i) (items st) None,
      newestItem = fold (\<lambda>(k, i). newer i) (items st) None\<rparr>"

end
