(* ===== verification/StorageContract.thy ===== *)
theory StorageContract
  imports MemoryStorage
begin

text \<open>
  What the in-memory storage promises: seen through the values that are live at a time it is a
  plain map, whatever it has or has not yet cleaned up; the routes of settlement operations name
  stored keys, one operation each; a settlement continuation is replaced by one of its rivals only.
\<close>

section \<open>The live view\<close>

definition live :: "'v memory_storage \<Rightarrow> rat \<Rightarrow> jsstr \<Rightarrow> 'v option" where
  "live st t k = (case map_of (items st) k of None \<Rightarrow> None | Some i \<Rightarrow> if expired t i then None else Some (item_value i))"

definition kept :: "rat \<Rightarrow> 'v stored_item \<Rightarrow> 'v option" where
  "kept t i = (if expired t i then None else Some (item_value i))"

lemma map_of_drop_key [simp]: "map_of (items (drop_key k st)) = (map_of (items st))(k := None)"
  by (simp add: drop_key_def deleteSettlementRouteForKey_def AList.delete_conv')

lemma map_of_put_item [simp]: "map_of (items (put_item k i st)) = (map_of (items st))(k \<mapsto> i)"
  by (simp add: put_item_def update_conv')

lemma live_drop_key [simp]: "live (drop_key k st) t = (live st t)(k := None)"
  by (auto simp: live_def fun_eq_iff)

lemma live_put_item [simp]: "live (put_item k i st) t = (live st t)(k := kept t i)"
  by (auto simp: live_def kept_def fun_eq_iff)

lemma live_routes [simp]:
  "live (set_route oper k st) t = live st t" "live (delete_route oper st) t = live st t"
  "live (st\<lparr>lastCleanup := u\<rparr>) t = live st t"
  by (simp_all add: live_def set_route_def delete_route_def fun_eq_iff)

lemma live_fold_drop: "live (fold drop_key ks st) t k = (if k \<in> set ks then None else live st t k)"
  by (induction ks arbitrary: st) auto

lemma expired_mono: "expired now i \<Longrightarrow> now \<le> t \<Longrightarrow> expired t i"
  by (auto simp: expired_def split: option.splits)

text \<open>Cleaning up what has expired is invisible from then on.\<close>

lemma live_cleanup:
  assumes "distinct (map fst (items st))" "now \<le> t"
  shows "live (snd (cleanupExpired now st)) t = live st t"
proof
  fix k
  have "live st t k = None" if "(k, i) \<in> set (items st)" "expired now i" for i
    using that assms by (auto simp: live_def intro: expired_mono)
  then show "live (snd (cleanupExpired now st)) t k = live st t k"
    by (auto simp: cleanupExpired_def Let_def live_fold_drop)
qed

lemma live_drop_expired: "map_of (items st) k = Some i \<Longrightarrow> expired now i \<Longrightarrow> now \<le> t \<Longrightarrow> (live st t)(k := None) = live st t"
  using expired_mono [of now i t] by (auto simp: live_def fun_eq_iff)

section \<open>The invariant\<close>

definition storage_ok :: "'v memory_storage \<Rightarrow> bool" where
  "storage_ok st \<longleftrightarrow> distinct (map fst (items st)) \<and> distinct (map fst (settlementOperationRoutes st))
     \<and> (\<forall>(k, i) \<in> set (items st). item_expiresAt i \<noteq> Some 0)
     \<and> snd ` set (settlementOperationRoutes st) \<subseteq> fst ` set (items st)
     \<and> distinct (map snd (settlementOperationRoutes st))"

lemma storage_ok_empty [simp]: "storage_ok empty_storage"
  by (simp add: storage_ok_def empty_storage_def)

lemma distinct_map_filter_fst: "distinct (map f xs) \<Longrightarrow> distinct (map f (filter P xs))"
  by (induction xs) auto

lemma ok_drop_key [simp]: "storage_ok st \<Longrightarrow> storage_ok (drop_key k st)"
  unfolding storage_ok_def drop_key_def deleteSettlementRouteForKey_def
  by (intro conjI; force simp: AList.delete_eq distinct_map_filter_fst)

lemma ok_put_item:
  assumes "storage_ok st" "item_expiresAt i \<noteq> Some 0"
  shows "storage_ok (put_item k i st)"
  unfolding storage_ok_def put_item_def
proof (intro conjI)
  show "\<forall>(k, i) \<in> set (items (st\<lparr>items := AList.update k i (items st)\<rparr>)). item_expiresAt i \<noteq> Some 0"
    using assms set_update_subset [of k i "items st"] by (fastforce simp: storage_ok_def)
qed (use assms in \<open>auto simp: storage_ok_def distinct_update dom_update\<close>)

lemma ok_delete_route [simp]: "storage_ok st \<Longrightarrow> storage_ok (delete_route oper st)"
  by (auto simp: storage_ok_def delete_route_def AList.delete_eq distinct_map_filter_fst)

lemma distinct_snd_update:
  "distinct (map snd xs) \<Longrightarrow> \<forall>(k', v') \<in> set xs. v' = v \<longrightarrow> k' = k \<Longrightarrow> distinct (map fst xs)
    \<Longrightarrow> distinct (map snd (AList.update k v xs))"
proof (induction xs)
  case (Cons x xs)
  with set_update_subset [of k v xs] show ?case by (cases x) (force simp: image_iff)
qed simp

lemma snd_update_subset: "snd ` set (AList.update k v xs) \<subseteq> insert v (snd ` set xs)"
  by (induction xs) auto

lemma ok_set_route:
  assumes "storage_ok st" "key \<in> fst ` set (items st)"
    and "\<And>oper'. map_of (settlementOperationRoutes st) oper' = Some key \<Longrightarrow> oper' = oper"
  shows "storage_ok (set_route oper key st)"
proof -
  have "\<forall>(o', k') \<in> set (settlementOperationRoutes st). k' = key \<longrightarrow> o' = oper"
    using assms(1,3) by (auto simp: storage_ok_def)
  with assms(1,2) snd_update_subset [of oper key "settlementOperationRoutes st"] show ?thesis
    unfolding storage_ok_def set_route_def
    by (intro conjI) (simp_all add: distinct_update distinct_snd_update, blast)
qed

lemma ok_cleanup [simp]: "storage_ok st \<Longrightarrow> storage_ok (snd (cleanupExpired now st))"
proof -
  have "storage_ok st \<Longrightarrow> storage_ok (fold drop_key ks st)" for ks by (induction ks arbitrary: st) auto
  then show "storage_ok st \<Longrightarrow> ?thesis" by (simp add: cleanupExpired_def Let_def storage_ok_def)
qed

lemma ok_liveItem [simp]: "storage_ok st \<Longrightarrow> storage_ok (snd (liveItem k now st))"
  by (simp add: liveItem_def split: option.splits)

lemma expired_strict_eq: "storage_ok st \<Longrightarrow> map_of (items st) k = Some i \<Longrightarrow> expired_strict now i = expired now i"
  by (auto simp: expired_strict_def expired_def storage_ok_def dest!: map_of_SomeD split: option.splits)

text \<open>\<open>liveItem\<close> reads the live view; a key that is not live has no item and no route afterwards.\<close>

lemma liveItem_live: "storage_ok st \<Longrightarrow> map_option item_value (fst (liveItem k now st)) = live st now k"
  by (auto simp: liveItem_def live_def expired_strict_eq split: option.splits)

lemma liveItem_some: "fst (liveItem k now st) = Some i \<Longrightarrow> snd (liveItem k now st) = st \<and> map_of (items st) k = Some i"
  by (auto simp: liveItem_def split: option.splits if_splits)

lemma liveItem_keeps: "storage_ok st \<Longrightarrow> now \<le> t \<Longrightarrow> live (snd (liveItem k now st)) t = live st t"
  by (auto simp: liveItem_def expired_strict_eq live_drop_expired split: option.splits)

lemma no_route_without_item: "storage_ok st \<Longrightarrow> map_of (items st) k = None \<Longrightarrow> map_of (settlementOperationRoutes st) oper \<noteq> Some k"
  by (force simp: storage_ok_def map_of_eq_None_iff dest: map_of_SomeD)

lemma liveItem_none:
  "fst (liveItem k now st) = None \<Longrightarrow> map_of (items (snd (liveItem k now st))) k = None"
  by (auto simp: liveItem_def split: option.splits if_splits)

lemma expiry_nonzero: "0 \<le> now \<Longrightarrow> \<not> bad_ttl ttl \<Longrightarrow> expiry now ttl \<noteq> Some 0"
  by (auto simp: expiry_def bad_ttl_def split: option.splits js_num.splits)

lemma ok_store: "storage_ok st \<Longrightarrow> 0 \<le> now \<Longrightarrow> \<not> bad_ttl ttl \<Longrightarrow> storage_ok (put_item k (storedItem v ttl now) st)"
  by (rule ok_put_item) (simp_all add: storedItem_def expiry_nonzero)

lemma ok_route_new:
  assumes "storage_ok st" "0 \<le> now" "\<not> bad_ttl ttl" "map_of (items st) key = None"
  shows "storage_ok (set_route oper key (put_item key (storedItem v ttl now) (st\<lparr>items := AList.delete key (items st)\<rparr>)))"
proof -
  have "key \<notin> fst ` set (items st)" using assms(4) by (simp add: map_of_eq_None_iff)
  then have "AList.delete key (items st) = items st" by (force simp: AList.delete_eq filter_id_conv)
  then have s: "st\<lparr>items := AList.delete key (items st)\<rparr> = st" by simp
  show ?thesis unfolding s
    by (rule ok_set_route [OF ok_store [OF assms(1-3)]])
      (use no_route_without_item [OF assms(1,4)] in \<open>auto simp: put_item_def dom_update\<close>)
qed

section \<open>Operations and the invariant\<close>

datatype 'v storage_cmd =
    GetC rat jsstr
  | TakeC rat jsstr
  | PutIfAbsentC "nat \<Rightarrow> rat" jsstr 'v "js_num option"
  | ReplaceC rat jsstr jsstr 'v "js_num option"
  | TakeIfC rat jsstr jsstr
  | PutForC rat jsstr jsstr 'v "js_num option"
  | GetByC rat jsstr
  | ReplaceForC rat jsstr jsstr jsstr jsstr 'v "js_num option"
  | SetC "nat \<Rightarrow> rat" jsstr 'v "js_num option"
  | DeleteC jsstr
  | ClearC
  | MdelC "jsstr list"
  | CleanupC rat

fun run_storage_cmd ::
    "'v continuation_fields \<Rightarrow> nat option \<Rightarrow> 'v storage_cmd \<Rightarrow> 'v memory_storage \<Rightarrow> 'v memory_storage" where
  "run_storage_cmd fs mx (GetC now k) st = snd (ms_get now k st)"
| "run_storage_cmd fs mx (TakeC now k) st = snd (ms_take now k st)"
| "run_storage_cmd fs mx (PutIfAbsentC clk k v ttl) st = snd (ms_putIfAbsent mx clk k v ttl st)"
| "run_storage_cmd fs mx (ReplaceC now k ver v ttl) st = snd (ms_replaceIfVersion fs now k ver v ttl st)"
| "run_storage_cmd fs mx (TakeIfC now k ver) st = snd (ms_takeIfVersion fs now k ver st)"
| "run_storage_cmd fs mx (PutForC now oper k v ttl) st = snd (ms_putForSettlementOperationIfAbsent fs now oper k v ttl st)"
| "run_storage_cmd fs mx (GetByC now oper) st = snd (ms_getBySettlementOperationId fs now oper st)"
| "run_storage_cmd fs mx (ReplaceForC now oper cur ver rep v ttl) st
     = snd (ms_replaceForSettlementOperationIfVersion fs now oper cur ver rep v ttl st)"
| "run_storage_cmd fs mx (SetC clk k v ttl) st = snd (ms_set mx clk k v ttl st)"
| "run_storage_cmd fs mx (DeleteC k) st = ms_delete k st"
| "run_storage_cmd fs mx ClearC st = ms_clear st"
| "run_storage_cmd fs mx (MdelC ks) st = snd (ms_mdel ks st)"
| "run_storage_cmd fs mx (CleanupC now) st = snd (cleanupExpired now st)"

definition run_storage ::
    "'v continuation_fields \<Rightarrow> nat option \<Rightarrow> 'v storage_cmd list \<Rightarrow> 'v memory_storage \<Rightarrow> 'v memory_storage" where
  "run_storage fs mx cmds st = fold (run_storage_cmd fs mx) cmds st"

text \<open>Clock readings are not negative, and the key a command stores under.\<close>

fun clock_ok :: "'v storage_cmd \<Rightarrow> bool" where
  "clock_ok (PutIfAbsentC clk k v ttl) = (0 \<le> clk 1)"
| "clock_ok (ReplaceC now k ver v ttl) = (0 \<le> now)"
| "clock_ok (PutForC now oper k v ttl) = (0 \<le> now)"
| "clock_ok (ReplaceForC now oper cur ver rep v ttl) = (0 \<le> now)"
| "clock_ok (SetC clk k v ttl) = (0 \<le> clk 0)"
| "clock_ok c = True"

fun stores_key :: "'v storage_cmd \<Rightarrow> jsstr \<Rightarrow> bool" where
  "stores_key (PutIfAbsentC clk k v ttl) k' = (k = k')"
| "stores_key (ReplaceC now k ver v ttl) k' = (k = k')"
| "stores_key (PutForC now oper k v ttl) k' = (k = k')"
| "stores_key (ReplaceForC now oper cur ver rep v ttl) k' = (rep = k')"
| "stores_key (SetC clk k v ttl) k' = (k = k')"
| "stores_key c k' = False"

lemma ok_set: "storage_ok st \<Longrightarrow> 0 \<le> clk 0 \<Longrightarrow> storage_ok (snd (ms_set mx clk k v ttl st))"
  by (auto simp: ms_set_def Let_def ok_store)

lemma ok_mdel: "storage_ok st \<Longrightarrow> storage_ok (snd (ms_mdel ks st))"
proof (induction ks arbitrary: st)
  case (Cons k ks)
  from Cons.IH [OF ok_drop_key [OF Cons.prems], of k] Cons show ?case by (auto simp: Let_def split_beta)
qed simp

lemma ok_route_busy [simp]: "storage_ok st \<Longrightarrow> storage_ok (snd (route_busy now oper st))"
  by (auto simp: route_busy_def split_beta split: option.splits)

lemma ok_putFor:
  assumes "storage_ok st" "0 \<le> now"
  shows "storage_ok (snd (ms_putForSettlementOperationIfAbsent fs now oper k v ttl st))"
proof -
  obtain busy st1 where b: "route_busy now oper st = (busy, st1)" by (cases "route_busy now oper st")
  obtain x st2 where x: "liveItem k now st1 = (x, st2)" by (cases "liveItem k now st1")
  have ok1: "storage_ok st1" using ok_route_busy [OF assms(1), of now oper] b by simp
  have ok2: "storage_ok st2" using ok_liveItem [OF ok1, of k now] x by simp
  have "storage_ok (set_route oper k (put_item k (storedItem v ttl now) (st2\<lparr>items := AList.delete k (items st2)\<rparr>)))"
    if "x = None" "\<not> bad_ttl ttl"
    using liveItem_none [of k now st1] x that by (intro ok_route_new ok2 assms(2)) auto
  then show ?thesis using assms ok1 ok2
    by (auto simp: ms_putForSettlementOperationIfAbsent_def assertAtomicTtl_def b x)
qed

lemma distinct_snd_unique: "distinct (map snd xs) \<Longrightarrow> (a, v) \<in> set xs \<Longrightarrow> (b, v) \<in> set xs \<Longrightarrow> a = b"
  by (induction xs) (auto simp: image_iff)

lemma ok_replaceFor:
  assumes "storage_ok st" "0 \<le> now"
  shows "storage_ok (snd (ms_replaceForSettlementOperationIfVersion fs now oper cur ver rep v ttl st))"
proof (cases "bad_ttl ttl \<or> \<not> routed_value fs oper v \<or> map_of (settlementOperationRoutes st) oper \<noteq> Some cur")
  case True
  then show ?thesis using assms
    by (auto simp: ms_replaceForSettlementOperationIfVersion_def assertAtomicTtl_def)
next
  case False
  then have ttl: "\<not> bad_ttl ttl" and route: "map_of (settlementOperationRoutes st) oper = Some cur" by auto
  obtain c st1 where c: "liveItem cur now st = (c, st1)" by (cases "liveItem cur now st")
  then have ok1: "storage_ok st1" using ok_liveItem [OF assms(1), of cur now] by simp
  obtain x st2 where x: "liveItem rep now st1 = (x, st2)" by (cases "liveItem rep now st1")
  then have ok2: "storage_ok st2" using ok_liveItem [OF ok1, of rep now] by simp
  have new: "x = None \<Longrightarrow> storage_ok (set_route oper rep (put_item rep (storedItem v ttl now) (st2\<lparr>items := AList.delete rep (items st2)\<rparr>)))"
    using liveItem_none [of rep now st1] x by (intro ok_route_new ok2 assms(2) ttl) auto
  have one: "oper' = oper" if "map_of (settlementOperationRoutes st) oper' = Some cur" for oper'
    using distinct_snd_unique [OF _ map_of_SomeD [OF that] map_of_SomeD [OF route]] assms(1) by (simp add: storage_ok_def)
  have same: "storage_ok (set_route oper cur (put_item cur (storedItem v ttl now) st1))" if "c \<noteq> None"
  proof -
    have st1: "st1 = st" using that liveItem_some [of cur now st] c by auto
    show ?thesis unfolding st1
      by (rule ok_set_route [OF ok_store [OF assms ttl]]) (use one in \<open>auto simp: put_item_def dom_update\<close>)
  qed
  show ?thesis using False ok1 ok2 new same
    by (auto simp: ms_replaceForSettlementOperationIfVersion_def assertAtomicTtl_def c x Let_def split: option.splits)
qed

lemma ok_run_cmd:
  assumes "storage_ok st" "clock_ok c"
  shows "storage_ok (run_storage_cmd fs mx c st)"
proof (cases c)
  case (GetByC now oper)
  show ?thesis using assms ok_liveItem [OF assms(1)]
    by (auto simp: GetByC ms_getBySettlementOperationId_def Let_def split: option.splits prod.splits)
      (metis ok_delete_route ok_liveItem snd_conv)+
next
  case (PutIfAbsentC clk k v ttl)
  then show ?thesis using assms
    by (auto simp: ms_putIfAbsent_def Let_def split: option.splits prod.splits)
      (metis One_nat_def ok_drop_key ok_set snd_conv)+
next
  case (MdelC ks)
  then show ?thesis using assms ok_mdel by auto
next
  case ClearC
  then show ?thesis by (simp add: ms_clear_def storage_ok_def)
qed (use assms in \<open>auto simp: ms_get_def ms_take_def ms_replaceIfVersion_def ms_takeIfVersion_def ms_delete_def
      ok_putFor ok_replaceFor ok_set ok_store split: option.splits\<close>)

lemma ok_run: "storage_ok st \<Longrightarrow> list_all clock_ok cmds \<Longrightarrow> storage_ok (run_storage fs mx cmds st)"
  by (induction cmds arbitrary: st) (auto simp: run_storage_def ok_run_cmd)

lemmas ok_reachable = ok_run [OF storage_ok_empty]

section \<open>A key that is not stored stays away\<close>

lemma absent_drop: "map_of (items st) k = None \<Longrightarrow> map_of (items (drop_key k' st)) k = None"
  by simp

lemma absent_cleanup: "map_of (items st) k = None \<Longrightarrow> map_of (items (snd (cleanupExpired now st))) k = None"
proof -
  have "map_of (items st) k = None \<Longrightarrow> map_of (items (fold drop_key ks st)) k = None" for ks
    by (induction ks arbitrary: st) auto
  then show "map_of (items st) k = None \<Longrightarrow> ?thesis" by (simp add: cleanupExpired_def Let_def)
qed

lemma absent_liveItem: "map_of (items st) k = None \<Longrightarrow> map_of (items (snd (liveItem k' now st))) k = None"
  by (simp add: liveItem_def split: option.splits)

lemma absent_simps:
  "map_of (items (set_route oper k' st)) k = map_of (items st) k"
  "map_of (items (delete_route oper st)) k = map_of (items st) k"
  "map_of (items (st\<lparr>items := AList.delete k' (items st)\<rparr>)) k = (if k = k' then None else map_of (items st) k)"
  by (simp_all add: set_route_def delete_route_def AList.delete_conv')

lemma absent_set: "map_of (items st) k = None \<Longrightarrow> k' \<noteq> k \<Longrightarrow> map_of (items (snd (ms_set mx clk k' v ttl st))) k = None"
  by (auto simp: ms_set_def Let_def intro!: absent_cleanup)

lemma absent_mdel: "map_of (items st) k = None \<Longrightarrow> map_of (items (snd (ms_mdel ks st))) k = None"
proof (induction ks arbitrary: st)
  case (Cons k' ks)
  from Cons.IH [OF absent_drop [OF Cons.prems], of k'] Cons show ?case by (auto simp: Let_def split_beta)
qed simp

lemma absent_route_busy: "map_of (items st) k = None \<Longrightarrow> map_of (items (snd (route_busy now oper st))) k = None"
  by (auto simp: route_busy_def split_beta absent_simps absent_liveItem split: option.splits)

lemma absent_run_cmd:
  assumes "map_of (items st) k = None" "\<not> stores_key c k"
  shows "map_of (items (run_storage_cmd fs mx c st)) k = None"
proof (cases c)
  case (PutForC now oper k' v ttl)
  have "map_of (items (snd (liveItem k' now (snd (route_busy now oper st))))) k = None"
    by (intro absent_liveItem absent_route_busy assms(1))
  with assms PutForC show ?thesis
    by (auto simp: ms_putForSettlementOperationIfAbsent_def split_beta absent_simps absent_route_busy
        split: sum.splits)
next
  case (GetByC now oper)
  with assms show ?thesis
    by (auto simp: ms_getBySettlementOperationId_def split_beta absent_simps absent_liveItem split: option.splits)
next
  case (ReplaceForC now oper cur ver rep v ttl)
  have a: "map_of (items (snd (liveItem cur now st))) k = None" by (rule absent_liveItem [OF assms(1)])
  have "map_of (items (snd (liveItem rep now (snd (liveItem cur now st))))) k = None" by (rule absent_liveItem [OF a])
  with a assms ReplaceForC show ?thesis
    by (auto simp: ms_replaceForSettlementOperationIfVersion_def split_beta absent_simps Let_def
        split: sum.splits option.splits)
next
  case (PutIfAbsentC clk k' v ttl)
  have "map_of (items (snd (ms_set mx clk' k' v ttl st'))) k = None" if "map_of (items st') k = None" for clk' st'
    using that assms PutIfAbsentC by (intro absent_set) auto
  with assms PutIfAbsentC show ?thesis by (auto simp: ms_putIfAbsent_def Let_def split_beta split: option.splits)
qed (use assms in \<open>auto simp: ms_get_def ms_take_def ms_replaceIfVersion_def ms_takeIfVersion_def ms_delete_def ms_clear_def
      absent_set absent_cleanup absent_mdel split: option.splits\<close>)

lemma absent_run:
  "map_of (items st) k = None \<Longrightarrow> \<not> list_ex (\<lambda>c. stores_key c k) cmds \<Longrightarrow> map_of (items (run_storage fs mx cmds st)) k = None"
  by (induction cmds arbitrary: st) (auto simp: run_storage_def absent_run_cmd)

section \<open>Properties\<close>

definition demo_fields :: "(jsstr \<times> jsstr \<times> nat) continuation_fields" where
  "demo_fields = \<lparr>continuationVersion = (\<lambda>(oper, ver, n). Some ver), settlementOperationId = (\<lambda>(oper, ver, n). Some oper),
     settlementOperationRouteRequired = (\<lambda>_. True)\<rparr>"

lemma storage_is_live_map_keys:
  assumes "storage_ok st"
  shows "set (ms_keys now st) = dom (live st now)"
proof -
  have stored: "(k, i) \<in> set (items st) \<longleftrightarrow> map_of (items st) k = Some i" for k i
    using assms by (simp add: storage_ok_def)
  have "k \<in> set (ms_keys now st) \<longleftrightarrow> (\<exists>i. map_of (items st) k = Some i \<and> \<not> expired now i)" for k
    by (auto simp: ms_keys_def image_iff simp flip: stored)
  moreover have "k \<in> dom (live st now) \<longleftrightarrow> (\<exists>i. map_of (items st) k = Some i \<and> \<not> expired now i)" for k
    by (auto simp: live_def dom_def split: option.splits)
  ultimately show ?thesis by (intro set_eqI) (simp only:)
qed

text \<open>
  C26: The storage is a map of live values.  Seen at any later time, whatever the calls below
  clean up on the way: get returns the live value and changes nothing, take returns it and
  removes exactly it, delete removes it, clear removes all, set makes the value live until its
  time to live has passed, even when it triggers a clean-up of the whole store, and the keys listed
  are those with a live value.
\<close>

theorem storage_is_live_map:
  assumes "storage_ok st" "now \<le> t"
  shows "fst (ms_get now k st) = live st now k \<and> live (snd (ms_get now k st)) t = live st t
    \<and> fst (ms_take now k st) = live st now k \<and> live (snd (ms_take now k st)) t = (live st t)(k := None)
    \<and> live (ms_delete k st) t = (live st t)(k := None) \<and> live (ms_clear st) t = (\<lambda>_. None)
    \<and> set (ms_keys now st) = dom (live st now)
    \<and> (\<not> bad_ttl ttl \<longrightarrow> ms_set mx (\<lambda>_. now) k v ttl st
         = (Inr (), snd (ms_set mx (\<lambda>_. now) k v ttl st)) \<and>
         live (snd (ms_set mx (\<lambda>_. now) k v ttl st)) t = (live st t)(k := kept t (storedItem v ttl now)))"
proof -
  have absent: "live st t k = None" if "map_of (items st) k = None" using that by (simp add: live_def)
  have get: "fst (ms_get now k st) = live st now k" "live (snd (ms_get now k st)) t = live st t"
    using assms(2) by (auto simp: ms_get_def live_def [of st now] live_drop_expired split: option.splits)
  have take: "fst (ms_take now k st) = live st now k" "live (snd (ms_take now k st)) t = (live st t)(k := None)"
    using absent by (auto simp: ms_take_def live_def [of st now] split: option.splits)
  note keys = storage_is_live_map_keys [OF assms(1), of now]
  have dist: "distinct (map fst (items (put_item k i st)))" for i
    using assms(1) by (simp add: storage_ok_def put_item_def distinct_update)
  have set: "live (snd (ms_set mx (\<lambda>_. now) k v ttl st)) t = (live st t)(k := kept t (storedItem v ttl now))" if "\<not> bad_ttl ttl"
    using that live_cleanup [OF dist assms(2)] by (simp add: ms_set_def Let_def)
  have clear: "live (ms_clear st) t = (\<lambda>_. None)" by (simp add: ms_clear_def live_def fun_eq_iff)
  have "\<not> bad_ttl ttl \<longrightarrow> ms_set mx (\<lambda>_. now) k v ttl st = (Inr (), snd (ms_set mx (\<lambda>_. now) k v ttl st))"
    by (simp add: ms_set_def Let_def)
  then show ?thesis using get take clear keys set by (simp add: ms_delete_def)
qed

theorem storage_is_live_map_witness:
  "live (snd (ms_set None (\<lambda>_. 5) (js ''k'') ''v'' (Some (Fin 2)) empty_storage)) 6 (js ''k'') = Some ''v''
   \<and> live (snd (ms_set None (\<lambda>_. 5) (js ''k'') ''v'' (Some (Fin 2)) empty_storage)) 2005 (js ''k'') = None"
proof -
  note set = storage_is_live_map [where k = "js ''k''" and v = "''v''" and ttl = "Some (Fin 2)" and mx = None and now = 5, OF storage_ok_empty]
  from set [of 6] set [of 2005] show ?thesis
    by (simp add: bad_ttl_def kept_def storedItem_def expiry_def expired_def)
qed

text \<open>
  Insertion is exclusive.  An atomic insert with a usable time to live succeeds exactly if no
  live value is under the key; if it fails the storage is unchanged, and if it succeeds the new
  value is live until it expires and every other key is as it was.
\<close>

theorem putIfAbsent_exact:
  assumes "storage_ok st" "\<not> bad_ttl ttl" "now \<le> t"
  shows "if live st now k = None
    then fst (ms_putIfAbsent mx (\<lambda>_. now) k v ttl st) = Inr True
      \<and> live (snd (ms_putIfAbsent mx (\<lambda>_. now) k v ttl st)) t = (live st t)(k := kept t (storedItem v ttl now))
    else ms_putIfAbsent mx (\<lambda>_. now) k v ttl st = (Inr False, st)"
proof -
  have put: "fst (ms_set mx (\<lambda>_. now) k v ttl st') = Inr ()"
    "live (snd (ms_set mx (\<lambda>_. now) k v ttl st')) t = (live st' t)(k := kept t (storedItem v ttl now))"
    if "storage_ok st'" for st'
  proof -
    have "distinct (map fst (items (put_item k (storedItem v ttl now) st')))"
      using that by (simp add: storage_ok_def put_item_def distinct_update)
    from live_cleanup [OF this assms(3)] assms(2)
    show "fst (ms_set mx (\<lambda>_. now) k v ttl st') = Inr ()"
      "live (snd (ms_set mx (\<lambda>_. now) k v ttl st')) t = (live st' t)(k := kept t (storedItem v ttl now))"
      by (simp_all add: ms_set_def Let_def)
  qed
  show ?thesis
    using assms put [OF assms(1)] put [OF ok_drop_key [OF assms(1)]]
    by (auto simp: ms_putIfAbsent_def live_def [of st now] Let_def split_beta split: option.splits)
qed

theorem putIfAbsent_exact_witness:
  "fst (ms_putIfAbsent None (\<lambda>_. 5) (js ''k'') ''v'' (Some (Fin 2)) empty_storage) = Inr True"
  using putIfAbsent_exact [OF storage_ok_empty, of "Some (Fin 2)" 5 6 "js ''k''" None "''v''"]
  by (simp add: bad_ttl_def live_def empty_storage_def)

text \<open>
  A value is taken once.  After a take, whatever it returned, no sequence of operations that
  does not store under the key again can make a get, a take or a versioned take return a
  value.
\<close>

theorem taken_once:
  assumes "\<not> list_ex (\<lambda>c. stores_key c k) cmds" "st' = run_storage fs mx cmds (snd (ms_take now k st))"
  shows "fst (ms_take t k st') = None \<and> fst (ms_takeIfVersion fs t k ver st') = None \<and> fst (ms_get t k st') = None"
proof -
  have "map_of (items (snd (ms_take now k st))) k = None" by (auto simp: ms_take_def split: option.splits)
  from absent_run [OF this assms(1)] have "map_of (items st') k = None" by (simp add: assms(2))
  then show ?thesis by (simp add: ms_take_def ms_takeIfVersion_def ms_get_def)
qed

theorem taken_once_witness:
  "fst (ms_take 7 (js ''k'') (run_storage demo_fields None [GetC 6 (js ''k''), SetC (\<lambda>_. 6) (js ''other'') (js ''o'', js ''v'', 1) None]
      (snd (ms_take 5 (js ''k'') (snd (ms_set None (\<lambda>_. 4) (js ''k'') (js ''o'', js ''v'', 0) None empty_storage)))))) = None"
  by (rule taken_once [THEN conjunct1]) (simp_all add: js_def)

text \<open>
  Settlement routes are one to one.  In every storage reached by any run from the empty one,
  with a clock that is not negative, an operation is routed to a key that is stored, and no two
  operations are routed to the same key.
\<close>

theorem settlement_routes_one_to_one:
  assumes "list_all clock_ok cmds" "st = run_storage fs mx cmds empty_storage"
    and "map_of (settlementOperationRoutes st) o1 = Some k" "map_of (settlementOperationRoutes st) o2 = Some k"
  shows "o1 = o2 \<and> map_of (items st) k \<noteq> None"
proof -
  have ok: "storage_ok st" using ok_reachable [OF assms(1)] by (simp add: assms(2))
  have "o1 = o2"
    using distinct_snd_unique [OF _ map_of_SomeD [OF assms(3)] map_of_SomeD [OF assms(4)]] ok by (simp add: storage_ok_def)
  with no_route_without_item [OF ok, of k o1] assms(3) show ?thesis by blast
qed

definition demo_routed :: "(jsstr \<times> jsstr \<times> nat) memory_storage" where
  "demo_routed = run_storage demo_fields None [PutForC 5 (js ''o'') (js ''k'') (js ''o'', js ''v'', 0) None] empty_storage"

lemma demo_put: "ms_putForSettlementOperationIfAbsent demo_fields 5 (js ''o'') (js ''k'') (js ''o'', js ''v'', 0) None empty_storage
    = (Inr True, demo_routed)" "map_of (settlementOperationRoutes demo_routed) (js ''o'') = Some (js ''k'')"
  by (simp_all add: demo_routed_def run_storage_def ms_putForSettlementOperationIfAbsent_def assertAtomicTtl_def bad_ttl_def
      routed_value_def demo_fields_def route_busy_def route_of_def liveItem_def empty_storage_def set_route_def put_item_def)

theorem settlement_routes_one_to_one_witness:
  "map_of (items demo_routed) (js ''k'') \<noteq> None"
  using settlement_routes_one_to_one [OF _ demo_routed_def demo_put(2) demo_put(2)] by simp

lemma getBy_routed:
  assumes "map_of (settlementOperationRoutes st) oper = Some k" "k \<noteq> []" "map_of (items st) k = Some i"
    and "\<not> expired_strict t i" "settlementOperationId fs (item_value i) = Some oper"
  shows "ms_getBySettlementOperationId fs t oper st = (Some (k, item_value i), st)"
  using assms by (simp add: ms_getBySettlementOperationId_def route_of_def liveItem_def)

text \<open>
  An operation has one live continuation.  Once a continuation has been put for a settlement
  operation, until it expires the operation finds it under its key, and no other continuation can be
  put for the same operation, under any key.
\<close>

theorem settlement_put_exclusive:
  assumes "ms_putForSettlementOperationIfAbsent fs now oper k v ttl st = (Inr True, st')"
    and "k \<noteq> []" "\<not> expired_strict t (storedItem v ttl now)" "\<not> bad_ttl ttl'"
  shows "ms_getBySettlementOperationId fs t oper st' = (Some (k, v), st')
    \<and> ms_putForSettlementOperationIfAbsent fs t oper k' v' ttl' st' = (Inr False, st')"
proof -
  from assms(1) have v: "routed_value fs oper v"
    and r: "map_of (settlementOperationRoutes st') oper = Some k" "map_of (items st') k = Some (storedItem v ttl now)"
    by (auto simp: ms_putForSettlementOperationIfAbsent_def assertAtomicTtl_def split_beta set_route_def update_conv'
        split: if_splits)
  have "route_busy t oper st' = (True, st')"
    using r assms(2,3) by (simp add: route_busy_def route_of_def liveItem_def)
  moreover have "settlementOperationId fs (item_value (storedItem v ttl now)) = Some oper"
    using v by (simp add: routed_value_def storedItem_def)
  ultimately show ?thesis
    using getBy_routed [OF r(1) assms(2) r(2) assms(3)] assms(4)
    by (simp add: storedItem_def ms_putForSettlementOperationIfAbsent_def assertAtomicTtl_def)
qed

theorem settlement_put_exclusive_witness:
  "ms_getBySettlementOperationId demo_fields 9 (js ''o'') demo_routed = (Some (js ''k'', js ''o'', js ''v'', 0), demo_routed)"
  by (rule settlement_put_exclusive [OF demo_put(1), of _ None, THEN conjunct1])
    (simp_all add: js_def expired_strict_def storedItem_def expiry_def bad_ttl_def)



section \<open>Patterns\<close>

text \<open>The texts a pattern stands for, by the meaning of the regular expression it is turned into.\<close>

fun pattern_texts :: "jsstr \<Rightarrow> jsstr set" where
  "pattern_texts [] = {[]}"
| "pattern_texts (p # ps) =
     {u @ w |u w. w \<in> pattern_texts ps \<and>
        (if p = 0x2a then list_all (\<lambda>c. \<not> line_terminator c) u
         else if p = 0x3f then (\<exists>c. u = [c] \<and> \<not> line_terminator c)
         else u = [p])}"

lemma star_texts:
  "s \<in> pattern_texts (0x2a # ps) \<longleftrightarrow> s \<in> pattern_texts ps
     \<or> (\<exists>c cs. s = c # cs \<and> \<not> line_terminator c \<and> cs \<in> pattern_texts (0x2a # ps))"
proof
  assume "s \<in> pattern_texts (0x2a # ps)"
  then obtain u w where s: "s = u @ w" and w: "w \<in> pattern_texts ps" and u: "list_all (\<lambda>c. \<not> line_terminator c) u" by auto
  show "s \<in> pattern_texts ps \<or> (\<exists>c cs. s = c # cs \<and> \<not> line_terminator c \<and> cs \<in> pattern_texts (0x2a # ps))"
  proof (cases u)
    case (Cons c u')
    then have "u' @ w \<in> pattern_texts (0x2a # ps)" using w u by auto
    with Cons s u show ?thesis by auto
  qed (use s w in simp)
next
  assume "s \<in> pattern_texts ps \<or> (\<exists>c cs. s = c # cs \<and> \<not> line_terminator c \<and> cs \<in> pattern_texts (0x2a # ps))"
  then show "s \<in> pattern_texts (0x2a # ps)"
  proof (elim disjE exE conjE)
    assume "s \<in> pattern_texts ps"
    then show ?thesis unfolding pattern_texts.simps mem_Collect_eq
      by - (rule exI [where x = "[]"], rule exI [where x = s], simp)
  next
    fix c cs assume s: "s = c # cs" and c: "\<not> line_terminator c" and cs: "cs \<in> pattern_texts (0x2a # ps)"
    from cs obtain u w where "cs = u @ w" "w \<in> pattern_texts ps" "list_all (\<lambda>c. \<not> line_terminator c) u" by auto
    then show ?thesis using s c unfolding pattern_texts.simps mem_Collect_eq
      by - (rule exI [where x = "c # u"], rule exI [where x = w], simp)
  qed
qed

lemma one_texts:
  assumes "p \<noteq> 0x2a"
  shows "s \<in> pattern_texts (p # ps)
    \<longleftrightarrow> (\<exists>c cs. s = c # cs \<and> cs \<in> pattern_texts ps \<and> (if p = 0x3f then \<not> line_terminator c else c = p))"
proof
  assume "s \<in> pattern_texts (p # ps)"
  then obtain u w where "s = u @ w" "w \<in> pattern_texts ps"
    "if p = 0x3f then \<exists>c. u = [c] \<and> \<not> line_terminator c else u = [p]"
    using assms by auto
  then show "\<exists>c cs. s = c # cs \<and> cs \<in> pattern_texts ps \<and> (if p = 0x3f then \<not> line_terminator c else c = p)"
    by (cases "p = 0x3f") auto
next
  assume "\<exists>c cs. s = c # cs \<and> cs \<in> pattern_texts ps \<and> (if p = 0x3f then \<not> line_terminator c else c = p)"
  then obtain c cs where "s = [c] @ cs" "cs \<in> pattern_texts ps" "if p = 0x3f then \<not> line_terminator c else c = p" by auto
  with assms show "s \<in> pattern_texts (p # ps)" unfolding pattern_texts.simps mem_Collect_eq
    by - (rule exI [where x = "[c]"], rule exI [where x = cs], simp split: if_splits)
qed

lemma nil_texts: "[] \<in> pattern_texts (p # ps) \<longleftrightarrow> p = 0x2a \<and> [] \<in> pattern_texts ps"
proof (cases "p = 0x2a")
  case True
  then show ?thesis using star_texts [of "[]" ps] by (simp del: pattern_texts.simps(2))
next
  case False
  then show ?thesis using one_texts [OF False, of "[]" ps] by (simp del: pattern_texts.simps(2))
qed

lemma cons_texts:
  "c # cs \<in> pattern_texts (p # ps) \<longleftrightarrow>
     (if p = 0x2a then c # cs \<in> pattern_texts ps \<or> \<not> line_terminator c \<and> cs \<in> pattern_texts (p # ps)
      else if p = 0x3f then \<not> line_terminator c \<and> cs \<in> pattern_texts ps else p = c \<and> cs \<in> pattern_texts ps)"
proof (cases "p = 0x2a")
  case True
  then show ?thesis using star_texts [of "c # cs" ps] by (simp del: pattern_texts.simps(2))
next
  case False
  then show ?thesis using one_texts [OF False, of "c # cs" ps] by (simp del: pattern_texts.simps(2)) metis
qed

lemma glob_match_texts: "glob_match p s \<longleftrightarrow> s \<in> pattern_texts p"
  by (induction p s rule: glob_match.induct) (simp_all add: nil_texts cons_texts del: pattern_texts.simps(2))

lemma live_mdel: "live (snd (ms_mdel ks st)) t k = (if k \<in> set ks then None else live st t k)"
proof (induction ks arbitrary: st)
  case (Cons k' ks)
  have "live st t k' = None" if "map_of (items st) k' = None" using that by (simp add: live_def)
  then show ?case using Cons.IH [of st] Cons.IH [of "drop_key k' st"]
    by (cases "k = k'"; cases "map_of (items st) k'") (simp_all add: Let_def split_beta)
qed simp

text \<open>
  A scan returns exactly the live keys its pattern stands for, where a star is any run and a question mark any
  one of the code units other than line terminators; deleting a pattern removes exactly these and counts them.
\<close>

theorem scan_and_delete_exact:
  assumes "storage_ok st" "now \<le> t"
  shows "set (ms_scan now p st) = dom (live st now) \<inter> pattern_texts p
    \<and> live (snd (ms_deletePattern now p st)) t = (\<lambda>k. if k \<in> pattern_texts p then None else live st t k)
    \<and> fst (ms_deletePattern now p st) = card (dom (live st now) \<inter> pattern_texts p)"
proof -
  have keys: "set (ms_keys now st) = dom (live st now)"
    using storage_is_live_map_keys [OF assms(1)] .
  have dist: "distinct (ms_keys now st)"
    using assms(1) by (simp add: ms_keys_def storage_ok_def distinct_map_filter_fst)
  have count: "distinct ks \<Longrightarrow> \<forall>k \<in> set ks. map_of (items st) k \<noteq> None \<Longrightarrow> fst (ms_mdel ks st) = length ks"
    for ks and st :: "'a memory_storage"
  proof (induction ks arbitrary: st)
    case (Cons k ks)
    then have "\<forall>k' \<in> set ks. map_of (items (drop_key k st)) k' \<noteq> None" by auto
    from Cons.IH [OF _ this] Cons.prems show ?case by (simp add: Let_def split_beta)
  qed simp
  have scan: "set (ms_scan now p st) = dom (live st now) \<inter> pattern_texts p"
    using keys by (auto simp: ms_scan_def glob_match_texts)
  have "live st t k = None" if "live st now k = None" for k
    using that assms(2) by (auto simp: live_def intro: expired_mono split: option.splits if_splits)
  then have "live (snd (ms_deletePattern now p st)) t = (\<lambda>k. if k \<in> pattern_texts p then None else live st t k)"
    using scan by (auto simp: ms_deletePattern_def live_mdel fun_eq_iff dom_def)
  moreover have "fst (ms_deletePattern now p st) = length (ms_scan now p st)" unfolding ms_deletePattern_def
    using scan dist by (intro count) (auto simp: ms_scan_def live_def split: option.splits)
  then have "fst (ms_deletePattern now p st) = card (dom (live st now) \<inter> pattern_texts p)"
    using distinct_card [of "ms_scan now p st"] dist scan by (simp add: ms_scan_def)
  ultimately show ?thesis using scan by blast
qed

theorem scan_and_delete_exact_witness:
  "set (ms_scan 9 (js ''k*'') demo_routed) = {js ''k''}"
proof -
  have ok: "storage_ok demo_routed" unfolding demo_routed_def by (rule ok_reachable) simp
  have "set (ms_scan 9 (js ''k*'') demo_routed) = dom (live demo_routed 9) \<inter> pattern_texts (js ''k*'')"
    by (rule scan_and_delete_exact [OF ok order_refl, THEN conjunct1])
  moreover have "items demo_routed = [(js ''k'', storedItem (js ''o'', js ''v'', 0) None 5)]"
    by (simp add: demo_routed_def run_storage_def ms_putForSettlementOperationIfAbsent_def assertAtomicTtl_def bad_ttl_def
      routed_value_def demo_fields_def route_busy_def route_of_def liveItem_def empty_storage_def set_route_def put_item_def)
  then have "dom (live demo_routed 9) = {js ''k''}"
    by (auto simp: live_def expired_def storedItem_def expiry_def split: option.splits if_splits)
  moreover have "js ''k'' \<in> pattern_texts (js ''k*'')" by (simp flip: glob_match_texts add: js_def)
  ultimately show ?thesis by auto
qed

end
