(* ===== verification/IdempotencyKeys.thy ===== *)
theory IdempotencyKeys
  imports IdempotencyStore
begin

text \<open>
  The client side of idempotency (\<open>src/lib/utils/idempotency.ts\<close>): which requests carry a key, which keys the
  protocol admits, and how much of a key a log shows.  Keys are UTF-16 strings; \<open>full\<close> is whether the environment
  variable \<open>ADCP_LOG_IDEMPOTENCY_KEYS\<close> is switched on, and \<open>json_text\<close> is \<open>JSON.stringify\<close> of a string.
\<close>

definition MUTATING_TASKS :: "string list" where
  "MUTATING_TASKS =
    [''accept_proposal'', ''acquire_rights'', ''activate_signal'', ''build_creative'', ''buy_products'',
     ''calibrate_content'', ''control_media_buy'', ''create_collection_list'', ''create_content_standards'',
     ''create_media_buy'', ''create_property_list'', ''decline_proposals'', ''delete_collection_list'',
     ''delete_property_list'', ''get_creative_features'', ''log_event'', ''provide_performance_feedback'',
     ''refine_proposals'', ''report_plan_adjustment'', ''report_plan_outcome'', ''report_usage'',
     ''request_proposals'', ''si_initiate_session'', ''si_send_message'', ''sync_accounts'',
     ''sync_agent_notification_configs'', ''sync_audiences'', ''sync_catalogs'', ''sync_creatives'',
     ''sync_event_sources'', ''sync_governance'', ''sync_plans'', ''sync_principal'', ''sync_reporting_receipts'',
     ''sync_reporting_status'', ''update_collection_list'', ''update_content_standards'', ''update_media_buy'',
     ''update_property_list'', ''update_rights'']"

definition isMutatingTask :: "string \<Rightarrow> bool" where
  "isMutatingTask toolName \<longleftrightarrow> toolName \<in> set MUTATING_TASKS"

definition finalize_action :: "'n jsval \<Rightarrow> bool" where
  "finalize_action v = (case v of JObj ms \<Rightarrow> (case member (js ''action'') ms of Some (JStr s) \<Rightarrow> s = js ''finalize'' | _ \<Rightarrow> False)
     | _ \<Rightarrow> False)"

definition requestUsesIdempotency :: "string \<Rightarrow> 'n jsval \<Rightarrow> bool" where
  "requestUsesIdempotency toolName params =
     (if isMutatingTask toolName then True
      else if toolName \<noteq> ''get_products'' \<or> \<not> is_plain_object params then False
      else (case params of
              JObj ms \<Rightarrow>
                (case member (js ''refine'') ms of
                   Some (JObj refine) \<Rightarrow> finalize_action (JObj refine)
                 | Some (JArr entries) \<Rightarrow> list_ex finalize_action entries
                 | _ \<Rightarrow> False)
            | _ \<Rightarrow> False))"

text \<open>\<open>/^[A-Za-z0-9_.:-]{16,255}$/\<close>\<close>

definition key_unit :: "16 word \<Rightarrow> bool" where
  "key_unit c \<longleftrightarrow> 0x41 \<le> c \<and> c \<le> 0x5a \<or> 0x61 \<le> c \<and> c \<le> 0x7a \<or> 0x30 \<le> c \<and> c \<le> 0x39
     \<or> c \<in> {0x5f, 0x2e, 0x3a, 0x2d}"

definition isValidIdempotencyKey :: "jsstr \<Rightarrow> bool" where
  "isValidIdempotencyKey key \<longleftrightarrow> list_all key_unit key \<and> 16 \<le> length key \<and> length key \<le> 255"

definition ELLIPSIS :: jsstr where "ELLIPSIS = [0x2026]"

text \<open>A refused key is an error whose message shows a preview of it.\<close>

definition useIdempotencyKey :: "(jsstr \<Rightarrow> jsstr) \<Rightarrow> jsstr \<Rightarrow> jsstr + jsstr" where
  "useIdempotencyKey json_text key =
     (if isValidIdempotencyKey key then Inr key
      else Inl (json_text (take 8 key) @ (if length key > 8 then ELLIPSIS else [])))"

text \<open>\<open>value\<close> is the environment variable, \<open>lower\<close> is \<open>toLowerCase\<close>.\<close>

definition fullIdempotencyKeyLoggingEnabled :: "(string \<Rightarrow> string) \<Rightarrow> string option \<Rightarrow> bool" where
  "fullIdempotencyKeyLoggingEnabled lower v =
     (case v of None \<Rightarrow> False
      | Some s \<Rightarrow> s \<noteq> [] \<and> lower s \<in> {''1'', ''true'', ''yes''})"

definition redactIdempotencyKey :: "bool \<Rightarrow> jsstr \<Rightarrow> jsstr" where
  "redactIdempotencyKey full key = (if full then key else if key = [] then key else take 8 key @ ELLIPSIS)"

definition redactIdempotencyKeyInArgs :: "bool \<Rightarrow> 'n jsval \<Rightarrow> 'n jsval" where
  "redactIdempotencyKeyInArgs full args =
     (case args of
        JObj ms \<Rightarrow>
          (case member (js ''idempotency_key'') ms of
             Some (JStr key) \<Rightarrow>
               if full then args
               else JObj (set_member (js ''idempotency_key'') (JStr (redactIdempotencyKey full key)) ms)
           | _ \<Rightarrow> args)
      | _ \<Rightarrow> args)"

lemma member_set_other: "k' \<noteq> k \<Longrightarrow> member k' (set_member k w ms) = member k' ms"
  by (induction ms) (auto simp: set_member_def)

lemma member_set_same: "member k ms = Some v \<Longrightarrow> member k (set_member k w ms) = Some w"
  by (induction ms) (auto simp: set_member_def split: if_splits)

lemma member_set_member: "member k ms = Some v \<Longrightarrow> member k' (set_member k w ms) = (if k' = k then Some w else member k' ms)"
  by (simp add: member_set_other member_set_same)

text \<open>
  A log line gives away at most eight code units of a key.  Unless full logging is switched on, what is
  logged of two requests is the same whenever their keys agree in the first eight units and are not empty, and
  every other member is logged as it is.
\<close>

theorem redacted_args_hide_key:
  assumes "member (js ''idempotency_key'') ms = Some (JStr key)" "key \<noteq> []" "key' \<noteq> []" "take 8 key' = take 8 key"
  shows "redactIdempotencyKeyInArgs False (JObj (set_member (js ''idempotency_key'') (JStr key') ms))
      = redactIdempotencyKeyInArgs False (JObj ms)
    \<and> (\<exists>ms'. redactIdempotencyKeyInArgs False (JObj ms) = JObj ms'
         \<and> (\<forall>k. member k ms' = (if k = js ''idempotency_key'' then Some (JStr (take 8 key @ ELLIPSIS)) else member k ms)))"
proof -
  have twice: "set_member k a (set_member k b ms) = set_member k a ms" for k a b
    by (auto simp: set_member_def)
  show ?thesis
    using assms member_set_member [OF assms(1), of "js ''idempotency_key''"] member_set_member [OF assms(1)]
    by (auto simp: redactIdempotencyKeyInArgs_def redactIdempotencyKey_def twice)
qed

theorem redacted_args_hide_key_witness:
  "redactIdempotencyKeyInArgs False (JObj (set_member (js ''idempotency_key'') (JStr (js ''campaign-77777777''))
      [(js ''idempotency_key'', JStr (js ''campaign-11111111'')), (js ''budget'', JNum (5 :: nat))]))
    = redactIdempotencyKeyInArgs False (JObj [(js ''idempotency_key'', JStr (js ''campaign-11111111'')), (js ''budget'', JNum 5)])"
  by (rule redacted_args_hide_key [where key = "js ''campaign-11111111''", THEN conjunct1]) (simp_all add: js_def)

end
