(* ===== verification/PrincipalLifecycle.thy ===== *)
theory PrincipalLifecycle
  imports IdempotencyKeys
begin

text \<open>
  Guarded replacement of a principal's configuration (\<open>src/lib/principal/lifecycle.ts\<close>): read the current version,
  write with it as a fence, retry on a conflict with a fresh read and a fresh key, then poll until the reporting
  destinations are set up.  Everything outside is one record of functions over a state \<open>'s\<close>: the two protocol tasks,
  the key generator, the clock, the timer and the abort signal.  \<open>'c\<close> is the configuration sent, of which the code looks at the
  destinations only; \<open>'d\<close> are the seller's declarations.  Times are integer milliseconds.
\<close>

section \<open>Protocol data\<close>

record destination =
  destination_id :: string
  destination_active :: bool
  destination_state :: string

record 'd seller_configuration =
  reporting_destinations :: "destination list option"
  declarations :: 'd

record 'd current_principal =
  principal_id :: string
  principal_kind :: string
  configuration_version :: string
  configuration :: "'d seller_configuration"

text \<open>Structured errors by their code; \<open>None\<close> is an entry without one.\<close>

type_synonym protocol_errors = "string option list"

datatype 'd get_result =
    Unconfigured
  | Recognized string string
  | Current "'d current_principal"
  | GetFailed protocol_errors

datatype 'd sync_result = AppliedTo "'d current_principal" | Validated | SyncFailed protocol_errors

text \<open>A task result: success flag, status, and the data if there is any of the expected shape.\<close>

record 'r task_reply =
  reply_success :: bool
  reply_status :: string
  reply_data :: "'r option"

record 'c sync_request =
  sync_key :: jsstr
  sync_configuration :: 'c
  expected_configuration_version :: "string option"
  expected_principal_kind :: "string option"

datatype thrown = TaskTimeout | AbortError | OtherError string

section \<open>Errors\<close>

record ('c, 'd) lifecycle_info =
  info_protocolErrors :: "protocol_errors option"
  info_applied :: "'d current_principal option"
  info_current :: "'d current_principal option"
  info_attempted :: "'c sync_request option"

datatype ('c, 'd) lifecycle_error =
    LifecycleError string "('c, 'd) lifecycle_info"
  | LifecycleTimeout "'d current_principal" "'d current_principal"
  | PlainError js_error
  | Thrown thrown

abbreviation no_info :: "('c, 'd) lifecycle_info" where
  "no_info \<equiv> \<lparr>info_protocolErrors = None, info_applied = None, info_current = None, info_attempted = None\<rparr>"

section \<open>The world the lifecycle runs in\<close>

record ('s, 'c, 'd) lifecycle_env =
  getPrincipal :: "int option \<Rightarrow> 's \<Rightarrow> (thrown + 'd get_result task_reply) \<times> 's"
  syncPrincipal :: "int option \<Rightarrow> 'c sync_request \<Rightarrow> 's \<Rightarrow> (thrown + 'd sync_result task_reply) \<times> 's"
  createIdempotencyKey :: "'s \<Rightarrow> jsstr \<times> 's"
  date_now :: "'s \<Rightarrow> int \<times> 's"
  wait_ms :: "int \<Rightarrow> 's \<Rightarrow> (thrown + unit) \<times> 's"
  aborted :: "'s \<Rightarrow> bool"

record lifecycle_options =
  maxAttempts :: "int option"
  setupTimeoutMs :: "int option"
  pollIntervalMs :: "int option"
  opt_expectedPrincipalKind :: "string option"
  taskTimeout :: "int option"

section \<open>Checks\<close>

definition assertPositiveInteger :: "int \<Rightarrow> string \<Rightarrow> js_error + unit" where
  "assertPositiveInteger v name =
     (if MAX_SAFE_INTEGER < v \<or> v < 1 then Inl (TypeErr (name @ '' must be a positive safe integer.'')) else Inr ())"

definition assertAtMost :: "int \<Rightarrow> int \<Rightarrow> string \<Rightarrow> js_error + unit" where
  "assertAtMost v maximum name = (if v > maximum then Inl (RangeErr (name @ '' is too large.'')) else Inr ())"

definition coded_errors :: "protocol_errors \<Rightarrow> bool" where
  "coded_errors es \<longleftrightarrow> es \<noteq> [] \<and> None \<notin> set es"

definition isFailedSyncPrincipalResponse :: "'d sync_result \<Rightarrow> bool" where
  "isFailedSyncPrincipalResponse r = (case r of SyncFailed es \<Rightarrow> coded_errors es | _ \<Rightarrow> False)"

definition isFailedGetPrincipalResponse :: "'d get_result \<Rightarrow> bool" where
  "isFailedGetPrincipalResponse r = (case r of GetFailed es \<Rightarrow> coded_errors es | _ \<Rightarrow> False)"

text \<open>A completed success is used as it is; a failed task only if its data is a well-formed failure.\<close>

definition completedData ::
    "'r task_reply \<Rightarrow> string \<Rightarrow> ('r \<Rightarrow> bool) \<Rightarrow> 'c sync_request option \<Rightarrow> ('c, 'd) lifecycle_error + 'r" where
  "completedData reply operation acceptFailed attempted =
     (case reply_data reply of
        Some d \<Rightarrow>
          if reply_success reply \<and> reply_status reply = ''completed'' then Inr d
          else if \<not> reply_success reply \<and> reply_status reply = ''failed'' \<and> acceptFailed d then Inr d
          else Inl (LifecycleError (operation @ '' did not complete successfully'') (no_info\<lparr>info_attempted := attempted\<rparr>))
      | None \<Rightarrow> Inl (LifecycleError (operation @ '' did not complete successfully'') (no_info\<lparr>info_attempted := attempted\<rparr>)))"

definition conflictResponse :: "'d sync_result \<Rightarrow> bool" where
  "conflictResponse r = (case r of SyncFailed es \<Rightarrow> Some ''CONFLICT'' \<in> set es | _ \<Rightarrow> False)"

text \<open>The identity a read exposes.\<close>

definition identity_of :: "'d get_result \<Rightarrow> (string \<times> string) option" where
  "identity_of r =
     (case r of Current c \<Rightarrow> Some (principal_id c, principal_kind c) | Recognized i k \<Rightarrow> Some (i, k) | _ \<Rightarrow> None)"

definition assertSamePrincipal :: "'d get_result \<Rightarrow> 'd get_result \<Rightarrow> ('c, 'd) lifecycle_error + unit" where
  "assertSamePrincipal previous refreshed =
     (case identity_of previous of
        None \<Rightarrow> Inl (LifecycleError (case previous of Unconfigured \<Rightarrow> ''no identity continuity fence'' | _ \<Rightarrow> ''failed principal read'') no_info)
      | Some i \<Rightarrow>
          if identity_of refreshed \<noteq> Some i then Inl (LifecycleError ''Authenticated principal changed'' no_info) else Inr ())"

definition assertAppliedToSamePrincipal :: "'d get_result \<Rightarrow> 'd current_principal \<Rightarrow> ('c, 'd) lifecycle_error + unit" where
  "assertAppliedToSamePrincipal previous applied =
     (case identity_of previous of
        None \<Rightarrow> Inr ()
      | Some i \<Rightarrow>
          if (principal_id applied, principal_kind applied) \<noteq> i
          then Inl (LifecycleError ''Authenticated principal changed'' no_info) else Inr ())"

definition assertExpectedPrincipalKind :: "string option \<Rightarrow> string option \<Rightarrow> ('c, 'd) lifecycle_error + unit" where
  "assertExpectedPrincipalKind kind expected =
     (case (expected, kind) of
        (Some e, Some k) \<Rightarrow> if k \<noteq> e then Inl (LifecycleError ''Authenticated principal kind did not match'' no_info) else Inr ()
      | _ \<Rightarrow> Inr ())"

definition kind_of_result :: "'d get_result \<Rightarrow> string option" where
  "kind_of_result r = map_option snd (identity_of r)"

definition task_timeout :: "lifecycle_options \<Rightarrow> int option \<Rightarrow> int option" where
  "task_timeout options remainingMs =
     (case remainingMs of
        None \<Rightarrow> taskTimeout options
      | Some remaining \<Rightarrow>
          Some (max 1 (min remaining
            (case taskTimeout options of None \<Rightarrow> remaining | Some t \<Rightarrow> if t = 0 then remaining else t))))"

datatype outcome = Ready | Pending | Terminal

text \<open>The active destinations of the configuration sent: \<open>None\<close> where it has no destination list.\<close>

definition destinationOutcome :: "'d current_principal \<Rightarrow> string list option \<Rightarrow> outcome" where
  "destinationOutcome current expected =
     (case expected of
        None \<Rightarrow> Ready
      | Some ids \<Rightarrow>
          if ids = [] then Ready
          else
            let dests = (case reporting_destinations (configuration current) of None \<Rightarrow> [] | Some ds \<Rightarrow> ds) in
            if list_ex (\<lambda>i. \<not> list_ex (\<lambda>d. destination_id d = i) dests) ids then Pending
            else
              let relevant = filter (\<lambda>d. destination_id d \<in> set ids) dests in
              if list_ex (\<lambda>d. \<not> destination_active d
                    \<or> destination_state d \<in> {''action_required'', ''inactive'', ''rejected''}) relevant
              then Terminal
              else if list_all (\<lambda>d. destination_state d = ''ready'') relevant then Ready else Pending)"

section \<open>The lifecycle\<close>

definition readCurrent ::
    "('s, 'c, 'd) lifecycle_env \<Rightarrow> lifecycle_options \<Rightarrow> int option \<Rightarrow> 's \<Rightarrow> (('c, 'd) lifecycle_error + 'd get_result) \<times> 's" where
  "readCurrent env options remainingMs st =
     (let (res, st') = getPrincipal env (task_timeout options remainingMs) st in
      (case res of
         Inl t \<Rightarrow> Inl (Thrown t)
       | Inr reply \<Rightarrow>
           bindE (completedData reply ''get_principal'' isFailedGetPrincipalResponse None)
             (\<lambda>r. case r of
                GetFailed es \<Rightarrow> Inl (LifecycleError ''get_principal returned a failed result.'' (no_info\<lparr>info_protocolErrors := Some es\<rparr>))
              | _ \<Rightarrow> Inr r), st'))"

definition request_for ::
    "lifecycle_options \<Rightarrow> 'c \<Rightarrow> jsstr \<Rightarrow> 'd get_result \<Rightarrow> 'c sync_request" where
  "request_for options conf key prior =
     \<lparr>sync_key = key, sync_configuration = conf,
      expected_configuration_version = (case prior of Current c \<Rightarrow> Some (configuration_version c) | _ \<Rightarrow> None),
      expected_principal_kind =
        (case opt_expectedPrincipalKind options of Some k \<Rightarrow> Some k | None \<Rightarrow> kind_of_result prior)\<rparr>"

text \<open>
  One guarded attempt ends the loop, or a conflict leaves a refreshed read for another; \<open>final\<close> is the last attempt
  allowed, \<open>used\<close> are the keys so far.
\<close>

datatype ('c, 'd) attempt_outcome = Finished "('c, 'd) lifecycle_error + 'd current_principal" | Retry jsstr "'d get_result"

definition replace_attempt ::
    "('s, 'c, 'd) lifecycle_env \<Rightarrow> lifecycle_options \<Rightarrow> 'c \<Rightarrow> bool \<Rightarrow> jsstr list \<Rightarrow> 'd get_result \<Rightarrow> 's
      \<Rightarrow> ('c, 'd) attempt_outcome \<times> 's" where
  "replace_attempt env options conf final used prior st =
     (let (key, st1) = createIdempotencyKey env st in
      if \<not> isValidIdempotencyKey key
      then (Finished (Inl (PlainError (TypeErr ''createIdempotencyKey must return a valid AdCP idempotency key.''))), st1)
      else if key \<in> set used
      then (Finished (Inl (LifecycleError ''createIdempotencyKey must return a fresh key for each conflict retry.'' no_info)), st1)
      else
        let request = request_for options conf key prior;
            (res, st2) = syncPrincipal env (task_timeout options None) request st1 in
        (case res of
           Inl t \<Rightarrow> (Finished (Inl (LifecycleError ''sync_principal transport failed; replay attemptedRequest exactly.''
                          (no_info\<lparr>info_attempted := Some request\<rparr>))), st2)
         | Inr reply \<Rightarrow>
             (case completedData reply ''sync_principal'' isFailedSyncPrincipalResponse (Some request) of
                Inl e \<Rightarrow> (Finished (Inl e), st2)
              | Inr r \<Rightarrow>
                  (case r of
                     AppliedTo a \<Rightarrow>
                       (Finished (bindE (assertAppliedToSamePrincipal prior a) (\<lambda>_.
                        bindE (assertExpectedPrincipalKind (Some (principal_kind a)) (opt_expectedPrincipalKind options)) (\<lambda>_.
                        Inr a))), st2)
                   | Validated \<Rightarrow>
                       (Finished (Inl (LifecycleError ''sync_principal unexpectedly returned a dry-run result.'' no_info)), st2)
                   | SyncFailed es \<Rightarrow>
                       if \<not> conflictResponse r \<or> final
                       then (Finished (Inl (LifecycleError
                               (if conflictResponse r then ''Principal configuration changed during all attempts.''
                                else ''sync_principal returned a failed result.'')
                               (no_info\<lparr>info_protocolErrors := Some es, info_attempted := Some request\<rparr>))), st2)
                       else
                         let (refreshed, st3) = readCurrent env options None st2 in
                         (case bindE refreshed (\<lambda>r'.
                                 bindE (assertSamePrincipal prior r') (\<lambda>_.
                                 bindE (assertExpectedPrincipalKind (kind_of_result r') (opt_expectedPrincipalKind options)) (\<lambda>_. Inr r'))) of
                            Inl e \<Rightarrow> (Finished (Inl e), st3)
                          | Inr r' \<Rightarrow> (Retry key r', st3))))))"

fun replace_loop ::
    "('s, 'c, 'd) lifecycle_env \<Rightarrow> lifecycle_options \<Rightarrow> 'c \<Rightarrow> nat \<Rightarrow> jsstr list \<Rightarrow> 'd get_result \<Rightarrow> 's
      \<Rightarrow> (('c, 'd) lifecycle_error + 'd current_principal) \<times> 's" where
  "replace_loop env options conf 0 used prior st = (Inl (LifecycleError ''Principal configuration was not applied.'' no_info), st)"
| "replace_loop env options conf (Suc left) used prior st =
     (case replace_attempt env options conf (left = 0) used prior st of
        (Finished res, st') \<Rightarrow> (res, st')
      | (Retry key r, st') \<Rightarrow> replace_loop env options conf left (key # used) r st')"

text \<open>
  One round of the poll for destination setup: the timer, the two clock readings around it, the bounded read and the
  checks that nothing else changed the configuration.
\<close>

definition poll_round ::
    "('s, 'c, 'd) lifecycle_env \<Rightarrow> lifecycle_options \<Rightarrow> int \<Rightarrow> int \<Rightarrow> 'd current_principal \<Rightarrow> 'd current_principal \<Rightarrow> 's
      \<Rightarrow> (('c, 'd) lifecycle_error + 'd current_principal) \<times> 's" where
  "poll_round env options pollMs deadline applied current st =
     (let (t, st1) = date_now env st; remaining = deadline - t in
      if remaining \<le> 0 then (Inl (LifecycleTimeout applied current), st1)
      else
        let delay = min pollMs remaining; (waited, st2) = wait_ms env delay st1 in
        (case waited of
           Inl e \<Rightarrow> (Inl (Thrown e), st2)
         | Inr _ \<Rightarrow>
             if delay = remaining then (Inl (LifecycleTimeout applied current), st2)
             else
               let (t', st3) = date_now env st2; remainingAfterWait = deadline - t' in
               if remainingAfterWait \<le> 0 then (Inl (LifecycleTimeout applied current), st3)
               else
                 let lifecycleBoundsRead =
                       (case taskTimeout options of None \<Rightarrow> True | Some c \<Rightarrow> c = 0 \<or> c \<ge> remainingAfterWait);
                     (readback, st4) = readCurrent env options (Some remainingAfterWait) st3 in
                 (case readback of
                    Inl (Thrown TaskTimeout) \<Rightarrow>
                      if lifecycleBoundsRead then (Inl (LifecycleTimeout applied current), st4) else (Inl (Thrown TaskTimeout), st4)
                  | Inl (LifecycleError m info) \<Rightarrow>
                      (Inl (LifecycleError m \<lparr>info_protocolErrors = info_protocolErrors info, info_applied = Some applied,
                              info_current = Some current, info_attempted = None\<rparr>), st4)
                  | Inl e \<Rightarrow> (Inl e, st4)
                  | Inr (Current c) \<Rightarrow>
                      if principal_id c \<noteq> principal_id applied \<or> principal_kind c \<noteq> principal_kind applied
                         \<or> configuration_version c \<noteq> configuration_version applied
                      then (Inl (LifecycleError ''Principal configuration changed while destination setup was pending.''
                              (no_info\<lparr>info_applied := Some applied, info_current := Some current\<rparr>)), st4)
                      else (Inr c, st4)
                  | Inr _ \<Rightarrow>
                      (Inl (LifecycleError ''Principal configuration disappeared while destination setup was pending.''
                              (no_info\<lparr>info_applied := Some applied, info_current := Some current\<rparr>)), st4))))"

text \<open>The poll loop with fuel; \<open>None\<close> means the fuel was too little.\<close>

fun poll_loop ::
    "nat \<Rightarrow> ('s, 'c, 'd) lifecycle_env \<Rightarrow> lifecycle_options \<Rightarrow> int \<Rightarrow> int \<Rightarrow> string list option \<Rightarrow> 'd current_principal
      \<Rightarrow> 'd current_principal \<Rightarrow> 's \<Rightarrow> ((('c, 'd) lifecycle_error + 'd current_principal) \<times> 's) option" where
  "poll_loop 0 env options pollMs deadline expected applied current st = None"
| "poll_loop (Suc fuel) env options pollMs deadline expected applied current st =
     (if destinationOutcome current expected \<noteq> Pending then Some (Inr current, st)
      else
        (case poll_round env options pollMs deadline applied current st of
           (Inl e, st') \<Rightarrow> Some (Inl e, st')
         | (Inr c, st') \<Rightarrow> poll_loop fuel env options pollMs deadline expected applied c st'))"

record 'd lifecycle_result =
  result_applied :: "'d current_principal"
  result_current :: "'d current_principal"
  destinationsReady :: bool
  result_declarations :: 'd

definition check_options :: "lifecycle_options \<Rightarrow> js_error + int \<times> int \<times> int" where
  "check_options options =
     (let attempts = (case maxAttempts options of None \<Rightarrow> 3 | Some n \<Rightarrow> n);
          setupMs = (case setupTimeoutMs options of None \<Rightarrow> 60000 | Some n \<Rightarrow> n);
          poll = (case pollIntervalMs options of None \<Rightarrow> 1000 | Some n \<Rightarrow> n) in
      bindE (assertPositiveInteger attempts ''maxAttempts'') (\<lambda>_.
      bindE (assertPositiveInteger setupMs ''setupTimeoutMs'') (\<lambda>_.
      bindE (assertPositiveInteger poll ''pollIntervalMs'') (\<lambda>_.
      bindE (assertAtMost attempts 10 ''maxAttempts'') (\<lambda>_.
      bindE (assertAtMost setupMs (24 * 60 * 60 * 1000) ''setupTimeoutMs'') (\<lambda>_.
      bindE (assertAtMost poll 2147483647 ''pollIntervalMs'') (\<lambda>_.
      Inr (attempts, setupMs, poll))))))))"

text \<open>Nothing is polled unless the applied configuration leaves a destination pending.\<close>

definition poll_phase ::
    "nat \<Rightarrow> ('s, 'c, 'd) lifecycle_env \<Rightarrow> lifecycle_options \<Rightarrow> int \<Rightarrow> int \<Rightarrow> string list option \<Rightarrow> 'd current_principal \<Rightarrow> 's
      \<Rightarrow> ((('c, 'd) lifecycle_error + 'd current_principal) \<times> 's) option" where
  "poll_phase fuel env options poll setupMs expected applied st =
     (if destinationOutcome applied expected \<noteq> Pending then Some (Inr applied, st)
      else let (t0, st') = date_now env st in poll_loop fuel env options poll (t0 + setupMs) expected applied applied st')"

definition lifecycle_result_of :: "string list option \<Rightarrow> 'd current_principal \<Rightarrow> 'd current_principal \<Rightarrow> 'd lifecycle_result" where
  "lifecycle_result_of expected applied c =
     \<lparr>result_applied = applied, result_current = c, destinationsReady = (destinationOutcome c expected = Ready),
      result_declarations = declarations (configuration c)\<rparr>"

text \<open>\<open>wanted\<close> are the destinations of the configuration sent, each with its \<open>active\<close> flag.\<close>

definition expected_destinations :: "(string \<times> bool) list option \<Rightarrow> string list option" where
  "expected_destinations wanted = map_option (\<lambda>ds. map fst (filter snd ds)) wanted"

definition checked_prior :: "lifecycle_options \<Rightarrow> ('c, 'd) lifecycle_error + 'd get_result \<Rightarrow> ('c, 'd) lifecycle_error + 'd get_result" where
  "checked_prior options prior =
     bindE prior (\<lambda>p. bindE (assertExpectedPrincipalKind (kind_of_result p) (opt_expectedPrincipalKind options)) (\<lambda>_. Inr p))"

definition syncPrincipalLifecycle ::
    "nat \<Rightarrow> ('s, 'c, 'd) lifecycle_env \<Rightarrow> 'c \<Rightarrow> (string \<times> bool) list option \<Rightarrow> lifecycle_options \<Rightarrow> 's
      \<Rightarrow> ((('c, 'd) lifecycle_error + 'd lifecycle_result) \<times> 's) option" where
  "syncPrincipalLifecycle fuel env conf wanted options st =
     (case check_options options of
        Inl e \<Rightarrow> Some (Inl (PlainError e), st)
      | Inr (attempts, setupMs, poll) \<Rightarrow>
          if aborted env st then Some (Inl (Thrown AbortError), st)
          else
            (case readCurrent env options None st of
               (prior, st1) \<Rightarrow>
                 (case checked_prior options prior of
                    Inl e \<Rightarrow> Some (Inl e, st1)
                  | Inr p \<Rightarrow>
                      (case replace_loop env options conf (nat attempts) [] p st1 of
                         (Inl e, st2) \<Rightarrow> Some (Inl e, st2)
                       | (Inr applied, st2) \<Rightarrow>
                           map_option (\<lambda>(res, st3).
                             (bindE res (\<lambda>c. Inr (lifecycle_result_of (expected_destinations wanted) applied c)), st3))
                             (poll_phase fuel env options poll setupMs (expected_destinations wanted) applied st2)))))"

end
