(* ===== verification/PrincipalContract.thy ===== *)
theory PrincipalContract
  imports PrincipalLifecycle
begin

text \<open>
  What a guarded replacement promises, for any seller, key generator and clock: which writes it sends, whose configuration it
  reports as replaced, what \<open>destinationsReady\<close> means, and that it ends.
\<close>

section \<open>The protocol trace\<close>

text \<open>The same world with a log of the protocol tasks, the latest first.\<close>

datatype ('c, 'd) event =
    ReadTask "thrown + 'd get_result task_reply"
  | WriteTask "'c sync_request" "thrown + 'd sync_result task_reply"

definition unlogged :: "('s \<Rightarrow> 'a \<times> 's) \<Rightarrow> 's \<times> 'l \<Rightarrow> 'a \<times> 's \<times> 'l" where
  "unlogged f sl = (fst (f (fst sl)), snd (f (fst sl)), snd sl)"

definition logged :: "('s, 'c, 'd) lifecycle_env \<Rightarrow> ('s \<times> ('c, 'd) event list, 'c, 'd) lifecycle_env" where
  "logged env =
     \<lparr>getPrincipal = (\<lambda>t (s, l). let (x, s') = getPrincipal env t s in (x, s', ReadTask x # l)),
      syncPrincipal = (\<lambda>t r (s, l). let (x, s') = syncPrincipal env t r s in (x, s', WriteTask r x # l)),
      createIdempotencyKey = unlogged (createIdempotencyKey env),
      date_now = unlogged (date_now env),
      wait_ms = (\<lambda>d. unlogged (wait_ms env d)),
      aborted = (\<lambda>sl. aborted env (fst sl))\<rparr>"

definition version_of :: "'d get_result \<Rightarrow> string option" where
  "version_of r = (case r of Current c \<Rightarrow> Some (configuration_version c) | _ \<Rightarrow> None)"

definition conflict_reply :: "thrown + 'd sync_result task_reply \<Rightarrow> bool" where
  "conflict_reply x \<longleftrightarrow> (\<exists>reply r. x = Inr reply \<and> reply_data reply = Some r \<and> conflictResponse r)"

text \<open>
  A write is fenced if the task before it was a read, its version is the version of that read, and the read is the
  first task or follows a write that was answered with a conflict.
\<close>

fun fenced :: "('c, 'd) event list \<Rightarrow> bool" where
  "fenced [] = True"
| "fenced (ReadTask x # es) = fenced es"
| "fenced (WriteTask r x # es) =
     (fenced es \<and>
      (case es of
         ReadTask (Inr reply) # before \<Rightarrow>
           (\<exists>p. reply_data reply = Some p \<and> expected_configuration_version r = version_of p)
           \<and> (case before of [] \<Rightarrow> True | WriteTask r' x' # _ \<Rightarrow> conflict_reply x' | _ \<Rightarrow> False)
       | _ \<Rightarrow> False))"

fun writes :: "('c, 'd) event list \<Rightarrow> 'c sync_request list" where
  "writes [] = []"
| "writes (ReadTask x # es) = writes es"
| "writes (WriteTask r x # es) = r # writes es"

definition read_before :: "'d get_result \<Rightarrow> ('c, 'd) event list \<Rightarrow> bool" where
  "read_before p l \<longleftrightarrow> (\<exists>reply before. l = ReadTask (Inr reply) # before \<and> reply_data reply = Some p
     \<and> (case before of [] \<Rightarrow> True | WriteTask r' x' # _ \<Rightarrow> conflict_reply x' | _ \<Rightarrow> False))"

lemma completedData_Inr: "completedData reply op acc att = Inr d \<Longrightarrow> reply_data reply = Some d"
  by (auto simp: completedData_def split: option.splits if_splits)

lemma readCurrent_Inr:
  "(case r of GetFailed es \<Rightarrow> Inl (f es) | _ \<Rightarrow> Inr r) = Inr p \<Longrightarrow> p = r \<and> (\<forall>es. p \<noteq> GetFailed es)"
  by (cases r) auto

lemma readCurrent_logged:
  "readCurrent (logged env) options t (s, l) = (res, s', l') \<Longrightarrow>
     \<exists>x. l' = ReadTask x # l \<and> (\<forall>p. res = Inr p \<longrightarrow> (\<exists>reply. x = Inr reply \<and> reply_data reply = Some p))"
  by (auto simp: readCurrent_def logged_def split_beta bindE_eq_Inr_iff split: sum.splits
      dest!: completedData_Inr readCurrent_Inr)

definition writes_ok :: "'c \<Rightarrow> jsstr list \<Rightarrow> ('c, 'd) event list \<Rightarrow> bool" where
  "writes_ok conf used new \<longleftrightarrow> distinct (map sync_key (writes new))
     \<and> (\<forall>r \<in> set (writes new). sync_key r \<notin> set used \<and> isValidIdempotencyKey (sync_key r) \<and> sync_configuration r = conf)"

lemma writes_append [simp]: "writes (xs @ ys) = writes xs @ writes ys"
  by (induction xs rule: writes.induct) auto

lemma replace_attempt_logged:
  assumes "replace_attempt (logged env) options conf final used prior (s, l) = (oc, s', l')" "read_before prior l" "fenced l"
  shows "\<exists>new. l' = new @ l \<and> fenced l' \<and> length (writes new) \<le> 1 \<and> writes_ok conf used new
    \<and> (\<forall>a. oc = Finished (Inr a) \<longrightarrow> writes new \<noteq> [])
    \<and> (\<forall>key r. oc = Retry key r \<longrightarrow> read_before r l' \<and> map sync_key (writes new) = [key])"
proof -
  obtain key s1 where k: "createIdempotencyKey (logged env) (s, l) = (key, s1, l)" by (simp add: logged_def unlogged_def)
  let ?r = "request_for options conf key prior"
  obtain x s2 where w: "syncPrincipal (logged env) (task_timeout options None) ?r (s1, l) = (x, s2, WriteTask ?r x # l)"
    by (cases "syncPrincipal env (task_timeout options None) ?r s1") (simp add: logged_def)
  obtain ref s3 l3 where rd: "readCurrent (logged env) options None (s2, WriteTask ?r x # l) = (ref, s3, l3)"
    by (cases "readCurrent (logged env) options None (s2, WriteTask ?r x # l)") auto
  from readCurrent_logged [OF this] obtain y where l3: "l3 = ReadTask y # WriteTask ?r x # l"
    and y: "\<And>p. ref = Inr p \<Longrightarrow> \<exists>reply. y = Inr reply \<and> reply_data reply = Some p" by blast
  have r: "sync_key ?r = key" "sync_configuration ?r = conf" "expected_configuration_version ?r = version_of prior"
    by (simp_all add: request_for_def version_of_def split: get_result.splits)
  have f: "fenced (WriteTask ?r x # l)" using assms(2,3) r(3) by (auto simp: read_before_def)
  consider "l' = l" "\<nexists>a. oc = Finished (Inr a)" "\<nexists>key r. oc = Retry key r"
    | "l' = WriteTask ?r x # l" "isValidIdempotencyKey key" "key \<notin> set used" "\<nexists>key r. oc = Retry key r"
    | e where "l' = l3" "isValidIdempotencyKey key" "key \<notin> set used" "oc = Finished (Inl e)"
    | p where "l' = l3" "isValidIdempotencyKey key" "key \<notin> set used" "oc = Retry key p" "ref = Inr p" "conflict_reply x"
    using assms(1) rd
    by (auto simp: replace_attempt_def k w Let_def conflict_reply_def bindE_eq_Inr_iff dest!: completedData_Inr
        split: if_splits sum.splits sync_result.splits)
  then show ?thesis
  proof cases
    case 1
    then show ?thesis using assms(3) by (intro exI [of _ "[]"]) (auto simp: writes_ok_def)
  next
    case 2
    then show ?thesis using f r by (intro exI [of _ "[WriteTask ?r x]"]) (auto simp: writes_ok_def)
  next
    case 3
    then show ?thesis using f r l3 by (intro exI [of _ "[ReadTask y, WriteTask ?r x]"]) (auto simp: writes_ok_def)
  next
    case 4
    with y [OF 4(5)] show ?thesis using f r l3
      by (intro exI [of _ "[ReadTask y, WriteTask ?r x]"]) (auto simp: writes_ok_def read_before_def)
  qed
qed

lemma replace_loop_logged:
  "replace_loop (logged env) options conf n used prior (s, l) = (res, s', l') \<Longrightarrow> read_before prior l \<Longrightarrow> fenced l \<Longrightarrow>
     \<exists>new. l' = new @ l \<and> fenced l' \<and> length (writes new) \<le> n \<and> writes_ok conf used new
       \<and> ((\<exists>a. res = Inr a) \<longrightarrow> writes new \<noteq> [])"
proof (induction n arbitrary: used prior s l)
  case 0
  then show ?case by (intro exI [of _ "[]"]) (auto simp: writes_ok_def)
next
  case (Suc n)
  obtain oc s1 l1 where at: "replace_attempt (logged env) options conf (n = 0) used prior (s, l) = (oc, s1, l1)"
    by (cases "replace_attempt (logged env) options conf (n = 0) used prior (s, l)") auto
  from replace_attempt_logged [OF at Suc.prems(2,3)] obtain new where
    new: "l1 = new @ l" "fenced l1" "length (writes new) \<le> 1" "writes_ok conf used new"
    "\<And>a. oc = Finished (Inr a) \<Longrightarrow> writes new \<noteq> []"
    "\<And>key r. oc = Retry key r \<Longrightarrow> read_before r l1 \<and> map sync_key (writes new) = [key]" by blast
  show ?case
  proof (cases oc)
    case (Finished x)
    with Suc.prems(1) at new show ?thesis by (intro exI [of _ new]) auto
  next
    case (Retry key r)
    with Suc.prems(1) at have "replace_loop (logged env) options conf n (key # used) r (s1, l1) = (res, s', l')" by simp
    from Suc.IH [OF this] new(2) new(6) [OF Retry] obtain more where
      more: "l' = more @ l1" "fenced l'" "length (writes more) \<le> n" "writes_ok conf (key # used) more"
      "(\<exists>a. res = Inr a) \<longrightarrow> writes more \<noteq> []" by blast
    from new(6) [OF Retry] obtain w where "writes new = [w]" "sync_key w = key" by auto
    with new more show ?thesis
      by (intro exI [of _ "more @ new"]) (auto simp: writes_ok_def)
  qed
qed

section \<open>Whose configuration was replaced\<close>

definition same_principal :: "'d get_result \<Rightarrow> string option \<Rightarrow> 'd current_principal \<Rightarrow> bool" where
  "same_principal p expected a \<longleftrightarrow>
     (\<forall>i. identity_of p = Some i \<longrightarrow> (principal_id a, principal_kind a) = i) \<and> (\<forall>k. expected = Some k \<longrightarrow> principal_kind a = k)"

lemma replace_attempt_identity:
  assumes "replace_attempt env options conf final used prior st = (oc, st')"
  shows "(\<forall>a. oc = Finished (Inr a) \<longrightarrow> same_principal prior (opt_expectedPrincipalKind options) a)
    \<and> (\<forall>key r. oc = Retry key r \<longrightarrow> identity_of r = identity_of prior)"
  using assms
  by (auto simp: replace_attempt_def split_beta Let_def bindE_eq_Inr_iff same_principal_def assertAppliedToSamePrincipal_def
      assertExpectedPrincipalKind_def assertSamePrincipal_def
      split: if_splits sum.splits sync_result.splits option.splits)

lemma replace_loop_identity:
  "replace_loop env options conf n used prior st = (Inr a, st') \<Longrightarrow> same_principal prior (opt_expectedPrincipalKind options) a"
proof (induction n arbitrary: used prior st)
  case (Suc n)
  obtain oc st1 where at: "replace_attempt env options conf (n = 0) used prior st = (oc, st1)"
    by (cases "replace_attempt env options conf (n = 0) used prior st")
  from replace_attempt_identity [OF at] Suc at show ?case
    by (cases oc) (auto simp: same_principal_def)
qed simp

section \<open>Polling\<close>

definition same_version :: "'d current_principal \<Rightarrow> 'd current_principal \<Rightarrow> bool" where
  "same_version a c \<longleftrightarrow> principal_id c = principal_id a \<and> principal_kind c = principal_kind a
     \<and> configuration_version c = configuration_version a"

lemma poll_round_same:
  "poll_round env options pollMs deadline applied current st = (Inr c, st') \<Longrightarrow> same_version applied c"
  by (auto simp: poll_round_def split_beta Let_def same_version_def
      split: if_splits sum.splits lifecycle_error.splits thrown.splits get_result.splits)

lemma poll_loop_same:
  "poll_loop fuel env options pollMs deadline expected applied current st = Some (Inr c, st') \<Longrightarrow> same_version applied current
    \<Longrightarrow> same_version applied c \<and> destinationOutcome c expected \<noteq> Pending"
proof (induction fuel arbitrary: current st)
  case (Suc fuel)
  then show ?case
    by (cases "poll_round env options pollMs deadline applied current st"; cases "fst (poll_round env options pollMs deadline applied current st)")
      (auto dest: poll_round_same split: if_splits)
qed simp

text \<open>A destination that is wanted active is set up when the seller has it active and ready.\<close>

definition set_up :: "'d current_principal \<Rightarrow> string \<Rightarrow> bool" where
  "set_up c i \<longleftrightarrow> (\<exists>d \<in> set (case reporting_destinations (configuration c) of None \<Rightarrow> [] | Some ds \<Rightarrow> ds).
     destination_id d = i \<and> destination_active d \<and> destination_state d = ''ready'')"

lemma destinationOutcome_ready: "destinationOutcome c (Some ids) = Ready \<Longrightarrow> i \<in> set ids \<Longrightarrow> set_up c i"
  by (fastforce simp: destinationOutcome_def set_up_def Let_def list_ex_iff list_all_iff split: if_splits)

text \<open>
  A clock that does not go back, where a timer that fires has let its time pass and nothing aborts is not even
  needed: only the clock and the timer matter for the end of the poll.
\<close>

definition honest_clock :: "('s \<Rightarrow> int) \<Rightarrow> ('s, 'c, 'd) lifecycle_env \<Rightarrow> bool" where
  "honest_clock time env \<longleftrightarrow>
     (\<forall>st. fst (date_now env st) = time st \<and> time st \<le> time (snd (date_now env st)))
     \<and> (\<forall>st d. fst (wait_ms env d st) = Inr () \<longrightarrow> time st + d \<le> time (snd (wait_ms env d st)))
     \<and> (\<forall>st t. time st \<le> time (snd (getPrincipal env t st)))"

lemma poll_round_progress:
  assumes "honest_clock time env" "poll_round env options pollMs deadline applied current st = (Inr c, st')"
  shows "time st + pollMs \<le> time st' \<and> time st < deadline"
proof -
  define st1 where "st1 = snd (date_now env st)"
  define st2 where "st2 = snd (wait_ms env (min pollMs (deadline - time st)) st1)"
  define st3 where "st3 = snd (date_now env st2)"
  have now: "date_now env st = (time st, st1)" "time st \<le> time st1"
    using assms(1) by (simp_all add: honest_clock_def st1_def prod_eq_iff)
  have now2: "date_now env st2 = (time st2, st3)" "time st2 \<le> time st3"
    using assms(1) by (simp_all add: honest_clock_def st3_def prod_eq_iff)
  have facts: "time st < deadline" "fst (wait_ms env (min pollMs (deadline - time st)) st1) = Inr ()"
    "min pollMs (deadline - time st) \<noteq> deadline - time st" "\<exists>t. st' = snd (getPrincipal env t st3)"
    using assms(2) unfolding st3_def st2_def
    by (auto simp: poll_round_def now split_beta Let_def readCurrent_def
        split: if_splits sum.splits lifecycle_error.splits thrown.splits get_result.splits)
  have "time st1 + min pollMs (deadline - time st) \<le> time st2"
    using assms(1) facts(2) by (simp add: honest_clock_def st2_def)
  moreover have "time st3 \<le> time st'" using assms(1) facts(4) by (auto simp: honest_clock_def)
  ultimately show ?thesis using now(2) now2(2) facts(1,3) by linarith
qed

lemma poll_loop_ends:
  "honest_clock time env \<Longrightarrow> 1 \<le> pollMs \<Longrightarrow> nat (deadline - time st) < fuel
    \<Longrightarrow> poll_loop fuel env options pollMs deadline expected applied current st \<noteq> None"
proof (induction fuel arbitrary: current st)
  case (Suc fuel)
  show ?case
  proof (cases "poll_round env options pollMs deadline applied current st")
    case (Pair res st')
    show ?thesis
    proof (cases res)
      case (Inr c)
      from poll_round_progress [OF Suc.prems(1), of options pollMs deadline applied current st c st'] Pair Inr
      have "nat (deadline - time st') < fuel" using Suc.prems(2,3) by auto
      from Suc.IH [OF Suc.prems(1,2) this] Pair Inr show ?thesis by simp
    qed (simp add: Pair)
  qed
qed simp

section \<open>The whole lifecycle\<close>

lemma check_options_Inr:
  "check_options options = Inr (attempts, setupMs, poll) \<Longrightarrow>
     attempts = (case maxAttempts options of None \<Rightarrow> 3 | Some n \<Rightarrow> n) \<and> setupMs = (case setupTimeoutMs options of None \<Rightarrow> 60000 | Some n \<Rightarrow> n)
     \<and> 1 \<le> attempts \<and> attempts \<le> 10 \<and> 1 \<le> setupMs \<and> setupMs \<le> 86400000 \<and> 1 \<le> poll"
  by (auto simp: check_options_def Let_def assertPositiveInteger_def assertAtMost_def bindE_eq_Inr_iff split: if_splits)

text \<open>A run ends before the poll, or the poll ends it.\<close>

lemma lifecycle_cases:
  fixes env :: "('s, 'c, 'd) lifecycle_env"
  assumes "syncPrincipalLifecycle fuel env conf wanted options st = Some (res, st')"
  obtains (refused) e where "res = Inl e" "st' = st"
    | (unread) prior e attempts setupMs poll where "check_options options = Inr (attempts, setupMs, poll)"
        "readCurrent env options None st = (prior, st')" "res = Inl e"
    | (unwritten) p st1 e attempts setupMs poll where "check_options options = Inr (attempts, setupMs, poll)"
        "readCurrent env options None st = (Inr p, st1)"
        "replace_loop env options conf (nat attempts) [] p st1 = (Inl e, st')" "res = Inl e"
    | (written) p st1 a st2 x attempts setupMs poll where "check_options options = Inr (attempts, setupMs, poll)"
        "readCurrent env options None st = (Inr p, st1)"
        "replace_loop env options conf (nat attempts) [] p st1 = (Inr a, st2)"
        "poll_phase fuel env options poll setupMs (expected_destinations wanted) a st2 = Some (x, st')"
        "res = bindE x (\<lambda>c. Inr (lifecycle_result_of (expected_destinations wanted) a c))"
proof (cases "check_options options")
  case (Inl e)
  then show thesis using assms refused [of "PlainError e"] by (simp add: syncPrincipalLifecycle_def)
next
  case (Inr c)
  obtain attempts setupMs poll where "c = (attempts, setupMs, poll)" by (cases c)
  with Inr have c: "check_options options = Inr (attempts, setupMs, poll)" by simp
  obtain prior st1 where r: "readCurrent env options None st = (prior, st1)" by (cases "readCurrent env options None st")
  show thesis
  proof (cases "aborted env st")
    case True
    then show thesis using assms refused [of "Thrown AbortError"] by (simp add: syncPrincipalLifecycle_def c)
  next
    case na: False
    show thesis
    proof (cases "checked_prior options prior")
      case (Inl e)
      then show thesis using assms na unread [OF c, of prior e] r by (simp add: syncPrincipalLifecycle_def c)
    next
      case (Inr p)
      then have "prior = Inr p" by (auto simp: checked_prior_def bindE_eq_Inr_iff)
      with r have r': "readCurrent env options None st = (Inr p, st1)" by simp
      obtain y st2 where l: "replace_loop env options conf (nat attempts) [] p st1 = (y, st2)"
        by (cases "replace_loop env options conf (nat attempts) [] p st1")
      show thesis
      proof (cases y)
        case (Inl e)
        then show thesis using assms na Inr unwritten [OF c r', of e] r l by (simp add: syncPrincipalLifecycle_def c)
      next
        case (Inr a)
        then show thesis using assms na \<open>checked_prior options prior = Inr p\<close> written [OF c r', of a st2] r l
          by (auto simp: syncPrincipalLifecycle_def c)
      qed
    qed
  qed
qed

lemma poll_phase_same:
  "poll_phase fuel env options poll setupMs expected a st = Some (Inr c, st') \<Longrightarrow>
     same_version a c \<and> destinationOutcome c expected \<noteq> Pending"
  using poll_loop_same [of fuel env options poll _ expected a a _ c st']
  by (auto simp: poll_phase_def same_version_def split_beta split: if_splits)

lemma poll_round_logged:
  assumes "poll_round (logged env) options pollMs deadline applied current (s, l) = (res, s', l')"
  shows "\<exists>new. l' = new @ l \<and> writes new = [] \<and> (fenced l \<longrightarrow> fenced l')"
proof -
  obtain t s1 where 1: "date_now (logged env) (s, l) = (t, s1, l)" by (simp add: logged_def unlogged_def)
  obtain w s2 where 2: "wait_ms (logged env) (min pollMs (deadline - t)) (s1, l) = (w, s2, l)" by (simp add: logged_def unlogged_def)
  obtain t' s3 where 3: "date_now (logged env) (s2, l) = (t', s3, l)" by (simp add: logged_def unlogged_def)
  obtain rb s4 l4 where 4: "readCurrent (logged env) options (Some (deadline - t')) (s3, l) = (rb, s4, l4)"
    by (cases "readCurrent (logged env) options (Some (deadline - t')) (s3, l)") auto
  from readCurrent_logged [OF this] obtain x where x: "l4 = ReadTask x # l" by blast
  have "l' = l \<or> l' = l4"
  proof (cases "deadline - t \<le> 0 \<or> isl w \<or> min pollMs (deadline - t) = deadline - t \<or> deadline - t' \<le> 0")
    case True
    then show ?thesis using assms by (cases w) (auto simp: poll_round_def 1 2 3 Let_def split: if_splits)
  next
    case False
    then show ?thesis using assms
      by (cases w; cases rb) (auto simp: poll_round_def 1 2 3 4 Let_def
        split: if_splits lifecycle_error.splits thrown.splits get_result.splits)
  qed
  with x show ?thesis
    by (elim disjE) (rule exI [of _ "[]"], simp, rule exI [of _ "[ReadTask x]"], simp)
qed

lemma poll_loop_logged:
  "poll_loop fuel (logged env) options pollMs deadline expected applied current (s, l) = Some (res, s', l') \<Longrightarrow>
     \<exists>new. l' = new @ l \<and> writes new = [] \<and> (fenced l \<longrightarrow> fenced l')"
proof (induction fuel arbitrary: current s l)
  case (Suc fuel)
  obtain r s1 l1 where p: "poll_round (logged env) options pollMs deadline applied current (s, l) = (r, s1, l1)"
    by (cases "poll_round (logged env) options pollMs deadline applied current (s, l)") auto
  from poll_round_logged [OF p] obtain new where new: "l1 = new @ l" "writes new = []" "fenced l \<longrightarrow> fenced l1" by blast
  show ?case
  proof (cases "destinationOutcome current expected \<noteq> Pending \<or> isl r")
    case True
    with Suc.prems p have "l' = l \<or> l' = l1" by (cases r) (auto split: if_splits)
    with new show ?thesis by (elim disjE) (rule exI [of _ "[]"], simp, rule exI [of _ new], simp)
  next
    case False
    then obtain c where "r = Inr c" by (cases r) auto
    with False Suc.prems p have "poll_loop fuel (logged env) options pollMs deadline expected applied c (s1, l1) = Some (res, s', l')" by simp
    from Suc.IH [OF this] new show ?thesis by (metis append.assoc append_Nil writes_append)
  qed
qed simp

lemma poll_phase_logged:
  "poll_phase fuel (logged env) options poll setupMs expected a (s, l) = Some (x, s', l') \<Longrightarrow>
     \<exists>new. l' = new @ l \<and> writes new = [] \<and> (fenced l \<longrightarrow> fenced l')"
proof -
  obtain t0 s3 where dn: "date_now (logged env) (s, l) = (t0, s3, l)" by (simp add: logged_def unlogged_def)
  assume "poll_phase fuel (logged env) options poll setupMs expected a (s, l) = Some (x, s', l')"
  then have "l' = l \<or> poll_loop fuel (logged env) options poll (t0 + setupMs) expected a a (s3, l) = Some (x, s', l')"
    by (auto simp: poll_phase_def dn split: if_splits)
  then show ?thesis using poll_loop_logged by fastforce
qed

text \<open>
  C7: What a lifecycle call writes, whatever the seller answers and however it ends.  It sends no more writes than the
  attempts allowed, at most ten; each has a valid idempotency key that no other has, and the configuration asked for; and each is fenced by
  the version of the read just before it, which opened the call or followed a conflict.  A call
  that reports success has sent at least one.
\<close>

theorem principal_writes_guarded:
  fixes env :: "('s, 'c, 'd) lifecycle_env"
  assumes "syncPrincipalLifecycle fuel (logged env) conf wanted options (s, []) = Some (res, s', l)"
  shows "fenced l \<and> int (length (writes l)) \<le> max 0 (case maxAttempts options of None \<Rightarrow> 3 | Some n \<Rightarrow> n) \<and> length (writes l) \<le> 10
    \<and> writes_ok conf [] l \<and> ((\<exists>r. res = Inr r) \<longrightarrow> writes l \<noteq> [])"
proof (rule lifecycle_cases [OF assms], goal_cases)
  case (1 e)
  then show ?thesis by (auto simp: writes_ok_def)
next
  case (2 prior e attempts setupMs poll)
  from readCurrent_logged [OF 2(2)] obtain x where "l = [ReadTask x]" by auto
  with 2(3) show ?thesis by (auto simp: writes_ok_def)
next
  case (3 p st1 e attempts setupMs poll)
  obtain s1 l1 where st1: "st1 = (s1, l1)" by (cases st1)
  from readCurrent_logged [OF 3(2) [unfolded st1]] have rb: "read_before p l1" "fenced l1" "writes l1 = []"
    by (auto simp: read_before_def)
  from replace_loop_logged [OF 3(3) [unfolded st1] rb(1,2)] obtain new where
    "l = new @ l1" "fenced l" "length (writes new) \<le> nat attempts" "writes_ok conf [] new" by blast
  with rb(3) 3(4) check_options_Inr [OF 3(1)] show ?thesis by (auto simp: writes_ok_def)
next
  case (4 p st1 a st2 x attempts setupMs poll)
  obtain s1 l1 where st1: "st1 = (s1, l1)" by (cases st1)
  obtain s2 l2 where st2: "st2 = (s2, l2)" by (cases st2)
  from readCurrent_logged [OF 4(2) [unfolded st1]] have rb: "read_before p l1" "fenced l1" "writes l1 = []"
    by (auto simp: read_before_def)
  from replace_loop_logged [OF 4(3) [unfolded st1 st2] rb(1,2)] obtain new where
    new: "l2 = new @ l1" "fenced l2" "length (writes new) \<le> nat attempts" "writes_ok conf [] new" "writes new \<noteq> []" by blast
  from poll_phase_logged [OF 4(4) [unfolded st2]] new(2) obtain more where "l = more @ l2" "writes more = []" "fenced l" by blast
  with new rb(3) check_options_Inr [OF 4(1)] show ?thesis by (auto simp: writes_ok_def)
qed

definition demo_principal :: "string \<Rightarrow> string \<Rightarrow> unit current_principal" where
  "demo_principal ver state = \<lparr>principal_id = ''p'', principal_kind = ''buyer'', configuration_version = ver,
     configuration = \<lparr>reporting_destinations = Some [\<lparr>destination_id = ''d1'', destination_active = True, destination_state = state\<rparr>],
       declarations = ()\<rparr>\<rparr>"

definition reply_ok :: "'r \<Rightarrow> thrown + 'r task_reply" where
  "reply_ok r = Inr \<lparr>reply_success = True, reply_status = ''completed'', reply_data = Some r\<rparr>"

text \<open>A seller whose state is the time and the number of writes so far: the first write conflicts, the set-up takes a second.\<close>

definition demo_world :: "(int \<times> nat, unit, unit) lifecycle_env" where
  "demo_world =
     \<lparr>getPrincipal = (\<lambda>_ (t, n). (reply_ok (Current (demo_principal (if n < 2 then ''v1'' else ''v2'')
          (if n < 2 \<or> t < 1000 then ''pending'' else ''ready''))), t, n)),
      syncPrincipal = (\<lambda>_ r (t, n). (if n = 0 then reply_ok (SyncFailed [Some ''CONFLICT''])
          else reply_ok (AppliedTo (demo_principal ''v2'' ''pending'')), t, n + 1)),
      createIdempotencyKey = (\<lambda>(t, n). (js ''principal-key-000'' @ [48 + of_nat n], t, n)),
      date_now = (\<lambda>(t, n). (t, t, n)), wait_ms = (\<lambda>d (t, n). (Inr (), t + d, n)), aborted = (\<lambda>_. False)\<rparr>"

definition demo_options :: lifecycle_options where
  "demo_options = \<lparr>maxAttempts = None, setupTimeoutMs = None, pollIntervalMs = None, opt_expectedPrincipalKind = None, taskTimeout = None\<rparr>"

lemma demo_clock: "honest_clock fst demo_world" "honest_clock (fst \<circ> fst) (logged demo_world)"
  by (auto simp: honest_clock_def demo_world_def logged_def unlogged_def split_beta)

lemma lifecycle_returns:
  assumes "honest_clock time env" "86400000 < fuel"
  shows "syncPrincipalLifecycle fuel env conf wanted options st \<noteq> None"
proof (cases "check_options options")
  case (Inr c)
  obtain attempts setupMs poll where "c = (attempts, setupMs, poll)" by (cases c)
  with Inr have c: "check_options options = Inr (attempts, setupMs, poll)" by simp
  note bounds = check_options_Inr [OF c]
  have "poll_phase fuel env options poll setupMs expected a st2 \<noteq> None" for expected a st2
  proof -
    obtain t0 st3 where dn: "date_now env st2 = (t0, st3)" by (cases "date_now env st2")
    have "t0 = time st2" "time st2 \<le> time st3" using assms(1) dn by (auto simp: honest_clock_def dest: spec [of _ st2])
    then have "nat (t0 + setupMs - time st3) < fuel" using bounds assms(2) by linarith
    from poll_loop_ends [OF assms(1) _ this] bounds show ?thesis by (simp add: poll_phase_def dn)
  qed
  then show ?thesis using c
    by (auto simp: syncPrincipalLifecycle_def split: prod.splits sum.splits) blast
qed (simp add: syncPrincipalLifecycle_def)

theorem principal_writes_guarded_witness:
  "\<exists>res s' l. syncPrincipalLifecycle 86400001 (logged demo_world) () (Some [(''d1'', True)]) demo_options ((0, 0), []) = Some (res, s', l)
    \<and> fenced l \<and> length (writes l) \<le> 10"
proof -
  obtain res s' l where run: "syncPrincipalLifecycle 86400001 (logged demo_world) () (Some [(''d1'', True)]) demo_options ((0, 0), []) = Some (res, s', l)"
    using lifecycle_returns [OF demo_clock(2), of 86400001 "()" "Some [(''d1'', True)]" demo_options "((0, 0), [])"] by auto
  with principal_writes_guarded [OF run] show ?thesis by blast
qed



text \<open>
  What a reported success means.  The configuration was applied to the principal the first read showed, if it showed one, and to the
  kind the caller expects; the configuration returned is that of the same principal and version; its
  destinations are no longer pending; and if \<open>destinationsReady\<close> is set, the seller has every destination that
  was to be active, active and ready.
\<close>

theorem principal_result_sound:
  assumes "syncPrincipalLifecycle fuel env conf (Some wanted) options st = Some (Inr r, st')"
  shows "(\<exists>p st1. readCurrent env options None st = (Inr p, st1) \<and> same_principal p (opt_expectedPrincipalKind options) (result_applied r))
    \<and> same_version (result_applied r) (result_current r)
    \<and> destinationOutcome (result_current r) (expected_destinations (Some wanted)) \<noteq> Pending
    \<and> (destinationsReady r \<longrightarrow> (\<forall>i. (i, True) \<in> set wanted \<longrightarrow> set_up (result_current r) i))"
proof (rule lifecycle_cases [OF assms], goal_cases)
  case (4 p st1 a st2 x attempts setupMs poll)
  from 4(5) obtain c where x: "x = Inr c" and r: "r = lifecycle_result_of (expected_destinations (Some wanted)) a c"
    by (cases x) auto
  note same = poll_phase_same [OF 4(4) [unfolded x]]
  have ready: "set_up c i" if "destinationsReady r" "(i, True) \<in> set wanted" for i
  proof (rule destinationOutcome_ready)
    show "destinationOutcome c (Some (map fst (filter snd wanted))) = Ready"
      using that(1) by (simp add: r lifecycle_result_of_def expected_destinations_def)
    show "i \<in> set (map fst (filter snd wanted))" using that(2) by force
  qed
  show ?thesis using 4(2) replace_loop_identity [OF 4(3)] same ready
    by (auto simp: r lifecycle_result_of_def)
qed auto

lemma demo_run:
  "syncPrincipalLifecycle 5 demo_world () (Some [(''d1'', True)]) demo_options (0, 0)
    = Some (Inr (lifecycle_result_of (Some [''d1'']) (demo_principal ''v2'' ''pending'') (demo_principal ''v2'' ''ready'')), 1000, 2)"
  by code_simp

theorem principal_result_sound_witness: "set_up (demo_principal ''v2'' ''ready'') ''d1''"
proof -
  have "destinationsReady (lifecycle_result_of (Some [''d1'']) (demo_principal ''v2'' ''pending'') (demo_principal ''v2'' ''ready''))"
    by code_simp
  with principal_result_sound [OF demo_run] show ?thesis by (simp add: lifecycle_result_of_def)
qed

end
