(* ===== verification/JsText.thy ===== *)
theory JsText
  imports Prelude
begin

text \<open>
  The string operations of JavaScript the signing components use, on UTF-16 code units: white space
  and \<open>trim\<close>, \<open>split\<close> and \<open>join\<close> with a one-unit separator, \<open>lastIndexOf\<close>, and the character
  classes of their regular expressions.  Case conversion outside ASCII belongs to the engine and
  is an argument of the definitions that use it.
\<close>

section \<open>Character classes\<close>

definition ascii_digit :: "16 word \<Rightarrow> bool" where
  "ascii_digit w \<longleftrightarrow> 0x30 \<le> unat w \<and> unat w \<le> 0x39"

definition ascii_alpha :: "16 word \<Rightarrow> bool" where
  "ascii_alpha w \<longleftrightarrow> (0x41 \<le> unat w \<and> unat w \<le> 0x5a) \<or> (0x61 \<le> unat w \<and> unat w \<le> 0x7a)"

text \<open>White space and line terminators, as \<open>trim\<close> and \<open>\s\<close> see them.\<close>

definition js_space :: "16 word \<Rightarrow> bool" where
  "js_space w \<longleftrightarrow>
     unat w \<in> set [9, 10, 11, 12, 13, 0x20, 0xa0, 0x1680, 0x2028, 0x2029, 0x202f, 0x205f, 0x3000, 0xfeff]
     \<or> (0x2000 \<le> unat w \<and> unat w \<le> 0x200a)"

section \<open>Operations\<close>

definition js_trim_start :: "jsstr \<Rightarrow> jsstr" where
  "js_trim_start s = dropWhile js_space s"

definition js_trim :: "jsstr \<Rightarrow> jsstr" where
  "js_trim s = rev (js_trim_start (rev (js_trim_start s)))"

fun js_split :: "16 word \<Rightarrow> jsstr \<Rightarrow> jsstr list" where
  "js_split c [] = [[]]"
| "js_split c (x # xs) =
     (if x = c then [] # js_split c xs
      else (case js_split c xs of [] \<Rightarrow> [[x]] | y # ys \<Rightarrow> (x # y) # ys))"

fun js_join :: "jsstr \<Rightarrow> jsstr list \<Rightarrow> jsstr" where
  "js_join sep [] = []"
| "js_join sep [x] = x"
| "js_join sep (x # y # ys) = x @ sep @ js_join sep (y # ys)"

text \<open>\<open>s.slice(s.lastIndexOf(c) + 1)\<close> and \<open>s.split(c, 1)[0]\<close>.\<close>

definition after_last :: "16 word \<Rightarrow> jsstr \<Rightarrow> jsstr" where
  "after_last c s = rev (takeWhile (\<lambda>x. x \<noteq> c) (rev s))"

definition before_first :: "16 word \<Rightarrow> jsstr \<Rightarrow> jsstr" where
  "before_first c s = takeWhile (\<lambda>x. x \<noteq> c) s"

definition ends_with :: "16 word \<Rightarrow> jsstr \<Rightarrow> bool" where
  "ends_with c s \<longleftrightarrow> s \<noteq> [] \<and> last s = c"

lemma js_split_ne [simp]: "js_split c s \<noteq> []"
  by (induction s) (auto split: list.splits)

lemma js_split_plain: "c \<notin> set s \<Longrightarrow> js_split c s = [s]"
  by (induction s) auto

lemma js_join_split: "js_join [c] (js_split c s) = s"
proof (induction s)
  case (Cons x s)
  then show ?case by (cases "js_split c s"; cases "tl (js_split c s)") auto
qed simp

lemma js_trim_subset: "set (js_trim s) \<subseteq> set s"
  unfolding js_trim_def js_trim_start_def by (auto dest!: set_dropWhileD)

lemma js_join_Cons: "xs \<noteq> [] \<Longrightarrow> js_join sep (x # xs) = x @ sep @ js_join sep xs"
  by (cases xs) simp_all

lemma js_eq_iff [simp]: "js s = js t \<longleftrightarrow> s = t"
proof -
  have "inj (of_char :: char \<Rightarrow> 16 word)"
  proof (rule injI)
    fix c d :: char
    assume "of_char c = (of_char d :: 16 word)"
    then have "unat (of_char c :: 16 word) = unat (of_char d :: 16 word)" by simp
    moreover have "unat (of_char e :: 16 word) = of_char e" for e :: char
    proof -
      have e: "(of_char e :: 16 word) = of_nat (of_char e)" by (rule of_nat_of_char [symmetric])
      have "of_char e < (256 :: nat)" by simp
      then have "of_char e < (2 ^ LENGTH(16) :: nat)" by (rule less_trans) simp
      then show ?thesis unfolding e by (simp only: unat_of_nat) (rule mod_less)
    qed
    ultimately have "(of_char c :: nat) = of_char d" by simp
    then show "c = d" by simp
  qed
  then show ?thesis by (simp add: js_def inj_map_eq_map)
qed

end
