(* ===== verification/SignatureBase.thy ===== *)
theory SignatureBase
  imports JsText Rfc3986
begin

text \<open>
  The text a request signature covers (\<open>src/lib/signing/canonicalize.ts\<close>): header lookup, the
  canonical target URI and authority, and the signature base of a request and of a response.
  Parsing a URL and converting the case of non-ASCII letters belong to the JavaScript engine, and
  the RFC 8941 serializer to the package \<open>structured-headers\<close>: they are the fields of a
  \<open>sig_platform\<close>.
\<close>

section \<open>Requests, URLs and errors\<close>

datatype sig_error = SigError string nat | SerializeError | Thrown js_error

datatype header_value = HeaderUndefined | HeaderText jsstr | HeaderList "jsstr list"

type_synonym headers = "(jsstr \<times> header_value) list"

record request_like =
  req_method :: jsstr
  req_url :: jsstr
  req_headers :: headers
  req_body :: "jsstr option"

record response_like =
  res_status :: jsstr
  res_headers :: headers
  orig_method :: jsstr
  orig_url :: jsstr
  orig_headers :: "headers option"

record sig_params =
  p_created :: "int option"
  p_expires :: "int option"
  p_nonce :: "jsstr option"
  p_keyid :: "jsstr option"
  p_alg :: "jsstr option"
  p_tag :: "jsstr option"

datatype param_value = PText jsstr | PInt int

text \<open>The members of a \<open>URL\<close> the code reads.\<close>

record js_url =
  url_protocol :: jsstr
  url_username :: jsstr
  url_password :: jsstr
  url_host :: jsstr
  url_hostname :: jsstr
  url_pathname :: jsstr
  url_search :: jsstr
  url_href :: jsstr

record sig_platform =
  to_lower :: "jsstr \<Rightarrow> jsstr"
  to_upper :: "jsstr \<Rightarrow> jsstr"
  new_URL :: "jsstr \<Rightarrow> js_url option"
  set_hostname :: "jsstr \<Rightarrow> js_url \<Rightarrow> js_url"
  serialize_item :: "jsstr \<Rightarrow> bool \<Rightarrow> jsstr option"
  serialize_inner_list :: "(jsstr \<times> bool) list \<Rightarrow> (jsstr \<times> param_value) list \<Rightarrow> jsstr option"

datatype canon_profile = Legacy | V32

definition malformedTargetUri :: sig_error where
  "malformedTargetUri = SigError ''request_target_uri_malformed'' 10"

section \<open>Headers\<close>

definition header_text :: "header_value \<Rightarrow> jsstr option" where
  "header_text v =
     (case v of
        HeaderUndefined \<Rightarrow> None
      | HeaderList xs \<Rightarrow> Some (js_join (js '', '') (map js_trim xs))
      | HeaderText t \<Rightarrow> Some (js_trim t))"

fun getHeaderValue :: "(jsstr \<Rightarrow> jsstr) \<Rightarrow> headers \<Rightarrow> jsstr \<Rightarrow> jsstr option" where
  "getHeaderValue lower [] name = None"
| "getHeaderValue lower ((k, v) # hs) name =
     (if lower k = lower name then header_text v else getHeaderValue lower hs name)"

section \<open>URLs\<close>

definition scheme_unit :: "16 word \<Rightarrow> bool" where
  "scheme_unit w \<longleftrightarrow> ascii_alpha w \<or> ascii_digit w \<or> w \<in> set (js ''+.-'')"

definition authority_unit :: "16 word \<Rightarrow> bool" where
  "authority_unit w \<longleftrightarrow> w \<notin> set (js ''/?#'')"

text \<open>The authority an absolute URL text names, by the code's regular expression.\<close>

fun url_authority :: "jsstr \<Rightarrow> jsstr option" where
  "url_authority [] = None"
| "url_authority (c # cs) =
     (let rest = dropWhile scheme_unit cs in
      if ascii_alpha c \<and> starts_with (js ''://'') rest
      then Some (takeWhile authority_unit (drop 3 rest)) else None)"

definition any_authority :: "jsstr \<Rightarrow> jsstr option" where
  "any_authority s =
     (if starts_with (js ''//'') s then Some (takeWhile authority_unit (drop 2 s)) else url_authority s)"

definition rejectNonAsciiHost :: "jsstr \<Rightarrow> sig_error + unit" where
  "rejectNonAsciiHost rawUrl =
     (case any_authority rawUrl of
        None \<Rightarrow> Inr ()
      | Some authority \<Rightarrow>
          if list_ex (\<lambda>w. unat w > 0x7f) authority then Inl (SigError ''request_target_uri_malformed'' 1)
          else Inr ())"

definition empty_label :: "jsstr \<Rightarrow> bool" where
  "empty_label hostname \<longleftrightarrow>
     hostname = [] \<or> ends_with 0x2e hostname \<or> list_ex (\<lambda>label. label = []) (js_split 0x2e hostname)"

definition parseCanonicalUrl :: "sig_platform \<Rightarrow> jsstr \<Rightarrow> canon_profile \<Rightarrow> sig_error + js_url" where
  "parseCanonicalUrl P rawUrl profile =
     (if profile = Legacy then
        bindE (rejectNonAsciiHost rawUrl) (\<lambda>_.
          case new_URL P rawUrl of None \<Rightarrow> Inl (Thrown (TypeErr ''Invalid URL'')) | Some u \<Rightarrow> Inr u)
      else
        (case url_authority rawUrl of
           None \<Rightarrow> Inl malformedTargetUri
         | Some authority \<Rightarrow>
             if authority = [] then Inl malformedTargetUri
             else let hostPort = after_last 0x40 authority in
               if hostPort = [] \<or> starts_with [0x3a] hostPort then Inl malformedTargetUri
               else if starts_with [0x5b] hostPort \<and> 0x5d \<notin> set hostPort then Inl malformedTargetUri
               else if starts_with [0x5b] hostPort \<and> 0x25 \<in> set (before_first 0x5d hostPort)
               then Inl malformedTargetUri
               else if \<not> starts_with [0x5b] hostPort \<and> length (filter (\<lambda>w. w = 0x3a) hostPort) > 1
               then Inl malformedTargetUri
               else (case new_URL P rawUrl of
                 None \<Rightarrow> Inl malformedTargetUri
               | Some u \<Rightarrow>
                   if url_hostname u = [] then Inl malformedTargetUri
                   else if starts_with [0x5b] (url_hostname u) then Inr u
                   else let h = to_lower P (url_hostname u);
                            hostname = (if ends_with 0x2e h then butlast h else h) in
                     if empty_label hostname then Inl malformedTargetUri
                     else Inr (set_hostname P hostname u))))"

subsection \<open>Percent-encoding\<close>

text \<open>\<open>replace(/%([0-9a-fA-F]{2})/g, f)\<close>: \<open>f\<close> is given the two hex digits.\<close>

function replace_triplets :: "(jsstr \<Rightarrow> jsstr) \<Rightarrow> jsstr \<Rightarrow> jsstr" where
  "replace_triplets f (c # cs) =
     (if c = PCT \<and> isHex (take 2 cs) then f (take 2 cs) @ replace_triplets f (drop 2 cs)
      else c # replace_triplets f cs)"
| "replace_triplets f [] = []"
  by pat_completeness auto
termination by (relation "measure (\<lambda>(_, s). length s)") auto

declare replace_triplets.simps(1) [simp del]

definition hex_pair_value :: "jsstr \<Rightarrow> nat" where
  "hex_pair_value h = 16 * hex_digit_value (h ! 0) + hex_digit_value (h ! 1)"

definition uppercasePercentEncoding :: "jsstr \<Rightarrow> jsstr" where
  "uppercasePercentEncoding input = replace_triplets (\<lambda>hex. PCT # map upper_unit hex) input"

definition decodeUnreservedPercentEncoding :: "jsstr \<Rightarrow> jsstr" where
  "decodeUnreservedPercentEncoding input =
     replace_triplets (\<lambda>hex. let code = hex_pair_value hex in
       if isUnreservedByte code then [of_nat code] else PCT # hex) input"

section \<open>Canonical components\<close>

definition userinfo_error :: sig_error where
  "userinfo_error = SigError ''request_signature_header_malformed'' 1"

definition canonicalTargetUri :: "sig_platform \<Rightarrow> jsstr \<Rightarrow> canon_profile \<Rightarrow> sig_error + jsstr" where
  "canonicalTargetUri P rawUrl profile =
     bindE (parseCanonicalUrl P rawUrl profile) (\<lambda>u.
       if profile = Legacy \<and> (url_username u \<noteq> [] \<or> url_password u \<noteq> []) then Inl userinfo_error
       else
         let assembled = url_protocol u @ js ''//'' @ url_host u @ url_pathname u;
             normalizedTarget = uppercasePercentEncoding (decodeUnreservedPercentEncoding assembled) in
         if profile = V32 then
           (let fragmentless = before_first 0x23 rawUrl in
            Inr (normalizedTarget @ dropWhile (\<lambda>w. w \<noteq> 0x3f) fragmentless))
         else
           (let fragmentlessHref = before_first 0x23 (url_href u);
                emptyQueryMarker = (if url_search u = [] \<and> ends_with 0x3f fragmentlessHref then [0x3f] else []) in
            Inr (uppercasePercentEncoding (decodeUnreservedPercentEncoding
              (assembled @ url_search u @ emptyQueryMarker)))))"

definition canonicalAuthority :: "sig_platform \<Rightarrow> jsstr \<Rightarrow> canon_profile \<Rightarrow> sig_error + jsstr" where
  "canonicalAuthority P rawUrl profile =
     bindE (parseCanonicalUrl P rawUrl profile) (\<lambda>u.
       if profile = Legacy \<and> (url_username u \<noteq> [] \<or> url_password u \<noteq> []) then Inl userinfo_error
       else Inr (to_lower P (url_host u)))"

definition canonicalMethod :: "sig_platform \<Rightarrow> jsstr \<Rightarrow> jsstr" where
  "canonicalMethod P m = to_upper P m"

definition components_unexpected :: sig_error where
  "components_unexpected = SigError ''request_signature_components_unexpected'' 6"

definition components_incomplete :: sig_error where
  "components_incomplete = SigError ''request_signature_components_incomplete'' 6"

definition resolveComponentValue ::
    "sig_platform \<Rightarrow> jsstr \<Rightarrow> request_like \<Rightarrow> canon_profile \<Rightarrow> sig_error + jsstr option" where
  "resolveComponentValue P component r profile =
     (if starts_with [0x40] component then
        if component = js ''@method'' then Inr (Some (canonicalMethod P (req_method r)))
        else if component = js ''@target-uri''
        then bindE (canonicalTargetUri P (req_url r) profile) (\<lambda>t. Inr (Some t))
        else if component = js ''@authority''
        then bindE (canonicalAuthority P (req_url r) profile) (\<lambda>t. Inr (Some t))
        else Inl components_unexpected
      else Inr (getHeaderValue (to_lower P) (req_headers r) component))"

definition parseComponentIdentifier :: "jsstr \<Rightarrow> sig_error + jsstr \<times> bool" where
  "parseComponentIdentifier component =
     (if 0x3b \<notin> set component then Inr (component, False)
      else let parts = js_split 0x3b component; ps = tl parts in
        if filter (\<lambda>p. p \<noteq> js ''req'') ps \<noteq> [] then Inl components_unexpected
        else Inr (hd parts, js ''req'' \<in> set ps))"

definition formatComponentIdentifier :: "sig_platform \<Rightarrow> jsstr \<Rightarrow> sig_error + jsstr" where
  "formatComponentIdentifier P component =
     bindE (parseComponentIdentifier component) (\<lambda>(bare, requestBound).
       case serialize_item P bare requestBound of None \<Rightarrow> Inl SerializeError | Some t \<Rightarrow> Inr t)"

definition present :: "jsstr \<Rightarrow> ('a \<Rightarrow> param_value) \<Rightarrow> 'a option \<Rightarrow> (jsstr \<times> param_value) list" where
  "present key f v = (case v of None \<Rightarrow> [] | Some x \<Rightarrow> [(key, f x)])"

definition formatSignatureParams :: "sig_platform \<Rightarrow> jsstr list \<Rightarrow> sig_params \<Rightarrow> sig_error + jsstr" where
  "formatSignatureParams P components p =
     bindE (mapE parseComponentIdentifier components) (\<lambda>items.
       case serialize_inner_list P items
         (present (js ''created'') PInt (p_created p) @ present (js ''expires'') PInt (p_expires p)
          @ present (js ''nonce'') PText (p_nonce p) @ present (js ''keyid'') PText (p_keyid p)
          @ present (js ''alg'') PText (p_alg p) @ present (js ''tag'') PText (p_tag p)) of
         None \<Rightarrow> Inl (Thrown (TypeErr ''Signature parameters are not RFC 8941 serializable''))
       | Some t \<Rightarrow> Inr t)"

section \<open>The signature base\<close>

text \<open>One covered component: its value, then its identifier.\<close>

definition base_line ::
    "(jsstr \<Rightarrow> sig_error + jsstr option) \<Rightarrow> sig_platform \<Rightarrow> jsstr \<Rightarrow> sig_error + jsstr" where
  "base_line resolve P component =
     bindE (resolve component) (\<lambda>v.
       case v of
         None \<Rightarrow> Inl components_incomplete
       | Some value \<Rightarrow> bindE (formatComponentIdentifier P component) (\<lambda>ident. Inr (ident @ js '': '' @ value)))"

definition params_line :: "jsstr \<Rightarrow> jsstr" where
  "params_line paramsString = 34 # js ''@signature-params'' @ 34 # js '': '' @ paramsString"

definition buildSignatureBase ::
    "sig_platform \<Rightarrow> jsstr list \<Rightarrow> request_like \<Rightarrow> sig_params \<Rightarrow> jsstr option \<Rightarrow> canon_profile \<Rightarrow> sig_error + jsstr" where
  "buildSignatureBase P components r p signatureParamsValue profile =
     bindE (mapE (base_line (\<lambda>c. resolveComponentValue P c r profile) P) components) (\<lambda>lines.
       bindE (case signatureParamsValue of Some v \<Rightarrow> Inr v | None \<Rightarrow> formatSignatureParams P components p)
         (\<lambda>paramsString. Inr (js_join [10] (lines @ [params_line paramsString]))))"

definition resolveResponseComponentValue ::
    "sig_platform \<Rightarrow> jsstr \<Rightarrow> bool \<Rightarrow> response_like \<Rightarrow> request_like \<Rightarrow> sig_error + jsstr option" where
  "resolveResponseComponentValue P bare requestBound response requestView =
     (if bare = js ''@status'' then
        if requestBound then Inl components_unexpected else Inr (Some (res_status response))
      else if starts_with [0x40] bare then
        if \<not> requestBound then Inl components_unexpected
        else resolveComponentValue P bare requestView Legacy
      else Inr (getHeaderValue (to_lower P) (if requestBound then req_headers requestView else res_headers response) bare))"

definition buildResponseSignatureBase ::
    "sig_platform \<Rightarrow> jsstr list \<Rightarrow> response_like \<Rightarrow> sig_params \<Rightarrow> jsstr option \<Rightarrow> sig_error + jsstr" where
  "buildResponseSignatureBase P components response p signatureParamsValue =
     (let requestView = \<lparr>req_method = orig_method response, req_url = orig_url response,
            req_headers = (case orig_headers response of None \<Rightarrow> [] | Some h \<Rightarrow> h), req_body = None\<rparr> in
      bindE (mapE (base_line (\<lambda>c. bindE (parseComponentIdentifier c) (\<lambda>(bare, requestBound).
          resolveResponseComponentValue P bare requestBound response requestView)) P) components) (\<lambda>lines.
        bindE (case signatureParamsValue of Some v \<Rightarrow> Inr v | None \<Rightarrow> formatSignatureParams P components p)
          (\<lambda>paramsString. Inr (js_join [10] (lines @ [params_line paramsString])))))"

section \<open>Percent-encoding has a normal form\<close>

text \<open>
  What a well-formed text stands for: units, and octets that are not unreserved characters.
\<close>

datatype pct_unit = Raw "16 word" | Octet nat

function pct_meaning :: "jsstr \<Rightarrow> pct_unit list" where
  "pct_meaning (c # cs) =
     (if c = PCT \<and> isHex (take 2 cs)
      then (let n = hex_pair_value (take 2 cs) in
            (if isUnreservedByte n then Raw (of_nat n) else Octet n) # pct_meaning (drop 2 cs))
      else Raw c # pct_meaning cs)"
| "pct_meaning [] = []"
  by pat_completeness auto
termination by (relation "measure length") auto

text \<open>Every percent sign starts a triplet.\<close>

function pct_well_formed :: "jsstr \<Rightarrow> bool" where
  "pct_well_formed (c # cs) =
     (if c = PCT then isHex (take 2 cs) \<and> pct_well_formed (drop 2 cs) else pct_well_formed cs)"
| "pct_well_formed [] = True"
  by pat_completeness auto
termination by (relation "measure length") auto

declare pct_meaning.simps(1) [simp del] pct_well_formed.simps(1) [simp del]

definition render_unit :: "pct_unit \<Rightarrow> jsstr" where
  "render_unit u = (case u of Raw c \<Rightarrow> [c] | Octet n \<Rightarrow> [PCT, UPPER_HEX ! (n div 16), UPPER_HEX ! (n mod 16)])"

definition canonical_unit :: "pct_unit \<Rightarrow> bool" where
  "canonical_unit u = (case u of Raw c \<Rightarrow> c \<noteq> PCT | Octet n \<Rightarrow> n < 256 \<and> \<not> isUnreservedByte n)"

abbreviation normal_text :: "jsstr \<Rightarrow> jsstr" where
  "normal_text s \<equiv> uppercasePercentEncoding (decodeUnreservedPercentEncoding s)"

lemma hex_digit_upper: "hex_digit w \<Longrightarrow> hex_digit_value w < 16 \<and> upper_unit w = UPPER_HEX ! hex_digit_value w"
proof -
  assume h: "hex_digit w"
  have v: "unat w < 0x80" using h by (auto simp: hex_digit_def)
  have "\<forall>n \<in> set [0..<0x80]. hex_digit (of_nat n) \<longrightarrow>
      hex_digit_value (of_nat n) < 16 \<and> upper_unit (of_nat n) = UPPER_HEX ! hex_digit_value (of_nat n)"
    by code_simp
  then have "hex_digit (of_nat (unat w)) \<longrightarrow> hex_digit_value (of_nat (unat w)) < 16
      \<and> upper_unit (of_nat (unat w)) = UPPER_HEX ! hex_digit_value (of_nat (unat w))" using v by (metis atLeast0LessThan lessThan_iff set_upt)
  then show ?thesis using h by simp
qed

lemma isHexE:
  assumes "isHex h"
  obtains a b where "h = [a, b]" "hex_digit a" "hex_digit b"
  using assms unfolding isHex_def by (cases h; cases "tl h") auto

lemma isHex_takeE:
  assumes "isHex (take 2 cs)"
  obtains a b r where "cs = a # b # r" "hex_digit a" "hex_digit b"
  using assms unfolding isHex_def by (cases cs; cases "tl cs") auto

lemma unreserved_unit:
  assumes "isUnreservedByte n"
  shows "of_nat n \<noteq> PCT"
proof
  assume "of_nat n = PCT"
  then have "unat (of_nat n :: 16 word) = 37" by (simp add: PCT_def)
  moreover have "n < 128" "n \<noteq> 37" using not_PCT assms by auto
  ultimately show False by (simp add: unat_of_nat take_bit_nat_eq_self)
qed

lemma pct_triplet:
  assumes "hex_digit a" "hex_digit b"
  shows "pct_meaning (PCT # a # b # r) =
      (let n = 16 * hex_digit_value a + hex_digit_value b in
       (if isUnreservedByte n then Raw (of_nat n) else Octet n) # pct_meaning r)"
    and "pct_well_formed (PCT # a # b # r) = pct_well_formed r"
    and "replace_triplets f (PCT # a # b # r) = f [a, b] @ replace_triplets f r"
  using assms
  by (simp_all add: pct_meaning.simps(1) pct_well_formed.simps(1) replace_triplets.simps(1) isHex_def
      hex_pair_value_def Let_def)

lemma pct_plain:
  assumes "c \<noteq> PCT"
  shows "pct_meaning (c # r) = Raw c # pct_meaning r"
    and "pct_well_formed (c # r) = pct_well_formed r"
    and "replace_triplets f (c # r) = c # replace_triplets f r"
  using assms by (simp_all add: pct_meaning.simps(1) pct_well_formed.simps(1) replace_triplets.simps(1))

lemma pct_well_formed_induct [consumes 1, case_names Nil Triplet Plain]:
  assumes "pct_well_formed s"
    and "P []"
    and "\<And>a b r. hex_digit a \<Longrightarrow> hex_digit b \<Longrightarrow> pct_well_formed r \<Longrightarrow> P r \<Longrightarrow> P (PCT # a # b # r)"
    and "\<And>c r. c \<noteq> PCT \<Longrightarrow> pct_well_formed r \<Longrightarrow> P r \<Longrightarrow> P (c # r)"
  shows "P s"
  using assms(1)
proof (induction s rule: pct_well_formed.induct)
  case (1 c cs)
  show ?case
  proof (cases "c = PCT")
    case True
    then have "isHex (take 2 cs)" using "1.prems" by (simp add: pct_well_formed.simps(1))
    then obtain a b r where r: "cs = a # b # r" "hex_digit a" "hex_digit b" by (rule isHex_takeE)
    then show ?thesis using 1 True assms(3) by (simp add: pct_triplet(2))
  qed (use 1 assms(4) in \<open>simp add: pct_plain(2)\<close>)
qed (rule assms(2))

lemma pct_canonical: "pct_well_formed s \<Longrightarrow> list_all canonical_unit (pct_meaning s)"
proof (induction s rule: pct_well_formed_induct)
  case (Triplet a b r)
  have "16 * hex_digit_value a + hex_digit_value b < 256"
    using hex_digit_upper [OF Triplet(1)] hex_digit_upper [OF Triplet(2)] by linarith
  then show ?case
    using Triplet unreserved_unit
    by (simp add: pct_triplet(1) Let_def canonical_unit_def del: of_nat_add of_nat_mult)
qed (simp_all add: pct_plain(1) canonical_unit_def)

lemma normal_text_render: "pct_well_formed s \<Longrightarrow> normal_text s = concat (map render_unit (pct_meaning s))"
proof (induction s rule: pct_well_formed_induct)
  case Nil
  show ?case by (simp add: uppercasePercentEncoding_def decodeUnreservedPercentEncoding_def)
next
  case (Triplet a b r)
  let ?n = "16 * hex_digit_value a + hex_digit_value b"
  note u = hex_digit_upper [OF Triplet(1)] hex_digit_upper [OF Triplet(2)]
  have d: "?n div 16 = hex_digit_value a" "?n mod 16 = hex_digit_value b" using u by auto
  have p: "hex_pair_value [a, b] = ?n" by (simp add: hex_pair_value_def)
  show ?case
  proof (cases "isUnreservedByte ?n")
    case True
    then show ?thesis
      using Triplet unreserved_unit [OF True]
      by (simp add: pct_triplet uppercasePercentEncoding_def decodeUnreservedPercentEncoding_def p Let_def
          pct_plain(3) render_unit_def del: of_nat_add of_nat_mult)
  next
    case False
    then show ?thesis
      using Triplet u
      by (simp add: pct_triplet uppercasePercentEncoding_def decodeUnreservedPercentEncoding_def p Let_def
          render_unit_def d)
  qed
next
  case (Plain c r)
  then show ?case
    by (simp add: pct_plain uppercasePercentEncoding_def decodeUnreservedPercentEncoding_def render_unit_def)
qed

lemma render_meaning:
  "list_all canonical_unit us \<Longrightarrow> pct_meaning (concat (map render_unit us)) = us
    \<and> pct_well_formed (concat (map render_unit us))"
proof (induction us)
  case (Cons u us)
  show ?case
  proof (cases u)
    case (Raw c)
    then show ?thesis using Cons by (simp add: render_unit_def canonical_unit_def pct_plain)
  next
    case (Octet n)
    then have n: "n div 16 < 16" "n mod 16 < 16" using Cons.prems by (auto simp: canonical_unit_def)
    have "16 * (n div 16) + n mod 16 = n" by simp
    then show ?thesis
      using Cons Octet by (simp add: render_unit_def canonical_unit_def pct_triplet UPPER_HEX_nth n Let_def)
  qed
qed simp

section \<open>The signature base determines what it covers\<close>

text \<open>How RFC 8941 serializes a string item, bare or with the flag \<open>req\<close>.\<close>

definition sf_string :: "jsstr \<Rightarrow> jsstr" where
  "sf_string b = 34 # concat (map (\<lambda>w. if w = 34 \<or> w = 92 then [92, w] else [w]) b) @ [34]"

definition sf_printable :: "jsstr \<Rightarrow> bool" where
  "sf_printable b \<longleftrightarrow> list_all (\<lambda>w. 0x20 \<le> unat w \<and> unat w \<le> 0x7e) b"

definition rfc8941_items :: "sig_platform \<Rightarrow> bool" where
  "rfc8941_items P \<longleftrightarrow>
     (\<forall>b f t. serialize_item P b f = Some t
        \<longrightarrow> sf_printable b \<and> t = sf_string b @ (if f then js '';req'' else []))"

lemma rfc8941_itemsD:
  "rfc8941_items P \<Longrightarrow> serialize_item P b f = Some t \<Longrightarrow>
     sf_printable b \<and> t = sf_string b @ (if f then js '';req'' else [])"
  by (auto simp: rfc8941_items_def)

lemma sf_string_body_inj:
  "concat (map (\<lambda>w. if w = 34 \<or> w = 92 then [92, w] else [w]) b) @ 34 # t
     = concat (map (\<lambda>w. if w = 34 \<or> w = 92 then [92, w] else [w]) b') @ 34 # (t' :: jsstr)
   \<Longrightarrow> b = b' \<and> t = t'"
proof (induction b arbitrary: b')
  case Nil
  then show ?case by (cases b') (auto split: if_splits)
next
  case (Cons w b)
  then show ?case by (cases b') (auto split: if_splits)
qed

lemma sf_string_inj: "sf_string b @ t = sf_string b' @ t' \<Longrightarrow> b = b' \<and> t = t'"
  using sf_string_body_inj [of b t b' t'] by (simp add: sf_string_def)

lemma sf_string_newline: "sf_printable b \<Longrightarrow> 10 \<notin> set (sf_string b)"
  by (auto simp: sf_string_def sf_printable_def list_all_iff)

text \<open>A covered component as it stands in the base.\<close>

definition line_text :: "(jsstr \<times> bool) \<times> jsstr \<Rightarrow> jsstr" where
  "line_text = (\<lambda>((b, f), v). sf_string b @ (if f then js '';req'' else []) @ js '': '' @ v)"

definition line_ok :: "(jsstr \<times> bool) \<times> jsstr \<Rightarrow> bool" where
  "line_ok = (\<lambda>((b, f), v). b \<noteq> js ''@signature-params'' \<and> 10 \<notin> set v)"

lemma params_line_sf: "params_line s = sf_string (js ''@signature-params'') @ js '': '' @ s"
  by (simp add: params_line_def sf_string_def js_def)

lemma line_text_head:
  "line_text ((b, f), v) @ rest = line_text ((b', f'), v') @ rest' \<Longrightarrow> b = b' \<and> f = f' \<and> v @ rest = v' @ rest'"
  using sf_string_inj [of b "(if f then js '';req'' else []) @ js '': '' @ v @ rest" b'
      "(if f' then js '';req'' else []) @ js '': '' @ v' @ rest'"]
  by (auto simp: line_text_def js_def split: if_splits)

lemma line_not_params: "line_ok l \<Longrightarrow> line_text l @ rest \<noteq> params_line s"
proof
  assume ok: "line_ok l" and e: "line_text l @ rest = params_line s"
  obtain b f v where l: "l = ((b, f), v)" by (metis surj_pair)
  then have "b = js ''@signature-params''"
    using sf_string_inj [of b "(if f then js '';req'' else []) @ js '': '' @ v @ rest" _ "js '': '' @ s"] e
    unfolding params_line_sf by (simp add: line_text_def)
  then show False using ok l by (simp add: line_ok_def)
qed

lemma base_text_inj:
  "list_all line_ok xs \<Longrightarrow> list_all line_ok ys \<Longrightarrow>
     js_join [10] (map line_text xs @ [params_line s]) = js_join [10] (map line_text ys @ [params_line s'])
   \<Longrightarrow> xs = ys \<and> s = s'"
proof (induction xs arbitrary: ys)
  case Nil
  show ?case
  proof (cases ys)
    case Nil
    then show ?thesis using Nil.prems(3) by (simp add: params_line_def)
  next
    case (Cons y ys')
    then show ?thesis using Nil.prems line_not_params [of y _ s] by (auto simp: js_join_Cons)
  qed
next
  case (Cons x xs)
  show ?case
  proof (cases ys)
    case Nil
    then show ?thesis using Cons.prems line_not_params [of x _ s'] by (auto simp: js_join_Cons)
  next
    case y: (Cons y ys')
    obtain b f v b' f' v' where d: "x = ((b, f), v)" "y = ((b', f'), v')" by (metis surj_pair)
    let ?r = "js_join [10] (map line_text xs @ [params_line s])"
    let ?r' = "js_join [10] (map line_text ys' @ [params_line s'])"
    have e: "line_text x @ 10 # ?r = line_text y @ 10 # ?r'"
      using Cons.prems(3) y by (simp add: js_join_Cons)
    have h: "b = b'" "f = f'" "v @ 10 # ?r = v' @ 10 # ?r'"
      using line_text_head [of b f v "10 # ?r" b' f' v' "10 # ?r'"] e d by simp_all
    moreover have "10 \<notin> set v" "10 \<notin> set v'"
      using Cons.prems(1,2) y d by (simp_all add: line_ok_def)
    ultimately have "v = v'" "?r = ?r'" using sep_append_inj [OF h(3)] by simp_all
    then show ?thesis using Cons.IH [of ys'] Cons.prems y d h by simp
  qed
qed

lemma component_not_params:
  assumes "resolveComponentValue P c r profile = Inr v" "parseComponentIdentifier c = Inr (b, f)"
  shows "b \<noteq> js ''@signature-params''"
proof
  assume b: "b = js ''@signature-params''"
  have "starts_with [0x40] c \<and> c \<noteq> js ''@method'' \<and> c \<noteq> js ''@target-uri'' \<and> c \<noteq> js ''@authority''"
  proof (cases "0x3b \<in> set c")
    case False
    then have "c = b" using assms(2) by (simp add: parseComponentIdentifier_def)
    then show ?thesis using b by (simp add: starts_with_def js_def)
  next
    case True
    then have h: "hd (js_split 0x3b c) = b"
      using assms(2) by (auto simp: parseComponentIdentifier_def Let_def split: if_splits)
    have "starts_with [0x40] c"
      using h b by (cases c) (auto simp: starts_with_def js_def split: if_splits list.splits)
    moreover have "c \<noteq> js ''@method'' \<and> c \<noteq> js ''@target-uri'' \<and> c \<noteq> js ''@authority''"
      using True by (auto simp: js_def)
    ultimately show ?thesis by blast
  qed
  then show False using assms(1) by (simp add: resolveComponentValue_def)
qed

text \<open>The lines of a base, recovered from the components.\<close>

lemma base_lines:
  assumes P: "rfc8941_items P"
    and m: "mapE (base_line (\<lambda>c. resolveComponentValue P c r profile) P) cs = Inr ls"
    and nl: "\<And>c v. c \<in> set cs \<Longrightarrow> resolveComponentValue P c r profile = Inr (Some v) \<Longrightarrow> 10 \<notin> set v"
  obtains xs where "ls = map line_text xs" "list_all line_ok xs"
    "map parseComponentIdentifier cs = map (Inr \<circ> fst) xs"
    "map (\<lambda>c. resolveComponentValue P c r profile) cs = map (Inr \<circ> Some \<circ> snd) xs"
proof -
  have "\<exists>xs. ls = map line_text xs \<and> list_all line_ok xs
      \<and> map parseComponentIdentifier cs = map (Inr \<circ> fst) xs
      \<and> map (\<lambda>c. resolveComponentValue P c r profile) cs = map (Inr \<circ> Some \<circ> snd) xs"
    using m nl
  proof (induction cs arbitrary: ls)
    case Nil
    then show ?case by simp
  next
    case (Cons c cs)
    obtain l ls' where l: "base_line (\<lambda>c. resolveComponentValue P c r profile) P c = Inr l" "ls = l # ls'"
      and m': "mapE (base_line (\<lambda>c. resolveComponentValue P c r profile) P) cs = Inr ls'"
      using Cons.prems(1) by (auto simp: bindE_eq_Inr_iff)
    obtain v b f t where v: "resolveComponentValue P c r profile = Inr (Some v)"
      and i: "parseComponentIdentifier c = Inr (b, f)" "serialize_item P b f = Some t" "l = t @ js '': '' @ v"
      using l(1) by (fastforce simp: base_line_def formatComponentIdentifier_def bindE_eq_Inr_iff split: option.splits)
    have "l = line_text ((b, f), v)" "line_ok ((b, f), v)"
      using rfc8941_itemsD [OF P i(2)] i(3) component_not_params [OF v i(1)] Cons.prems(2) [OF _ v]
      by (auto simp: line_text_def line_ok_def)
    moreover have "\<exists>xs. ls' = map line_text xs \<and> list_all line_ok xs
        \<and> map parseComponentIdentifier cs = map (Inr \<circ> fst) xs
        \<and> map (\<lambda>c. resolveComponentValue P c r profile) cs = map (Inr \<circ> Some \<circ> snd) xs"
      by (rule Cons.IH [OF m']) (rule Cons.prems(2), simp_all)
    then obtain xs where "ls' = map line_text xs" "list_all line_ok xs"
      "map parseComponentIdentifier cs = map (Inr \<circ> fst) xs"
      "map (\<lambda>c. resolveComponentValue P c r profile) cs = map (Inr \<circ> Some \<circ> snd) xs" by blast
    ultimately show ?case using l(2) v i(1) by (intro exI [of _ "((b, f), v) # xs"]) simp
  qed
  then show thesis using that by blast
qed

lemma base_determines_components:
  assumes "rfc8941_items P"
    and "buildSignatureBase P cs r p (Some sp) profile = Inr t"
    and "buildSignatureBase P cs' r' p' (Some sp') profile' = Inr t"
    and "\<And>c v. c \<in> set cs \<Longrightarrow> resolveComponentValue P c r profile = Inr (Some v) \<Longrightarrow> 10 \<notin> set v"
    and "\<And>c v. c \<in> set cs' \<Longrightarrow> resolveComponentValue P c r' profile' = Inr (Some v) \<Longrightarrow> 10 \<notin> set v"
  shows "sp = sp' \<and> map parseComponentIdentifier cs = map parseComponentIdentifier cs'
    \<and> map (\<lambda>c. resolveComponentValue P c r profile) cs = map (\<lambda>c. resolveComponentValue P c r' profile') cs'"
proof -
  obtain ls ls' where l: "mapE (base_line (\<lambda>c. resolveComponentValue P c r profile) P) cs = Inr ls"
      "mapE (base_line (\<lambda>c. resolveComponentValue P c r' profile') P) cs' = Inr ls'"
    and t: "t = js_join [10] (ls @ [params_line sp])" "t = js_join [10] (ls' @ [params_line sp'])"
    using assms(2,3) by (auto simp: buildSignatureBase_def bindE_eq_Inr_iff)
  obtain xs where x: "ls = map line_text xs" "list_all line_ok xs"
      "map parseComponentIdentifier cs = map (Inr \<circ> fst) xs"
      "map (\<lambda>c. resolveComponentValue P c r profile) cs = map (Inr \<circ> Some \<circ> snd) xs"
    by (rule base_lines [OF assms(1) l(1) assms(4)])
  obtain ys where y: "ls' = map line_text ys" "list_all line_ok ys"
      "map parseComponentIdentifier cs' = map (Inr \<circ> fst) ys"
      "map (\<lambda>c. resolveComponentValue P c r' profile') cs' = map (Inr \<circ> Some \<circ> snd) ys"
    by (rule base_lines [OF assms(1) l(2) assms(5)])
  have "js_join [10] (map line_text xs @ [params_line sp]) = js_join [10] (map line_text ys @ [params_line sp'])"
    using t x(1) y(1) by metis
  then have "xs = ys \<and> sp = sp'" by (rule base_text_inj [OF x(2) y(2)])
  then show ?thesis using x(3,4) y(3,4) by simp
qed

section \<open>Properties\<close>

text \<open>
  The percent-encoding part of the canonical target URI is a normal form.  On texts in which every
  percent sign starts a triplet, two texts get the same canonical form exactly if they mean the
  same (the same units, where a triplet of an unreserved character is that character and the
  case of hex digits does not count), and canonicalising twice changes nothing.
\<close>

theorem percent_normal_form:
  assumes "pct_well_formed s" "pct_well_formed t"
  shows "(uppercasePercentEncoding (decodeUnreservedPercentEncoding s)
          = uppercasePercentEncoding (decodeUnreservedPercentEncoding t)) = (pct_meaning s = pct_meaning t)
    \<and> uppercasePercentEncoding (decodeUnreservedPercentEncoding (normal_text s)) = normal_text s"
proof -
  note s = normal_text_render [OF assms(1)] render_meaning [OF pct_canonical [OF assms(1)]]
  note t = normal_text_render [OF assms(2)] render_meaning [OF pct_canonical [OF assms(2)]]
  have "pct_well_formed (normal_text s)" "pct_meaning (normal_text s) = pct_meaning s" using s by simp_all
  then have "normal_text (normal_text s) = normal_text s" using normal_text_render s(1) by metis
  moreover have "(normal_text s = normal_text t) = (pct_meaning s = pct_meaning t)" using s t by metis
  ultimately show ?thesis by blast
qed

theorem percent_normal_form_witness:
  "normal_text (js ''/%7euser/%c3%a9'') = normal_text (js ''/~user/%C3%A9'')"
proof -
  have w: "pct_well_formed (js ''/%7euser/%c3%a9'')" "pct_well_formed (js ''/~user/%C3%A9'')" by code_simp+
  have "pct_meaning (js ''/%7euser/%c3%a9'') = pct_meaning (js ''/~user/%C3%A9'')" by code_simp
  then show ?thesis using percent_normal_form [OF w] by blast
qed

text \<open>
  C23: a signature base determines what it covers.  If the bases built for two requests are equal, the
  signature parameters are equal and the covered components are the same, in the same order,
  with the same values, so a signature over one base covers no other request.  The serializer is
  assumed to write string items as RFC 8941 does, and no covered value contains a line feed
  (HTTP excludes it).
\<close>

theorem signature_base_binds:
  assumes "rfc8941_items P"
    and "buildSignatureBase P cs r p (Some sp) profile = Inr t"
    and "buildSignatureBase P cs' r' p' (Some sp') profile' = Inr t"
    and "\<And>c v. c \<in> set cs \<Longrightarrow> resolveComponentValue P c r profile = Inr (Some v) \<Longrightarrow> 10 \<notin> set v"
    and "\<And>c v. c \<in> set cs' \<Longrightarrow> resolveComponentValue P c r' profile' = Inr (Some v) \<Longrightarrow> 10 \<notin> set v"
  shows "sp = sp' \<and> map parseComponentIdentifier cs = map parseComponentIdentifier cs'
    \<and> map (\<lambda>c. resolveComponentValue P c r profile) cs = map (\<lambda>c. resolveComponentValue P c r' profile') cs'"
  by (rule base_determines_components [OF assms])

text \<open>A platform to evaluate on: ASCII case conversion, one URL, RFC 8941 string items.\<close>

definition ascii_lower :: "jsstr \<Rightarrow> jsstr" where
  "ascii_lower s = map (\<lambda>w. if 0x41 \<le> unat w \<and> unat w \<le> 0x5a then w + 0x20 else w) s"

definition demo_url :: js_url where
  "demo_url = \<lparr>url_protocol = js ''https:'', url_username = [], url_password = [], url_host = js ''a.example'',
     url_hostname = js ''a.example'', url_pathname = js ''/mcp'', url_search = [], url_href = js ''https://a.example/mcp''\<rparr>"

definition demo_platform :: sig_platform where
  "demo_platform = \<lparr>to_lower = ascii_lower, to_upper = map upper_unit,
     new_URL = (\<lambda>s. if s = js ''https://a.example/mcp'' then Some demo_url else None),
     set_hostname = (\<lambda>h u. u\<lparr>url_hostname := h, url_host := h\<rparr>),
     serialize_item = (\<lambda>b f. if sf_printable b then Some (sf_string b @ (if f then js '';req'' else [])) else None),
     serialize_inner_list = (\<lambda>items params. None)\<rparr>"

definition demo_request :: "headers \<Rightarrow> request_like" where
  "demo_request hs = \<lparr>req_method = js ''post'', req_url = js ''https://a.example/mcp'', req_headers = hs, req_body = None\<rparr>"

definition no_params :: sig_params where
  "no_params = \<lparr>p_created = None, p_expires = None, p_nonce = None, p_keyid = None, p_alg = None, p_tag = None\<rparr>"

lemma demo_platform_items: "rfc8941_items demo_platform"
  by (auto simp: rfc8941_items_def demo_platform_def)

theorem signature_base_binds_witness:
  "map (\<lambda>c. resolveComponentValue demo_platform c (demo_request [(js ''X-A'', HeaderText (js '' 1 ''))]) V32)
      [js ''@method'', js ''x-a'']
   = map (\<lambda>c. resolveComponentValue demo_platform c (demo_request [(js ''x-a'', HeaderList [js ''1''])]) Legacy)
      [js ''@method'', js ''x-a'']"
proof -
  let ?r = "demo_request [(js ''X-A'', HeaderText (js '' 1 ''))]"
  let ?r' = "demo_request [(js ''x-a'', HeaderList [js ''1''])]"
  let ?cs = "[js ''@method'', js ''x-a'']"
  have v: "resolveComponentValue demo_platform (js ''@method'') ?r V32 = Inr (Some (js ''POST''))"
      "resolveComponentValue demo_platform (js ''x-a'') ?r V32 = Inr (Some (js ''1''))"
      "resolveComponentValue demo_platform (js ''@method'') ?r' Legacy = Inr (Some (js ''POST''))"
      "resolveComponentValue demo_platform (js ''x-a'') ?r' Legacy = Inr (Some (js ''1''))"
    by (simp_all add: resolveComponentValue_def starts_with_def js_def canonicalMethod_def demo_request_def demo_platform_def
        upper_unit_def ascii_lower_def header_text_def js_trim_def js_trim_start_def js_space_def)
  have i: "formatComponentIdentifier demo_platform (js ''@method'') = Inr (sf_string (js ''@method''))"
      "formatComponentIdentifier demo_platform (js ''x-a'') = Inr (sf_string (js ''x-a''))"
    by (simp_all add: formatComponentIdentifier_def parseComponentIdentifier_def js_def demo_platform_def sf_printable_def)
  have nl: "10 \<notin> set (js ''POST'')" "10 \<notin> set (js ''1'')" by (simp_all add: js_def)
  let ?t = "js_join [10] [sf_string (js ''@method'') @ js '': '' @ js ''POST'', sf_string (js ''x-a'') @ js '': '' @ js ''1'',
      params_line []]"
  have b: "buildSignatureBase demo_platform ?cs ?r no_params (Some []) V32 = Inr ?t"
      "buildSignatureBase demo_platform ?cs ?r' no_params (Some []) Legacy = Inr ?t"
    by (simp_all add: buildSignatureBase_def base_line_def v i)
  show ?thesis
    by (rule signature_base_binds [OF demo_platform_items b, THEN conjunct2, THEN conjunct2])
      (use v nl in auto)
qed

end
