(* ===== verification/SignatureHeaders.thy ===== *)
theory SignatureHeaders
  imports SignatureBase JsNumber
begin

text \<open>
  Reading the signature headers: \<open>src/lib/signing/parser.ts\<close> and the digest header of
  \<open>src/lib/signing/content-digest.ts\<close>.  The strict RFC 8941 parser and serializer are the package
  \<open>structured-headers\<close>, the fields of an \<open>sh_library\<close>; the scan for duplicate keys, which the package
  would drop silently, is the repository's own code and is modelled.  A scanner position is the
  rest of the text.
\<close>

section \<open>Structured fields\<close>

datatype bare_item = BareString jsstr | BareNumber js_num | BareBool bool | BareBytes "8 word list" | BareOther

type_synonym sh_params = "(jsstr \<times> bare_item) list"

datatype dict_member = InnerList "(bare_item \<times> sh_params) list" sh_params | SingleItem bare_item sh_params

record sh_library =
  parse_dictionary :: "jsstr \<Rightarrow> (jsstr \<times> dict_member) list option"
  serialize_string_item :: "jsstr \<Rightarrow> sh_params \<Rightarrow> jsstr option"
  serialize_inner :: "(bare_item \<times> sh_params) list \<Rightarrow> sh_params \<Rightarrow> jsstr option"

record parsed_signature_input =
  si_label :: jsstr
  si_components :: "jsstr list"
  signatureParamsValue :: jsstr
  si_params :: sig_params

datatype sf_encoding = Rfc8941Base64 | LegacyBase64url

definition malformed :: sig_error where
  "malformed = SigError ''request_signature_header_malformed'' 1"

section \<open>Base64 texts\<close>

definition base64_unit :: "16 word \<Rightarrow> bool" where
  "base64_unit w \<longleftrightarrow> ascii_alpha w \<or> ascii_digit w \<or> w \<in> set (js ''+/'')"

definition base64url_unit :: "16 word \<Rightarrow> bool" where
  "base64url_unit w \<longleftrightarrow> ascii_alpha w \<or> ascii_digit w \<or> w \<in> set (js ''-_'')"

definition isPaddedStandardBase64 :: "jsstr \<Rightarrow> bool" where
  "isPaddedStandardBase64 encoded \<longleftrightarrow>
     length encoded > 0 \<and> length encoded mod 4 = 0
     \<and> (let pad = dropWhile base64_unit encoded in
        takeWhile base64_unit encoded \<noteq> [] \<and> length pad \<le> 2 \<and> list_all (\<lambda>w. w = 0x3d) pad)"

definition isBase64url :: "jsstr \<Rightarrow> bool" where
  "isBase64url s \<longleftrightarrow> s \<noteq> [] \<and> list_all base64url_unit s"

text \<open>The scanner that writes base64url inside byte sequences as standard base64.\<close>

datatype norm_mode = NormOut | NormString | NormBytes bool bool

fun normalize_loop :: "norm_mode \<Rightarrow> jsstr \<Rightarrow> sig_error + jsstr" where
  "normalize_loop m [] = Inr []"
| "normalize_loop NormString (c # cs) =
     (if c = 0x5c then
        (case cs of [] \<Rightarrow> Inr [c]
         | d # ds \<Rightarrow> bindE (normalize_loop NormString ds) (\<lambda>r. Inr (c # d # r)))
      else bindE (normalize_loop (if c = 0x22 then NormOut else NormString) cs) (\<lambda>r. Inr (c # r)))"
| "normalize_loop (NormBytes std url) (c # cs) =
     (if c = 0x3a then
        (if std \<and> url then Inl malformed else bindE (normalize_loop NormOut cs) (\<lambda>r. Inr (c # r)))
      else if c = 0x2d then bindE (normalize_loop (NormBytes std True) cs) (\<lambda>r. Inr (0x2b # r))
      else if c = 0x5f then bindE (normalize_loop (NormBytes std True) cs) (\<lambda>r. Inr (0x2f # r))
      else bindE (normalize_loop (NormBytes (std \<or> c = 0x2b \<or> c = 0x2f \<or> c = 0x3d) url) cs) (\<lambda>r. Inr (c # r)))"
| "normalize_loop NormOut (c # cs) =
     bindE (normalize_loop (if c = 0x22 then NormString else if c = 0x3a then NormBytes False False else NormOut) cs)
       (\<lambda>r. Inr (c # r))"

definition normalizeByteSequenceBase64 :: "jsstr \<Rightarrow> sig_error + jsstr" where
  "normalizeByteSequenceBase64 input = normalize_loop NormOut input"

section \<open>Duplicate keys\<close>

datatype dup_kind = DupMember | DupParameter

definition ows_unit :: "16 word \<Rightarrow> bool" where
  "ows_unit w \<longleftrightarrow> w = 0x20 \<or> w = 0x09"

definition sf_key_unit :: "16 word \<Rightarrow> bool" where
  "sf_key_unit w \<longleftrightarrow> ascii_alpha w \<or> ascii_digit w \<or> w \<in> set (js ''_.*-'')"

definition lower_unit :: "16 word \<Rightarrow> 16 word" where
  "lower_unit w = (if 0x41 \<le> unat w \<and> unat w \<le> 0x5a then w + 0x20 else w)"

definition scan_ows :: "jsstr \<Rightarrow> jsstr" where
  "scan_ows s = dropWhile ows_unit s"

definition scan_key :: "jsstr \<Rightarrow> jsstr \<times> jsstr" where
  "scan_key s = (map lower_unit (takeWhile sf_key_unit s), dropWhile sf_key_unit s)"

fun skip_quoted :: "jsstr \<Rightarrow> jsstr" where
  "skip_quoted [] = []"
| "skip_quoted (c # cs) =
     (if c = 0x5c then (case cs of [] \<Rightarrow> [] | d # ds \<Rightarrow> skip_quoted ds)
      else if c = 0x22 then cs else skip_quoted cs)"

definition item_end :: "16 word \<Rightarrow> bool" where
  "item_end w \<longleftrightarrow> w \<in> set (js '';,()'') \<or> w = 0x22 \<or> js_space w"

definition bareItem :: "jsstr \<Rightarrow> jsstr" where
  "bareItem s =
     (if starts_with (js ''%'' @ [0x22]) s then drop 1 (dropWhile (\<lambda>w. w \<noteq> 0x22) (drop 2 s))
      else if starts_with [0x22] s then skip_quoted (drop 1 s)
      else if starts_with [0x3a] s then drop 1 (dropWhile (\<lambda>w. w \<noteq> 0x3a) (drop 1 s))
      else dropWhile (\<lambda>w. \<not> item_end w) s)"

lemma skip_quoted_length: "length (skip_quoted s) \<le> length s"
proof (induction s rule: skip_quoted.induct)
  case (2 c cs)
  show ?case
  proof (cases cs)
    case (Cons d ds)
    then show ?thesis using 2 by (cases "c = 0x5c"; cases "c = 0x22") simp_all
  qed simp
qed simp

lemma drop_dropWhile_length: "length (drop m (dropWhile f (drop n s))) \<le> length s"
proof -
  have "length (dropWhile f (drop n s)) \<le> length (drop n s)" by (rule length_dropWhile_le)
  then show ?thesis by simp
qed

lemma bareItem_length: "length (bareItem s) \<le> length s"
proof -
  have q: "length (skip_quoted (drop 1 s)) \<le> length s"
    using skip_quoted_length [of "drop 1 s"] by (simp only: length_drop)
  show ?thesis
    by (simp only: bareItem_def q drop_dropWhile_length length_dropWhile_le split: if_split) simp
qed

function scan_parameters :: "jsstr list \<Rightarrow> jsstr \<Rightarrow> jsstr option \<times> jsstr" where
  "scan_parameters seen [] = (None, [])"
| "scan_parameters seen (c # cs) =
     (if c \<noteq> 0x3b then (None, c # cs)
      else let (k, r) = scan_key (scan_ows cs) in
        if k = [] then (None, r)
        else if k \<in> set seen then (Some k, r)
        else if starts_with [0x3d] r then scan_parameters (k # seen) (bareItem (drop 1 r))
        else scan_parameters (k # seen) r)"
  by pat_completeness auto
termination
proof (relation "measure (\<lambda>(_, s). length s)", goal_cases)
  case (2 seen c cs z k r)
  have "length r \<le> length cs"
    using 2 by (auto simp: scan_key_def scan_ows_def intro: le_trans length_dropWhile_le)
  then show ?case using bareItem_length [of "drop 1 r"] by auto
next
  case (3 seen c cs z k r)
  have "length r \<le> length cs"
    using 3 by (auto simp: scan_key_def scan_ows_def intro: le_trans length_dropWhile_le)
  then show ?case by simp
qed simp

declare scan_parameters.simps(2) [simp del]

lemma scan_key_length: "length (snd (scan_key (scan_ows s))) \<le> length s"
  by (auto simp: scan_key_def scan_ows_def intro: le_trans length_dropWhile_le)

lemma scan_parameters_length: "length (snd (scan_parameters seen s)) \<le> length s"
proof (induction seen s rule: scan_parameters.induct)
  case (2 seen c cs)
  obtain k r where kr: "scan_key (scan_ows cs) = (k, r)" by force
  have "length r \<le> length cs" using scan_key_length [of cs] kr by simp
  moreover have "length (bareItem (drop 1 r)) \<le> length r" using bareItem_length [of "drop 1 r"] by simp
  ultimately show ?case
    using 2 [OF _ kr [symmetric] refl] kr by (auto simp: scan_parameters.simps(2))
qed simp

text \<open>
  The items of an inner list, after its opening parenthesis: the walk ends inside it (\<open>InnerStop\<close>),
  finds a duplicate parameter, or passes the closing parenthesis.
\<close>

datatype inner_result = InnerStop | InnerDup jsstr | InnerDone jsstr

function scan_inner :: "jsstr \<Rightarrow> inner_result" where
  "scan_inner s =
     (let s1 = dropWhile (\<lambda>w. w = 0x20) s in
      if s1 = [] then InnerStop
      else if hd s1 = 0x29 then InnerDone (tl s1)
      else let (dup, s2) = scan_parameters [] (bareItem s1) in
        case dup of
          Some k \<Rightarrow> InnerDup k
        | None \<Rightarrow> if length s2 = length s1 then InnerStop else scan_inner s2)"
  by pat_completeness auto
termination
proof (relation "measure length", goal_cases)
  case (2 s s1 z dup s2)
  have "length s2 \<le> length (bareItem s1)" using scan_parameters_length [of "[]" "bareItem s1"] 2 by (metis snd_conv)
  then have "length s2 < length s1" using bareItem_length [of s1] 2 by simp
  then show ?case using length_dropWhile_le [of "\<lambda>w. w = 0x20" s] 2(1) by simp
qed simp

declare scan_inner.simps [simp del]

lemma scan_inner_length: "scan_inner s = InnerDone r \<Longrightarrow> length r < length s"
proof (induction s rule: scan_inner.induct)
  case (1 s)
  let ?s1 = "dropWhile (\<lambda>w. w = 0x20) s"
  have l: "length ?s1 \<le> length s" by (rule length_dropWhile_le)
  obtain dup s2 where p: "scan_parameters [] (bareItem ?s1) = (dup, s2)" by force
  have s2: "length s2 \<le> length ?s1"
    using scan_parameters_length [of "[]" "bareItem ?s1"] bareItem_length [of ?s1] p by simp
  have ne: "?s1 \<noteq> []"
  proof
    assume "?s1 = []"
    then have "scan_inner s = InnerStop" by (subst scan_inner.simps) simp
    then show False using "1.prems" by simp
  qed
  then have pos: "0 < length ?s1" by blast
  show ?case
  proof (cases "hd ?s1 = 0x29")
    case True
    then have "r = tl ?s1" using "1.prems" ne by (simp add: scan_inner.simps [of s] Let_def del: dropWhile_eq_Nil_conv)
    then have "length r = length ?s1 - 1" by simp
    then show ?thesis using pos l by linarith
  next
    case False
    then have "dup = None" "length s2 \<noteq> length ?s1" "scan_inner s2 = InnerDone r"
      using "1.prems" ne p by (simp_all add: scan_inner.simps [of s] Let_def del: dropWhile_eq_Nil_conv split: option.splits if_splits)
    then have "length r < length s2" using "1.IH" [OF refl ne False p [symmetric] refl] by simp
    then show ?thesis using s2 l by linarith
  qed
qed

text \<open>The value of a member and its parameters: nothing when the walk ends.\<close>

definition scan_value :: "jsstr \<Rightarrow> (jsstr option \<times> jsstr) option" where
  "scan_value s =
     (if starts_with [0x3d] s then
        (if starts_with [0x28] (drop 1 s) then
           (case scan_inner (drop 2 s) of
              InnerStop \<Rightarrow> None
            | InnerDup k \<Rightarrow> Some (Some k, [])
            | InnerDone r \<Rightarrow> Some (scan_parameters [] r))
         else Some (scan_parameters [] (bareItem (drop 1 s))))
      else Some (scan_parameters [] s))"

lemma scan_value_length: "scan_value s = Some (d, r) \<Longrightarrow> length r \<le> length s"
proof -
  assume v: "scan_value s = Some (d, r)"
  have p: "scan_parameters [] t = (d, r) \<Longrightarrow> length r \<le> length t" for t
    using scan_parameters_length [of "[]" t] by simp
  show ?thesis
    using v p bareItem_length [of "drop 1 s"] scan_inner_length [of "drop 2 s"]
    by (fastforce simp: scan_value_def split: if_splits inner_result.splits)
qed

function scan_members :: "jsstr list \<Rightarrow> jsstr \<Rightarrow> (dup_kind \<times> jsstr) option" where
  "scan_members members s =
     (if s = [] then None
      else let (k, r) = scan_key (scan_ows s) in
        if k = [] then None
        else if k \<in> set members then Some (DupMember, k)
        else case scan_value r of
            None \<Rightarrow> None
          | Some (Some d, _) \<Rightarrow> Some (DupParameter, k @ js '': '' @ d)
          | Some (None, r') \<Rightarrow>
              let t = scan_ows r' in
              if t = [] then None
              else if hd t \<noteq> 0x2c then None
              else scan_members (k # members) (tl t))"
  by pat_completeness auto
termination
proof (relation "measure (\<lambda>(_, s). length s)", goal_cases)
  case (2 members s z k r v p r' t)
  have "length r \<le> length s" using scan_key_length [of s] 2 by (metis snd_conv)
  moreover have "length r' \<le> length r" using scan_value_length 2 by metis
  moreover have "length t \<le> length r'" using 2 by (simp add: scan_ows_def length_dropWhile_le)
  moreover have "length (tl t) < length t" using 2 by (cases t) simp_all
  ultimately show ?case by simp
qed simp

declare scan_members.simps [simp del]

definition findDuplicateStructuredKey :: "jsstr \<Rightarrow> (dup_kind \<times> jsstr) option" where
  "findDuplicateStructuredKey input = scan_members [] input"

definition rejectDuplicateDictionaryKeys :: "jsstr \<Rightarrow> sig_error + unit" where
  "rejectDuplicateDictionaryKeys headerValue =
     (case findDuplicateStructuredKey headerValue of None \<Rightarrow> Inr () | Some _ \<Rightarrow> Inl malformed)"

section \<open>\<open>Signature-Input\<close> and \<open>Signature\<close>\<close>

definition STRING_PARAMS :: "jsstr list" where
  "STRING_PARAMS = [js ''nonce'', js ''keyid'', js ''alg'', js ''tag'']"

definition INTEGER_PARAMS :: "jsstr list" where
  "INTEGER_PARAMS = [js ''created'', js ''expires'']"

definition param_type_ok :: "jsstr \<times> bare_item \<Rightarrow> bool" where
  "param_type_ok = (\<lambda>(key, v).
     (if key \<in> set STRING_PARAMS then (case v of BareString _ \<Rightarrow> True | _ \<Rightarrow> False)
      else if key \<in> set INTEGER_PARAMS then
        (case v of BareNumber (Fin q) \<Rightarrow> q \<in> \<int> | _ \<Rightarrow> False)
      else True))"

definition string_param :: "sh_params \<Rightarrow> jsstr \<Rightarrow> jsstr option" where
  "string_param ps key = (case map_of ps key of Some (BareString s) \<Rightarrow> Some s | _ \<Rightarrow> None)"

definition integer_param :: "sh_params \<Rightarrow> jsstr \<Rightarrow> int option" where
  "integer_param ps key = (case map_of ps key of Some (BareNumber (Fin q)) \<Rightarrow> Some \<lfloor>q\<rfloor> | _ \<Rightarrow> None)"

text \<open>\<open>serialized.slice(serialized.indexOf('"', 1) + 1)\<close>.\<close>

definition after_name :: "jsstr \<Rightarrow> jsstr" where
  "after_name serialized =
     (case index_of 0x22 (drop 1 serialized) of None \<Rightarrow> serialized | Some n \<Rightarrow> drop (n + 2) serialized)"

definition component_of :: "sh_library \<Rightarrow> bare_item \<times> sh_params \<Rightarrow> sig_error + jsstr" where
  "component_of L = (\<lambda>(bare, ps).
     (case bare of
        BareString b \<Rightarrow>
          (case serialize_string_item L b ps of
             None \<Rightarrow> Inl SerializeError
           | Some t \<Rightarrow> Inr (b @ after_name t))
      | _ \<Rightarrow> Inl malformed))"

definition parseSignatureInputMember :: "sh_library \<Rightarrow> jsstr \<Rightarrow> dict_member \<Rightarrow> sig_error + parsed_signature_input" where
  "parseSignatureInputMember L label entry =
     (case entry of
        SingleItem _ _ \<Rightarrow> Inl malformed
      | InnerList items ps \<Rightarrow>
          bindE (mapE (component_of L) items) (\<lambda>components.
            if \<not> list_all param_type_ok ps then Inl malformed
            else (case serialize_inner L items ps of
                None \<Rightarrow> Inl SerializeError
              | Some t \<Rightarrow> Inr \<lparr>si_label = label, si_components = components, signatureParamsValue = t,
                  si_params = \<lparr>p_created = integer_param ps (js ''created''), p_expires = integer_param ps (js ''expires''),
                    p_nonce = string_param ps (js ''nonce''), p_keyid = string_param ps (js ''keyid''),
                    p_alg = string_param ps (js ''alg''), p_tag = string_param ps (js ''tag'')\<rparr>\<rparr>)))"

definition parseSignatureInput :: "sh_library \<Rightarrow> jsstr \<Rightarrow> jsstr option \<Rightarrow> sig_error + parsed_signature_input" where
  "parseSignatureInput L headerValue expectedLabel =
     bindE (rejectDuplicateDictionaryKeys headerValue) (\<lambda>_.
       case parse_dictionary L headerValue of
         None \<Rightarrow> Inl malformed
       | Some [] \<Rightarrow> Inl malformed
       | Some (m # dict) \<Rightarrow>
           let label = (case expectedLabel of Some l \<Rightarrow> l
                        | None \<Rightarrow> if map_of (m # dict) (js ''sig1'') \<noteq> None then js ''sig1'' else fst m) in
           (case map_of (m # dict) label of
              None \<Rightarrow> Inl malformed
            | Some entry \<Rightarrow> parseSignatureInputMember L label entry))"

text \<open>
  The byte sequence of a label, by the code's regular expression: at the start of the header or
  after a comma and white space.  A label is a dictionary key, which starts with no white space.
\<close>

definition bytes_at :: "jsstr \<Rightarrow> jsstr \<Rightarrow> jsstr option" where
  "bytes_at label s =
     (if \<not> starts_with label s then None
      else case dropWhile js_space (drop (length label) s) of
        [] \<Rightarrow> None
      | c # cs \<Rightarrow>
          if c \<noteq> 0x3d then None
          else case dropWhile js_space cs of
            [] \<Rightarrow> None
          | d # ds \<Rightarrow>
              if d = 0x3a \<and> takeWhile (\<lambda>w. w \<noteq> 0x3a) ds \<noteq> [] \<and> 0x3a \<in> set ds
              then Some (takeWhile (\<lambda>w. w \<noteq> 0x3a) ds) else None)"

fun label_bytes :: "jsstr \<Rightarrow> bool \<Rightarrow> jsstr \<Rightarrow> jsstr option" where
  "label_bytes label start [] = (if start then bytes_at label [] else None)"
| "label_bytes label start (c # cs) =
     (case (if start then bytes_at label (c # cs) else None) of
        Some b \<Rightarrow> Some b
      | None \<Rightarrow>
          (case (if c = 0x2c then bytes_at label (dropWhile js_space cs) else None) of
             Some b \<Rightarrow> Some b
           | None \<Rightarrow> label_bytes label False cs))"

definition parseSignature :: "sh_library \<Rightarrow> jsstr \<Rightarrow> jsstr \<Rightarrow> sf_encoding \<Rightarrow> sig_error + 8 word list" where
  "parseSignature L headerValue expectedLabel encoding =
     bindE (rejectDuplicateDictionaryKeys headerValue) (\<lambda>_.
       case label_bytes expectedLabel True headerValue of
         None \<Rightarrow> Inl malformed
       | Some rawBytes \<Rightarrow>
           if encoding = Rfc8941Base64 \<and> \<not> isPaddedStandardBase64 rawBytes then Inl malformed
           else if encoding = LegacyBase64url \<and> \<not> isBase64url rawBytes then Inl malformed
           else bindE (if encoding = Rfc8941Base64 then Inr headerValue else normalizeByteSequenceBase64 headerValue)
             (\<lambda>text. case parse_dictionary L text of
                None \<Rightarrow> Inl malformed
              | Some dict \<Rightarrow>
                  (case map_of dict expectedLabel of
                     Some (SingleItem (BareBytes bytes) _) \<Rightarrow> Inr bytes
                   | _ \<Rightarrow> Inl malformed)))"

section \<open>\<open>Content-Digest\<close>\<close>

text \<open>\<open>/^(?:2(?:\.|$)|3\.(?:0|1)(?:\.|-|$)|3$)/\<close> on the version without its leading v.\<close>

definition legacy_version :: "jsstr \<Rightarrow> bool" where
  "legacy_version v \<longleftrightarrow>
     v = js ''2'' \<or> starts_with (js ''2.'') v \<or> v = js ''3''
     \<or> ((starts_with (js ''3.0'') v \<or> starts_with (js ''3.1'') v)
        \<and> (drop 3 v = [] \<or> hd (drop 3 v) \<in> set (js ''.-'')))"

definition requestSigningEncodingForVersion :: "jsstr \<Rightarrow> sf_encoding" where
  "requestSigningEncodingForVersion adcpVersion =
     (let t = js_trim adcpVersion; normalized = (if starts_with (js ''v'') t then drop 1 t else t) in
      if legacy_version normalized then LegacyBase64url else Rfc8941Base64)"

record digest_platform =
  base64_decode :: "jsstr \<Rightarrow> 8 word list"
  sha256 :: "8 word list \<Rightarrow> 8 word list"

text \<open>A member \<open>sha-256=:...:\<close> at the start or after a comma or white space.\<close>

fun at_member_start :: "(jsstr \<Rightarrow> 'a option) \<Rightarrow> bool \<Rightarrow> jsstr \<Rightarrow> 'a option" where
  "at_member_start f start [] = (if start then f [] else None)"
| "at_member_start f start (c # cs) =
     (case (if start then f (c # cs) else None) of
        Some x \<Rightarrow> Some x
      | None \<Rightarrow> at_member_start f (c = 0x2c \<or> js_space c) cs)"

definition digest_token_at :: "jsstr \<Rightarrow> jsstr option" where
  "digest_token_at s =
     (let r = drop 9 s; t = takeWhile (\<lambda>w. w \<noteq> 0x3a) r in
      if starts_with (js ''sha-256=:'') s \<and> t \<noteq> [] \<and> 0x3a \<in> set r then Some t else None)"

definition contentDigestSha256Token :: "jsstr \<Rightarrow> jsstr option" where
  "contentDigestSha256Token header = at_member_start digest_token_at True header"

definition digest_base64_at :: "jsstr \<Rightarrow> jsstr option" where
  "digest_base64_at s =
     (let r = drop 9 s; u = (\<lambda>w. base64_unit w \<or> base64url_unit w);
          body = takeWhile u r; pad = takeWhile (\<lambda>w. w = 0x3d) (dropWhile u r) in
      if starts_with (js ''sha-256=:'') s \<and> body \<noteq> [] \<and> length pad \<le> 2
         \<and> starts_with [0x3a] (drop (length pad) (dropWhile u r))
      then Some (body @ pad) else None)"

definition parseContentDigest :: "sh_library \<Rightarrow> digest_platform \<Rightarrow> jsstr \<Rightarrow> 8 word list option" where
  "parseContentDigest L D header =
     (case Option.bind (parse_dictionary L header) (\<lambda>dict. map_of dict (js ''sha-256'')) of
        Some (SingleItem (BareBytes bytes) _) \<Rightarrow> Some bytes
      | _ \<Rightarrow> map_option (base64_decode D) (at_member_start digest_base64_at True header))"

definition contentDigestUsesEncoding :: "jsstr \<Rightarrow> sf_encoding \<Rightarrow> bool" where
  "contentDigestUsesEncoding header encoding =
     (case contentDigestSha256Token header of
        None \<Rightarrow> False
      | Some encoded \<Rightarrow> if encoding = LegacyBase64url then isBase64url encoded else isPaddedStandardBase64 encoded)"

definition contentDigestMatches :: "sh_library \<Rightarrow> digest_platform \<Rightarrow> jsstr \<Rightarrow> jsstr \<Rightarrow> bool" where
  "contentDigestMatches L D header body =
     (case parseContentDigest L D header of
        None \<Rightarrow> False
      | Some expected \<Rightarrow>
          let actual = sha256 D (text_encode body) in
          if length expected \<noteq> length actual then False else expected = actual)"

end
