(* ===== verification/RequestBody.thy ===== *)
theory RequestBody
  imports JsText Rfc3986
begin

text \<open>
  What the verifier reads in a request body: the scanner that refuses duplicate keys
  (\<open>src/lib/signing/agent-resolver/strict-json.ts\<close>), the search for webhook credentials
  (\<open>webhook-auth-detection.ts\<close>) and the operation a body resolves to (\<open>operation-resolution.ts\<close>).
  The parser behind the scanner (the package \<open>secure-json-parse\<close>) is an argument.  A JSON value is a
  \<open>jsval\<close>; the values a parser returns are built from its first six constructors.
\<close>

section \<open>Strict JSON\<close>

datatype strict_json_error = InvalidJson | DuplicateKey | ForbiddenPrototype

definition hex_unit :: "jsstr \<Rightarrow> 16 word" where
  "hex_unit h = of_nat (foldl (\<lambda>n d. 16 * n + hex_digit_value d) 0 h)"

definition consE :: "'a \<Rightarrow> 'e + 'a list \<times> 'b \<Rightarrow> 'e + 'a list \<times> 'b" where
  "consE x r = bindE r (\<lambda>(xs, rest). Inr (x # xs, rest))"

text \<open>The string after its opening quote: its value and the text after its closing quote.\<close>

function readString :: "jsstr \<Rightarrow> strict_json_error + jsstr \<times> jsstr" where
  "readString [] = Inl InvalidJson"
| "readString (ch # cs) =
     (if ch = 0x22 then Inr ([], cs)
      else if unat ch < 0x20 then Inl InvalidJson
      else if ch = 0x5c then
        (case cs of
           [] \<Rightarrow> Inl InvalidJson
         | nxt # r \<Rightarrow>
             if nxt = 0x22 \<or> nxt = 0x5c \<or> nxt = 0x2f then consE nxt (readString r)
             else if nxt = 0x62 then consE 8 (readString r)
             else if nxt = 0x66 then consE 12 (readString r)
             else if nxt = 0x6e then consE 10 (readString r)
             else if nxt = 0x72 then consE 13 (readString r)
             else if nxt = 0x74 then consE 9 (readString r)
             else if nxt = 0x75 then
               (if length (take 4 r) \<noteq> 4 \<or> \<not> list_all hex_digit (take 4 r) then Inl InvalidJson
                else consE (hex_unit (take 4 r)) (readString (drop 4 r)))
             else Inl InvalidJson)
      else consE ch (readString cs))"
  by pat_completeness auto
termination by (relation "measure length") auto

declare readString.simps(2) [simp del]

lemma consE_Inr: "consE x r = Inr (ys, rest) \<longleftrightarrow> (\<exists>xs. r = Inr (xs, rest) \<and> ys = x # xs)"
  by (cases r) (auto simp: consE_def)

lemma readString_length: "readString s = Inr (v, r) \<Longrightarrow> length r < length s"
proof (induction "length s" arbitrary: s v rule: less_induct)
  case less
  then obtain ch cs where s: "s = ch # cs" by (cases s) auto
  have rec: "readString t = Inr (v', r) \<Longrightarrow> length t \<le> length cs \<Longrightarrow> length r < length s" for t v'
    using less.hyps [of t v'] s by simp
  show ?case
  proof (cases "ch = 0x5c")
    case True
    then obtain nxt rest where cs: "cs = nxt # rest"
      using less.prems s by (cases cs) (auto simp: readString.simps(2))
    have "\<exists>t v'. readString t = Inr (v', r) \<and> length t \<le> length rest"
      using less.prems True s cs by (auto simp: readString.simps(2) consE_Inr split: if_splits)
    then show ?thesis using rec cs by fastforce
  next
    case False
    then have "cs = r \<or> (\<exists>v'. readString cs = Inr (v', r))"
      using less.prems s by (auto simp: readString.simps(2) consE_Inr split: if_splits)
    then show ?thesis using rec s by auto
  qed
qed

text \<open>
  The walk over the whole text, with the stack of open scopes and whether the next string at an
  object scope is a member name.
\<close>

datatype json_scope = ObjectScope "jsstr list" | ArrayScope

definition json_ws :: "16 word \<Rightarrow> bool" where
  "json_ws w \<longleftrightarrow> w = 0x20 \<or> w = 9 \<or> w = 10 \<or> w = 13"

definition primitive_end :: "16 word \<Rightarrow> bool" where
  "primitive_end w \<longleftrightarrow> w = 0x2c \<or> w = 0x7d \<or> w = 0x5d \<or> json_ws w"

definition too_deep :: "nat option \<Rightarrow> json_scope list \<Rightarrow> bool" where
  "too_deep maxDepth stack = (case maxDepth of None \<Rightarrow> False | Some d \<Rightarrow> length stack \<ge> d)"

definition top_is_object :: "json_scope list \<Rightarrow> bool" where
  "top_is_object stack = (case stack of ObjectScope _ # _ \<Rightarrow> True | _ \<Rightarrow> False)"

text \<open>A member name seen at the innermost scope.\<close>

definition note_key :: "jsstr \<Rightarrow> json_scope list \<Rightarrow> strict_json_error + json_scope list" where
  "note_key k stack =
     (case stack of
        ObjectScope keys # rest \<Rightarrow> if k \<in> set keys then Inl DuplicateKey else Inr (ObjectScope (k # keys) # rest)
      | _ \<Rightarrow> Inr stack)"

function scan_json :: "nat option \<Rightarrow> json_scope list \<Rightarrow> bool \<Rightarrow> jsstr \<Rightarrow> strict_json_error + unit" where
  "scan_json maxDepth stack expectingKey [] = Inr ()"
| "scan_json maxDepth stack expectingKey (ch # cs) =
     (if json_ws ch then scan_json maxDepth stack expectingKey cs
      else if ch = 0x7b then
        (if too_deep maxDepth stack then Inl InvalidJson else scan_json maxDepth (ObjectScope [] # stack) True cs)
      else if ch = 0x7d then scan_json maxDepth (tl stack) False cs
      else if ch = 0x5b then
        (if too_deep maxDepth stack then Inl InvalidJson else scan_json maxDepth (ArrayScope # stack) False cs)
      else if ch = 0x5d then scan_json maxDepth (tl stack) False cs
      else if ch = 0x2c then scan_json maxDepth stack (top_is_object stack) cs
      else if ch = 0x3a then scan_json maxDepth stack False cs
      else if ch = 0x22 then
        (case readString cs of
           Inl e \<Rightarrow> Inl e
         | Inr (v, r) \<Rightarrow>
             (case (if expectingKey then note_key v stack else Inr stack) of
                Inl e \<Rightarrow> Inl e
              | Inr stack' \<Rightarrow> scan_json maxDepth stack' expectingKey r))
      else scan_json maxDepth stack expectingKey (dropWhile (\<lambda>w. \<not> primitive_end w) cs))"
  by pat_completeness auto
termination
  by (relation "measure (\<lambda>(_, _, _, s). length s)")
    (auto dest: readString_length simp: length_dropWhile_le less_Suc_eq_le)

declare scan_json.simps(2) [simp del]

definition rejectDuplicateJsonKeys :: "nat option \<Rightarrow> jsstr \<Rightarrow> strict_json_error + unit" where
  "rejectDuplicateJsonKeys maxDepth text = scan_json maxDepth [] False text"

definition parseStrictJson ::
    "(jsstr \<Rightarrow> strict_json_error + 'n jsval) \<Rightarrow> nat option \<Rightarrow> jsstr \<Rightarrow> strict_json_error + 'n jsval" where
  "parseStrictJson sjp maxDepth text = bindE (rejectDuplicateJsonKeys maxDepth text) (\<lambda>_. sjp text)"

section \<open>Webhook credentials\<close>

definition WEBHOOK_AUTH_TRAVERSAL_DEPTH :: nat where "WEBHOOK_AUTH_TRAVERSAL_DEPTH = 64"

definition hasNonEmptyAuthenticationObject :: "'n jsval option \<Rightarrow> bool" where
  "hasNonEmptyAuthenticationObject v = (case v of Some (JObj ms) \<Rightarrow> ms \<noteq> [] | _ \<Rightarrow> False)"

fun containsWebhookAuthentication :: "nat \<Rightarrow> 'n jsval \<Rightarrow> bool" where
  "containsWebhookAuthentication 0 v = True"
| "containsWebhookAuthentication (Suc d) v =
     (case v of
        JArr xs \<Rightarrow> list_ex (containsWebhookAuthentication d) xs
      | JObj ms \<Rightarrow>
          hasNonEmptyAuthenticationObject (map_of ms (js ''authentication''))
          \<or> list_ex (\<lambda>m. fst m \<noteq> js ''authentication'' \<and> containsWebhookAuthentication d (snd m)) ms
      | _ \<Rightarrow> False)"

section \<open>The operation of a request\<close>

datatype operation_resolution = Operation jsstr | NoOperation | Unresolvable

record operation_input =
  rawBody :: "jsstr option"
  op_method :: "jsstr option"
  op_url :: "jsstr option"

definition A2A_MESSAGE_METHODS :: "jsstr list" where
  "A2A_MESSAGE_METHODS = [js ''SendMessage'', js ''SendStreamingMessage'', js ''message/send'', js ''message/stream'']"

definition CONTENT_MEMBERS :: "jsstr list" where
  "CONTENT_MEMBERS = [js ''text'', js ''data'', js ''raw'', js ''url'', js ''file'']"

definition FILE_MEMBERS :: "jsstr list" where
  "FILE_MEMBERS = [js ''raw'', js ''url'', js ''file'']"

definition hasCaseVariantMember :: "(jsstr \<Rightarrow> jsstr) \<Rightarrow> (jsstr \<times> 'v) list \<Rightarrow> jsstr list \<Rightarrow> bool" where
  "hasCaseVariantMember lower ms recognized =
     list_ex (\<lambda>m. list_ex (\<lambda>name. lower name = lower (fst m) \<and> name \<noteq> fst m) recognized) ms"

definition plain_object :: "'n jsval option \<Rightarrow> (jsstr \<times> 'n jsval) list option" where
  "plain_object v = (case v of Some (JObj ms) \<Rightarrow> Some ms | _ \<Rightarrow> None)"

text \<open>A part of a message: its data when it is the invocation, nothing when it is another part.\<close>

definition part_invocation ::
    "(jsstr \<Rightarrow> jsstr) \<Rightarrow> bool \<Rightarrow> 'n jsval \<Rightarrow> unit + (jsstr \<times> 'n jsval) list option" where
  "part_invocation lower already part =
     (case plain_object (Some part) of
        None \<Rightarrow> Inl ()
      | Some ms \<Rightarrow>
          if hasCaseVariantMember lower ms (CONTENT_MEMBERS @ [js ''kind'']) then Inl ()
          else (case filter (\<lambda>k. map_of ms k \<noteq> None) CONTENT_MEMBERS of
              [member] \<Rightarrow>
                if member \<in> set FILE_MEMBERS then Inl ()
                else if (case map_of ms (js ''kind'') of None \<Rightarrow> False | Some (JStr k) \<Rightarrow> k \<noteq> member | Some _ \<Rightarrow> True)
                then Inl ()
                else if member = js ''data'' then
                  (if already then Inl ()
                   else (case plain_object (map_of ms (js ''data'')) of None \<Rightarrow> Inl () | Some d \<Rightarrow> Inr (Some d)))
                else Inr None
            | _ \<Rightarrow> Inl ()))"

fun parts_invocation ::
    "(jsstr \<Rightarrow> jsstr) \<Rightarrow> (jsstr \<times> 'n jsval) list option \<Rightarrow> 'n jsval list \<Rightarrow> unit + (jsstr \<times> 'n jsval) list option" where
  "parts_invocation lower invoked [] = Inr invoked"
| "parts_invocation lower invoked (p # ps) =
     bindE (part_invocation lower (invoked \<noteq> None) p) (\<lambda>found.
       parts_invocation lower (case found of None \<Rightarrow> invoked | Some d \<Rightarrow> Some d) ps)"

definition nonempty_string :: "'n jsval option \<Rightarrow> jsstr option" where
  "nonempty_string v = (case v of Some (JStr s) \<Rightarrow> if s = [] then None else Some s | _ \<Rightarrow> None)"

definition resolveMessageCarrier :: "(jsstr \<Rightarrow> jsstr) \<Rightarrow> (jsstr \<times> 'n jsval) list \<Rightarrow> operation_resolution" where
  "resolveMessageCarrier lower container =
     (if hasCaseVariantMember lower container [js ''message''] then Unresolvable
      else case plain_object (map_of container (js ''message'')) of
        None \<Rightarrow> Unresolvable
      | Some message \<Rightarrow>
          if hasCaseVariantMember lower message [js ''parts'', js ''taskId''] then Unresolvable
          else (case map_of message (js ''parts'') of
              Some (JArr parts) \<Rightarrow>
                (case parts_invocation lower None parts of
                   Inl _ \<Rightarrow> Unresolvable
                 | Inr None \<Rightarrow> Unresolvable
                 | Inr (Some invocation) \<Rightarrow>
                     if hasCaseVariantMember lower invocation [js ''skill''] then Unresolvable
                     else (case nonempty_string (map_of invocation (js ''skill'')) of
                         None \<Rightarrow> Unresolvable
                       | Some skill \<Rightarrow> Operation skill))
            | _ \<Rightarrow> Unresolvable))"

definition isJsonRpcResponse :: "(jsstr \<times> 'v) list \<Rightarrow> bool" where
  "isJsonRpcResponse body \<longleftrightarrow>
     (map_of body (js ''result'') \<noteq> None \<or> map_of body (js ''error'') \<noteq> None) \<and> map_of body (js ''params'') = None"

text \<open>\<open>/(?:^|\/)message:(?:send|stream)$/\<close> on the URL before its query or fragment.\<close>

definition isHttpJsonMessagePath :: "jsstr option \<Rightarrow> bool" where
  "isHttpJsonMessagePath url =
     (case url of
        None \<Rightarrow> False
      | Some u \<Rightarrow>
          let path = takeWhile (\<lambda>w. w \<noteq> 0x3f \<and> w \<noteq> 0x23) u; seg = after_last 0x2f path in
          seg = js ''message:send'' \<or> seg = js ''message:stream'')"

definition resolveRequestOperationDetailed ::
    "(jsstr \<Rightarrow> jsstr) \<Rightarrow> (jsstr \<Rightarrow> jsstr) \<Rightarrow> (jsstr \<Rightarrow> strict_json_error + 'n jsval) \<Rightarrow> operation_input
      \<Rightarrow> operation_resolution" where
  "resolveRequestOperationDetailed lower upper sjp input =
     (if (case op_method input of None \<Rightarrow> False | Some m \<Rightarrow> upper m \<noteq> js ''POST'') then NoOperation
      else case rawBody input of
        None \<Rightarrow> Unresolvable
      | Some raw \<Rightarrow>
          if js_trim raw = [] then Unresolvable
          else if hd raw = 0xfeff then Unresolvable
          else (case parseStrictJson sjp None raw of
              Inr (JObj body) \<Rightarrow>
                if isHttpJsonMessagePath (op_url input) then resolveMessageCarrier lower body
                else if hasCaseVariantMember lower body [js ''method'', js ''params''] then Unresolvable
                else if map_of body (js ''method'') = None \<and> isJsonRpcResponse body then NoOperation
                else (case map_of body (js ''method'') of
                    Some (JStr meth) \<Rightarrow>
                      if meth = js ''tools/call'' then
                        (case plain_object (map_of body (js ''params'')) of
                           None \<Rightarrow> Unresolvable
                         | Some params \<Rightarrow>
                             if hasCaseVariantMember lower params [js ''name''] then Unresolvable
                             else (case nonempty_string (map_of params (js ''name'')) of
                                 None \<Rightarrow> Unresolvable
                               | Some name \<Rightarrow> Operation name))
                      else if meth \<in> set A2A_MESSAGE_METHODS then
                        (case plain_object (map_of body (js ''params'')) of
                           None \<Rightarrow> Unresolvable
                         | Some params \<Rightarrow> resolveMessageCarrier lower params)
                      else NoOperation
                  | _ \<Rightarrow> Unresolvable)
            | _ \<Rightarrow> Unresolvable))"

section \<open>JSON texts\<close>

text \<open>
  The reference for the scanner: trees with all their members, in order and with repetitions, the
  tokens of a tree, and the texts that consist of given tokens with any white space between them
  and any of the escapes JSON allows in strings.
\<close>

datatype json_tree = PrimTree | TextTree jsstr | ArrTree "json_tree list" | ObjTree "(jsstr \<times> json_tree) list"

datatype json_token =
  TokObj | TokEndObj | TokArr | TokEndArr | TokComma | TokColon | TokStr jsstr | TokPrim

fun sep_tokens :: "json_token list list \<Rightarrow> json_token list" where
  "sep_tokens [] = []"
| "sep_tokens [ts] = ts"
| "sep_tokens (ts # us # uss) = ts @ TokComma # sep_tokens (us # uss)"

fun tokens :: "json_tree \<Rightarrow> json_token list" where
  "tokens PrimTree = [TokPrim]"
| "tokens (TextTree v) = [TokStr v]"
| "tokens (ArrTree xs) = TokArr # sep_tokens (map tokens xs) @ [TokEndArr]"
| "tokens (ObjTree ms) = TokObj # sep_tokens (map (\<lambda>m. TokStr (fst m) # TokColon # tokens (snd m)) ms) @ [TokEndObj]"

fun distinct_keys :: "json_tree \<Rightarrow> bool" where
  "distinct_keys (ArrTree xs) = list_all distinct_keys xs"
| "distinct_keys (ObjTree ms) = (distinct (map fst ms) \<and> list_all (\<lambda>m. distinct_keys (snd m)) ms)"
| "distinct_keys _ = True"

definition short_escapes :: "(16 word \<times> 16 word) list" where
  "short_escapes = [(0x22, 0x22), (0x5c, 0x5c), (0x2f, 0x2f), (0x62, 8), (0x66, 12), (0x6e, 10), (0x72, 13), (0x74, 9)]"

inductive unit_text :: "16 word \<Rightarrow> jsstr \<Rightarrow> bool" where
  plain: "0x20 \<le> unat c \<Longrightarrow> c \<noteq> 0x22 \<Longrightarrow> c \<noteq> 0x5c \<Longrightarrow> unit_text c [c]"
| short: "(e, c) \<in> set short_escapes \<Longrightarrow> unit_text c [0x5c, e]"
| hex: "length h = 4 \<Longrightarrow> list_all hex_digit h \<Longrightarrow> unit_text (hex_unit h) (0x5c # 0x75 # h)"

inductive string_text :: "jsstr \<Rightarrow> jsstr \<Rightarrow> bool" where
  empty: "string_text [] []"
| unit: "unit_text c u \<Longrightarrow> string_text v t \<Longrightarrow> string_text (c # v) (u @ t)"

definition primitive_start :: "16 word \<Rightarrow> bool" where
  "primitive_start w \<longleftrightarrow> \<not> json_ws w \<and> w \<notin> set (js ''{}[],:'') \<and> w \<noteq> 0x22"

inductive json_lex :: "jsstr \<Rightarrow> json_token list \<Rightarrow> bool" where
  lex_end: "json_lex [] []"
| lex_ws: "json_ws c \<Longrightarrow> json_lex s ts \<Longrightarrow> json_lex (c # s) ts"
| lex_obj: "json_lex s ts \<Longrightarrow> json_lex (0x7b # s) (TokObj # ts)"
| lex_end_obj: "json_lex s ts \<Longrightarrow> json_lex (0x7d # s) (TokEndObj # ts)"
| lex_arr: "json_lex s ts \<Longrightarrow> json_lex (0x5b # s) (TokArr # ts)"
| lex_end_arr: "json_lex s ts \<Longrightarrow> json_lex (0x5d # s) (TokEndArr # ts)"
| lex_comma: "json_lex s ts \<Longrightarrow> json_lex (0x2c # s) (TokComma # ts)"
| lex_colon: "json_lex s ts \<Longrightarrow> json_lex (0x3a # s) (TokColon # ts)"
| lex_str: "string_text v t \<Longrightarrow> json_lex s ts \<Longrightarrow> json_lex (0x22 # t @ 0x22 # s) (TokStr v # ts)"
| lex_prim: "primitive_start c \<Longrightarrow> list_all (\<lambda>w. \<not> primitive_end w) p \<Longrightarrow> json_lex s ts
    \<Longrightarrow> s = [] \<or> primitive_end (hd s) \<Longrightarrow> json_lex (c # p @ s) (TokPrim # ts)"

definition json_text_of :: "json_tree \<Rightarrow> jsstr \<Rightarrow> bool" where
  "json_text_of t s \<longleftrightarrow> json_lex s (tokens t)"

lemma readString_unit: "unit_text c u \<Longrightarrow> readString (u @ t) = consE c (readString t)"
proof (induction rule: unit_text.induct)
  case (plain c)
  then show ?case by (simp add: readString.simps(2) word_less_nat_alt)
next
  case (short e c)
  then show ?case by (auto simp: short_escapes_def readString.simps(2))
next
  case (hex h)
  then show ?case by (simp add: readString.simps(2))
qed

lemma readString_text: "string_text v t \<Longrightarrow> readString (t @ 0x22 # s) = Inr (v, s)"
proof (induction rule: string_text.induct)
  case (unit c u v t)
  then show ?case by (simp add: readString_unit consE_def)
qed (simp add: readString.simps(2))

text \<open>The walk as a run over tokens.\<close>

fun step_token :: "json_token \<Rightarrow> json_scope list \<times> bool \<Rightarrow> strict_json_error + json_scope list \<times> bool" where
  "step_token TokObj (st, ek) = Inr (ObjectScope [] # st, True)"
| "step_token TokArr (st, ek) = Inr (ArrayScope # st, False)"
| "step_token TokEndObj (st, ek) = Inr (tl st, False)"
| "step_token TokEndArr (st, ek) = Inr (tl st, False)"
| "step_token TokComma (st, ek) = Inr (st, top_is_object st)"
| "step_token TokColon (st, ek) = Inr (st, False)"
| "step_token (TokStr v) (st, ek) = bindE (if ek then note_key v st else Inr st) (\<lambda>st'. Inr (st', ek))"
| "step_token TokPrim (st, ek) = Inr (st, ek)"

fun run_tokens :: "json_token list \<Rightarrow> json_scope list \<times> bool \<Rightarrow> strict_json_error + json_scope list \<times> bool" where
  "run_tokens [] x = Inr x"
| "run_tokens (t # ts) x = bindE (step_token t x) (run_tokens ts)"

lemma run_tokens_append: "run_tokens (xs @ ys) x = bindE (run_tokens xs x) (run_tokens ys)"
proof (induction xs arbitrary: x)
  case (Cons t xs)
  then show ?case by (cases "step_token t x") simp_all
qed simp

lemma scan_is_run: "json_lex s ts \<Longrightarrow> scan_json None st ek s = bindE (run_tokens ts (st, ek)) (\<lambda>_. Inr ())"
proof (induction arbitrary: st ek rule: json_lex.induct)
  case (lex_str v t s ts)
  then show ?case
    by (cases "if ek then note_key v st else Inr st")
      (simp_all add: scan_json.simps(2) readString_text json_ws_def)
next
  case (lex_prim c p s ts)
  have "dropWhile (\<lambda>w. \<not> primitive_end w) (p @ s) = s"
    using lex_prim.hyps(2,4) by (cases s) (auto simp: dropWhile_append2 list_all_iff)
  then show ?case
    using lex_prim by (simp add: scan_json.simps(2) primitive_start_def js_def)
qed (simp_all add: scan_json.simps(2) too_deep_def json_ws_def)

lemma sep_tokens_Cons: "sep_tokens (ts # uss) = ts @ (if uss = [] then [] else TokComma # sep_tokens uss)"
  by (cases uss) simp_all

lemma run_array:
  assumes "\<And>x. x \<in> set xs \<Longrightarrow>
      run_tokens (tokens x) (ArrayScope # st, False) = (if distinct_keys x then Inr (ArrayScope # st, False) else Inl DuplicateKey)"
  shows "run_tokens (sep_tokens (map tokens xs)) (ArrayScope # st, False)
    = (if list_all distinct_keys xs then Inr (ArrayScope # st, False) else Inl DuplicateKey)"
  using assms
proof (induction xs)
  case (Cons x xs)
  then show ?case by (simp add: sep_tokens_Cons run_tokens_append top_is_object_def)
qed simp

lemma run_members:
  assumes "\<And>m st. m \<in> set ms \<Longrightarrow>
      run_tokens (tokens (snd m)) (st, False) = (if distinct_keys (snd m) then Inr (st, False) else Inl DuplicateKey)"
  shows "run_tokens (sep_tokens (map (\<lambda>m. TokStr (fst m) # TokColon # tokens (snd m)) ms)) (ObjectScope ks # st, True)
    = (if distinct (map fst ms) \<and> set (map fst ms) \<inter> set ks = {} \<and> list_all (\<lambda>m. distinct_keys (snd m)) ms
       then Inr (ObjectScope (rev (map fst ms) @ ks) # st, ms = []) else Inl DuplicateKey)"
  using assms
proof (induction ms arbitrary: ks)
  case (Cons m ms)
  then show ?case
    by (auto simp: sep_tokens_Cons run_tokens_append top_is_object_def note_key_def)
qed simp

lemma run_tree:
  "run_tokens (tokens t) (st, False) = (if distinct_keys t then Inr (st, False) else Inl DuplicateKey)"
proof (induction t arbitrary: st)
  case (ArrTree xs)
  then show ?case using run_array [of xs st] by (simp add: run_tokens_append)
next
  case (ObjTree ms)
  have "run_tokens (tokens (snd m)) (st', False) = (if distinct_keys (snd m) then Inr (st', False) else Inl DuplicateKey)"
    if "m \<in> set ms" for m st' using ObjTree that by (metis prod.collapse snds.intros)
  then show ?case using run_members [of ms "[]" st] by (simp add: run_tokens_append)
qed simp_all

lemma scan_tree:
  "json_text_of t s \<Longrightarrow> rejectDuplicateJsonKeys None s = (if distinct_keys t then Inr () else Inl DuplicateKey)"
  using scan_is_run [of s "tokens t" "[]" False]
  by (simp add: json_text_of_def rejectDuplicateJsonKeys_def run_tree)

section \<open>Webhook credentials without a budget\<close>

text \<open>The search with no limit on its depth, and how deep the value is where the search goes.\<close>

fun carries_credentials :: "'n jsval \<Rightarrow> bool" where
  "carries_credentials (JArr xs) = list_ex carries_credentials xs"
| "carries_credentials (JObj ms) =
     (hasNonEmptyAuthenticationObject (map_of ms (js ''authentication''))
      \<or> list_ex (\<lambda>m. fst m \<noteq> js ''authentication'' \<and> carries_credentials (snd m)) ms)"
| "carries_credentials _ = False"

fun searched_depth :: "'n jsval \<Rightarrow> nat" where
  "searched_depth (JArr xs) = foldr max (map (\<lambda>x. Suc (searched_depth x)) xs) 0"
| "searched_depth (JObj ms) =
     foldr max (map (\<lambda>m. if fst m = js ''authentication'' then 0 else Suc (searched_depth (snd m))) ms) 0"
| "searched_depth _ = 0"

lemma foldr_max_ge: "n \<le> foldr max xs (0 :: nat) \<longleftrightarrow> n = 0 \<or> (\<exists>x \<in> set xs. n \<le> x)"
  by (induction xs) (auto simp: le_max_iff_disj)

lemma containsWebhookAuthentication_iff:
  "containsWebhookAuthentication d v \<longleftrightarrow> carries_credentials v \<or> d \<le> searched_depth v"
proof (induction d v rule: containsWebhookAuthentication.induct)
  case (2 d v)
  show ?case
  proof (cases v)
    case (JArr xs)
    have "containsWebhookAuthentication d x \<longleftrightarrow> carries_credentials x \<or> d \<le> searched_depth x" if "x \<in> set xs" for x
      using "2.IH"(1) [OF JArr that] .
    then show ?thesis using JArr by (auto simp: list_ex_iff foldr_max_ge)
  next
    case (JObj ms)
    have "containsWebhookAuthentication d (snd m) \<longleftrightarrow> carries_credentials (snd m) \<or> d \<le> searched_depth (snd m)"
      if "m \<in> set ms" for m
      using "2.IH"(2) [OF JObj] that by (cases m) fastforce
    then show ?thesis
      using JObj by (auto simp: list_ex_iff foldr_max_ge split: if_splits)
  qed simp_all
qed simp

section \<open>Where an operation comes from\<close>

lemma nonempty_string_Some: "nonempty_string v = Some s \<longleftrightarrow> v = Some (JStr s) \<and> s \<noteq> []"
  by (auto simp: nonempty_string_def split: option.splits jsval.splits)

lemma plain_object_Some: "plain_object v = Some ms \<longleftrightarrow> v = Some (JObj ms)"
  by (auto simp: plain_object_def split: option.splits jsval.splits)

text \<open>The parts that carry data.\<close>

definition data_parts :: "'n jsval list \<Rightarrow> (jsstr \<times> 'n jsval) list list" where
  "data_parts parts = concat (map (\<lambda>p. case p of
     JObj ms \<Rightarrow> (case map_of ms (js ''data'') of Some (JObj d) \<Rightarrow> [d] | _ \<Rightarrow> []) | _ \<Rightarrow> []) parts)"

lemma part_data:
  assumes "part_invocation lower a p = Inr found"
  shows "data_parts [p] = (case found of None \<Rightarrow> [] | Some d \<Rightarrow> [d]) \<and> (found \<noteq> None \<longrightarrow> \<not> a)"
proof -
  note d = assms [unfolded part_invocation_def]
  obtain ms where p: "p = JObj ms" using d by (cases p) (simp_all add: plain_object_def)
  note d1 = d [unfolded p plain_object_def option.case jsval.case]
  have nv: "hasCaseVariantMember lower ms (CONTENT_MEMBERS @ [js ''kind'']) = False" using d1 by (auto split: if_splits)
  note d2 = d1 [unfolded nv if_False]
  obtain member where m: "filter (\<lambda>k. map_of ms k \<noteq> None) CONTENT_MEMBERS = [member]"
    using d2 by (cases "filter (\<lambda>k. map_of ms k \<noteq> None) CONTENT_MEMBERS";
      cases "tl (filter (\<lambda>k. map_of ms k \<noteq> None) CONTENT_MEMBERS)") simp_all
  note d3 = d2 [unfolded m list.case]
  have only: "map_of ms (js ''data'') \<noteq> None \<longleftrightarrow> member = js ''data''"
  proof -
    have "js ''data'' \<in> set CONTENT_MEMBERS" by (simp add: CONTENT_MEMBERS_def)
    then have "map_of ms (js ''data'') \<noteq> None \<longleftrightarrow> js ''data'' \<in> set (filter (\<lambda>k. map_of ms k \<noteq> None) CONTENT_MEMBERS)"
      unfolding set_filter by blast
    then show ?thesis unfolding m by (metis empty_iff empty_set set_ConsD list.set_intros(1))
  qed
  show ?thesis
  proof (cases "member = js ''data''")
    case True
    then obtain v where v: "map_of ms (js ''data'') = Some v" using only by auto
    obtain d where "v = JObj d" "found = Some d" "\<not> a"
      using d3 True v by (cases v) (simp_all split: if_splits)
    then show ?thesis using p v by (simp add: data_parts_def)
  next
    case False
    then have "found = None" using d3 by (simp split: if_splits)
    moreover have "map_of ms (js ''data'') = None" using only False by blast
    ultimately show ?thesis using p by (simp add: data_parts_def)
  qed
qed

lemma parts_data:
  "parts_invocation lower a parts = Inr r
   \<Longrightarrow> (case a of None \<Rightarrow> [] | Some d \<Rightarrow> [d]) @ data_parts parts = (case r of None \<Rightarrow> [] | Some d \<Rightarrow> [d])"
proof (induction parts arbitrary: a)
  case (Cons p ps)
  obtain found where f: "part_invocation lower (a \<noteq> None) p = Inr found"
      "parts_invocation lower (case found of None \<Rightarrow> a | Some d \<Rightarrow> Some d) ps = Inr r"
    using Cons.prems by (auto simp: bindE_eq_Inr_iff)
  have d: "data_parts (p # ps) = data_parts [p] @ data_parts ps" by (simp add: data_parts_def)
  show ?case
    unfolding d using part_data [OF f(1)] Cons.IH [OF f(2)] by (auto split: option.splits)
qed (auto simp: data_parts_def split: option.splits)

definition invocation_of :: "(jsstr \<times> 'n jsval) list \<Rightarrow> jsstr \<Rightarrow> bool" where
  "invocation_of container skill \<longleftrightarrow>
     (\<exists>message parts d. map_of container (js ''message'') = Some (JObj message)
        \<and> map_of message (js ''parts'') = Some (JArr parts) \<and> data_parts parts = [d]
        \<and> map_of d (js ''skill'') = Some (JStr skill))"

lemma carrier_operation:
  "resolveMessageCarrier lower container = Operation skill \<Longrightarrow> invocation_of container skill \<and> skill \<noteq> []"
proof -
  assume r: "resolveMessageCarrier lower container = Operation skill"
  obtain message where m: "plain_object (map_of container (js ''message'')) = Some message"
    using r by (cases "plain_object (map_of container (js ''message''))")
      (simp_all add: resolveMessageCarrier_def split: if_splits)
  have np: "hasCaseVariantMember lower container [js ''message''] = False"
      "hasCaseVariantMember lower message [js ''parts'', js ''taskId''] = False"
    using r m by (auto simp: resolveMessageCarrier_def split: if_splits)
  note rc = resolveMessageCarrier_def [of lower container, unfolded m np if_False option.case]
  obtain v where v: "map_of message (js ''parts'') = Some v"
    using r unfolding rc by (cases "map_of message (js ''parts'')") simp_all
  obtain parts where p: "map_of message (js ''parts'') = Some (JArr parts)"
    using r v unfolding rc by (cases v) simp_all
  note rp = rc [unfolded p option.case jsval.case]
  obtain q where q: "parts_invocation lower None parts = Inr q"
    using r unfolding rp by (cases "parts_invocation lower None parts") simp_all
  obtain d where d: "parts_invocation lower None parts = Inr (Some d)"
    using r q unfolding rp by (cases q) simp_all
  have "nonempty_string (map_of d (js ''skill'')) = Some skill"
    using r unfolding rp d sum.case option.case
    by (cases "nonempty_string (map_of d (js ''skill''))") (simp_all split: if_splits)
  then show ?thesis
    using parts_data [OF d] m p by (auto simp: invocation_of_def nonempty_string_Some plain_object_Some)
qed

section \<open>Properties\<close>

text \<open>
  C18: the strict scanner refuses exactly the texts with a repeated member name.  For every JSON text (any
  white space, any escapes in strings) of a tree, the scan passes if the names in each object are
  distinct after decoding the escapes, and otherwise reports a duplicate key.
\<close>

theorem strict_json_duplicates:
  assumes "json_text_of t s"
  shows "rejectDuplicateJsonKeys None s = (if distinct_keys t then Inr () else Inl DuplicateKey)"
  by (rule scan_tree [OF assms])

definition demo_tree :: json_tree where
  "demo_tree = ObjTree [(js ''a'', PrimTree), (js ''a'', TextTree [])]"

text \<open>\<open>{"a": 1, "\u0061":""}\<close>\<close>

definition demo_text :: jsstr where
  "demo_text = js (''{\"a\": 1, \"'' @ [CHR 0x5c] @ ''u0061\":\"\"}'')"

lemma demo_text_of: "json_text_of demo_tree demo_text"
proof -
  have h: "unit_text (hex_unit (js ''0061'')) (0x5c # 0x75 # js ''0061'')"
    by (rule unit_text.hex) (simp_all add: js_def hex_digit_def)
  have "hex_unit (js ''0061'') = 0x61" by (simp add: hex_unit_def js_def hex_digit_value_def)
  then have a: "string_text [0x61] [0x5c, 0x75, 0x30, 0x30, 0x36, 0x31]" "string_text [0x61] [0x61]"
    using h string_text.unit [OF _ string_text.empty, of "0x61" "0x5c # 0x75 # js ''0061''"]
      string_text.unit [OF unit_text.plain string_text.empty, of "0x61"] by (simp_all add: js_def)
  have tail: "json_lex [0x22, 0x22, 0x7d] [TokStr [], TokEndObj]"
    using json_lex.lex_str [OF string_text.empty json_lex.lex_end_obj [OF json_lex.lex_end]] by simp
  have l1: "json_lex ([0x22, 0x5c, 0x75, 0x30, 0x30, 0x36, 0x31, 0x22, 0x3a, 0x22, 0x22, 0x7d])
      [TokStr [0x61], TokColon, TokStr [], TokEndObj]"
    using json_lex.lex_str [OF a(1) json_lex.lex_colon [OF tail]] by simp
  have l2: "json_lex ([0x2c, 0x20, 0x22, 0x5c, 0x75, 0x30, 0x30, 0x36, 0x31, 0x22, 0x3a, 0x22, 0x22, 0x7d])
      [TokComma, TokStr [0x61], TokColon, TokStr [], TokEndObj]"
    using json_lex.lex_comma [OF json_lex.lex_ws [OF _ l1, of "0x20"]] by (simp add: json_ws_def)
  have l3: "json_lex ([0x31, 0x2c, 0x20, 0x22, 0x5c, 0x75, 0x30, 0x30, 0x36, 0x31, 0x22, 0x3a, 0x22, 0x22, 0x7d])
      [TokPrim, TokComma, TokStr [0x61], TokColon, TokStr [], TokEndObj]"
    using json_lex.lex_prim [OF _ _ l2, of "0x31" "[]"]
    by (simp add: primitive_start_def primitive_end_def json_ws_def js_def)
  have l4: "json_lex ([0x3a, 0x20, 0x31, 0x2c, 0x20, 0x22, 0x5c, 0x75, 0x30, 0x30, 0x36, 0x31, 0x22, 0x3a, 0x22, 0x22, 0x7d])
      [TokColon, TokPrim, TokComma, TokStr [0x61], TokColon, TokStr [], TokEndObj]"
    using json_lex.lex_colon [OF json_lex.lex_ws [OF _ l3, of "0x20"]] by (simp add: json_ws_def)
  from json_lex.lex_obj [OF json_lex.lex_str [OF a(2) l4]]
  show ?thesis by (simp add: json_text_of_def demo_tree_def demo_text_def js_def)
qed

theorem strict_json_duplicates_witness: "rejectDuplicateJsonKeys None demo_text = Inl DuplicateKey"
  using strict_json_duplicates [OF demo_text_of] by (simp add: demo_tree_def)

text \<open>
  The search for webhook credentials is the search without a budget, except that it gives up on the
  safe side: it answers yes exactly if the value carries credentials somewhere the search goes or
  is at least 64 levels deep there.
\<close>

theorem webhook_search_exact:
  "containsWebhookAuthentication WEBHOOK_AUTH_TRAVERSAL_DEPTH v = (64 \<le> searched_depth v \<or> carries_credentials v)"
  by (auto simp: containsWebhookAuthentication_iff WEBHOOK_AUTH_TRAVERSAL_DEPTH_def)

text \<open>
  C0: credentials below an array are not seen when the array is itself the value of an \<open>authentication\<close>
  member: the search looks at such a member only for being a non-empty object and never goes into it.
\<close>

theorem credentials_below_array_missed:
  "containsWebhookAuthentication WEBHOOK_AUTH_TRAVERSAL_DEPTH
     (JObj [(js ''authentication'', JArr [JObj [(js ''authentication'', JObj [(js ''credentials'', JStr (js ''t''))])]])] :: unit jsval)
   = False"
  by (simp add: containsWebhookAuthentication_iff WEBHOOK_AUTH_TRAVERSAL_DEPTH_def hasNonEmptyAuthenticationObject_def)

text \<open>
  An operation is only ever read from an unambiguous body.  Whenever a request resolves to an operation, it
  is a POST whose body is the text of no tree with a repeated member name, and the operation is the
  name of a tools/call, or the skill of the only data part of a message.
\<close>

theorem operation_unambiguous:
  assumes "resolveRequestOperationDetailed lower upper sjp input = Operation name"
  shows "name \<noteq> [] \<and> (op_method input = None \<or> (\<exists>m. op_method input = Some m \<and> upper m = js ''POST''))
    \<and> (\<exists>raw body. rawBody input = Some raw \<and> sjp raw = Inr (JObj body)
        \<and> {t. json_text_of t raw} \<subseteq> {t. distinct_keys t}
        \<and> ((map_of body (js ''method'') = Some (JStr (js ''tools/call''))
              \<and> (\<exists>params. map_of body (js ''params'') = Some (JObj params) \<and> map_of params (js ''name'') = Some (JStr name)))
           \<or> (\<exists>params. map_of body (js ''params'') = Some (JObj params) \<and> invocation_of params name)
           \<or> (isHttpJsonMessagePath (op_url input) \<and> invocation_of body name)))"
proof -
  note r = assms [unfolded resolveRequestOperationDetailed_def]
  have post: "op_method input = None \<or> (\<exists>m. op_method input = Some m \<and> upper m = js ''POST'')"
    using r by (auto split: if_splits option.splits)
  obtain raw where raw: "rawBody input = Some raw" using r by (cases "rawBody input") (simp_all split: if_splits)
  have "case parseStrictJson sjp None raw of Inr (JObj body) \<Rightarrow> True | _ \<Rightarrow> False"
    using r raw by (simp split: if_splits sum.splits jsval.splits)
  then obtain body where b: "parseStrictJson sjp None raw = Inr (JObj body)" by (auto split: sum.splits jsval.splits)
  then have sjp: "sjp raw = Inr (JObj body)" and scan: "rejectDuplicateJsonKeys None raw = Inr ()"
    by (auto simp: parseStrictJson_def bindE_eq_Inr_iff)
  have dist: "distinct_keys t" if "json_text_of t raw" for t
    using scan_tree [OF that] scan by (simp split: if_splits)
  show ?thesis
  proof (cases "isHttpJsonMessagePath (op_url input)")
    case True
    then have "resolveMessageCarrier lower body = Operation name" using r raw b by (simp split: if_splits)
    from carrier_operation [OF this] show ?thesis using post raw sjp dist True by blast
  next
    case False
    have "case map_of body (js ''method'') of Some (JStr meth) \<Rightarrow> True | _ \<Rightarrow> False"
      using r raw b False by (simp split: if_splits option.splits jsval.splits)
    then obtain meth where m: "map_of body (js ''method'') = Some (JStr meth)"
      by (auto split: option.splits jsval.splits)
    obtain params where p: "map_of body (js ''params'') = Some (JObj params)"
      using r raw b False m by (cases "plain_object (map_of body (js ''params''))")
        (simp_all add: plain_object_Some split: if_splits)
    show ?thesis
    proof (cases "meth = js ''tools/call''")
      case True
      then have "nonempty_string (map_of params (js ''name'')) = Some name"
        using r raw b False m p by (simp add: plain_object_def split: if_splits option.splits)
      then show ?thesis using post raw sjp dist m p True by (auto simp: nonempty_string_Some)
    next
      case False
      then have "resolveMessageCarrier lower params = Operation name"
        using r raw b \<open>\<not> isHttpJsonMessagePath (op_url input)\<close> m p by (simp add: plain_object_def split: if_splits)
      from carrier_operation [OF this] show ?thesis using post raw sjp dist p by blast
    qed
  qed
qed

text \<open>\<open>{"method":"tools/call","params":{"name":"ping"}}\<close> and its value.\<close>

definition demo_call :: jsstr where
  "demo_call = js ''{\"method\":\"tools/call\",\"params\":{\"name\":\"ping\"}}''"

definition demo_call_value :: "unit jsval" where
  "demo_call_value = JObj [(js ''method'', JStr (js ''tools/call'')), (js ''params'', JObj [(js ''name'', JStr (js ''ping''))])]"

definition demo_input :: operation_input where
  "demo_input = \<lparr>rawBody = Some demo_call, op_method = None, op_url = None\<rparr>"

theorem operation_unambiguous_witness:
  "resolveRequestOperationDetailed id id (\<lambda>_. Inr demo_call_value) demo_input = Operation (js ''ping'')
   \<and> {t. json_text_of t demo_call} \<subseteq> {t. distinct_keys t}"
proof -
  have scan: "rejectDuplicateJsonKeys None demo_call = Inr ()"
    by (simp add: rejectDuplicateJsonKeys_def demo_call_def js_def scan_json.simps(2) json_ws_def too_deep_def
        readString.simps(2) consE_def word_less_nat_alt note_key_def top_is_object_def)
  have t: "js_trim demo_call \<noteq> []" "hd demo_call \<noteq> 0xfeff"
    by (simp_all add: demo_call_def js_def js_trim_def js_trim_start_def js_space_def)
  have r: "resolveRequestOperationDetailed id id (\<lambda>_. Inr demo_call_value) demo_input = Operation (js ''ping'')"
    using t by (simp add: resolveRequestOperationDetailed_def demo_input_def parseStrictJson_def scan
        demo_call_value_def isHttpJsonMessagePath_def hasCaseVariantMember_def plain_object_def nonempty_string_def js_def)
  show ?thesis using operation_unambiguous [OF r] r by (auto simp: demo_input_def)
qed

end
