(* ===== verification/ReplayContract.thy ===== *)
theory ReplayContract
  imports ReplayStore
begin

text \<open>
  The replay store as its clients see it (the interface \<open>ReplayStore\<close> of \<open>src/lib/signing/replay.ts\<close>): its
  three operations, and the laws the request verifier relies on, stated over what the store covers,
  that is, which nonces it promises to refuse until when.  The in-process store provides them.
\<close>

record 's replay_ops =
  rp_has :: "jsstr \<Rightarrow> jsstr \<Rightarrow> jsstr \<Rightarrow> int \<Rightarrow> 's \<Rightarrow> bool \<times> 's"
  rp_isCapHit :: "jsstr \<Rightarrow> jsstr \<Rightarrow> int \<Rightarrow> 's \<Rightarrow> bool \<times> 's"
  rp_insert :: "jsstr \<Rightarrow> jsstr \<Rightarrow> jsstr \<Rightarrow> int \<Rightarrow> int \<Rightarrow> 's \<Rightarrow> replay_insert_result \<times> 's"

definition memoryReplay :: "replay_cfg \<Rightarrow> replay_state replay_ops" where
  "memoryReplay cfg = \<lparr>rp_has = has_nonce cfg, rp_isCapHit = isCapHit cfg, rp_insert = insert_nonce cfg\<rparr>"

locale replay_store =
  fixes ops :: "'s replay_ops"
    and inv :: "'s \<Rightarrow> bool"
    and covers :: "'s \<Rightarrow> jsstr \<Rightarrow> jsstr \<Rightarrow> jsstr \<Rightarrow> int \<Rightarrow> bool"
  assumes has_keeps_inv: "inv s \<Longrightarrow> inv (snd (rp_has ops kid sc n now s))"
    and cap_keeps_inv: "inv s \<Longrightarrow> inv (snd (rp_isCapHit ops kid sc now s))"
    and insert_keeps_inv: "inv s \<Longrightarrow> 0 \<le> ttl \<Longrightarrow> inv (snd (rp_insert ops kid sc n ttl now s))"
    and has_keeps: "inv s \<Longrightarrow> covers s kid' sc' n' e \<Longrightarrow> now < e \<Longrightarrow> covers (snd (rp_has ops kid sc n now s)) kid' sc' n' e"
    and cap_keeps: "inv s \<Longrightarrow> covers s kid' sc' n' e \<Longrightarrow> now < e \<Longrightarrow> covers (snd (rp_isCapHit ops kid sc now s)) kid' sc' n' e"
    and insert_keeps: "inv s \<Longrightarrow> covers s kid' sc' n' e \<Longrightarrow> now < e
      \<Longrightarrow> covers (snd (rp_insert ops kid sc n ttl now s)) kid' sc' n' e"
    and insert_covers: "inv s \<Longrightarrow> 0 \<le> ttl \<Longrightarrow> rp_insert ops kid sc n ttl now s = (InsertOk, s') \<Longrightarrow> e \<le> now + ttl
      \<Longrightarrow> covers s' kid sc n e"
    and covered_refused: "inv s \<Longrightarrow> covers s kid sc n e \<Longrightarrow> now < e \<Longrightarrow> fst (rp_insert ops kid sc n ttl now s) = Replayed"

definition mem_covers :: "replay_state \<Rightarrow> jsstr \<Rightarrow> jsstr \<Rightarrow> jsstr \<Rightarrow> int \<Rightarrow> bool" where
  "mem_covers st kid sc n e \<longleftrightarrow> held_in st (compositeKey kid sc) n e"

lemma held_in_earlier: "held_in st c n e \<Longrightarrow> e' \<le> e \<Longrightarrow> held_in st c n e'"
  unfolding held_in_def held_def by force

lemma covered_nonce_refused:
  assumes "replay_inv cfg st" "0 < bucketSize cfg" "held_in st (compositeKey kid sc) n e" "now < e"
  shows "fst (insert_nonce cfg kid sc n ttl now st) = Replayed"
proof -
  note k = getOrCreate_inv [OF assms(1), of "compositeKey kid sc"]
  have "held (getOrCreate (compositeKey kid sc) st) n e" using assms(3) by (simp add: held_in_def)
  then have "n \<in> set (nonces (prune cfg now (getOrCreate (compositeKey kid sc) st)))"
    using held_is_nonce [OF prune_inv [OF k assms(2)] prune_held] assms(4) k by blast
  then show ?thesis by (simp add: insert_nonce_def Let_def)
qed

lemma memory_replay_store:
  assumes "0 < bucketSize cfg"
  shows "replay_store (memoryReplay cfg) (replay_inv cfg) mem_covers"
proof
  fix s kid sc n now ttl kid' sc' n' e s'
  assume i: "replay_inv cfg s"
  note op = run_op_inv [OF i assms] and held = run_op_held [OF i assms]
  show "replay_inv cfg (snd (rp_has (memoryReplay cfg) kid sc n now s))"
    using op [of "HasOp kid sc n now"] by (simp add: memoryReplay_def)
  show "replay_inv cfg (snd (rp_isCapHit (memoryReplay cfg) kid sc now s))"
    using op [of "CapOp kid sc now"] by (simp add: memoryReplay_def)
  show "0 \<le> ttl \<Longrightarrow> replay_inv cfg (snd (rp_insert (memoryReplay cfg) kid sc n ttl now s))"
    using op [of "InsertOp kid sc n ttl now"] by (simp add: memoryReplay_def)
  show "mem_covers s kid' sc' n' e \<Longrightarrow> now < e \<Longrightarrow> mem_covers (snd (rp_has (memoryReplay cfg) kid sc n now s)) kid' sc' n' e"
    using held [of "HasOp kid sc n now"] by (simp add: memoryReplay_def mem_covers_def)
  show "mem_covers s kid' sc' n' e \<Longrightarrow> now < e \<Longrightarrow> mem_covers (snd (rp_isCapHit (memoryReplay cfg) kid sc now s)) kid' sc' n' e"
    using held [of "CapOp kid sc now"] by (simp add: memoryReplay_def mem_covers_def)
  show "mem_covers s kid' sc' n' e \<Longrightarrow> now < e
      \<Longrightarrow> mem_covers (snd (rp_insert (memoryReplay cfg) kid sc n ttl now s)) kid' sc' n' e"
    using held [of "InsertOp kid sc n ttl now"] by (simp add: memoryReplay_def mem_covers_def)
  show "0 \<le> ttl \<Longrightarrow> rp_insert (memoryReplay cfg) kid sc n ttl now s = (InsertOk, s') \<Longrightarrow> e \<le> now + ttl
      \<Longrightarrow> mem_covers s' kid sc n e"
    using insert_ok_held [OF i assms] held_in_earlier by (fastforce simp: memoryReplay_def mem_covers_def)
  show "mem_covers s kid sc n e \<Longrightarrow> now < e \<Longrightarrow> fst (rp_insert (memoryReplay cfg) kid sc n ttl now s) = Replayed"
    using covered_nonce_refused [OF i assms] by (simp add: memoryReplay_def mem_covers_def)
qed

text \<open>Every store the code constructs with the default bucket size provides the interface.\<close>

interpretation rps: replay_store "memoryReplay (new_replay_cfg cap None)" "replay_inv (new_replay_cfg cap None)" mem_covers
  for cap
  by (rule memory_replay_store) (simp add: new_replay_cfg_def)

end
