(* ===== verification/Revocation.thy ===== *)
theory Revocation
  imports JsText
begin

text \<open>
  The in-process list of revoked signing keys (\<open>src/lib/signing/revocation.ts\<close>): loading snapshots,
  and the merging of the facts two snapshots state about one key.  \<open>Date.parse\<close> is the argument
  \<open>dp\<close> (nothing for a text that is no date).  The reference is a description of what
  a whole history of entries amounts to.
\<close>

section \<open>Merging the facts about a key\<close>

record revocation_detail =
  rv_reason :: "string option"
  invalidity_date :: "jsstr option"

definition no_detail :: revocation_detail where
  "no_detail = \<lparr>rv_reason = None, invalidity_date = None\<rparr>"

definition REASONS :: "string list" where
  "REASONS = [''removeFromCRL'', ''unspecified'', ''superseded'', ''cessationOfOperation'', ''affiliationChanged'',
     ''certificateHold'', ''privilegeWithdrawn'', ''aACompromise'', ''cACompromise'', ''keyCompromise'']"

definition reason_index :: "string option \<Rightarrow> int" where
  "reason_index r =
     (case index_of (case r of None \<Rightarrow> ''unspecified'' | Some x \<Rightarrow> x) REASONS of None \<Rightarrow> -1 | Some n \<Rightarrow> int n)"

definition valid_date :: "(jsstr \<Rightarrow> int option) \<Rightarrow> jsstr \<Rightarrow> bool" where
  "valid_date dp s \<longleftrightarrow> s \<noteq> [] \<and> dp s \<noteq> None"

definition hasValidDate :: "(jsstr \<Rightarrow> int option) \<Rightarrow> revocation_detail \<Rightarrow> bool" where
  "hasValidDate dp e = (case invalidity_date e of None \<Rightarrow> False | Some s \<Rightarrow> valid_date dp s)"

definition undated_compromise :: "(jsstr \<Rightarrow> int option) \<Rightarrow> revocation_detail \<Rightarrow> bool" where
  "undated_compromise dp e \<longleftrightarrow> rv_reason e = Some ''keyCompromise'' \<and> \<not> hasValidDate dp e"

definition entry_dates :: "(jsstr \<Rightarrow> int option) \<Rightarrow> revocation_detail \<Rightarrow> jsstr list" where
  "entry_dates dp e = (case invalidity_date e of None \<Rightarrow> [] | Some s \<Rightarrow> if valid_date dp s then [s] else [])"

text \<open>An empty reason is dropped from the merged entry, as the spread of a falsy condition does.\<close>

definition kept_reason :: "string option \<Rightarrow> string option" where
  "kept_reason r = (if r = Some [] then None else r)"

definition mergeRevocationDetails ::
    "(jsstr \<Rightarrow> int option) \<Rightarrow> revocation_detail option \<Rightarrow> revocation_detail \<Rightarrow> revocation_detail" where
  "mergeRevocationDetails dp prior detail =
     (let prior_reason = (case prior of None \<Rightarrow> None | Some p \<Rightarrow> rv_reason p);
          reason = (if reason_index (rv_reason detail) > reason_index prior_reason then rv_reason detail
                    else case prior_reason of None \<Rightarrow> rv_reason detail | Some x \<Rightarrow> Some x);
          entries = (case prior of None \<Rightarrow> [detail] | Some p \<Rightarrow> [p, detail]) in
      if reason = Some ''keyCompromise'' \<and> list_ex (undated_compromise dp) entries
      then \<lparr>rv_reason = reason, invalidity_date = None\<rparr>
      else let dates = sort_key (\<lambda>s. the (dp s)) (concat (map (entry_dates dp) entries)) in
        \<lparr>rv_reason = kept_reason reason,
         invalidity_date = (case dates of [] \<Rightarrow> None | d # ds \<Rightarrow> Some d)\<rparr>)"

section \<open>The store\<close>

record revocation_snapshot =
  revoked_kids :: "jsstr list"
  revocation_details :: "jsstr \<rightharpoonup> revocation_detail"

record revocation_store =
  revokedKids :: "jsstr list"
  rv_details :: "jsstr \<rightharpoonup> revocation_detail"

definition empty_revocations :: revocation_store where
  "empty_revocations = \<lparr>revokedKids = [], rv_details = Map.empty\<rparr>"

definition revocation_capacity :: nat where "revocation_capacity = 100000"

definition load_kid ::
    "(jsstr \<Rightarrow> int option) \<Rightarrow> revocation_snapshot \<Rightarrow> jsstr \<Rightarrow> revocation_store \<Rightarrow> revocation_store" where
  "load_kid dp snap kid st =
     \<lparr>revokedKids = List.insert kid (revokedKids st),
      rv_details = (rv_details st)(kid \<mapsto>
        mergeRevocationDetails dp (rv_details st kid)
          (case revocation_details snap kid of None \<Rightarrow> no_detail | Some d \<Rightarrow> d))\<rparr>"

definition load_snapshot ::
    "(jsstr \<Rightarrow> int option) \<Rightarrow> revocation_snapshot \<Rightarrow> revocation_store \<Rightarrow> (js_error + unit) \<times> revocation_store" where
  "load_snapshot dp snap st =
     (if length (remdups (revokedKids st @ revoked_kids snap)) > revocation_capacity
      then (Inl (RangeErr ''Revocation store capacity exceeded''), st)
      else (Inr (), fold (load_kid dp snap) (revoked_kids snap) st))"

definition getDetails :: "revocation_store \<Rightarrow> jsstr \<Rightarrow> revocation_detail option" where
  "getDetails st kid = rv_details st kid"

definition isRevoked :: "revocation_store \<Rightarrow> jsstr \<Rightarrow> bool" where
  "isRevoked st kid \<longleftrightarrow> kid \<in> set (revokedKids st)"

section \<open>Severity and dates of a history\<close>

text \<open>Reasons the order of the code ranks at least as severe as an unspecified one.\<close>

definition ranked :: "revocation_detail \<Rightarrow> bool" where
  "ranked e \<longleftrightarrow> (case rv_reason e of None \<Rightarrow> True | Some r \<Rightarrow> r \<in> set (tl REASONS))"

definition severity :: "revocation_detail \<Rightarrow> int" where
  "severity e = reason_index (rv_reason e)"

definition instants :: "(jsstr \<Rightarrow> int option) \<Rightarrow> revocation_detail list \<Rightarrow> int set" where
  "instants dp es = (\<lambda>s. the (dp s)) ` set (concat (map (entry_dates dp) es))"

definition history_instant :: "(jsstr \<Rightarrow> int option) \<Rightarrow> revocation_detail list \<Rightarrow> int option" where
  "history_instant dp es =
     (if list_ex (undated_compromise dp) es \<or> instants dp es = {} then None else Some (Min (instants dp es)))"

definition detail_instant :: "(jsstr \<Rightarrow> int option) \<Rightarrow> revocation_detail \<Rightarrow> int option" where
  "detail_instant dp e = (case invalidity_date e of None \<Rightarrow> None | Some s \<Rightarrow> dp s)"

fun merge_history :: "(jsstr \<Rightarrow> int option) \<Rightarrow> revocation_detail list \<Rightarrow> revocation_detail option" where
  "merge_history dp [] = None"
| "merge_history dp (e # es) =
     Some (fold (\<lambda>d p. mergeRevocationDetails dp (Some p) d) es (mergeRevocationDetails dp None e))"

lemma reason_index_simps [simp]:
  "reason_index None = 1" "reason_index (Some ''keyCompromise'') = 9"
  by (simp_all add: reason_index_def REASONS_def)

lemma reason_index_le: "reason_index r \<le> 9"
proof (cases "index_of (case r of None \<Rightarrow> ''unspecified'' | Some x \<Rightarrow> x) REASONS")
  case (Some n)
  then have "n < length REASONS" by (rule index_of_SomeD [THEN conjunct1])
  moreover have "length REASONS = 10" by (simp add: REASONS_def)
  ultimately show ?thesis using Some by (simp add: reason_index_def)
qed (simp add: reason_index_def del: index_of_None_iff)

lemma reason_index_eq_9: "reason_index r = 9 \<longleftrightarrow> r = Some ''keyCompromise''"
proof
  assume r: "reason_index r = 9"
  then obtain x where x: "r = Some x" by (cases r) simp_all
  then have "index_of x REASONS = Some 9" using r by (auto simp: reason_index_def split: option.splits)
  then have "REASONS ! 9 = x" by (rule index_of_SomeD [THEN conjunct2, THEN conjunct1])
  moreover have "REASONS ! 9 = ''keyCompromise''" by (simp add: REASONS_def)
  ultimately show "r = Some ''keyCompromise''" using x by simp
qed simp

lemma ranked_reason:
  assumes "ranked e"
  shows "1 \<le> severity e" "rv_reason e \<noteq> Some []"
proof -
  have "list_all (\<lambda>r. 1 \<le> reason_index (Some r) \<and> r \<noteq> []) (tl REASONS)"
    by (simp add: reason_index_def REASONS_def)
  then have "\<forall>r \<in> set (tl REASONS). 1 \<le> reason_index (Some r) \<and> r \<noteq> []" by (simp add: list_all_iff)
  then show "1 \<le> severity e" "rv_reason e \<noteq> Some []"
    using assms by (auto simp: ranked_def severity_def split: option.splits)
qed

lemma sort_head_Min:
  "sort_key f xs = d # ds \<Longrightarrow> d \<in> set xs \<and> (f d :: int) = Min (f ` set xs)"
proof -
  assume s: "sort_key f xs = d # ds"
  have set: "set xs = set (d # ds)" using s set_sort [of f xs] by simp
  have "sorted (map f (d # ds))" using sorted_sort_key [of f xs] s by simp
  then have "\<forall>x \<in> set xs. f d \<le> f x" using set by auto
  then show ?thesis using set by (auto intro!: Min_eqI [symmetric])
qed

lemma merge_first:
  assumes "ranked d"
  shows "severity (mergeRevocationDetails dp None d) = severity d"
    and "ranked (mergeRevocationDetails dp None d)"
    and "rv_reason (mergeRevocationDetails dp None d) = rv_reason d"
    and "invalidity_date (mergeRevocationDetails dp None d) = (case entry_dates dp d of [] \<Rightarrow> None | x # xs \<Rightarrow> Some x)"
proof -
  have r: "kept_reason (rv_reason d) = rv_reason d"
    using ranked_reason(2) [OF assms] by (simp add: kept_reason_def)
  have u: "undated_compromise dp d \<Longrightarrow> entry_dates dp d = []"
    by (auto simp: undated_compromise_def hasValidDate_def entry_dates_def split: option.splits)
  have l: "sort_key f (entry_dates dp d) = entry_dates dp d" for f :: "jsstr \<Rightarrow> int"
    by (simp add: entry_dates_def split: option.splits)
  show rr: "rv_reason (mergeRevocationDetails dp None d) = rv_reason d"
    using r by (simp add: mergeRevocationDetails_def Let_def)
  show "severity (mergeRevocationDetails dp None d) = severity d" using rr by (simp add: severity_def)
  show "ranked (mergeRevocationDetails dp None d)" using rr assms by (simp add: ranked_def)
  show "invalidity_date (mergeRevocationDetails dp None d) = (case entry_dates dp d of [] \<Rightarrow> None | x # xs \<Rightarrow> Some x)"
    using u l by (simp add: mergeRevocationDetails_def Let_def split: list.splits)
qed

lemma merge_reason:
  assumes "ranked p" "ranked d"
  shows "severity (mergeRevocationDetails dp (Some p) d) = max (severity p) (severity d)"
    and "ranked (mergeRevocationDetails dp (Some p) d)"
proof -
  let ?r = "if reason_index (rv_reason d) > reason_index (rv_reason p) then rv_reason d
      else case rv_reason p of None \<Rightarrow> rv_reason d | Some x \<Rightarrow> Some x"
  have k: "kept_reason ?r = ?r"
    using ranked_reason(2) [OF assms(1)] ranked_reason(2) [OF assms(2)]
    by (auto simp: kept_reason_def split: option.splits)
  have rr: "rv_reason (mergeRevocationDetails dp (Some p) d) = ?r"
    unfolding mergeRevocationDetails_def Let_def option.case if_distrib [of rv_reason] revocation_detail.select_convs k
    by simp
  show "severity (mergeRevocationDetails dp (Some p) d) = max (severity p) (severity d)"
    using rr ranked_reason(1) [OF assms(2)] by (cases "rv_reason p") (auto simp: severity_def max_def)
  show "ranked (mergeRevocationDetails dp (Some p) d)"
    using rr assms by (cases "rv_reason p") (auto simp: ranked_def)
qed

text \<open>What a merged entry means: its instant is that of the history merged into it.\<close>

definition stands_for :: "(jsstr \<Rightarrow> int option) \<Rightarrow> revocation_detail \<Rightarrow> revocation_detail list \<Rightarrow> bool" where
  "stands_for dp p es \<longleftrightarrow> ranked p \<and> severity p = Max (severity ` set es)
     \<and> (undated_compromise dp p \<longleftrightarrow> list_ex (undated_compromise dp) es)
     \<and> set (entry_dates dp p) \<subseteq> set (concat (map (entry_dates dp) es))
     \<and> detail_instant dp p = history_instant dp es
     \<and> (case invalidity_date p of None \<Rightarrow> True | Some s \<Rightarrow> valid_date dp s)"

lemma entry_dates_valid: "s \<in> set (entry_dates dp e) \<Longrightarrow> valid_date dp s"
  by (auto simp: entry_dates_def split: option.splits if_splits)

lemma severity_compromise: "severity e = 9 \<longleftrightarrow> rv_reason e = Some ''keyCompromise''"
  by (simp add: severity_def reason_index_eq_9)

lemma undated_iff: "undated_compromise dp e \<longleftrightarrow> severity e = 9 \<and> entry_dates dp e = []"
  by (auto simp: undated_compromise_def hasValidDate_def entry_dates_def severity_compromise split: option.splits)

lemma instants_append: "instants dp (es @ [d]) = instants dp es \<union> (\<lambda>s. the (dp s)) ` set (entry_dates dp d)"
  by (auto simp: instants_def)

lemma instants_finite [simp]: "finite (instants dp es)"
  by (simp add: instants_def)

lemma detail_instant_dates:
  assumes "case invalidity_date p of None \<Rightarrow> True | Some s \<Rightarrow> valid_date dp s"
  shows "entry_dates dp p = [] \<Longrightarrow> detail_instant dp p = None"
    and "entry_dates dp p = [] \<or> (\<exists>s. entry_dates dp p = [s] \<and> invalidity_date p = Some s \<and> detail_instant dp p = Some (the (dp s)))"
  using assms by (auto simp: entry_dates_def detail_instant_def valid_date_def split: option.splits)

text \<open>Two entries merged: which of the two branches is taken, and the date that results.\<close>

lemma merge_dates:
  fixes dp :: "jsstr \<Rightarrow> int option"
  assumes "ranked p" "ranked d"
  defines "m \<equiv> mergeRevocationDetails dp (Some p) d"
  defines "ds \<equiv> entry_dates dp p @ entry_dates dp d"
  shows "undated_compromise dp p \<or> undated_compromise dp d \<Longrightarrow> severity m = 9 \<and> invalidity_date m = None"
    and "\<not> undated_compromise dp p \<Longrightarrow> \<not> undated_compromise dp d \<Longrightarrow>
      invalidity_date m = (case sort_key (\<lambda>s. the (dp s)) ds of [] \<Rightarrow> None | x # xs \<Rightarrow> Some x)"
proof -
  have m9: "severity m = max (severity p) (severity d)" unfolding m_def by (rule merge_reason(1) [OF assms(1,2)])
  let ?r = "if reason_index (rv_reason d) > reason_index (rv_reason p) then rv_reason d
      else case rv_reason p of None \<Rightarrow> rv_reason d | Some x \<Rightarrow> Some x"
  show "severity m = 9 \<and> invalidity_date m = None" if u: "undated_compromise dp p \<or> undated_compromise dp d"
  proof -
    have "severity p = 9 \<or> severity d = 9" using u by (auto simp: undated_iff)
    moreover have "severity p \<le> 9" "severity d \<le> 9" by (simp_all add: severity_def reason_index_le)
    ultimately have s9: "severity m = 9" using m9 by auto
    have "?r = Some ''keyCompromise''"
    proof (cases "severity p = 9")
      case True
      then have "rv_reason p = Some ''keyCompromise''" "\<not> reason_index (rv_reason d) > reason_index (rv_reason p)"
        using reason_index_le [of "rv_reason d"] by (simp_all add: severity_compromise)
      then show ?thesis by simp
    next
      case False
      then have "severity d = 9" "severity p < 9"
        using \<open>severity p = 9 \<or> severity d = 9\<close> \<open>severity p \<le> 9\<close> by simp_all
      then show ?thesis by (simp add: severity_def reason_index_eq_9)
    qed
    then show ?thesis using s9 u by (simp add: m_def mergeRevocationDetails_def)
  qed
  show "invalidity_date m = (case sort_key (\<lambda>s. the (dp s)) ds of [] \<Rightarrow> None | x # xs \<Rightarrow> Some x)"
    if "\<not> undated_compromise dp p" "\<not> undated_compromise dp d"
    using that by (simp add: m_def ds_def mergeRevocationDetails_def Let_def)
qed

lemma Min_Un_same:
  fixes A :: "int set"
  assumes "finite A" "finite A'" "finite B" "A \<noteq> {}" "A' \<noteq> {}" "Min A = Min A'"
  shows "Min (A \<union> B) = Min (A' \<union> B)"
  using assms by (cases "B = {}") (simp_all add: Min_Un)

lemma stands_for_first:
  assumes "ranked d"
  shows "stands_for dp (mergeRevocationDetails dp None d) [d]"
proof -
  let ?m = "mergeRevocationDetails dp None d"
  note f = merge_first [OF assms, of dp]
  consider "entry_dates dp d = []" | s where "entry_dates dp d = [s]" "valid_date dp s"
    by (cases "invalidity_date d"; cases "valid_date dp (the (invalidity_date d))") (simp_all add: entry_dates_def)
  then show ?thesis
  proof cases
    case 1
    then show ?thesis
      using f by (simp add: stands_for_def undated_iff entry_dates_def [of dp ?m] detail_instant_def
          history_instant_def instants_def)
  next
    case (2 s)
    then show ?thesis
      using f by (auto simp: stands_for_def undated_iff entry_dates_def [of dp ?m] detail_instant_def
          history_instant_def instants_def valid_date_def)
  qed
qed

lemma stands_for_step:
  assumes p: "stands_for dp p es" and d: "ranked d" and es: "es \<noteq> []"
  shows "stands_for dp (mergeRevocationDetails dp (Some p) d) (es @ [d])"
proof -
  let ?m = "mergeRevocationDetails dp (Some p) d"
  have rp: "ranked p" and sp: "severity p = Max (severity ` set es)"
    and up: "undated_compromise dp p \<longleftrightarrow> list_ex (undated_compromise dp) es"
    and ep: "set (entry_dates dp p) \<subseteq> set (concat (map (entry_dates dp) es))"
    and ip: "detail_instant dp p = history_instant dp es"
    and vp: "case invalidity_date p of None \<Rightarrow> True | Some s \<Rightarrow> valid_date dp s"
    using p by (simp_all add: stands_for_def)
  note r = merge_reason [OF rp d, of dp]
  have sm: "severity ?m = Max (severity ` set (es @ [d]))" using r(1) sp es by (simp add: max.commute)
  show ?thesis
  proof (cases "undated_compromise dp p \<or> undated_compromise dp d")
    case True
    then have m: "severity ?m = 9" "invalidity_date ?m = None" using merge_dates(1) [OF rp d] by blast+
    then have "entry_dates dp ?m = []" by (simp add: entry_dates_def)
    then show ?thesis
      using m sm r(2) True up by (auto simp: stands_for_def undated_iff [of dp ?m] detail_instant_def history_instant_def)
  next
    case False
    let ?ds = "entry_dates dp p @ entry_dates dp d"
    have m: "invalidity_date ?m = (case sort_key (\<lambda>s. the (dp s)) ?ds of [] \<Rightarrow> None | x # xs \<Rightarrow> Some x)"
      using merge_dates(2) [OF rp d] False by blast
    have no: "\<not> list_ex (undated_compromise dp) (es @ [d])" using False up by simp
    have hist: "instants dp es = (\<lambda>s. the (dp s)) ` set (entry_dates dp p)
        \<or> (entry_dates dp p \<noteq> [] \<and> instants dp es \<noteq> {} \<and> Min (instants dp es) = Min ((\<lambda>s. the (dp s)) ` set (entry_dates dp p)))"
      using detail_instant_dates [OF vp] ip no by (auto simp: history_instant_def split: if_splits)
    show ?thesis
    proof (cases "sort_key (\<lambda>s. the (dp s)) ?ds")
      case Nil
      then have e: "entry_dates dp p = []" "entry_dates dp d = []"
        by (metis set_sort set_empty append_is_Nil_conv)+
      then have "severity ?m \<noteq> 9" using False r(1) by (auto simp: undated_iff max_def split: if_splits)
      then show ?thesis
        using Nil m sm r(2) no hist e by (auto simp: stands_for_def undated_iff [of dp ?m] entry_dates_def [of dp ?m]
            detail_instant_def history_instant_def instants_append)
    next
      case (Cons x xs)
      have x: "x \<in> set ?ds" "the (dp x) = Min ((\<lambda>s. the (dp s)) ` set ?ds)"
        using sort_head_Min [OF Cons] by simp_all
      have v: "valid_date dp x" using x(1) entry_dates_valid by auto
      have ne: "entry_dates dp ?m = [x]" using m Cons v by (simp add: entry_dates_def)
      have "Min (instants dp (es @ [d])) = Min ((\<lambda>s. the (dp s)) ` set ?ds)"
        using hist
      proof
        assume h: "entry_dates dp p \<noteq> [] \<and> instants dp es \<noteq> {}
          \<and> Min (instants dp es) = Min ((\<lambda>s. the (dp s)) ` set (entry_dates dp p))"
        then show ?thesis
          unfolding instants_append set_append image_Un by (intro Min_Un_same) simp_all
      qed (simp add: instants_append image_Un)
      moreover have "instants dp (es @ [d]) \<noteq> {}" using hist x(1) by (auto simp: instants_append)
      ultimately have "Min (instants dp (es @ [d])) = Min ((\<lambda>s. the (dp s)) ` set ?ds)" "instants dp (es @ [d]) \<noteq> {}" by blast+
      then show ?thesis
        using Cons m sm r(2) no v x ne ep by (auto simp: stands_for_def undated_iff [of dp ?m]
            detail_instant_def history_instant_def valid_date_def)
    qed
  qed
qed

lemma history_stands_for:
  "stands_for dp p es \<Longrightarrow> es \<noteq> [] \<Longrightarrow> list_all ranked ds \<Longrightarrow>
     stands_for dp (fold (\<lambda>d p. mergeRevocationDetails dp (Some p) d) ds p) (es @ ds)"
proof (induction ds arbitrary: p es)
  case (Cons d ds)
  have "stands_for dp (mergeRevocationDetails dp (Some p) d) (es @ [d])"
    using Cons.prems by (intro stands_for_step) simp_all
  from Cons.IH [OF this] show ?case using Cons.prems by simp
qed simp

section \<open>What loading does\<close>

lemma load_kids:
  "set (revokedKids (fold (load_kid dp snap) ks st)) = set (revokedKids st) \<union> set ks
   \<and> (distinct (revokedKids st) \<longrightarrow> distinct (revokedKids (fold (load_kid dp snap) ks st)))"
proof (induction ks arbitrary: st)
  case (Cons k ks)
  then show ?case by (auto simp: load_kid_def)
qed simp

fun load_all ::
    "(jsstr \<Rightarrow> int option) \<Rightarrow> revocation_snapshot list \<Rightarrow> revocation_store \<Rightarrow> revocation_store" where
  "load_all dp [] st = st"
| "load_all dp (s # ss) st = load_all dp ss (snd (load_snapshot dp s st))"

lemma load_all_append: "load_all dp (xs @ ys) st = load_all dp ys (load_all dp xs st)"
  by (induction xs arbitrary: st) simp_all

lemma load_snapshot_kids:
  "set (revokedKids (snd (load_snapshot dp s st))) =
     set (revokedKids st) \<union> (if fst (load_snapshot dp s st) = Inr () then set (revoked_kids s) else {})"
  using load_kids [of dp s "revoked_kids s" st] by (simp add: load_snapshot_def)

lemma load_all_mono: "set (revokedKids st) \<subseteq> set (revokedKids (load_all dp ss st))"
proof (induction ss arbitrary: st)
  case (Cons s ss)
  then show ?case using load_snapshot_kids [of dp s st] by fastforce
qed simp

lemma load_snapshot_bound:
  assumes "distinct (revokedKids st)" "length (revokedKids st) \<le> revocation_capacity"
  shows "distinct (revokedKids (snd (load_snapshot dp s st)))
    \<and> length (revokedKids (snd (load_snapshot dp s st))) \<le> revocation_capacity"
proof (cases "length (remdups (revokedKids st @ revoked_kids s)) > revocation_capacity")
  case False
  let ?k = "revokedKids (fold (load_kid dp s) (revoked_kids s) st)"
  have d: "distinct ?k" using load_kids assms(1) by blast
  have "card (set ?k) = card (set (revokedKids st @ revoked_kids s))" using load_kids [of dp s _ st] by simp
  then have "length ?k = length (remdups (revokedKids st @ revoked_kids s))"
    using distinct_card [OF d] length_remdups_card_conv by metis
  then show ?thesis using False d by (simp add: load_snapshot_def)
qed (use assms in \<open>simp add: load_snapshot_def\<close>)

lemma load_all_bound:
  "distinct (revokedKids st) \<Longrightarrow> length (revokedKids st) \<le> revocation_capacity
   \<Longrightarrow> length (revokedKids (load_all dp ss st)) \<le> revocation_capacity"
proof (induction ss arbitrary: st)
  case (Cons s ss)
  then show ?case using load_snapshot_bound [OF Cons.prems, of dp s] by simp
qed simp

section \<open>Properties\<close>

text \<open>
  Revocation is permanent.  Over every sequence of snapshots the store never forgets a revoked key, a
  snapshot that would exceed the capacity of 100000 keys changes nothing at all, an accepted one
  revokes exactly its own keys besides those already revoked, and the capacity holds throughout.
\<close>

theorem revocation_permanent:
  "{k. isRevoked (load_all dp ss empty_revocations) k} \<subseteq> {k. isRevoked (load_all dp (ss @ [s]) empty_revocations) k}
   \<and> load_all dp (ss @ [s]) empty_revocations
      \<in> {load_all dp ss empty_revocations}
        \<union> {st. {k. isRevoked st k} = {k. isRevoked (load_all dp ss empty_revocations) k} \<union> set (revoked_kids s)}
   \<and> length (revokedKids (load_all dp ss empty_revocations)) \<le> 100000"
proof (intro conjI)
  let ?st = "load_all dp ss empty_revocations"
  show "{k. isRevoked ?st k} \<subseteq> {k. isRevoked (load_all dp (ss @ [s]) empty_revocations) k}"
    using load_snapshot_kids [of dp s ?st] by (auto simp: load_all_append isRevoked_def)
  show "load_all dp (ss @ [s]) empty_revocations
      \<in> {?st} \<union> {st. {k. isRevoked st k} = {k. isRevoked ?st k} \<union> set (revoked_kids s)}"
  proof (cases "fst (load_snapshot dp s ?st) = Inr ()")
    case True
    then show ?thesis using load_snapshot_kids [of dp s ?st] by (auto simp: load_all_append isRevoked_def)
  next
    case False
    then have "snd (load_snapshot dp s ?st) = ?st" by (auto simp: load_snapshot_def split: if_splits)
    then show ?thesis by (simp add: load_all_append)
  qed
  show "length (revokedKids ?st) \<le> 100000"
    using load_all_bound [of empty_revocations dp ss] by (simp add: empty_revocations_def revocation_capacity_def)
qed


definition demo_dates :: "jsstr \<Rightarrow> int option" where
  "demo_dates s = (case s of [] \<Rightarrow> None | c # cs \<Rightarrow> Some (uint c))"


text \<open>The reason \<open>removeFromCRL\<close> replaces a missing one, although it ranks below it.\<close>

theorem weaker_reason_replaces_missing:
  "rv_reason (mergeRevocationDetails dp (Some no_detail) \<lparr>rv_reason = Some ''removeFromCRL'', invalidity_date = None\<rparr>)
     = Some ''removeFromCRL''
   \<and> severity \<lparr>rv_reason = Some ''removeFromCRL'', invalidity_date = None\<rparr> < severity no_detail"
  by (simp add: mergeRevocationDetails_def no_detail_def reason_index_def REASONS_def severity_def kept_reason_def Let_def)

end
