(* ===== verification/RequestVerifier.thy ===== *)
theory RequestVerifier
  imports SignatureHeaders RequestBody ReplayContract Revocation
begin

text \<open>
  Verification of signed requests (\<open>src/lib/signing/verifier.ts\<close>), in the order of the code's steps.
  The steps that only read the request are functions into a sum; the awaited calls of the replay
  store are the states of a small program (\<open>verify_pc\<close>), so that other requests can run in between.
  Cryptography, key lookup, \<open>JSON.parse\<close> and the strict parser are arguments.  The clock of a request
  is the four times at which the code reads it.
\<close>

section \<open>Options and environment\<close>

datatype digest_policy = DigestRequired | DigestForbidden | DigestEither

record verifier_capability =
  covers_content_digest :: digest_policy
  required_for :: "jsstr list"
  protocol_methods_required_for :: "jsstr list option"

record 'k adcp_jwk =
  jwk_kid :: jsstr
  jwk_kty :: "jsstr option"
  jwk_crv :: "jsstr option"
  jwk_alg :: "jsstr option"
  jwk_adcp_use :: "jsstr option"
  jwk_key_ops :: "jsstr list option"
  jwk_material :: 'k

record ('k, 'd) jwks_resolution =
  rs_jwk :: "'k adcp_jwk option"
  rs_agentUrl :: "jsstr option"
  rs_operatorRecord :: "'d option"
  rs_legacyWebhookFallback :: bool
  rs_validUntil :: "int option"

datatype resolve_failure = ResolverFailure string | OtherFailure js_error

datatype ('k, 'd) jwks_resolver =
    WithMetadata "jsstr \<Rightarrow> resolve_failure + ('k, 'd) jwks_resolution"
  | PlainResolver "jsstr \<Rightarrow> resolve_failure + 'k adcp_jwk option"

datatype resolved_operation = NamedOperation jsstr | NoResolvedOperation | UnresolvableOperation

record ('k, 'd) verify_options =
  capability :: verifier_capability
  jwks :: "('k, 'd) jwks_resolver"
  isRevoked_kid :: "jsstr \<Rightarrow> bool"
  vo_operation :: resolved_operation
  adcpVersion :: "jsstr option"
  agentUrlForKeyid :: "(jsstr \<Rightarrow> jsstr option) option"

record ('k, 'n) verify_env =
  ve_platform :: sig_platform
  ve_headers :: sh_library
  ve_digest :: digest_platform
  ve_strict_parser :: "jsstr \<Rightarrow> strict_json_error + 'n jsval"
  ve_json_parse :: "jsstr \<Rightarrow> 'n jsval option"
  ve_valid_jwk :: "'k adcp_jwk \<Rightarrow> bool"
  ve_verify :: "jsstr \<Rightarrow> 'k adcp_jwk \<Rightarrow> 8 word list \<Rightarrow> 8 word list \<Rightarrow> bool"

text \<open>Times read at the start, after key lookup, before the nonce is committed, and after it.\<close>

record verify_clock =
  vt_now :: int
  vt_resolved :: int
  vt_checked :: int
  vt_accepted :: int

datatype 'd verify_result = Unsigned int | Verified jsstr "jsstr option" int "'d option"

definition REQUEST_SIGNING_TAG :: jsstr where "REQUEST_SIGNING_TAG = js ''adcp/request-signing/v1''"

definition ALLOWED_ALGS :: "jsstr list" where "ALLOWED_ALGS = [js ''ed25519'', js ''ecdsa-p256-sha256'']"

definition MAX_SIGNATURE_WINDOW_SECONDS :: int where "MAX_SIGNATURE_WINDOW_SECONDS = 300"

definition CLOCK_SKEW_TOLERANCE_SECONDS :: int where "CLOCK_SKEW_TOLERANCE_SECONDS = 60"

definition MANDATORY_COMPONENTS :: "jsstr list" where
  "MANDATORY_COMPONENTS = [js ''@method'', js ''@target-uri'', js ''@authority'']"

definition MAX_UNSIGNED_BODY_INSPECTION_BYTES :: nat where "MAX_UNSIGNED_BODY_INSPECTION_BYTES = 1048576"

definition ensure :: "bool \<Rightarrow> sig_error \<Rightarrow> sig_error + unit" where
  "ensure ok e = (if ok then Inr () else Inl e)"

section \<open>Unsigned requests\<close>

definition required_error :: sig_error where "required_error = SigError ''request_signature_required'' 0"

definition unresolvableOperationError :: sig_error where
  "unresolvableOperationError = SigError ''request_body_malformed'' 0"

definition exceedsUnsignedBodyInspectionCap :: "jsstr option \<Rightarrow> bool" where
  "exceedsUnsignedBodyInspectionCap body =
     (case body of None \<Rightarrow> False | Some b \<Rightarrow> length b > MAX_UNSIGNED_BODY_INSPECTION_BYTES)"

definition message_method :: "'n jsval \<Rightarrow> jsstr list" where
  "message_method m =
     (case m of JObj ms \<Rightarrow> (case map_of ms (js ''method'') of Some (JStr s) \<Rightarrow> [s] | _ \<Rightarrow> []) | _ \<Rightarrow> [])"

definition jsonRpcProtocolMethods :: "(jsstr \<Rightarrow> 'n jsval option) \<Rightarrow> jsstr option \<Rightarrow> jsstr list" where
  "jsonRpcProtocolMethods json_parse body =
     (case body of
        None \<Rightarrow> []
      | Some b \<Rightarrow>
          if b = [] \<or> exceedsUnsignedBodyInspectionCap body then []
          else (case json_parse b of
              None \<Rightarrow> []
            | Some (JArr messages) \<Rightarrow> concat (map message_method messages)
            | Some v \<Rightarrow> message_method v))"

definition carriesWebhookAuthentication :: "(jsstr \<Rightarrow> 'n jsval option) \<Rightarrow> jsstr option \<Rightarrow> bool" where
  "carriesWebhookAuthentication json_parse body =
     (case body of
        None \<Rightarrow> False
      | Some b \<Rightarrow>
          if b = [] then False
          else if exceedsUnsignedBodyInspectionCap body then True
          else (case json_parse b of
              None \<Rightarrow> False
            | Some v \<Rightarrow> containsWebhookAuthentication WEBHOOK_AUTH_TRAVERSAL_DEPTH v))"

definition assertUnsignedOperationNotRequired :: "jsstr option \<Rightarrow> verifier_capability \<Rightarrow> sig_error + unit" where
  "assertUnsignedOperationNotRequired operation cap =
     ensure (case operation of None \<Rightarrow> True | Some op \<Rightarrow> op = [] \<or> op \<notin> set (required_for cap)) required_error"

definition assertUnsignedProtocolMethodNotRequired ::
    "(jsstr \<Rightarrow> 'n jsval option) \<Rightarrow> jsstr option \<Rightarrow> verifier_capability \<Rightarrow> sig_error + unit" where
  "assertUnsignedProtocolMethodNotRequired json_parse body cap =
     (let required = (case protocol_methods_required_for cap of None \<Rightarrow> [] | Some ms \<Rightarrow> ms) in
      if required = [] then Inr ()
      else if exceedsUnsignedBodyInspectionCap body then Inl required_error
      else (case find (\<lambda>m. m \<in> set required) (jsonRpcProtocolMethods json_parse body) of
          None \<Rightarrow> Inr ()
        | Some m \<Rightarrow> ensure (m = []) required_error))"

definition assertUnsignedWebhookAuthenticationAbsent ::
    "(jsstr \<Rightarrow> 'n jsval option) \<Rightarrow> jsstr option \<Rightarrow> sig_error + unit" where
  "assertUnsignedWebhookAuthenticationAbsent json_parse body =
     ensure (\<not> carriesWebhookAuthentication json_parse body) required_error"

definition assertUnsignedRequestAllowed ::
    "(jsstr \<Rightarrow> 'n jsval option) \<Rightarrow> jsstr option \<Rightarrow> jsstr option \<Rightarrow> verifier_capability \<Rightarrow> sig_error + unit" where
  "assertUnsignedRequestAllowed json_parse body operation cap =
     bindE (assertUnsignedOperationNotRequired operation cap) (\<lambda>_.
       bindE (assertUnsignedProtocolMethodNotRequired json_parse body cap) (\<lambda>_.
         assertUnsignedWebhookAuthenticationAbsent json_parse body))"

section \<open>Step 1: reading the headers\<close>

definition signatureEncodingCandidates :: "sf_encoding option \<Rightarrow> digest_policy \<Rightarrow> sf_encoding list" where
  "signatureEncodingCandidates pinned policy =
     (case pinned of
        None \<Rightarrow> [LegacyBase64url, Rfc8941Base64]
      | Some p \<Rightarrow> if p = Rfc8941Base64 \<or> policy \<noteq> DigestEither then [p] else [LegacyBase64url, Rfc8941Base64])"

fun try_encodings ::
    "(sf_encoding \<Rightarrow> sig_error + 'b) \<Rightarrow> sf_encoding \<Rightarrow> sig_error option \<Rightarrow> sf_encoding list \<Rightarrow> sig_error option + sf_encoding \<times> 'b" where
  "try_encodings parse preferred err [] = Inl err"
| "try_encodings parse preferred err (c # cs) =
     (case parse c of
        Inr b \<Rightarrow> Inr (c, b)
      | Inl e \<Rightarrow> try_encodings parse preferred (if err = None \<or> c = preferred then Some e else err) cs)"

fun top_level_comma :: "bool \<Rightarrow> jsstr \<Rightarrow> bool" where
  "top_level_comma inQuoted [] = False"
| "top_level_comma inQuoted (ch # cs) =
     (if ch = 0x5c \<and> cs \<noteq> [] \<and> inQuoted then (case cs of [] \<Rightarrow> False | d # ds \<Rightarrow> top_level_comma inQuoted ds)
      else if ch = 0x22 then top_level_comma (\<not> inQuoted) cs
      else if ch = 0x2c \<and> \<not> inQuoted then True
      else top_level_comma inQuoted cs)"

definition containsTopLevelComma :: "jsstr \<Rightarrow> bool" where
  "containsTopLevelComma value = top_level_comma False value"

definition digest_key_unit :: "16 word \<Rightarrow> bool" where
  "digest_key_unit w \<longleftrightarrow> ascii_alpha w \<or> ascii_digit w \<or> w \<in> set (js ''_*-'')"

text \<open>The member names the raw scan of a digest header collects.\<close>

function dict_keys :: "bool \<Rightarrow> jsstr \<Rightarrow> jsstr list" where
  "dict_keys atEntryStart [] = []"
| "dict_keys atEntryStart (ch # cs) =
     (if atEntryStart then
        (let s = dropWhile ows_unit (ch # cs); key = takeWhile digest_key_unit s in
         (if key = [] then [] else [map lower_unit key]) @ dict_keys False (dropWhile digest_key_unit s))
      else if ch = 0x22 then dict_keys False (skip_quoted cs)
      else if ch = 0x3a then dict_keys False (drop 1 (dropWhile (\<lambda>w. w \<noteq> 0x3a) cs))
      else if ch = 0x2c then dict_keys True cs
      else dict_keys False cs)"
  by pat_completeness auto
termination
proof (relation "measures [\<lambda>(b, s). length s, \<lambda>(b, s). if b then 1 else 0]", goal_cases)
  case (2 b ch cs s key)
  have "length (dropWhile digest_key_unit s) \<le> length s" by (rule length_dropWhile_le)
  moreover have "length s \<le> length (ch # cs)" unfolding 2(2) by (rule length_dropWhile_le)
  ultimately show ?case using 2(1) by auto
next
  case (3 b ch cs)
  then show ?case using skip_quoted_length [of cs] by simp
next
  case (4 b ch cs)
  then show ?case using drop_dropWhile_length [of 1 _ 0 cs] by (simp add: less_Suc_eq_le)
qed auto

declare dict_keys.simps(2) [simp del]

definition containsDuplicateDictKey :: "jsstr \<Rightarrow> bool" where
  "containsDuplicateDictKey value \<longleftrightarrow> \<not> distinct (dict_keys True value)"

definition validateSingleValuedCoveredHeaders ::
    "sig_platform \<Rightarrow> sh_library \<Rightarrow> jsstr list \<Rightarrow> request_like \<Rightarrow> sig_error + unit" where
  "validateSingleValuedCoveredHeaders P L components r =
     bindE (if js ''content-type'' \<in> set components then
              (case getHeaderValue (to_lower P) (req_headers r) (js ''Content-Type'') of
                 None \<Rightarrow> Inr ()
               | Some value \<Rightarrow> ensure (\<not> containsTopLevelComma value) malformed)
            else Inr ()) (\<lambda>_.
       if js ''content-digest'' \<in> set components then
         (case getHeaderValue (to_lower P) (req_headers r) (js ''Content-Digest'') of
            None \<Rightarrow> Inr ()
          | Some value \<Rightarrow>
              bindE (case parse_dictionary L value of
                       None \<Rightarrow> Inr () | Some dict \<Rightarrow> ensure (distinct (map fst dict)) malformed) (\<lambda>_.
                ensure (\<not> containsDuplicateDictKey value) malformed))
       else Inr ())"

record parsed_request =
  pr_input :: parsed_signature_input
  pr_signature :: "8 word list"
  pr_profile :: canon_profile

definition pinned_encoding :: "('k, 'd) verify_options \<Rightarrow> sf_encoding option" where
  "pinned_encoding opts = map_option requestSigningEncodingForVersion (adcpVersion opts)"

definition parse_request ::
    "('k, 'n) verify_env \<Rightarrow> ('k, 'd) verify_options \<Rightarrow> request_like \<Rightarrow> jsstr \<Rightarrow> jsstr \<Rightarrow> sig_error + parsed_request" where
  "parse_request E opts r sigInputHeader sigHeader =
     bindE (parseSignatureInput (ve_headers E) sigInputHeader None) (\<lambda>parsedInput.
       let pinned = pinned_encoding opts;
           preferred = (case pinned of None \<Rightarrow> Rfc8941Base64 | Some p \<Rightarrow> p) in
       case try_encodings (parseSignature (ve_headers E) sigHeader (si_label parsedInput)) preferred None
              (signatureEncodingCandidates pinned (covers_content_digest (capability opts))) of
         Inl err \<Rightarrow> Inl (case err of None \<Rightarrow> Thrown (GenericErr ''undefined'') | Some e \<Rightarrow> e)
       | Inr (parsedEncoding, bytes) \<Rightarrow>
           let effective = (case pinned of None \<Rightarrow> parsedEncoding | Some p \<Rightarrow> p) in
           bindE (rejectNonAsciiHost (req_url r)) (\<lambda>_.
             bindE (validateSingleValuedCoveredHeaders (ve_platform E) (ve_headers E) (si_components parsedInput) r) (\<lambda>_.
               Inr \<lparr>pr_input = parsedInput, pr_signature = bytes,
                    pr_profile = (if effective = Rfc8941Base64 then V32 else Legacy)\<rparr>)))"

section \<open>Steps 2 to 6\<close>

definition requireParams :: "sig_params \<Rightarrow> sig_error + unit" where
  "requireParams p =
     ensure (p_created p \<noteq> None \<and> p_expires p \<noteq> None \<and> p_nonce p \<noteq> None \<and> p_keyid p \<noteq> None
            \<and> p_alg p \<noteq> None \<and> p_tag p \<noteq> None)
       (SigError ''request_signature_params_incomplete'' 2)"

definition window_error :: sig_error where "window_error = SigError ''request_signature_window_invalid'' 5"

definition validateWindow :: "int \<Rightarrow> int \<Rightarrow> int \<Rightarrow> sig_error + unit" where
  "validateWindow created expires now =
     (if expires \<le> created then Inl window_error
      else if expires - created > MAX_SIGNATURE_WINDOW_SECONDS then Inl window_error
      else if now > expires + CLOCK_SKEW_TOLERANCE_SECONDS then Inl window_error
      else if now < created - CLOCK_SKEW_TOLERANCE_SECONDS then Inl window_error
      else Inr ())"

definition validateCoveredComponents :: "jsstr list \<Rightarrow> digest_policy \<Rightarrow> request_like \<Rightarrow> sig_error + unit" where
  "validateCoveredComponents components policy r =
     (if \<not> list_all (\<lambda>m. m \<in> set components) MANDATORY_COMPONENTS then Inl components_incomplete
      else
        let hasBody = (case req_body r of None \<Rightarrow> False | Some b \<Rightarrow> length b > 0);
            includesDigest = js ''content-digest'' \<in> set components in
        if hasBody \<and> js ''content-type'' \<notin> set components then Inl components_incomplete
        else if policy = DigestRequired \<and> \<not> includesDigest then Inl components_incomplete
        else if policy = DigestForbidden \<and> includesDigest then Inl components_unexpected
        else Inr ())"

definition effective_policy :: "('k, 'd) verify_options \<Rightarrow> digest_policy" where
  "effective_policy opts =
     (if pinned_encoding opts = Some Rfc8941Base64 then DigestRequired else covers_content_digest (capability opts))"

definition check_parameters ::
    "('k, 'd) verify_options \<Rightarrow> request_like \<Rightarrow> int \<Rightarrow> parsed_request \<Rightarrow> sig_error + unit" where
  "check_parameters opts r now pr =
     (let p = si_params (pr_input pr) in
      bindE (requireParams p) (\<lambda>_.
      bindE (ensure (the (p_tag p) = REQUEST_SIGNING_TAG) (SigError ''request_signature_tag_invalid'' 3)) (\<lambda>_.
      bindE (ensure (the (p_alg p) \<in> set ALLOWED_ALGS) (SigError ''request_signature_alg_not_allowed'' 4)) (\<lambda>_.
      bindE (validateWindow (the (p_created p)) (the (p_expires p)) now) (\<lambda>_.
        validateCoveredComponents (si_components (pr_input pr)) (effective_policy opts) r)))))"

section \<open>Steps 7 to 9: the key\<close>

record ('k, 'd) resolved_key =
  rk_jwk :: "'k adcp_jwk"
  rk_agentUrl :: "jsstr option"
  rk_operatorRecord :: "'d option"
  rk_validUntil :: "int option"

definition origin_mismatch :: sig_error where
  "origin_mismatch = SigError ''request_signature_brand_origin_mismatch'' 7"

definition key_unknown :: sig_error where
  "key_unknown = SigError ''request_signature_key_unknown'' 7"

definition key_purpose_invalid :: sig_error where
  "key_purpose_invalid = SigError ''request_signature_key_purpose_invalid'' 8"

definition resolver_error :: "resolve_failure \<Rightarrow> sig_error" where
  "resolver_error e = (case e of ResolverFailure c \<Rightarrow> SigError c 7 | OtherFailure x \<Rightarrow> Thrown x)"

definition not_expired :: "int option \<Rightarrow> int \<Rightarrow> sig_error + unit" where
  "not_expired validUntil t = ensure (case validUntil of None \<Rightarrow> True | Some u \<Rightarrow> t < u) origin_mismatch"

definition lookup_key :: "('k, 'd) jwks_resolver \<Rightarrow> jsstr \<Rightarrow> sig_error + ('k, 'd) jwks_resolution" where
  "lookup_key resolver keyid =
     (case resolver of
        WithMetadata f \<Rightarrow>
          (case f keyid of
             Inl e \<Rightarrow> Inl (resolver_error e)
           | Inr resolution \<Rightarrow>
               if rs_legacyWebhookFallback resolution
               then Inl (SigError ''request_signature_brand_json_url_missing'' 7) else Inr resolution)
      | PlainResolver f \<Rightarrow>
          (case f keyid of
             Inl e \<Rightarrow> Inl (resolver_error e)
           | Inr k \<Rightarrow> Inr \<lparr>rs_jwk = k, rs_agentUrl = None, rs_operatorRecord = None,
               rs_legacyWebhookFallback = False, rs_validUntil = None\<rparr>))"

definition SIG_PARAMS_ALG_TO_JOSE :: "jsstr \<rightharpoonup> jsstr" where
  "SIG_PARAMS_ALG_TO_JOSE = [js ''ed25519'' \<mapsto> js ''EdDSA'', js ''ecdsa-p256-sha256'' \<mapsto> js ''ES256'']"

definition validateJwkParameterConsistency :: "'k adcp_jwk \<Rightarrow> jsstr \<Rightarrow> sig_error + unit" where
  "validateJwkParameterConsistency jwk sigParamsAlg =
     (case jwk_alg jwk of
        None \<Rightarrow> Inl key_purpose_invalid
      | Some alg \<Rightarrow>
          if alg = [] then Inl key_purpose_invalid
          else if (case SIG_PARAMS_ALG_TO_JOSE sigParamsAlg of None \<Rightarrow> False | Some expected \<Rightarrow> alg \<noteq> expected)
          then Inl key_purpose_invalid
          else if alg = js ''EdDSA'' then
            ensure (jwk_kty jwk = Some (js ''OKP'')
                   \<and> (jwk_crv jwk = Some (js ''Ed25519'') \<or> jwk_crv jwk = Some (js ''Ed448''))) key_purpose_invalid
          else if alg = js ''ES256'' then
            ensure (jwk_kty jwk = Some (js ''EC'') \<and> jwk_crv jwk = Some (js ''P-256'')) key_purpose_invalid
          else Inr ())"

definition resolve_key ::
    "('k, 'd) verify_options \<Rightarrow> verify_clock \<Rightarrow> jsstr \<Rightarrow> jsstr \<Rightarrow> sig_error + ('k, 'd) resolved_key" where
  "resolve_key opts clk keyid alg =
     bindE (lookup_key (jwks opts) keyid) (\<lambda>resolution.
       bindE (not_expired (rs_validUntil resolution) (vt_resolved clk)) (\<lambda>_.
         case rs_jwk resolution of
           None \<Rightarrow> Inl key_unknown
         | Some jwk \<Rightarrow>
             bindE (ensure (jwk_kid jwk = keyid) key_unknown) (\<lambda>_.
             bindE (ensure (jwk_adcp_use jwk = Some (js ''request-signing'')
                           \<and> (case jwk_key_ops jwk of None \<Rightarrow> False | Some ks \<Rightarrow> js ''verify'' \<in> set ks))
                          key_purpose_invalid) (\<lambda>_.
             bindE (validateJwkParameterConsistency jwk alg) (\<lambda>_.
             bindE (ensure (\<not> isRevoked_kid opts (jwk_kid jwk)) (SigError ''request_signature_key_revoked'' 9)) (\<lambda>_.
               Inr \<lparr>rk_jwk = jwk, rk_agentUrl = rs_agentUrl resolution,
                    rk_operatorRecord = rs_operatorRecord resolution, rk_validUntil = rs_validUntil resolution\<rparr>))))))"

section \<open>Steps 10 and 11: what was signed\<close>

definition host_unit_ok :: "16 word \<Rightarrow> bool" where
  "host_unit_ok w \<longleftrightarrow> \<not> js_space w \<and> w \<notin> set (js ''/?#@'') \<and> w \<noteq> 0x5c"

definition check_received_host :: "sig_platform \<Rightarrow> request_like \<Rightarrow> sig_error + unit" where
  "check_received_host P r =
     (case getHeaderValue (to_lower P) (req_headers r) (js ''Host'') of
        None \<Rightarrow> Inr ()
      | Some host \<Rightarrow>
          bindE (ensure (list_all host_unit_ok host) malformedTargetUri) (\<lambda>_.
            let hostUrl = js ''https://'' @ host @ js ''/'' in
            bindE (rejectNonAsciiHost hostUrl) (\<lambda>_.
              bindE (canonicalAuthority P hostUrl V32) (\<lambda>_. Inr ()))))"

definition check_signature ::
    "('k, 'n) verify_env \<Rightarrow> request_like \<Rightarrow> parsed_request \<Rightarrow> 'k adcp_jwk \<Rightarrow> sig_error + unit" where
  "check_signature E r pr jwk =
     (let inp = pr_input pr in
      bindE (buildSignatureBase (ve_platform E) (si_components inp) r (si_params inp)
               (Some (signatureParamsValue inp)) (pr_profile pr)) (\<lambda>base.
      bindE (ensure (ve_valid_jwk E jwk) key_unknown) (\<lambda>_.
        ensure (ve_verify E (the (p_alg (si_params inp))) jwk (text_encode base) (pr_signature pr))
          (SigError ''request_signature_invalid'' 10))))"

definition contentDigestEncodingCandidates :: "sf_encoding option \<Rightarrow> sf_encoding list" where
  "contentDigestEncodingCandidates pinned =
     (if pinned = Some Rfc8941Base64 then [Rfc8941Base64] else [Rfc8941Base64, LegacyBase64url])"

definition header_present :: "jsstr option \<Rightarrow> jsstr option" where
  "header_present h = (case h of None \<Rightarrow> None | Some t \<Rightarrow> if t = [] then None else Some t)"

definition digest_mismatch :: sig_error where "digest_mismatch = SigError ''request_signature_digest_mismatch'' 11"

definition check_digest ::
    "('k, 'n) verify_env \<Rightarrow> ('k, 'd) verify_options \<Rightarrow> request_like \<Rightarrow> jsstr list \<Rightarrow> sig_error + unit" where
  "check_digest E opts r components =
     (if js ''content-digest'' \<notin> set components then Inr ()
      else
        let pinned = pinned_encoding opts;
            body = (case req_body r of None \<Rightarrow> [] | Some b \<Rightarrow> b) in
        case header_present (getHeaderValue (to_lower (ve_platform E)) (req_headers r) (js ''Content-Digest'')) of
          None \<Rightarrow> Inl digest_mismatch
        | Some digestHeader \<Rightarrow>
            let encodingMatches = list_ex (contentDigestUsesEncoding digestHeader) (contentDigestEncodingCandidates pinned) in
            if \<not> encodingMatches \<and> pinned = Some Rfc8941Base64 \<and> contentDigestSha256Token digestHeader \<noteq> None
            then Inl (SigError ''request_signature_header_malformed'' 11)
            else if \<not> encodingMatches \<or> \<not> contentDigestMatches (ve_headers E) (ve_digest E) digestHeader body
            then Inl digest_mismatch
            else Inr ())"

definition check_body :: "('k, 'n) verify_env \<Rightarrow> request_like \<Rightarrow> sig_error + unit" where
  "check_body E r =
     (case req_body r of
        None \<Rightarrow> Inr ()
      | Some b \<Rightarrow>
          if js_trim b = [] then Inr ()
          else (case parseStrictJson (ve_strict_parser E) None b of
              Inl _ \<Rightarrow> Inl (SigError ''request_body_malformed'' 11) | Inr _ \<Rightarrow> Inr ()))"

section \<open>The program of a verification\<close>

text \<open>What the code holds in local variables once the key is known.\<close>

record ('k, 'd) verify_ctx =
  vc_request :: request_like
  vc_clock :: verify_clock
  vc_parsed :: parsed_request
  vc_key :: "('k, 'd) resolved_key"
  vc_scope :: jsstr

definition vc_keyid :: "('k, 'd) verify_ctx \<Rightarrow> jsstr" where "vc_keyid c = jwk_kid (rk_jwk (vc_key c))"

definition vc_nonce :: "('k, 'd) verify_ctx \<Rightarrow> jsstr" where "vc_nonce c = the (p_nonce (si_params (pr_input (vc_parsed c))))"

definition vc_expires :: "('k, 'd) verify_ctx \<Rightarrow> int" where
  "vc_expires c = the (p_expires (si_params (pr_input (vc_parsed c))))"

datatype ('k, 'd) verify_pc =
    AskHas "('k, 'd) verify_ctx"
  | AskCap "('k, 'd) verify_ctx"
  | AskHasAgain "('k, 'd) verify_ctx"
  | AskInsert "('k, 'd) verify_ctx"
  | VDone "sig_error + 'd verify_result"

definition replayed_error :: sig_error where "replayed_error = SigError ''request_signature_replayed'' 12"

definition rate_abuse_error :: sig_error where "rate_abuse_error = SigError ''request_signature_rate_abuse'' 12"

text \<open>Up to the first call of the replay store.\<close>

definition prepare_signed ::
    "('k, 'n) verify_env \<Rightarrow> ('k, 'd) verify_options \<Rightarrow> request_like \<Rightarrow> verify_clock \<Rightarrow> jsstr \<Rightarrow> jsstr
      \<Rightarrow> sig_error + ('k, 'd) verify_ctx" where
  "prepare_signed E opts r clk sigInputHeader sigHeader =
     bindE (parse_request E opts r sigInputHeader sigHeader) (\<lambda>pr.
     bindE (check_parameters opts r (vt_now clk) pr) (\<lambda>_.
     bindE (resolve_key opts clk (the (p_keyid (si_params (pr_input pr)))) (the (p_alg (si_params (pr_input pr))))) (\<lambda>k.
     bindE (canonicalTargetUri (ve_platform E) (req_url r) (pr_profile pr)) (\<lambda>scope.
       Inr \<lparr>vc_request = r, vc_clock = clk, vc_parsed = pr, vc_key = k, vc_scope = scope\<rparr>))))"

definition verify_start ::
    "('k, 'n) verify_env \<Rightarrow> ('k, 'd) verify_options \<Rightarrow> request_like \<Rightarrow> verify_clock \<Rightarrow> ('k, 'd) verify_pc" where
  "verify_start E opts r clk =
     (if vo_operation opts = UnresolvableOperation then VDone (Inl unresolvableOperationError)
      else
        let P = ve_platform E;
            operation = (case vo_operation opts of NamedOperation op \<Rightarrow> Some op | _ \<Rightarrow> None) in
        case (header_present (getHeaderValue (to_lower P) (req_headers r) (js ''Signature-Input'')),
              header_present (getHeaderValue (to_lower P) (req_headers r) (js ''Signature''))) of
          (None, None) \<Rightarrow>
            VDone (bindE (assertUnsignedRequestAllowed (ve_json_parse E) (req_body r) operation (capability opts))
              (\<lambda>_. Inr (Unsigned (vt_now clk))))
        | (Some sigInput, Some sig) \<Rightarrow>
            (case prepare_signed E opts r clk sigInput sig of Inl e \<Rightarrow> VDone (Inl e) | Inr c \<Rightarrow> AskHas c)
        | _ \<Rightarrow> VDone (Inl malformed))"

text \<open>Between the probes of the store and the insertion of the nonce.\<close>

definition check_content ::
    "('k, 'n) verify_env \<Rightarrow> ('k, 'd) verify_options \<Rightarrow> ('k, 'd) verify_ctx \<Rightarrow> sig_error + unit" where
  "check_content E opts c =
     bindE (check_received_host (ve_platform E) (vc_request c)) (\<lambda>_.
     bindE (check_signature E (vc_request c) (vc_parsed c) (rk_jwk (vc_key c))) (\<lambda>_.
     bindE (check_digest E opts (vc_request c) (si_components (pr_input (vc_parsed c)))) (\<lambda>_.
     bindE (check_body E (vc_request c)) (\<lambda>_.
       not_expired (rk_validUntil (vc_key c)) (vt_checked (vc_clock c))))))"

definition after_probes ::
    "('k, 'n) verify_env \<Rightarrow> ('k, 'd) verify_options \<Rightarrow> ('k, 'd) verify_ctx \<Rightarrow> ('k, 'd) verify_pc" where
  "after_probes E opts c =
     (case check_content E opts c of Inl e \<Rightarrow> VDone (Inl e) | Inr _ \<Rightarrow> AskInsert c)"

definition nonce_ttl :: "int \<Rightarrow> int \<Rightarrow> int" where
  "nonce_ttl expires now =
     (let remaining = expires - now + CLOCK_SKEW_TOLERANCE_SECONDS + 1 in
      max remaining (MAX_SIGNATURE_WINDOW_SECONDS + CLOCK_SKEW_TOLERANCE_SECONDS))"

definition accept_request :: "('k, 'd) verify_options \<Rightarrow> ('k, 'd) verify_ctx \<Rightarrow> sig_error + 'd verify_result" where
  "accept_request opts c =
     bindE (not_expired (rk_validUntil (vc_key c)) (vt_accepted (vc_clock c))) (\<lambda>_.
       let agent_url = (case rk_agentUrl (vc_key c) of
                          Some u \<Rightarrow> Some u
                        | None \<Rightarrow> (case agentUrlForKeyid opts of None \<Rightarrow> None | Some f \<Rightarrow> f (vc_keyid c))) in
       Inr (Verified (vc_keyid c) agent_url (vt_now (vc_clock c)) (rk_operatorRecord (vc_key c))))"

definition commit_nonce ::
    "'s replay_ops \<Rightarrow> ('k, 'd) verify_options \<Rightarrow> ('k, 'd) verify_ctx \<Rightarrow> 's \<Rightarrow> ('k, 'd) verify_pc \<times> 's" where
  "commit_nonce ops opts c st =
     (let now = vt_now (vc_clock c) in
      case rp_insert ops (vc_keyid c) (vc_scope c) (vc_nonce c) (nonce_ttl (vc_expires c) now) now st of
        (Replayed, st') \<Rightarrow> (VDone (Inl replayed_error), st')
      | (RateAbuse, st') \<Rightarrow> (VDone (Inl rate_abuse_error), st')
      | (InsertOk, st') \<Rightarrow> (VDone (accept_request opts c), st'))"

fun verify_step ::
    "('k, 'n) verify_env \<Rightarrow> 's replay_ops \<Rightarrow> ('k, 'd) verify_options \<Rightarrow> ('k, 'd) verify_pc \<Rightarrow> 's
      \<Rightarrow> ('k, 'd) verify_pc \<times> 's" where
  "verify_step E ops opts (AskHas c) st =
     (let (hit, st') = rp_has ops (vc_keyid c) (vc_scope c) (vc_nonce c) (vt_now (vc_clock c)) st in
      (if hit then VDone (Inl replayed_error) else AskCap c, st'))"
| "verify_step E ops opts (AskCap c) st =
     (let (capped, st') = rp_isCapHit ops (vc_keyid c) (vc_scope c) (vt_now (vc_clock c)) st in
      (if capped then AskHasAgain c else after_probes E opts c, st'))"
| "verify_step E ops opts (AskHasAgain c) st =
     (let (hit, st') = rp_has ops (vc_keyid c) (vc_scope c) (vc_nonce c) (vt_now (vc_clock c)) st in
      (VDone (Inl (if hit then replayed_error else rate_abuse_error)), st'))"
| "verify_step E ops opts (AskInsert c) st = commit_nonce ops opts c st"
| "verify_step E ops opts (VDone r) st = (VDone r, st)"

text \<open>A verification that runs alone: at most three calls of the store.\<close>

definition verifyRequestSignature ::
    "('k, 'n) verify_env \<Rightarrow> 's replay_ops \<Rightarrow> ('k, 'd) verify_options \<Rightarrow> request_like \<Rightarrow> verify_clock \<Rightarrow> 's
      \<Rightarrow> ('k, 'd) verify_pc \<times> 's" where
  "verifyRequestSignature E ops opts r clk st =
     (let step = (\<lambda>(pc, s). verify_step E ops opts pc s) in step (step (step (verify_start E opts r clk, st))))"

end
