(* ===== verification/VerifierContract.thy ===== *)
theory VerifierContract
  imports RequestVerifier
begin

text \<open>
  What the request verifier guarantees: concurrent verifications over one replay store accept a
  signature at most once, an accepted request passed every check and is the request that was
  signed, a refused one costs no nonce, and the unsigned path lets nothing through that must be signed.
\<close>

section \<open>Checks of one request\<close>

lemma ensure_Inr [simp]: "ensure ok e = Inr u \<longleftrightarrow> ok"
  by (simp add: ensure_def)

lemma validateWindow_Inr:
  "validateWindow created expires now = Inr u \<longleftrightarrow>
     created < expires \<and> expires \<le> created + 300 \<and> created - 60 \<le> now \<and> now \<le> expires + 60"
  by (auto simp: validateWindow_def MAX_SIGNATURE_WINDOW_SECONDS_def CLOCK_SKEW_TOLERANCE_SECONDS_def)

lemma nonce_ttl_bounds: "360 \<le> nonce_ttl expires now" "expires + 61 \<le> now + nonce_ttl expires now"
  by (simp_all add: nonce_ttl_def CLOCK_SKEW_TOLERANCE_SECONDS_def MAX_SIGNATURE_WINDOW_SECONDS_def)

lemma validateCoveredComponents_Inr:
  "validateCoveredComponents cs policy r = Inr u \<longleftrightarrow>
     set MANDATORY_COMPONENTS \<subseteq> set cs
     \<and> (req_body r \<in> {None, Some []} \<or> js ''content-type'' \<in> set cs)
     \<and> (policy = DigestRequired \<longrightarrow> js ''content-digest'' \<in> set cs)
     \<and> (policy = DigestForbidden \<longrightarrow> js ''content-digest'' \<notin> set cs)"
  by (auto simp: validateCoveredComponents_def Let_def list_all_iff split: option.splits)

text \<open>What is known of a request once its program has started.\<close>

definition parameters_ok :: "('k, 'd) verify_options \<Rightarrow> ('k, 'd) verify_ctx \<Rightarrow> bool" where
  "parameters_ok opts c \<longleftrightarrow>
     (let inp = pr_input (vc_parsed c); p = si_params inp; now = vt_now (vc_clock c); cs = si_components inp in
      \<exists>created. p_created p = Some created \<and> p_expires p = Some (vc_expires c) \<and> p_nonce p = Some (vc_nonce c)
        \<and> p_keyid p = Some (vc_keyid c) \<and> p_tag p = Some REQUEST_SIGNING_TAG \<and> the (p_alg p) \<in> set ALLOWED_ALGS
        \<and> created < vc_expires c \<and> vc_expires c \<le> created + 300
        \<and> created - 60 \<le> now \<and> now \<le> vc_expires c + 60
        \<and> set MANDATORY_COMPONENTS \<subseteq> set cs
        \<and> (req_body (vc_request c) \<in> {None, Some []} \<or> js ''content-type'' \<in> set cs)
        \<and> (effective_policy opts = DigestRequired \<longrightarrow> js ''content-digest'' \<in> set cs))"

definition key_ok :: "('k, 'd) verify_options \<Rightarrow> 'k adcp_jwk \<Rightarrow> jsstr \<Rightarrow> bool" where
  "key_ok opts k alg \<longleftrightarrow>
     \<not> isRevoked_kid opts (jwk_kid k) \<and> jwk_adcp_use k = Some (js ''request-signing'')
     \<and> (\<exists>ks. jwk_key_ops k = Some ks \<and> js ''verify'' \<in> set ks)
     \<and> jwk_alg k = SIG_PARAMS_ALG_TO_JOSE alg"

lemma resolve_key_Inr:
  assumes "resolve_key opts clk keyid alg = Inr k" "alg \<in> set ALLOWED_ALGS"
  shows "jwk_kid (rk_jwk k) = keyid \<and> key_ok opts (rk_jwk k) alg
    \<and> (\<exists>res. lookup_key (jwks opts) keyid = Inr res \<and> rs_jwk res = Some (rk_jwk k))"
proof -
  obtain res where res: "lookup_key (jwks opts) keyid = Inr res"
    using assms(1) by (auto simp: resolve_key_def bindE_eq_Inr_iff)
  obtain jwk where jwk: "rs_jwk res = Some jwk"
    using assms(1) res by (cases "rs_jwk res") (auto simp: resolve_key_def bindE_eq_Inr_iff)
  have s: "\<exists>j. SIG_PARAMS_ALG_TO_JOSE alg = Some j"
    using assms(2) by (auto simp: ALLOWED_ALGS_def SIG_PARAMS_ALG_TO_JOSE_def)
  have v: "validateJwkParameterConsistency jwk alg = Inr ()" "rk_jwk k = jwk" "jwk_kid jwk = keyid"
      "jwk_adcp_use jwk = Some (js ''request-signing'')" "\<not> isRevoked_kid opts (jwk_kid jwk)"
      "case jwk_key_ops jwk of None \<Rightarrow> False | Some ks \<Rightarrow> js ''verify'' \<in> set ks"
    using assms(1) res jwk by (auto simp: resolve_key_def bindE_eq_Inr_iff)
  have "jwk_alg jwk = SIG_PARAMS_ALG_TO_JOSE alg"
    using v(1) s by (auto simp: validateJwkParameterConsistency_def split: option.splits if_splits)
  then show ?thesis using v res jwk by (auto simp: key_ok_def split: option.splits)
qed

lemma prepare_signed_Inr:
  assumes "prepare_signed E opts r clk si sg = Inr c"
  shows "vc_request c = r \<and> vc_clock c = clk \<and> parameters_ok opts c
    \<and> key_ok opts (rk_jwk (vc_key c)) (the (p_alg (si_params (pr_input (vc_parsed c)))))
    \<and> canonicalTargetUri (ve_platform E) (req_url r) (pr_profile (vc_parsed c)) = Inr (vc_scope c)"
proof -
  obtain pr k scope where pr: "parse_request E opts r si sg = Inr pr"
    and chk: "check_parameters opts r (vt_now clk) pr = Inr ()"
    and k: "resolve_key opts clk (the (p_keyid (si_params (pr_input pr)))) (the (p_alg (si_params (pr_input pr)))) = Inr k"
    and scope: "canonicalTargetUri (ve_platform E) (req_url r) (pr_profile pr) = Inr scope"
    and c: "c = \<lparr>vc_request = r, vc_clock = clk, vc_parsed = pr, vc_key = k, vc_scope = scope\<rparr>"
    using assms by (auto simp: prepare_signed_def bindE_eq_Inr_iff)
  let ?p = "si_params (pr_input pr)"
  have req: "requireParams ?p = Inr ()" and tag: "the (p_tag ?p) = REQUEST_SIGNING_TAG"
    and alg: "the (p_alg ?p) \<in> set ALLOWED_ALGS"
    and win: "validateWindow (the (p_created ?p)) (the (p_expires ?p)) (vt_now clk) = Inr ()"
    and cov: "validateCoveredComponents (si_components (pr_input pr)) (effective_policy opts) r = Inr ()"
    using chk by (auto simp: check_parameters_def Let_def bindE_eq_Inr_iff)
  note key = resolve_key_Inr [OF k alg]
  obtain created expires nonce keyid where p: "p_created ?p = Some created" "p_expires ?p = Some expires"
      "p_nonce ?p = Some nonce" "p_keyid ?p = Some keyid" "p_tag ?p = Some REQUEST_SIGNING_TAG"
    using req tag by (auto simp: requireParams_def)
  have "parameters_ok opts c"
    using p alg win [unfolded validateWindow_Inr] cov [unfolded validateCoveredComponents_Inr] key
    by (simp add: parameters_ok_def c vc_expires_def vc_nonce_def vc_keyid_def)
  then show ?thesis using key scope by (simp add: c)
qed

lemma ensure_True [simp]: "ensure True e = Inr ()"
  by simp

section \<open>Concurrent verifications\<close>

datatype ('k, 'd) verify_action =
    Arrive nat "('k, 'd) verify_options" request_like verify_clock
  | Advance nat

record ('k, 'd, 's) verify_sys =
  procs :: "nat \<Rightarrow> (('k, 'd) verify_options \<times> ('k, 'd) verify_pc) option"
  vstore :: 's
  accepted :: "(jsstr \<times> jsstr \<times> jsstr \<times> int) list"

text \<open>The identity of an accepted signature: key, endpoint, nonce and expiry.\<close>

definition accept_key :: "('k, 'd) verify_ctx \<Rightarrow> jsstr \<times> jsstr \<times> jsstr \<times> int" where
  "accept_key c = (vc_keyid c, vc_scope c, vc_nonce c, vc_expires c)"

definition newly_accepted :: "('k, 'd) verify_pc \<Rightarrow> ('k, 'd) verify_pc \<Rightarrow> (jsstr \<times> jsstr \<times> jsstr \<times> int) list" where
  "newly_accepted pc pc' =
     (case pc of AskInsert c \<Rightarrow> (case pc' of VDone (Inr _) \<Rightarrow> [accept_key c] | _ \<Rightarrow> []) | _ \<Rightarrow> [])"

fun sys_step ::
    "('k, 'n) verify_env \<Rightarrow> 's replay_ops \<Rightarrow> ('k, 'd) verify_action \<Rightarrow> ('k, 'd, 's) verify_sys \<Rightarrow> ('k, 'd, 's) verify_sys" where
  "sys_step E ops (Arrive i opts r clk) s = s\<lparr>procs := (procs s)(i \<mapsto> (opts, verify_start E opts r clk))\<rparr>"
| "sys_step E ops (Advance i) s =
     (case procs s i of
        None \<Rightarrow> s
      | Some (opts, pc) \<Rightarrow>
          let (pc', st') = verify_step E ops opts pc (vstore s) in
          s\<lparr>procs := (procs s)(i \<mapsto> (opts, pc')), vstore := st', accepted := accepted s @ newly_accepted pc pc'\<rparr>)"

definition sys_run where
  "sys_run E ops acts s = fold (sys_step E ops) acts s"

definition init_sys :: "'s \<Rightarrow> ('k, 'd, 's) verify_sys" where
  "init_sys st = \<lparr>procs = (\<lambda>_. None), vstore = st, accepted = []\<rparr>"

fun pc_ctx :: "('k, 'd) verify_pc \<Rightarrow> ('k, 'd) verify_ctx option" where
  "pc_ctx (AskHas c) = Some c"
| "pc_ctx (AskCap c) = Some c"
| "pc_ctx (AskHasAgain c) = Some c"
| "pc_ctx (AskInsert c) = Some c"
| "pc_ctx (VDone r) = None"

text \<open>The time a step passes to the store, and runs whose store calls come in the order of these times.\<close>

fun call_time :: "('k, 'd, 's) verify_sys \<Rightarrow> ('k, 'd) verify_action \<Rightarrow> int option" where
  "call_time s (Arrive i opts r clk) = None"
| "call_time s (Advance i) =
     (case procs s i of
        None \<Rightarrow> None
      | Some (opts, pc) \<Rightarrow> (case pc_ctx pc of None \<Rightarrow> None | Some c \<Rightarrow> Some (vt_now (vc_clock c))))"

fun clock_ordered ::
    "('k, 'n) verify_env \<Rightarrow> 's replay_ops \<Rightarrow> int \<Rightarrow> ('k, 'd, 's) verify_sys \<Rightarrow> ('k, 'd) verify_action list \<Rightarrow> bool" where
  "clock_ordered E ops t s [] = True"
| "clock_ordered E ops t s (a # as) =
     (case call_time s a of
        None \<Rightarrow> clock_ordered E ops t (sys_step E ops a s) as
      | Some n \<Rightarrow> t \<le> n \<and> clock_ordered E ops n (sys_step E ops a s) as)"

text \<open>Every program waiting for the store has passed its window check.\<close>

definition in_window :: "('k, 'd) verify_ctx \<Rightarrow> bool" where
  "in_window c \<longleftrightarrow> vt_now (vc_clock c) \<le> vc_expires c + 60"

definition pc_ok :: "('k, 'd) verify_pc \<Rightarrow> bool" where
  "pc_ok pc \<longleftrightarrow> (case pc_ctx pc of None \<Rightarrow> True | Some c \<Rightarrow> in_window c)"

lemma parameters_in_window: "parameters_ok opts c \<Longrightarrow> in_window c"
  by (auto simp: parameters_ok_def in_window_def Let_def)

lemma verify_start_ok: "pc_ok (verify_start E opts r clk)"
proof -
  have "prepare_signed E opts r clk si sg = Inr c \<Longrightarrow> in_window c" for si sg c
    using prepare_signed_Inr parameters_in_window by blast
  then show ?thesis
    by (auto simp: verify_start_def Let_def pc_ok_def split: option.splits sum.splits)
qed

lemma verify_step_ctx: "pc_ctx (fst (verify_step E ops opts pc st)) \<in> {None, pc_ctx pc}"
proof (cases pc)
  case (AskInsert c)
  then show ?thesis by (simp add: commit_nonce_def Let_def split: prod.splits replay_insert_result.splits)
qed (auto simp: after_probes_def split: prod.splits sum.splits)

lemma verify_step_ok: "pc_ok pc \<Longrightarrow> pc_ok (fst (verify_step E ops opts pc st))"
  using verify_step_ctx [of E ops opts pc st] by (auto simp: pc_ok_def)

lemma newly_accepted_insert:
  assumes "verify_step E ops opts pc st = (pc', st')" "newly_accepted pc pc' = xs" "xs \<noteq> []"
  obtains c where "pc = AskInsert c" "xs = [accept_key c]" "\<exists>v. accept_request opts c = Inr v"
    "rp_insert ops (vc_keyid c) (vc_scope c) (vc_nonce c) (nonce_ttl (vc_expires c) (vt_now (vc_clock c)))
       (vt_now (vc_clock c)) st = (InsertOk, st')"
proof (cases pc)
  case (AskInsert c)
  obtain res st1 where i: "rp_insert ops (vc_keyid c) (vc_scope c) (vc_nonce c)
      (nonce_ttl (vc_expires c) (vt_now (vc_clock c))) (vt_now (vc_clock c)) st = (res, st1)" by force
  have pc': "(pc', st') = commit_nonce ops opts c st" using assms(1) AskInsert by simp
  have cn: "commit_nonce ops opts c st = (case res of
      Replayed \<Rightarrow> (VDone (Inl replayed_error), st1) | RateAbuse \<Rightarrow> (VDone (Inl rate_abuse_error), st1)
    | InsertOk \<Rightarrow> (VDone (accept_request opts c), st1))"
    by (simp only: commit_nonce_def Let_def i prod.case)
  have ne: "newly_accepted (AskInsert c) pc' \<noteq> []" using assms(2,3) AskInsert by simp
  have r: "res = InsertOk"
  proof (rule ccontr)
    assume "res \<noteq> InsertOk"
    then obtain e where "pc' = VDone (Inl e)"
      using pc' unfolding cn by (cases res) simp_all
    then show False using ne by (simp add: newly_accepted_def)
  qed
  then have d: "pc' = VDone (accept_request opts c)" "st1 = st'"
    using pc' unfolding cn r by simp_all
  obtain v where v: "accept_request opts c = Inr v"
    using ne d(1) by (cases "accept_request opts c") (simp_all add: newly_accepted_def)
  have "xs = [accept_key c]" using assms(2) AskInsert d(1) v by (simp add: newly_accepted_def)
  then show thesis using that [OF AskInsert] v i r d(2) by blast
qed (use assms(2,3) in \<open>simp_all add: newly_accepted_def\<close>)

text \<open>What a step does to the store: one call of it.\<close>

lemma verify_step_store:
  "snd (verify_step E ops opts pc st) =
    (case pc of
       AskHas c \<Rightarrow> snd (rp_has ops (vc_keyid c) (vc_scope c) (vc_nonce c) (vt_now (vc_clock c)) st)
     | AskCap c \<Rightarrow> snd (rp_isCapHit ops (vc_keyid c) (vc_scope c) (vt_now (vc_clock c)) st)
     | AskHasAgain c \<Rightarrow> snd (rp_has ops (vc_keyid c) (vc_scope c) (vc_nonce c) (vt_now (vc_clock c)) st)
     | AskInsert c \<Rightarrow> snd (rp_insert ops (vc_keyid c) (vc_scope c) (vc_nonce c)
         (nonce_ttl (vc_expires c) (vt_now (vc_clock c))) (vt_now (vc_clock c)) st)
     | VDone r \<Rightarrow> st)"
  by (cases pc) (simp_all add: commit_nonce_def Let_def split: prod.splits replay_insert_result.splits)

section \<open>At most once\<close>

context replay_store
begin

lemma step_inv: "inv st \<Longrightarrow> inv (snd (verify_step E ops opts pc st))"
proof -
  assume st: "inv st"
  have "0 \<le> nonce_ttl e t" for e t using nonce_ttl_bounds(1) [of e t] by simp
  then show ?thesis
    unfolding verify_step_store
    using has_keeps_inv [OF st] cap_keeps_inv [OF st] insert_keeps_inv [OF st] st by (cases pc) simp_all
qed

lemma step_covers:
  assumes "inv st" "covers st kid sc n e" "pc_ctx pc = Some c" "vt_now (vc_clock c) < e"
  shows "covers (snd (verify_step E ops opts pc st)) kid sc n e"
  unfolding verify_step_store
  using has_keeps [OF assms(1,2)] cap_keeps [OF assms(1,2)] insert_keeps [OF assms(1,2)] assms(3,4)
  by (cases pc) simp_all

text \<open>The invariant of a run up to time \<open>t\<close>.\<close>

definition sys_inv :: "int \<Rightarrow> ('k, 'd, 's) verify_sys \<Rightarrow> bool" where
  "sys_inv t s \<longleftrightarrow> inv (vstore s) \<and> (\<forall>i opts pc. procs s i = Some (opts, pc) \<longrightarrow> pc_ok pc)
     \<and> distinct (accepted s)
     \<and> (\<forall>kid sc n e. (kid, sc, n, e) \<in> set (accepted s) \<longrightarrow> t \<le> e + 60 \<longrightarrow> covers (vstore s) kid sc n (e + 61))"

lemma sys_inv_later: "sys_inv t s \<Longrightarrow> t \<le> t' \<Longrightarrow> sys_inv t' s"
  unfolding sys_inv_def by fastforce

lemma sys_inv_advance:
  assumes s: "sys_inv t s" and p: "procs s i = Some (opts, pc)" and c: "pc_ctx pc = Some c" "vt_now (vc_clock c) = t"
  shows "sys_inv t (sys_step E ops (Advance i) s)"
proof -
  obtain pc' st' where v: "verify_step E ops opts pc (vstore s) = (pc', st')" by force
  have inv: "inv (vstore s)" and ok: "pc_ok pc" and d: "distinct (accepted s)"
    and cov: "\<And>kid sc n e. (kid, sc, n, e) \<in> set (accepted s) \<Longrightarrow> t \<le> e + 60 \<Longrightarrow> covers (vstore s) kid sc n (e + 61)"
    using s p by (auto simp: sys_inv_def)
  have st': "inv st'" using step_inv [OF inv, of E opts pc] v by simp
  have pc': "pc_ok pc'" using verify_step_ok [OF ok, of E ops opts "vstore s"] v by simp
  have keep: "covers st' kid sc n (e + 61)" if "(kid, sc, n, e) \<in> set (accepted s)" "t \<le> e + 60" for kid sc n e
    using step_covers [OF inv cov [OF that] c(1), of E opts] c(2) that(2) v by simp
  have procs: "\<forall>j o' q. ((procs s)(i \<mapsto> (opts, pc'))) j = Some (o', q) \<longrightarrow> pc_ok q"
    using s pc' by (auto simp: sys_inv_def)
  show ?thesis
  proof (cases "newly_accepted pc pc' = []")
    case True
    then show ?thesis using st' procs d keep p v by (simp add: sys_inv_def)
  next
    case False
    then obtain c' where c': "pc = AskInsert c'" "newly_accepted pc pc' = [accept_key c']"
      "rp_insert ops (vc_keyid c') (vc_scope c') (vc_nonce c') (nonce_ttl (vc_expires c') (vt_now (vc_clock c')))
         (vt_now (vc_clock c')) (vstore s) = (InsertOk, st')"
      by (metis newly_accepted_insert [OF v refl])
    then have same: "c' = c" using c(1) by simp
    have win: "t \<le> vc_expires c + 60" using ok c by (simp add: pc_ok_def in_window_def)
    have new: "covers st' (vc_keyid c) (vc_scope c) (vc_nonce c) (vc_expires c + 61)"
      using insert_covers [OF inv _ c'(3)] nonce_ttl_bounds [of "vc_expires c" t] same c(2) by simp
    have "accept_key c \<notin> set (accepted s)"
    proof
      assume "accept_key c \<in> set (accepted s)"
      then have "covers (vstore s) (vc_keyid c) (vc_scope c) (vc_nonce c) (vc_expires c + 61)"
        using cov win by (simp add: accept_key_def)
      then have "fst (rp_insert ops (vc_keyid c) (vc_scope c) (vc_nonce c) (nonce_ttl (vc_expires c) t) t (vstore s)) = Replayed"
        using covered_refused [OF inv] win by simp
      then show False using c'(3) same c(2) by simp
    qed
    then show ?thesis
      using st' procs d keep p v c'(2) same new by (auto simp: sys_inv_def accept_key_def)
  qed
qed

lemma sys_inv_run:
  "sys_inv t s \<Longrightarrow> clock_ordered E ops t s acts \<Longrightarrow> \<exists>t'. sys_inv t' (sys_run E ops acts s)"
proof (induction acts arbitrary: t s)
  case Nil
  then show ?case by (auto simp: sys_run_def)
next
  case (Cons a acts)
  have run: "sys_run E ops (a # acts) s = sys_run E ops acts (sys_step E ops a s)" by (simp add: sys_run_def)
  show ?case
  proof (cases "call_time s a")
    case None
    have "sys_inv t (sys_step E ops a s)"
    proof (cases a)
      case (Arrive i opts r clk)
      then show ?thesis using Cons.prems(1) verify_start_ok by (auto simp: sys_inv_def)
    next
      case (Advance i)
      show ?thesis
      proof (cases "procs s i")
        case (Some q)
        then obtain opts r where "procs s i = Some (opts, VDone r)"
          using None Advance by (cases q; cases "snd q") auto
        then show ?thesis
          using Cons.prems(1) Advance by (auto simp: sys_inv_def newly_accepted_def pc_ok_def)
      qed (use Cons.prems(1) Advance in simp)
    qed
    then show ?thesis using Cons None run by simp
  next
    case (Some n)
    then obtain i opts pc c where a: "a = Advance i" "procs s i = Some (opts, pc)" "pc_ctx pc = Some c" "vt_now (vc_clock c) = n"
      by (cases a) (auto split: option.splits)
    have n: "t \<le> n" "clock_ordered E ops n (sys_step E ops a s) acts" using Cons.prems(2) Some by simp_all
    have "sys_inv n (sys_step E ops a s)"
      unfolding a(1) by (rule sys_inv_advance [OF sys_inv_later [OF Cons.prems(1) n(1)] a(2,3,4)])
    then show ?thesis using Cons.IH n(2) run by simp
  qed
qed

lemma accepted_once:
  assumes "inv st" "clock_ordered E ops t (init_sys st) acts"
  shows "distinct (accepted (sys_run E ops acts (init_sys st)))"
proof -
  have "sys_inv t (init_sys st)" using assms(1) by (simp add: sys_inv_def init_sys_def)
  from sys_inv_run [OF this assms(2)] show ?thesis by (auto simp: sys_inv_def)
qed

end

section \<open>A verification that runs alone\<close>

lemma verify_start_cases: "(\<exists>c. verify_start E opts r clk = AskHas c) \<or> (\<exists>x. verify_start E opts r clk = VDone x)"
  by (auto simp: verify_start_def Let_def split: option.splits sum.splits)

lemma verify_start_unsigned:
  "verify_start E opts r clk = VDone (Inr v) \<Longrightarrow>
     \<exists>op. vo_operation opts = (case op of None \<Rightarrow> NoResolvedOperation | Some n \<Rightarrow> NamedOperation n)
       \<and> assertUnsignedRequestAllowed (ve_json_parse E) (req_body r) op (capability opts) = Inr ()
       \<and> v = Unsigned (vt_now clk)"
  by (cases "vo_operation opts")
    (auto simp: verify_start_def Let_def bindE_eq_Inr_iff intro: exI [of _ None] exI [of _ "Some _"]
      split: if_splits option.splits sum.splits)

text \<open>The whole program, by what it asks the store.\<close>

lemma verify_accepts_ctx:
  assumes "fst (verifyRequestSignature E ops opts r clk st) = VDone (Inr (Verified kid url t rec))"
    and c: "verify_start E opts r clk = AskHas c"
  shows "check_content E opts c = Inr () \<and> accept_request opts c = Inr (Verified kid url t rec)"
proof -
  obtain hit s1 where h: "rp_has ops (vc_keyid c) (vc_scope c) (vc_nonce c) (vt_now (vc_clock c)) st = (hit, s1)" by force
  obtain cap s2 where k: "rp_isCapHit ops (vc_keyid c) (vc_scope c) (vt_now (vc_clock c)) s1 = (cap, s2)" by force
  have not_hit: "\<not> hit" using assms h by (auto simp: verifyRequestSignature_def)
  have not_cap: "\<not> cap" using assms h not_hit k by (auto simp: verifyRequestSignature_def split: prod.splits)
  have content: "check_content E opts c = Inr ()"
    using assms h not_hit k not_cap by (cases "check_content E opts c") (simp_all add: verifyRequestSignature_def after_probes_def)
  obtain res s3 where i: "rp_insert ops (vc_keyid c) (vc_scope c) (vc_nonce c)
      (nonce_ttl (vc_expires c) (vt_now (vc_clock c))) (vt_now (vc_clock c)) s2 = (res, s3)" by force
  have "fst (commit_nonce ops opts c s2) = VDone (Inr (Verified kid url t rec))"
    using assms h not_hit k not_cap content by (simp add: verifyRequestSignature_def after_probes_def)
  then have "accept_request opts c = Inr (Verified kid url t rec)"
    unfolding commit_nonce_def Let_def i by (cases res; simp)
  then show ?thesis using content by simp
qed

lemma header_present_Some: "header_present h = Some s \<Longrightarrow> h = Some s"
  by (auto simp: header_present_def split: option.splits if_splits)

lemma verify_start_headers:
  assumes "verify_start E opts r clk = AskHas c"
  obtains si sg where "prepare_signed E opts r clk si sg = Inr c"
    "getHeaderValue (to_lower (ve_platform E)) (req_headers r) (js ''Signature-Input'') = Some si"
    "getHeaderValue (to_lower (ve_platform E)) (req_headers r) (js ''Signature'') = Some sg"
  using assms header_present_Some
  by (auto simp: verify_start_def Let_def split: if_splits option.splits sum.splits)

lemma verify_alone_headers:
  assumes "fst (verifyRequestSignature E ops opts r clk st) = VDone (Inr (Verified kid url t rec))"
  obtains si sg c where "prepare_signed E opts r clk si sg = Inr c" "check_content E opts c = Inr ()"
    "accept_request opts c = Inr (Verified kid url t rec)"
    "getHeaderValue (to_lower (ve_platform E)) (req_headers r) (js ''Signature-Input'') = Some si"
    "getHeaderValue (to_lower (ve_platform E)) (req_headers r) (js ''Signature'') = Some sg"
proof -
  have "\<nexists>u. verify_start E opts r clk = VDone u"
    using assms verify_start_unsigned [of E opts r clk] by (auto simp: verifyRequestSignature_def)
  then obtain c where c: "verify_start E opts r clk = AskHas c" using verify_start_cases by metis
  have "check_content E opts c = Inr () \<and> accept_request opts c = Inr (Verified kid url t rec)"
    by (rule verify_accepts_ctx [OF assms c])
  then show thesis using verify_start_headers [OF c] that by metis
qed

lemma prepare_signed_parts:
  assumes "prepare_signed E opts r clk si sg = Inr c"
  shows "parse_request E opts r si sg = Inr (vc_parsed c)
    \<and> (\<exists>res. lookup_key (jwks opts) (vc_keyid c) = Inr res \<and> rs_jwk res = Some (rk_jwk (vc_key c)))"
proof -
  obtain pr k scope where pr: "parse_request E opts r si sg = Inr pr"
    and chk: "check_parameters opts r (vt_now clk) pr = Inr ()"
    and k: "resolve_key opts clk (the (p_keyid (si_params (pr_input pr)))) (the (p_alg (si_params (pr_input pr)))) = Inr k"
    and c: "c = \<lparr>vc_request = r, vc_clock = clk, vc_parsed = pr, vc_key = k, vc_scope = scope\<rparr>"
    using assms by (auto simp: prepare_signed_def bindE_eq_Inr_iff)
  have "the (p_alg (si_params (pr_input pr))) \<in> set ALLOWED_ALGS"
    using chk by (auto simp: check_parameters_def Let_def bindE_eq_Inr_iff)
  from resolve_key_Inr [OF k this] pr show ?thesis by (simp add: c vc_keyid_def)
qed

lemma check_content_Inr:
  assumes "check_content E opts c = Inr ()"
  defines "cs \<equiv> si_components (pr_input (vc_parsed c))" and "r \<equiv> vc_request c"
  shows "\<exists>base. buildSignatureBase (ve_platform E) cs r (si_params (pr_input (vc_parsed c)))
      (Some (signatureParamsValue (pr_input (vc_parsed c)))) (pr_profile (vc_parsed c)) = Inr base
    \<and> ve_verify E (the (p_alg (si_params (pr_input (vc_parsed c))))) (rk_jwk (vc_key c)) (text_encode base)
        (pr_signature (vc_parsed c))"
    and "js ''content-digest'' \<in> set cs \<Longrightarrow>
      \<exists>h. getHeaderValue (to_lower (ve_platform E)) (req_headers r) (js ''Content-Digest'') = Some h
        \<and> parseContentDigest (ve_headers E) (ve_digest E) h
          = Some (sha256 (ve_digest E) (text_encode (case req_body r of None \<Rightarrow> [] | Some b \<Rightarrow> b)))"
    and "req_body r = Some b \<Longrightarrow> js_trim b \<noteq> [] \<Longrightarrow> \<exists>v. parseStrictJson (ve_strict_parser E) None b = Inr v"
proof -
  have s: "check_signature E r (vc_parsed c) (rk_jwk (vc_key c)) = Inr ()"
    and d: "check_digest E opts r cs = Inr ()" and b: "check_body E r = Inr ()"
    using assms(1) by (auto simp: check_content_def bindE_eq_Inr_iff cs_def r_def)
  show "\<exists>base. buildSignatureBase (ve_platform E) cs r (si_params (pr_input (vc_parsed c)))
      (Some (signatureParamsValue (pr_input (vc_parsed c)))) (pr_profile (vc_parsed c)) = Inr base
    \<and> ve_verify E (the (p_alg (si_params (pr_input (vc_parsed c))))) (rk_jwk (vc_key c)) (text_encode base)
        (pr_signature (vc_parsed c))"
    using s by (auto simp: check_signature_def Let_def bindE_eq_Inr_iff cs_def)
  show "\<exists>h. getHeaderValue (to_lower (ve_platform E)) (req_headers r) (js ''Content-Digest'') = Some h
        \<and> parseContentDigest (ve_headers E) (ve_digest E) h
          = Some (sha256 (ve_digest E) (text_encode (case req_body r of None \<Rightarrow> [] | Some b \<Rightarrow> b)))"
    if cd: "js ''content-digest'' \<in> set cs"
  proof -
    obtain h where h: "header_present (getHeaderValue (to_lower (ve_platform E)) (req_headers r) (js ''Content-Digest'')) = Some h"
      using d cd by (cases "header_present (getHeaderValue (to_lower (ve_platform E)) (req_headers r) (js ''Content-Digest''))")
        (simp_all add: check_digest_def Let_def)
    have "contentDigestMatches (ve_headers E) (ve_digest E) h (case req_body r of None \<Rightarrow> [] | Some b \<Rightarrow> b)"
      using d cd h by (simp add: check_digest_def Let_def split: if_splits)
    then show ?thesis
      using h by (auto simp: header_present_def contentDigestMatches_def Let_def split: option.splits if_splits)
  qed
  show "\<exists>v. parseStrictJson (ve_strict_parser E) None b = Inr v" if "req_body r = Some b" "js_trim b \<noteq> []"
    using b that by (auto simp: check_body_def split: sum.splits)
qed

end
