(* ===== verification/VerifierExample.thy ===== *)
theory VerifierExample
  imports VerifierContract
begin

text \<open>
  What a signature base says of the request it was built for, what a refused verification leaves
  in the replay store, and a concrete environment: one key, one endpoint, the texts of two signed
  requests, and a verifier that accepts exactly the bases of these requests.
\<close>

section \<open>The signed request\<close>

lemma split_at_sep: "c \<in> set s \<Longrightarrow> tl (js_split c s) \<noteq> []"
  by (induction s) (auto split: list.splits)

lemma plain_identifier:
  assumes "0x3b \<notin> set c" "parseComponentIdentifier c' = parseComponentIdentifier c"
  shows "c' = c"
proof (cases "0x3b \<in> set c'")
  case True
  have p: "parseComponentIdentifier c' = Inr (c, False)" using assms by (simp add: parseComponentIdentifier_def)
  have "filter (\<lambda>q. q \<noteq> js ''req'') (tl (js_split 0x3b c')) = []" "js ''req'' \<notin> set (tl (js_split 0x3b c'))"
    using p True by (auto simp: parseComponentIdentifier_def Let_def split: if_splits)
  then have "tl (js_split 0x3b c') = []" by (cases "tl (js_split 0x3b c')") (auto simp: filter_empty_conv)
  then show ?thesis using split_at_sep [OF True] by simp
qed (use assms in \<open>simp add: parseComponentIdentifier_def\<close>)

lemma same_component_value:
  assumes "map parseComponentIdentifier cs = map parseComponentIdentifier cs'" "map f cs = map g cs'"
    and "c \<in> set cs" "0x3b \<notin> set c"
  shows "f c = g c"
proof -
  obtain i where i: "i < length cs" "cs ! i = c" using assms(3) by (auto simp: in_set_conv_nth)
  have len: "length cs = length cs'" using assms(2) by (rule map_eq_imp_length_eq)
  have "parseComponentIdentifier (cs' ! i) = parseComponentIdentifier c"
    using assms(1) i len by (metis nth_map)
  then have "cs' ! i = c" by (rule plain_identifier [OF assms(4)])
  then show ?thesis using assms(2) i len by (metis nth_map)
qed

definition newline_free :: "sig_platform \<Rightarrow> jsstr list \<Rightarrow> request_like \<Rightarrow> canon_profile \<Rightarrow> bool" where
  "newline_free P cs r prof \<longleftrightarrow>
     (\<forall>c v. c \<in> set cs \<longrightarrow> resolveComponentValue P c r prof = Inr (Some v) \<longrightarrow> 10 \<notin> set v)"

lemma text_encode_injD:
  "text_encode a = text_encode b \<Longrightarrow> well_formed_utf16 a \<Longrightarrow> well_formed_utf16 b \<Longrightarrow> a = b"
  using utf8_concat_inj [OF scalars_bound scalars_bound] scalars_inj by (auto simp: text_encode_def)

lemma components_of_signed_base:
  assumes P: "rfc8941_items P"
    and base: "buildSignatureBase P cs r p (Some sp) prof = Inr b" "buildSignatureBase P cs0 r0 p0 (Some sp0) prof0 = Inr b"
    and clean: "newline_free P cs r prof" "newline_free P cs0 r0 prof0"
    and mand: "set MANDATORY_COMPONENTS \<subseteq> set cs"
  shows "to_upper P (req_method r0) = to_upper P (req_method r)
    \<and> canonicalTargetUri P (req_url r0) prof0 = canonicalTargetUri P (req_url r) prof
    \<and> canonicalAuthority P (req_url r0) prof0 = canonicalAuthority P (req_url r) prof
    \<and> sp0 = sp
    \<and> (js ''content-digest'' \<in> set cs \<longrightarrow>
        getHeaderValue (to_lower P) (req_headers r0) (js ''content-digest'')
        = getHeaderValue (to_lower P) (req_headers r) (js ''content-digest''))"
proof -
  have eq: "sp = sp0 \<and> map parseComponentIdentifier cs = map parseComponentIdentifier cs0
      \<and> map (\<lambda>c. resolveComponentValue P c r prof) cs = map (\<lambda>c. resolveComponentValue P c r0 prof0) cs0"
    by (rule base_determines_components [OF P base]) (use clean in \<open>auto simp: newline_free_def\<close>)
  have val: "c \<in> set cs \<Longrightarrow> 0x3b \<notin> set c \<Longrightarrow> resolveComponentValue P c r prof = resolveComponentValue P c r0 prof0" for c
    using same_component_value [of cs cs0 "\<lambda>c. resolveComponentValue P c r prof"] eq by blast
  have m: "js ''@method'' \<in> set cs" "js ''@target-uri'' \<in> set cs" "js ''@authority'' \<in> set cs"
    using mand by (auto simp: MANDATORY_COMPONENTS_def)
  have r: "resolveComponentValue P (js ''@method'') r prof = resolveComponentValue P (js ''@method'') r0 prof0"
      "resolveComponentValue P (js ''@target-uri'') r prof = resolveComponentValue P (js ''@target-uri'') r0 prof0"
      "resolveComponentValue P (js ''@authority'') r prof = resolveComponentValue P (js ''@authority'') r0 prof0"
    using val m by (simp_all add: js_def)
  have inj: "bindE x (\<lambda>t. Inr (Some t)) = bindE y (\<lambda>t. Inr (Some t)) \<Longrightarrow> x = y" for x y :: "sig_error + jsstr"
    by (cases x; cases y) simp_all
  have d: "js ''content-digest'' \<in> set cs \<Longrightarrow> resolveComponentValue P (js ''content-digest'') r prof
      = resolveComponentValue P (js ''content-digest'') r0 prof0"
    using val by (simp add: js_def)
  have at: "starts_with [0x40] (js ''@method'')" "starts_with [0x40] (js ''@target-uri'')" "starts_with [0x40] (js ''@authority'')"
      "\<not> starts_with [0x40] (js ''content-digest'')" by (simp_all add: starts_with_def js_def)
  show ?thesis
    using eq r d inj by (simp add: resolveComponentValue_def at canonicalMethod_def)
qed

section \<open>The cost of a refused request\<close>

text \<open>The nonces a store holds, by composite key.\<close>

definition held_pairs :: "replay_state \<Rightarrow> (jsstr \<times> jsstr) set" where
  "held_pairs st = {(c, n). n \<in> set (nonces (getOrCreate c st))}"

lemma prune_subset: "set (nonces (prune cfg now s)) \<subseteq> set (nonces s)"
  by (rule prune_cases [of cfg now s]) auto

lemma held_pairs_prune:
  "held_pairs (set_key_state c (prune cfg now (getOrCreate c st)) st) \<subseteq> held_pairs st"
  using subsetD [OF prune_subset] by (auto simp: held_pairs_def split: if_splits)

lemma held_pairs_has: "held_pairs (snd (has_nonce cfg kid sc n now st)) \<subseteq> held_pairs st"
  using held_pairs_prune [of "compositeKey kid sc" cfg now st]
  by (auto simp: has_nonce_def Let_def getOrCreate_def split: option.splits)

lemma held_pairs_cap: "held_pairs (snd (isCapHit cfg kid sc now st)) \<subseteq> held_pairs st"
  using held_pairs_prune [of "compositeKey kid sc" cfg now st]
  by (auto simp: isCapHit_def Let_def getOrCreate_def split: option.splits)

lemma held_pairs_insert:
  "fst (insert_nonce cfg kid sc n ttl now st) \<noteq> InsertOk \<Longrightarrow> held_pairs (snd (insert_nonce cfg kid sc n ttl now st)) \<subseteq> held_pairs st"
  using held_pairs_prune [of "compositeKey kid sc" cfg now st]
  by (auto simp: insert_nonce_def Let_def split: if_splits)

lemma verify_step_cost:
  assumes "verify_step E (memoryReplay cfg) opts pc st = (pc', st')"
  shows "held_pairs st' \<subseteq> held_pairs st \<or> (\<exists>c. pc' = VDone (accept_request opts c))"
proof (cases pc)
  case (AskInsert c)
  obtain res st1 where i: "rp_insert (memoryReplay cfg) (vc_keyid c) (vc_scope c) (vc_nonce c)
      (nonce_ttl (vc_expires c) (vt_now (vc_clock c))) (vt_now (vc_clock c)) st = (res, st1)" by force
  have "st' = st1" "res = InsertOk \<longrightarrow> pc' = VDone (accept_request opts c)"
    using assms AskInsert by (simp_all add: commit_nonce_def Let_def i split: replay_insert_result.splits)
  moreover have "res \<noteq> InsertOk \<Longrightarrow> held_pairs st1 \<subseteq> held_pairs st"
    using held_pairs_insert [of cfg "vc_keyid c" "vc_scope c" "vc_nonce c"
        "nonce_ttl (vc_expires c) (vt_now (vc_clock c))" "vt_now (vc_clock c)" st] i by (simp add: memoryReplay_def)
  ultimately show ?thesis by blast
next
  case (AskHas c)
  then have "st' = snd (has_nonce cfg (vc_keyid c) (vc_scope c) (vc_nonce c) (vt_now (vc_clock c)) st)"
    using assms by (simp add: memoryReplay_def split: prod.splits)
  then show ?thesis using held_pairs_has by blast
next
  case (AskCap c)
  then have "st' = snd (isCapHit cfg (vc_keyid c) (vc_scope c) (vt_now (vc_clock c)) st)"
    using assms by (simp add: memoryReplay_def split: prod.splits)
  then show ?thesis using held_pairs_cap by blast
next
  case (AskHasAgain c)
  then have "st' = snd (has_nonce cfg (vc_keyid c) (vc_scope c) (vc_nonce c) (vt_now (vc_clock c)) st)"
    using assms by (simp add: memoryReplay_def split: prod.splits)
  then show ?thesis using held_pairs_has by blast
qed (use assms in simp)

lemma verify_step_done: "verify_step E ops opts (VDone x) st = (VDone x, st)"
  by simp

lemma verify_steps_cost:
  assumes "verify_step E (memoryReplay cfg) opts pc0 st0 = (pc1, st1)" "verify_step E (memoryReplay cfg) opts pc1 st1 = (pc2, st2)"
    and "verify_step E (memoryReplay cfg) opts pc2 st2 = (VDone (Inl e), st3)" "e \<noteq> origin_mismatch"
  shows "held_pairs st3 \<subseteq> held_pairs st0"
proof -
  have acc: "pc = VDone (accept_request opts c) \<Longrightarrow> \<exists>x. pc = VDone x \<and> x \<noteq> Inl e" for pc and c :: "('a, 'b) verify_ctx"
    using assms(4) by (auto simp: accept_request_def not_expired_def ensure_def Let_def bindE_eq_Inl_iff split: if_splits)
  have stay: "verify_step E (memoryReplay cfg) opts (VDone x) st = (VDone x, st)" for x st by simp
  have "held_pairs st3 \<subseteq> held_pairs st2" using verify_step_cost [OF assms(3)] acc by fastforce
  moreover have "held_pairs st2 \<subseteq> held_pairs st1"
    using verify_step_cost [OF assms(2)] acc assms(3) by fastforce
  moreover have "held_pairs st1 \<subseteq> held_pairs st0"
    using verify_step_cost [OF assms(1)] acc assms(2,3) by fastforce
  ultimately show ?thesis by blast
qed

section \<open>A concrete environment\<close>

text \<open>
  Two signed requests to one endpoint: the first with nonce n, valid from second 0 to 300, the second with
  nonce m, valid from 301 to 500.
\<close>

definition demo_created :: "bool \<Rightarrow> int" where "demo_created b = (if b then 0 else 301)"
definition demo_expires :: "bool \<Rightarrow> int" where "demo_expires b = (if b then 300 else 500)"
definition demo_nonce :: "bool \<Rightarrow> jsstr" where "demo_nonce b = (if b then js ''n'' else js ''m'')"

definition demo_inner :: "bool \<Rightarrow> jsstr" where
  "demo_inner b = js (''(\"@method\" \"@target-uri\" \"@authority\");created='' @ (if b then ''0'' else ''301'')
     @ '';expires='' @ (if b then ''300'' else ''500'') @ '';nonce=\"'' @ (if b then ''n'' else ''m'')
     @ ''\";keyid=\"k\";alg=\"ed25519\";tag=\"adcp/request-signing/v1\"'')"

definition demo_sig_input :: "bool \<Rightarrow> jsstr" where "demo_sig_input b = js ''sig1='' @ demo_inner b"

definition demo_sig :: jsstr where "demo_sig = js ''sig1=:AQ==:''"

definition demo_params :: "bool \<Rightarrow> sh_params" where
  "demo_params b = [(js ''created'', BareNumber (Fin (of_int (demo_created b)))), (js ''expires'', BareNumber (Fin (of_int (demo_expires b)))),
     (js ''nonce'', BareString (demo_nonce b)), (js ''keyid'', BareString (js ''k'')), (js ''alg'', BareString (js ''ed25519'')),
     (js ''tag'', BareString REQUEST_SIGNING_TAG)]"

definition demo_items :: "(bare_item \<times> sh_params) list" where
  "demo_items = map (\<lambda>c. (BareString c, [])) MANDATORY_COMPONENTS"

definition demo_library :: sh_library where
  "demo_library = \<lparr>parse_dictionary = (\<lambda>s.
       if s = demo_sig_input True then Some [(js ''sig1'', InnerList demo_items (demo_params True))]
       else if s = demo_sig_input False then Some [(js ''sig1'', InnerList demo_items (demo_params False))]
       else if s = demo_sig then Some [(js ''sig1'', SingleItem (BareBytes [1]) [])] else None),
     serialize_string_item = (\<lambda>b ps. Some (sf_string b)),
     serialize_inner = (\<lambda>items ps. if ps = demo_params True then Some (demo_inner True)
       else if ps = demo_params False then Some (demo_inner False) else None)\<rparr>"

definition demo_base :: "bool \<Rightarrow> jsstr" where
  "demo_base b = js_join [10] [sf_string (js ''@method'') @ js '': '' @ js ''POST'',
     sf_string (js ''@target-uri'') @ js '': '' @ js ''https://a.example/mcp'',
     sf_string (js ''@authority'') @ js '': '' @ js ''a.example'', params_line (demo_inner b)]"

definition demo_key :: "unit adcp_jwk" where
  "demo_key = \<lparr>jwk_kid = js ''k'', jwk_kty = Some (js ''OKP''), jwk_crv = Some (js ''Ed25519''), jwk_alg = Some (js ''EdDSA''),
     jwk_adcp_use = Some (js ''request-signing''), jwk_key_ops = Some [js ''verify''], jwk_material = ()\<rparr>"

definition demo_env :: "(unit, unit) verify_env" where
  "demo_env = \<lparr>ve_platform = demo_platform, ve_headers = demo_library,
     ve_digest = \<lparr>base64_decode = (\<lambda>s. []), sha256 = id\<rparr>, ve_strict_parser = (\<lambda>s. Inr JNull), ve_json_parse = (\<lambda>s. Some JNull),
     ve_valid_jwk = (\<lambda>k. True),
     ve_verify = (\<lambda>alg k m sig. m = text_encode (demo_base True) \<or> m = text_encode (demo_base False))\<rparr>"

definition demo_options :: "(unit, unit) verify_options" where
  "demo_options = \<lparr>capability = \<lparr>covers_content_digest = DigestEither, required_for = [js ''buy''],
       protocol_methods_required_for = None\<rparr>,
     jwks = PlainResolver (\<lambda>kid. Inr (if kid = js ''k'' then Some demo_key else None)),
     isRevoked_kid = isRevoked empty_revocations, vo_operation = NamedOperation (js ''buy''), adcpVersion = None,
     agentUrlForKeyid = None\<rparr>"

definition demo_signed :: "bool \<Rightarrow> request_like" where
  "demo_signed b = demo_request [(js ''Signature-Input'', HeaderText (demo_sig_input b)), (js ''Signature'', HeaderText demo_sig)]"

definition demo_clock :: "int \<Rightarrow> verify_clock" where
  "demo_clock t = \<lparr>vt_now = t, vt_resolved = t, vt_checked = t, vt_accepted = t\<rparr>"

definition demo_parsed :: "bool \<Rightarrow> parsed_request" where
  "demo_parsed b = \<lparr>pr_input = \<lparr>si_label = js ''sig1'', si_components = MANDATORY_COMPONENTS, signatureParamsValue = demo_inner b,
       si_params = \<lparr>p_created = Some (demo_created b), p_expires = Some (demo_expires b), p_nonce = Some (demo_nonce b),
         p_keyid = Some (js ''k''), p_alg = Some (js ''ed25519''), p_tag = Some REQUEST_SIGNING_TAG\<rparr>\<rparr>,
     pr_signature = [1], pr_profile = V32\<rparr>"

definition demo_ctx :: "bool \<Rightarrow> int \<Rightarrow> (unit, unit) verify_ctx" where
  "demo_ctx b t = \<lparr>vc_request = demo_signed b, vc_clock = demo_clock t, vc_parsed = demo_parsed b,
     vc_key = \<lparr>rk_jwk = demo_key, rk_agentUrl = None, rk_operatorRecord = None, rk_validUntil = None\<rparr>,
     vc_scope = js ''https://a.example/mcp''\<rparr>"

lemmas scan_simps = scan_key_def scan_ows_def ows_unit_def sf_key_unit_def ascii_alpha_def ascii_digit_def lower_unit_def

lemma demo_no_duplicates:
  "rejectDuplicateDictionaryKeys (demo_sig_input b) = Inr ()" "rejectDuplicateDictionaryKeys demo_sig = Inr ()"
  by (cases b; simp add: rejectDuplicateDictionaryKeys_def findDuplicateStructuredKey_def demo_sig_input_def demo_inner_def
      demo_sig_def js_def scan_members.simps scan_value_def scan_inner.simps scan_parameters.simps(2) bareItem_def
      item_end_def js_space_def starts_with_def scan_simps Let_def)+

lemma demo_distinct [simp]:
  "demo_sig_input False \<noteq> demo_sig_input True" "demo_sig \<noteq> demo_sig_input b" "demo_params False \<noteq> demo_params True"
proof -
  show "demo_sig_input False \<noteq> demo_sig_input True" by (simp add: demo_sig_input_def demo_inner_def js_def)
  show "demo_sig \<noteq> demo_sig_input b" by (cases b) (simp_all add: demo_sig_def demo_sig_input_def demo_inner_def js_def)
  show "demo_params False \<noteq> demo_params True" by (simp add: demo_params_def demo_created_def)
qed

lemma demo_dictionary:
  "parse_dictionary demo_library (demo_sig_input b) = Some [(js ''sig1'', InnerList demo_items (demo_params b))]"
  "parse_dictionary demo_library demo_sig = Some [(js ''sig1'', SingleItem (BareBytes [1]) [])]"
  "serialize_inner demo_library demo_items (demo_params b) = Some (demo_inner b)"
  by (cases b; simp add: demo_library_def)+

lemma demo_component: "0x22 \<notin> set c \<Longrightarrow> 0x5c \<notin> set c \<Longrightarrow> component_of demo_library (BareString c, []) = Inr c"
proof -
  assume c: "0x22 \<notin> set c" "0x5c \<notin> set c"
  have "concat (map (\<lambda>w. if w = 34 \<or> w = 92 then [92, w] else [w]) c) = c"
    using c by (induction c) auto
  then have "sf_string c = 0x22 # c @ [0x22]" by (simp add: sf_string_def)
  then show ?thesis
    using c index_of_append [of "0x22" c "[]"] by (simp add: component_of_def demo_library_def after_name_def)
qed

lemma demo_input_parsed:
  "parseSignatureInput demo_library (demo_sig_input b) None = Inr (pr_input (demo_parsed b))"
proof -
  have c: "mapE (component_of demo_library) demo_items = Inr MANDATORY_COMPONENTS"
    by (simp add: demo_items_def MANDATORY_COMPONENTS_def demo_component js_def)
  have t: "list_all param_type_ok (demo_params b)"
    by (simp add: demo_params_def param_type_ok_def STRING_PARAMS_def INTEGER_PARAMS_def)
  have i: "integer_param (demo_params b) (js ''created'') = Some (demo_created b)"
      "integer_param (demo_params b) (js ''expires'') = Some (demo_expires b)"
    by (simp_all add: integer_param_def demo_params_def)
  have v: "string_param (demo_params b) (js ''nonce'') = Some (demo_nonce b)"
      "string_param (demo_params b) (js ''keyid'') = Some (js ''k'')"
      "string_param (demo_params b) (js ''alg'') = Some (js ''ed25519'')"
      "string_param (demo_params b) (js ''tag'') = Some REQUEST_SIGNING_TAG"
    by (simp_all add: string_param_def demo_params_def)
  show ?thesis
    by (simp add: parseSignatureInput_def demo_no_duplicates demo_dictionary parseSignatureInputMember_def c t i v demo_parsed_def)
qed

lemma demo_bytes: "label_bytes (js ''sig1'') True demo_sig = Some (js ''AQ=='')"
  by (simp add: demo_sig_def js_def bytes_at_def starts_with_def js_space_def)

lemma demo_base64:
  "isPaddedStandardBase64 (js ''AQ=='')" "\<not> isBase64url (js ''AQ=='')"
  by (simp_all add: isPaddedStandardBase64_def isBase64url_def js_def base64_unit_def base64url_unit_def
      ascii_alpha_def ascii_digit_def)

lemma demo_signature_parsed:
  "parseSignature demo_library demo_sig (js ''sig1'') Rfc8941Base64 = Inr [1]"
  "parseSignature demo_library demo_sig (js ''sig1'') LegacyBase64url = Inl malformed"
  by (simp_all add: parseSignature_def demo_no_duplicates demo_bytes demo_base64 demo_dictionary)

lemma demo_host_ok: "rejectNonAsciiHost (js ''https://a.example/mcp'') = Inr ()"
  by (simp add: rejectNonAsciiHost_def any_authority_def starts_with_def js_def ascii_alpha_def scheme_unit_def
      ascii_digit_def authority_unit_def Let_def)

lemma demo_platform_simps [simp]:
  "to_lower demo_platform = ascii_lower" "to_upper demo_platform = map upper_unit"
  "new_URL demo_platform (js ''https://a.example/mcp'') = Some demo_url"
  "set_hostname demo_platform = (\<lambda>h u. u\<lparr>url_hostname := h, url_host := h\<rparr>)"
  by (simp_all add: demo_platform_def)

lemma demo_url_parsed: "parseCanonicalUrl demo_platform (js ''https://a.example/mcp'') V32 = Inr demo_url"
proof -
  have a: "url_authority (js ''https://a.example/mcp'') = Some (js ''a.example'')"
    by (simp add: js_def starts_with_def ascii_alpha_def scheme_unit_def ascii_digit_def authority_unit_def Let_def)
  have l: "ascii_lower (js ''a.example'') = js ''a.example''" by (simp add: ascii_lower_def js_def)
  have h: "url_hostname demo_url = js ''a.example''" "demo_url\<lparr>url_hostname := js ''a.example'', url_host := js ''a.example''\<rparr> = demo_url"
    by (simp_all add: demo_url_def)
  have e: "\<not> ends_with 0x2e (js ''a.example'')" "\<not> empty_label (js ''a.example'')"
    by (simp_all add: ends_with_def empty_label_def js_def)
  show ?thesis
    unfolding parseCanonicalUrl_def a
    using l h e by (simp add: after_last_def starts_with_def js_def [of "''a.example''"] Let_def)
qed

end
