(* ===== verification/VerifierProperties.thy ===== *)
theory VerifierProperties
  imports VerifierExample
begin

text \<open>
  The guarantees of the request verifier as properties, each applied to the example environment.
\<close>

section \<open>The example requests pass\<close>

lemma demo_target: "canonicalTargetUri demo_platform (js ''https://a.example/mcp'') V32 = Inr (js ''https://a.example/mcp'')"
proof -
  have n: "uppercasePercentEncoding (decodeUnreservedPercentEncoding (js ''https://a.example/mcp'')) = js ''https://a.example/mcp''"
    by code_simp
  have a: "js ''https:'' @ js ''//'' @ js ''a.example'' @ js ''/mcp'' = js ''https://a.example/mcp''" by (simp add: js_def)
  have f: "dropWhile (\<lambda>w. w \<noteq> 0x3f) (before_first 0x23 (js ''https://a.example/mcp'')) = []" by code_simp
  show ?thesis
    unfolding canonicalTargetUri_def demo_url_parsed
    by (simp add: demo_url_def a n f Let_def)
qed

lemma demo_authority: "canonicalAuthority demo_platform (js ''https://a.example/mcp'') V32 = Inr (js ''a.example'')"
proof -
  have l: "ascii_lower (js ''a.example'') = js ''a.example''" by (simp add: ascii_lower_def js_def)
  show ?thesis unfolding canonicalAuthority_def demo_url_parsed by (simp add: demo_url_def l)
qed

lemma demo_components:
  "resolveComponentValue demo_platform (js ''@method'') (demo_signed b) V32 = Inr (Some (js ''POST''))"
  "resolveComponentValue demo_platform (js ''@target-uri'') (demo_signed b) V32 = Inr (Some (js ''https://a.example/mcp''))"
  "resolveComponentValue demo_platform (js ''@authority'') (demo_signed b) V32 = Inr (Some (js ''a.example''))"
proof -
  have at: "starts_with [0x40] (js ''@method'')" "starts_with [0x40] (js ''@target-uri'')" "starts_with [0x40] (js ''@authority'')"
    by (simp_all add: starts_with_def js_def)
  have up: "map upper_unit (js ''post'') = js ''POST''" by (simp add: js_def upper_unit_def)
  show "resolveComponentValue demo_platform (js ''@method'') (demo_signed b) V32 = Inr (Some (js ''POST''))"
    by (simp add: resolveComponentValue_def at canonicalMethod_def demo_signed_def demo_request_def up)
  show "resolveComponentValue demo_platform (js ''@target-uri'') (demo_signed b) V32 = Inr (Some (js ''https://a.example/mcp''))"
    by (simp add: resolveComponentValue_def at demo_signed_def demo_request_def demo_target)
  show "resolveComponentValue demo_platform (js ''@authority'') (demo_signed b) V32 = Inr (Some (js ''a.example''))"
    by (simp add: resolveComponentValue_def at demo_signed_def demo_request_def demo_authority)
qed

lemma demo_identifiers:
  "c \<in> set MANDATORY_COMPONENTS \<Longrightarrow> formatComponentIdentifier demo_platform c = Inr (sf_string c)"
  by (auto simp: MANDATORY_COMPONENTS_def formatComponentIdentifier_def parseComponentIdentifier_def js_def demo_platform_def
      sf_printable_def)

lemma demo_signature_base:
  "buildSignatureBase demo_platform MANDATORY_COMPONENTS (demo_signed b) p (Some (demo_inner b')) V32
    = Inr (js_join [10] [sf_string (js ''@method'') @ js '': '' @ js ''POST'',
     sf_string (js ''@target-uri'') @ js '': '' @ js ''https://a.example/mcp'',
     sf_string (js ''@authority'') @ js '': '' @ js ''a.example'', params_line (demo_inner b')])"
proof -
  have i: "formatComponentIdentifier demo_platform (js ''@method'') = Inr (sf_string (js ''@method''))"
      "formatComponentIdentifier demo_platform (js ''@target-uri'') = Inr (sf_string (js ''@target-uri''))"
      "formatComponentIdentifier demo_platform (js ''@authority'') = Inr (sf_string (js ''@authority''))"
    using demo_identifiers by (simp_all add: MANDATORY_COMPONENTS_def)
  have nl: "10 \<notin> set (js ''POST'')" "10 \<notin> set (js ''https://a.example/mcp'')" "10 \<notin> set (js ''a.example'')"
    by (simp_all add: js_def)
  show ?thesis
    by (simp add: buildSignatureBase_def MANDATORY_COMPONENTS_def base_line_def demo_components i nl)
qed

lemma demo_headers:
  "getHeaderValue ascii_lower (req_headers (demo_signed b)) (js ''Signature-Input'') = Some (demo_sig_input b)"
  "getHeaderValue ascii_lower (req_headers (demo_signed b)) (js ''Signature'') = Some demo_sig"
  "getHeaderValue ascii_lower (req_headers (demo_signed b)) (js ''Host'') = None"
proof -
  have t: "js_trim (demo_sig_input b) = demo_sig_input b" "js_trim demo_sig = demo_sig"
    by (cases b; simp add: js_trim_def js_trim_start_def js_space_def demo_sig_input_def demo_inner_def demo_sig_def js_def)+
  have l: "ascii_lower (js ''Signature-Input'') = js ''signature-input''" "ascii_lower (js ''Signature'') = js ''signature''"
      "ascii_lower (js ''Host'') = js ''host''"
    by (simp_all add: ascii_lower_def js_def)
  have d: "js ''signature-input'' \<noteq> js ''signature''" "js ''signature-input'' \<noteq> js ''host''" "js ''signature'' \<noteq> js ''host''"
    by (simp_all add: js_def)
  show "getHeaderValue ascii_lower (req_headers (demo_signed b)) (js ''Signature-Input'') = Some (demo_sig_input b)"
    "getHeaderValue ascii_lower (req_headers (demo_signed b)) (js ''Signature'') = Some demo_sig"
    "getHeaderValue ascii_lower (req_headers (demo_signed b)) (js ''Host'') = None"
    using d d(1)[symmetric] by (simp_all add: demo_signed_def demo_request_def l header_text_def t)
qed

lemma demo_present: "header_present (Some (demo_sig_input b)) = Some (demo_sig_input b)" "header_present (Some demo_sig) = Some demo_sig"
  by (simp_all add: header_present_def demo_sig_input_def demo_sig_def js_def)

lemma demo_env_simps [simp]:
  "ve_platform demo_env = demo_platform" "ve_headers demo_env = demo_library" "ve_valid_jwk demo_env k"
  "ve_verify demo_env alg k m sig \<longleftrightarrow> m = text_encode (demo_base True) \<or> m = text_encode (demo_base False)"
  by (simp_all add: demo_env_def)

lemma demo_request_parsed: "parse_request demo_env demo_options (demo_signed b) (demo_sig_input b) demo_sig = Inr (demo_parsed b)"
proof -
  have l: "si_label (pr_input (demo_parsed b)) = js ''sig1''" "si_components (pr_input (demo_parsed b)) = MANDATORY_COMPONENTS"
      "demo_parsed b = \<lparr>pr_input = pr_input (demo_parsed b), pr_signature = [1], pr_profile = V32\<rparr>"
    by (simp_all add: demo_parsed_def)
  have o: "pinned_encoding demo_options = None" by (simp add: pinned_encoding_def demo_options_def)
  have v: "validateSingleValuedCoveredHeaders demo_platform demo_library MANDATORY_COMPONENTS (demo_signed b) = Inr ()"
    by (simp add: validateSingleValuedCoveredHeaders_def MANDATORY_COMPONENTS_def js_def)
  have u: "req_url (demo_signed b) = js ''https://a.example/mcp''" by (simp add: demo_signed_def demo_request_def)
  show ?thesis
    by (simp add: parse_request_def demo_input_parsed l(1,2) o signatureEncodingCandidates_def demo_signature_parsed u
        demo_host_ok v l(3)[symmetric] Let_def)
qed

definition demo_window :: "bool \<Rightarrow> int \<Rightarrow> bool" where
  "demo_window b t \<longleftrightarrow> demo_created b - 60 \<le> t \<and> t \<le> demo_expires b + 60"

lemma demo_parameters: "demo_window b t \<Longrightarrow> check_parameters demo_options (demo_signed b) t (demo_parsed b) = Inr ()"
proof -
  assume t: "demo_window b t"
  have p: "si_params (pr_input (demo_parsed b)) = \<lparr>p_created = Some (demo_created b), p_expires = Some (demo_expires b),
      p_nonce = Some (demo_nonce b), p_keyid = Some (js ''k''), p_alg = Some (js ''ed25519''), p_tag = Some REQUEST_SIGNING_TAG\<rparr>"
    by (simp add: demo_parsed_def)
  have a: "js ''ed25519'' \<in> set ALLOWED_ALGS" by (simp add: ALLOWED_ALGS_def)
  have w: "validateWindow (demo_created b) (demo_expires b) t = Inr ()"
    using t by (cases b) (simp_all add: validateWindow_Inr demo_window_def demo_created_def demo_expires_def)
  have c: "validateCoveredComponents MANDATORY_COMPONENTS (effective_policy demo_options) (demo_signed b) = Inr ()"
    by (simp add: validateCoveredComponents_Inr demo_signed_def demo_request_def effective_policy_def pinned_encoding_def
        demo_options_def)
  have cs: "si_components (pr_input (demo_parsed b)) = MANDATORY_COMPONENTS" by (simp add: demo_parsed_def)
  show ?thesis
    by (simp add: check_parameters_def p cs a w c requireParams_def Let_def)
qed

lemma demo_lookup: "resolve_key demo_options clk (js ''k'') (js ''ed25519'')
    = Inr \<lparr>rk_jwk = demo_key, rk_agentUrl = None, rk_operatorRecord = None, rk_validUntil = None\<rparr>"
proof -
  have s: "SIG_PARAMS_ALG_TO_JOSE (js ''ed25519'') = Some (js ''EdDSA'')"
    by (simp add: SIG_PARAMS_ALG_TO_JOSE_def js_def)
  have v: "validateJwkParameterConsistency demo_key (js ''ed25519'') = Inr ()"
    unfolding validateJwkParameterConsistency_def s by (simp add: demo_key_def js_def)
  have k: "jwk_kid demo_key = js ''k''" "jwk_adcp_use demo_key = Some (js ''request-signing'')"
      "jwk_key_ops demo_key = Some [js ''verify'']" by (simp_all add: demo_key_def)
  have r: "\<not> isRevoked_kid demo_options (js ''k'')"
    by (simp add: demo_options_def isRevoked_def empty_revocations_def load_kid_def)
  have l: "lookup_key (jwks demo_options) (js ''k'') = Inr \<lparr>rs_jwk = Some demo_key, rs_agentUrl = None, rs_operatorRecord = None,
      rs_legacyWebhookFallback = False, rs_validUntil = None\<rparr>"
    by (simp add: lookup_key_def demo_options_def)
  show ?thesis by (simp add: resolve_key_def l not_expired_def k v r)
qed

lemma demo_prepared:
  "demo_window b t \<Longrightarrow>
    prepare_signed demo_env demo_options (demo_signed b) (demo_clock t) (demo_sig_input b) demo_sig = Inr (demo_ctx b t)"
proof -
  assume t: "demo_window b t"
  have n: "vt_now (demo_clock t) = t" by (simp add: demo_clock_def)
  have p: "p_keyid (si_params (pr_input (demo_parsed b))) = Some (js ''k'')"
      "p_alg (si_params (pr_input (demo_parsed b))) = Some (js ''ed25519'')" "pr_profile (demo_parsed b) = V32"
    by (simp_all add: demo_parsed_def)
  have u: "req_url (demo_signed b) = js ''https://a.example/mcp''" by (simp add: demo_signed_def demo_request_def)
  show ?thesis
    by (simp add: prepare_signed_def demo_request_parsed n demo_parameters [OF t] p demo_lookup u demo_target demo_ctx_def)
qed

lemma demo_started: "demo_window b t \<Longrightarrow> verify_start demo_env demo_options (demo_signed b) (demo_clock t) = AskHas (demo_ctx b t)"
proof -
  assume t: "demo_window b t"
  have o: "vo_operation demo_options = NamedOperation (js ''buy'')" by (simp add: demo_options_def)
  show ?thesis by (simp add: verify_start_def o demo_headers demo_present demo_prepared [OF t] Let_def)
qed

lemma demo_content: "check_content demo_env demo_options (demo_ctx b t) = Inr ()"
proof -
  have c: "vc_request (demo_ctx b t) = demo_signed b" "vc_parsed (demo_ctx b t) = demo_parsed b"
      "rk_jwk (vc_key (demo_ctx b t)) = demo_key" "rk_validUntil (vc_key (demo_ctx b t)) = None"
    by (simp_all add: demo_ctx_def)
  have p: "si_components (pr_input (demo_parsed b)) = MANDATORY_COMPONENTS" "pr_profile (demo_parsed b) = V32"
      "signatureParamsValue (pr_input (demo_parsed b)) = demo_inner b"
    by (simp_all add: demo_parsed_def)
  have h: "check_received_host demo_platform (demo_signed b) = Inr ()"
    by (simp add: check_received_host_def demo_headers)
  have base: "buildSignatureBase demo_platform MANDATORY_COMPONENTS (demo_signed b) q (Some (demo_inner b)) V32 = Inr (demo_base b)" for q
    by (simp add: demo_signature_base demo_base_def)
  have v: "text_encode (demo_base b) = text_encode (demo_base True) \<or> text_encode (demo_base b) = text_encode (demo_base False)"
    by (cases b) simp_all
  have s: "check_signature demo_env (demo_signed b) (demo_parsed b) demo_key = Inr ()"
    using v by (simp add: check_signature_def p base Let_def)
  have d: "check_digest demo_env demo_options (demo_signed b) MANDATORY_COMPONENTS = Inr ()"
    by (simp add: check_digest_def MANDATORY_COMPONENTS_def js_def)
  have b: "check_body demo_env (demo_signed b) = Inr ()" by (simp add: check_body_def demo_signed_def demo_request_def)
  show ?thesis by (simp add: check_content_def c p h s d b not_expired_def)
qed

abbreviation demo_scope :: jsstr where "demo_scope \<equiv> js ''https://a.example/mcp''"

lemma demo_ctx_simps [simp]:
  "vc_keyid (demo_ctx b t) = js ''k''" "vt_now (vc_clock (demo_ctx b t)) = t" "vc_scope (demo_ctx b t) = demo_scope"
  "vc_nonce (demo_ctx b t) = demo_nonce b" "vc_expires (demo_ctx b t) = demo_expires b"
  by (simp_all add: demo_ctx_def vc_keyid_def demo_key_def demo_clock_def vc_nonce_def vc_expires_def demo_parsed_def)

lemma demo_accepted: "accept_request demo_options (demo_ctx b t) = Inr (Verified (js ''k'') None t None)"
  by (simp add: accept_request_def not_expired_def) (simp add: demo_ctx_def demo_options_def demo_clock_def)

lemma memoryReplay_simps [simp]:
  "rp_has (memoryReplay cfg) = has_nonce cfg" "rp_isCapHit (memoryReplay cfg) = isCapHit cfg"
  "rp_insert (memoryReplay cfg) = insert_nonce cfg"
  by (simp_all add: memoryReplay_def)

definition demo_cfg :: replay_cfg where "demo_cfg = new_replay_cfg (Some 5) None"

lemma demo_cfg_simps: "capPerKeyid demo_cfg = 5" "bucketSize demo_cfg = 60"
  by (simp_all add: demo_cfg_def new_replay_cfg_def)

definition demo_store :: "bool \<Rightarrow> int \<Rightarrow> int \<Rightarrow> int \<Rightarrow> replay_state" where
  "demo_store b e bk pruned = set_key_state (compositeKey (js ''k'') demo_scope)
     \<lparr>nonces = [demo_nonce b], buckets = [(bk, \<lparr>bucket_nonces = [demo_nonce b], latestExpiry = e\<rparr>)],
      lastPrunedBucket = Some pruned\<rparr> empty_replay"

lemmas demo_store_simps = demo_store_def set_key_state_def has_nonce_def isCapHit_def insert_nonce_def insertEntry_def
  prune_def getOrCreate_def new_key_state_def empty_replay_def demo_cfg_simps set_add_def

lemma demo_first_run:
  "verify_step demo_env (memoryReplay demo_cfg) demo_options (AskHas (demo_ctx True 0)) empty_replay = (AskCap (demo_ctx True 0), empty_replay)"
  "verify_step demo_env (memoryReplay demo_cfg) demo_options (AskCap (demo_ctx True 0)) empty_replay = (AskInsert (demo_ctx True 0), empty_replay)"
  "verify_step demo_env (memoryReplay demo_cfg) demo_options (AskInsert (demo_ctx True 0)) empty_replay
    = (VDone (Inr (Verified (js ''k'') None 0 None)), demo_store True 361 6 0)"
proof -
  show "verify_step demo_env (memoryReplay demo_cfg) demo_options (AskHas (demo_ctx True 0)) empty_replay = (AskCap (demo_ctx True 0), empty_replay)"
    by (simp add: demo_store_simps)
  show "verify_step demo_env (memoryReplay demo_cfg) demo_options (AskCap (demo_ctx True 0)) empty_replay = (AskInsert (demo_ctx True 0), empty_replay)"
    by (simp add: demo_store_simps after_probes_def demo_content)
  have "insert_nonce demo_cfg (js ''k'') demo_scope (demo_nonce True) 361 0 empty_replay = (InsertOk, demo_store True 361 6 0)"
    by (simp add: demo_store_simps Let_def)
  moreover have "nonce_ttl (demo_expires True) 0 = 361"
    by (simp add: nonce_ttl_def demo_expires_def CLOCK_SKEW_TOLERANCE_SECONDS_def MAX_SIGNATURE_WINDOW_SECONDS_def)
  ultimately show "verify_step demo_env (memoryReplay demo_cfg) demo_options (AskInsert (demo_ctx True 0)) empty_replay
    = (VDone (Inr (Verified (js ''k'') None 0 None)), demo_store True 361 6 0)"
    by (simp add: commit_nonce_def demo_accepted Let_def)
qed

lemma demo_verified:
  "verifyRequestSignature demo_env (memoryReplay demo_cfg) demo_options (demo_signed True) (demo_clock 0) empty_replay
    = (VDone (Inr (Verified (js ''k'') None 0 None)), demo_store True 361 6 0)"
proof -
  have w: "demo_window True 0" by (simp add: demo_window_def demo_created_def demo_expires_def)
  show ?thesis by (simp only: verifyRequestSignature_def demo_started [OF w] demo_first_run Let_def prod.case)
qed

section \<open>At most once\<close>

text \<open>
  C2: concurrent verifications over the in-process replay store accept a signature at most once.
  Requests start and advance in any interleaving, with any options, clocks and key lookups; every
  acceptance is recorded as key, target URI, nonce and expiry.  If the store is called in the order of
  the times the calls carry, no such record occurs twice, whatever is pruned in between.
\<close>

theorem accepted_at_most_once:
  assumes "clock_ordered E (memoryReplay (new_replay_cfg cap None)) t (init_sys empty_replay) acts"
  shows "distinct (accepted (sys_run E (memoryReplay (new_replay_cfg cap None)) acts (init_sys empty_replay)))"
  by (rule rps.accepted_once [OF empty_replay_inv assms])

definition both_requests :: "(unit, unit) verify_action list" where
  "both_requests = [Arrive 0 demo_options (demo_signed True) (demo_clock 0), Arrive 1 demo_options (demo_signed True) (demo_clock 0),
     Advance 0, Advance 1, Advance 0, Advance 1, Advance 0, Advance 1]"

lemma demo_replayed:
  "verify_step demo_env (memoryReplay demo_cfg) demo_options (AskInsert (demo_ctx True 0)) (demo_store True 361 6 0)
    = (VDone (Inl replayed_error), demo_store True 361 6 0)"
proof -
  have "insert_nonce demo_cfg (js ''k'') demo_scope (demo_nonce True) 361 0 (demo_store True 361 6 0)
      = (Replayed, demo_store True 361 6 0)"
    by (simp add: demo_store_simps Let_def)
  moreover have "nonce_ttl (demo_expires True) 0 = 361"
    by (simp add: nonce_ttl_def demo_expires_def CLOCK_SKEW_TOLERANCE_SECONDS_def MAX_SIGNATURE_WINDOW_SECONDS_def)
  ultimately show ?thesis by (simp add: commit_nonce_def Let_def)
qed

theorem accepted_at_most_once_witness:
  "distinct (accepted (sys_run demo_env (memoryReplay (new_replay_cfg (Some 5) None)) both_requests (init_sys empty_replay)))"
proof (rule accepted_at_most_once)
  have w: "demo_window True 0" by (simp add: demo_window_def demo_created_def demo_expires_def)
  show "clock_ordered demo_env (memoryReplay (new_replay_cfg (Some 5) None)) 0 (init_sys empty_replay) both_requests"
    unfolding demo_cfg_def [symmetric]
    by (simp add: both_requests_def init_sys_def demo_started [OF w] demo_first_run demo_replayed
        del: verify_step.simps)
qed

text \<open>
  C39: the order of the clock readings is needed.  The verifier reads its clock once, before the key is
  looked up, and passes this reading to the store after the lookup.  When a lookup is slow, another
  request can prune the store with a later reading in between, and the same signature is accepted a
  second time: here the request of second 0 is accepted at once, and a copy that arrives
  in second 360 (still in its window) and waits for its key while a request of second 361 is verified is
  accepted again.
\<close>

theorem stale_clock_replay:
  "accepted (sys_run demo_env (memoryReplay demo_cfg)
      ([Arrive 0 demo_options (demo_signed True) (demo_clock 0), Advance 0, Advance 0, Advance 0]
       @ [Arrive 1 demo_options (demo_signed True) (demo_clock 360)]
       @ [Arrive 2 demo_options (demo_signed False) (demo_clock 361), Advance 2, Advance 2, Advance 2]
       @ [Advance 1, Advance 1, Advance 1]) (init_sys empty_replay))
   = [(js ''k'', demo_scope, js ''n'', 300), (js ''k'', demo_scope, js ''m'', 500), (js ''k'', demo_scope, js ''n'', 300)]"
proof -
  have w: "demo_window True 0" "demo_window True 360" "demo_window False 361"
    by (simp_all add: demo_window_def demo_created_def demo_expires_def)
  note start = w [THEN demo_started]
  let ?V = "verify_step demo_env (memoryReplay demo_cfg) demo_options"
  have ttl: "nonce_ttl (demo_expires True) 360 = 360" "nonce_ttl (demo_expires False) 361 = 360"
    by (simp_all add: nonce_ttl_def demo_expires_def CLOCK_SKEW_TOLERANCE_SECONDS_def MAX_SIGNATURE_WINDOW_SECONDS_def)
  have nm: "demo_nonce False \<noteq> demo_nonce True" by (simp add: demo_nonce_def js_def)
  let ?K = "compositeKey (js ''k'') demo_scope"
  let ?empty = "set_key_state ?K \<lparr>nonces = [], buckets = [], lastPrunedBucket = Some 6\<rparr> empty_replay"
  let ?m = "demo_store False 721 12 6"
  have second: "?V (AskHas (demo_ctx False 361)) (demo_store True 361 6 0) = (AskCap (demo_ctx False 361), ?empty)"
      "?V (AskCap (demo_ctx False 361)) ?empty = (AskInsert (demo_ctx False 361), ?empty)"
    by (simp_all add: demo_store_simps after_probes_def demo_content Let_def)
  have im: "insert_nonce demo_cfg (js ''k'') demo_scope (demo_nonce False) 360 361 ?empty = (InsertOk, ?m)"
    by (simp add: demo_store_simps Let_def)
  have second_done: "?V (AskInsert (demo_ctx False 361)) ?empty = (VDone (Inr (Verified (js ''k'') None 361 None)), ?m)"
    by (simp add: commit_nonce_def ttl im demo_accepted Let_def)
  have third: "?V (AskHas (demo_ctx True 360)) ?m = (AskCap (demo_ctx True 360), ?m)"
      "?V (AskCap (demo_ctx True 360)) ?m = (AskInsert (demo_ctx True 360), ?m)"
    using nm by (simp_all add: demo_store_simps after_probes_def demo_content Let_def)
  obtain st where it: "insert_nonce demo_cfg (js ''k'') demo_scope (demo_nonce True) 360 360 ?m = (InsertOk, st)"
    using nm by (simp add: demo_store_simps Let_def)
  have third_done: "?V (AskInsert (demo_ctx True 360)) ?m = (VDone (Inr (Verified (js ''k'') None 360 None)), st)"
    by (simp add: commit_nonce_def ttl it demo_accepted Let_def)
  have key: "accept_key (demo_ctx b t) = (js ''k'', demo_scope, demo_nonce b, demo_expires b)" for b t
    by (simp add: accept_key_def)
  show ?thesis
    by (simp add: sys_run_def init_sys_def start demo_first_run second second_done third third_done newly_accepted_def key
        demo_nonce_def demo_expires_def del: verify_step.simps)
qed

section \<open>What an accepted request passed\<close>



section \<open>Authenticity\<close>

text \<open>Received text: no covered value has a line feed, and the base has no lone surrogate.\<close>

definition clean_signature :: "('k, 'n) verify_env \<Rightarrow> ('k, 'd) verify_options \<Rightarrow> request_like \<Rightarrow> bool" where
  "clean_signature E opts r \<longleftrightarrow> (\<forall>si sg pr.
     getHeaderValue (to_lower (ve_platform E)) (req_headers r) (js ''Signature-Input'') = Some si
     \<and> getHeaderValue (to_lower (ve_platform E)) (req_headers r) (js ''Signature'') = Some sg
     \<and> parse_request E opts r si sg = Inr pr \<longrightarrow>
       newline_free (ve_platform E) (si_components (pr_input pr)) r (pr_profile pr)
       \<and> (\<forall>base. buildSignatureBase (ve_platform E) (si_components (pr_input pr)) r (si_params (pr_input pr))
            (Some (signatureParamsValue (pr_input pr))) (pr_profile pr) = Inr base \<longrightarrow> well_formed_utf16 base))"

text \<open>
  C3: a verified request is one its key holder signed.  Suppose a signature only verifies under a key for the
  base of a request that was signed with this key (unforgeability), signed and received header values
  have no line feed, and both bases are well-formed text.  Then every request the verifier accepts has the
  method, target URI, authority and signature parameters of a request signed with the key of its key id,
  and where the content digest is covered, also its digest header.
\<close>

theorem signed_request_authentic:
  assumes "rfc8941_items (ve_platform E)"
    and "\<And>alg k m sig. ve_verify E alg k m sig \<Longrightarrow> \<exists>cs0 r0 p0 sp0 prof0 b0. has_signed k cs0 r0 sp0 prof0
        \<and> buildSignatureBase (ve_platform E) cs0 r0 p0 (Some sp0) prof0 = Inr b0 \<and> m = text_encode b0 \<and> well_formed_utf16 b0"
    and "\<And>k cs0 r0 sp0 prof0. has_signed k cs0 r0 sp0 prof0 \<Longrightarrow> newline_free (ve_platform E) cs0 r0 prof0"
    and "clean_signature E opts r"
    and "fst (verifyRequestSignature E ops opts r clk st) = VDone (Inr (Verified kid url t rec))"
  shows "\<exists>c cs0 r0 prof0. let P = ve_platform E; inp = pr_input (vc_parsed c); prof = pr_profile (vc_parsed c) in
    vc_keyid c = kid \<and> vc_request c = r \<and> parameters_ok opts c
    \<and> has_signed (rk_jwk (vc_key c)) cs0 r0 (signatureParamsValue inp) prof0
    \<and> to_upper P (req_method r0) = to_upper P (req_method r)
    \<and> canonicalTargetUri P (req_url r0) prof0 = canonicalTargetUri P (req_url r) prof
    \<and> canonicalAuthority P (req_url r0) prof0 = canonicalAuthority P (req_url r) prof
    \<and> (js ''content-digest'' \<in> set (si_components inp) \<longrightarrow>
        getHeaderValue (to_lower P) (req_headers r0) (js ''content-digest'')
        = getHeaderValue (to_lower P) (req_headers r) (js ''content-digest''))"
proof -
  let ?P = "ve_platform E"
  obtain si sg c where c: "prepare_signed E opts r clk si sg = Inr c" "check_content E opts c = Inr ()"
      "accept_request opts c = Inr (Verified kid url t rec)"
      "getHeaderValue (to_lower ?P) (req_headers r) (js ''Signature-Input'') = Some si"
      "getHeaderValue (to_lower ?P) (req_headers r) (js ''Signature'') = Some sg"
    by (rule verify_alone_headers [OF assms(5)])
  define inp where "inp = pr_input (vc_parsed c)"
  have p: "vc_request c = r" "parameters_ok opts c" using prepare_signed_Inr [OF c(1)] by simp_all
  have kid: "vc_keyid c = kid" using c(3) by (auto simp: accept_request_def bindE_eq_Inr_iff Let_def)
  obtain base where base: "buildSignatureBase ?P (si_components inp) r (si_params inp) (Some (signatureParamsValue inp))
      (pr_profile (vc_parsed c)) = Inr base"
    and v: "ve_verify E (the (p_alg (si_params inp))) (rk_jwk (vc_key c)) (text_encode base) (pr_signature (vc_parsed c))"
    using check_content_Inr(1) [OF c(2)] p(1) unfolding inp_def by blast
  obtain cs0 r0 p0 sp0 prof0 b0 where s: "has_signed (rk_jwk (vc_key c)) cs0 r0 sp0 prof0"
    and b0: "buildSignatureBase ?P cs0 r0 p0 (Some sp0) prof0 = Inr b0" "text_encode base = text_encode b0" "well_formed_utf16 b0"
    using assms(2) [OF v] by blast
  have clean: "newline_free ?P (si_components inp) r (pr_profile (vc_parsed c))" "well_formed_utf16 base"
    using assms(4) c(4,5) prepare_signed_parts [OF c(1)] base unfolding clean_signature_def inp_def by blast+
  have "base = b0" by (rule text_encode_injD [OF b0(2) clean(2) b0(3)])
  moreover have "set MANDATORY_COMPONENTS \<subseteq> set (si_components inp)"
    using p(2) by (auto simp: parameters_ok_def inp_def Let_def)
  ultimately have "to_upper ?P (req_method r0) = to_upper ?P (req_method r)
    \<and> canonicalTargetUri ?P (req_url r0) prof0 = canonicalTargetUri ?P (req_url r) (pr_profile (vc_parsed c))
    \<and> canonicalAuthority ?P (req_url r0) prof0 = canonicalAuthority ?P (req_url r) (pr_profile (vc_parsed c))
    \<and> sp0 = signatureParamsValue inp
    \<and> (js ''content-digest'' \<in> set (si_components inp) \<longrightarrow>
        getHeaderValue (to_lower ?P) (req_headers r0) (js ''content-digest'')
        = getHeaderValue (to_lower ?P) (req_headers r) (js ''content-digest''))"
    using components_of_signed_base [OF assms(1) base _ clean(1) assms(3) [OF s]] b0(1) by simp
  then show ?thesis using kid p s unfolding inp_def Let_def by blast
qed

lemma demo_newline_free: "newline_free demo_platform MANDATORY_COMPONENTS (demo_signed b) V32"
proof -
  have nl: "10 \<notin> set (js ''POST'')" "10 \<notin> set (js ''https://a.example/mcp'')" "10 \<notin> set (js ''a.example'')"
    by (simp_all add: js_def)
  show ?thesis by (auto simp: newline_free_def MANDATORY_COMPONENTS_def demo_components nl)
qed

lemma demo_base_well_formed: "well_formed_utf16 (demo_base b)"
proof -
  have "list_all plain_unit (demo_base b)"
    by (cases b) (simp_all add: demo_base_def demo_inner_def params_line_def sf_string_def js_def plain_unit_def
        is_high_surrogate_def is_low_surrogate_def)
  then show ?thesis using well_formed_plain_append [of "demo_base b" "[]"] by simp
qed

lemma demo_clean: "clean_signature demo_env demo_options (demo_signed b)"
proof -
  have p: "si_components (pr_input (demo_parsed b)) = MANDATORY_COMPONENTS" "pr_profile (demo_parsed b) = V32"
      "signatureParamsValue (pr_input (demo_parsed b)) = demo_inner b"
    by (simp_all add: demo_parsed_def)
  have base: "buildSignatureBase demo_platform MANDATORY_COMPONENTS (demo_signed b) q (Some (demo_inner b)) V32 = Inr (demo_base b)" for q
    by (simp add: demo_signature_base demo_base_def)
  show ?thesis
    by (auto simp: clean_signature_def demo_headers demo_request_parsed p base demo_newline_free demo_base_well_formed)
qed

text \<open>The holder of the example key signed the two example requests.\<close>

definition demo_has_signed :: "unit adcp_jwk \<Rightarrow> jsstr list \<Rightarrow> request_like \<Rightarrow> jsstr \<Rightarrow> canon_profile \<Rightarrow> bool" where
  "demo_has_signed k cs r sp prof \<longleftrightarrow> cs = MANDATORY_COMPONENTS \<and> prof = V32
     \<and> (r = demo_signed True \<and> sp = demo_inner True \<or> r = demo_signed False \<and> sp = demo_inner False)"

theorem signed_request_authentic_witness:
  "\<exists>c cs0 r0 prof0. parameters_ok demo_options c \<and> vc_keyid c = js ''k'' \<and> vc_request c = demo_signed True
    \<and> demo_has_signed (rk_jwk (vc_key c)) cs0 r0 (signatureParamsValue (pr_input (vc_parsed c))) prof0
    \<and> to_upper demo_platform (req_method r0) = to_upper demo_platform (req_method (demo_signed True))"
proof -
  have u: "\<exists>cs0 r0 p0 sp0 prof0 b0. demo_has_signed k cs0 r0 sp0 prof0
      \<and> buildSignatureBase demo_platform cs0 r0 p0 (Some sp0) prof0 = Inr b0 \<and> m = text_encode b0 \<and> well_formed_utf16 b0"
    if "ve_verify demo_env alg k m sig" for alg k m sig
  proof -
    obtain b where "m = text_encode (demo_base b)" using \<open>ve_verify demo_env alg k m sig\<close> by auto
    moreover have "demo_has_signed k MANDATORY_COMPONENTS (demo_signed b) (demo_inner b) V32"
      by (cases b) (simp_all add: demo_has_signed_def)
    moreover have "buildSignatureBase demo_platform MANDATORY_COMPONENTS (demo_signed b) no_params (Some (demo_inner b)) V32
        = Inr (demo_base b)"
      by (simp add: demo_signature_base demo_base_def)
    ultimately show ?thesis using demo_base_well_formed by blast
  qed
  have n: "demo_has_signed k cs0 r0 sp0 prof0 \<Longrightarrow> newline_free (ve_platform demo_env) cs0 r0 prof0" for k cs0 r0 sp0 prof0
    using demo_newline_free by (auto simp: demo_has_signed_def)
  have v: "fst (verifyRequestSignature demo_env (memoryReplay demo_cfg) demo_options (demo_signed True) (demo_clock 0) empty_replay)
      = VDone (Inr (Verified (js ''k'') None 0 None))"
    by (simp add: demo_verified)
  have P: "rfc8941_items (ve_platform demo_env)" by (simp add: demo_platform_items)
  have u': "\<And>alg k m sig. ve_verify demo_env alg k m sig \<Longrightarrow> \<exists>cs0 r0 p0 sp0 prof0 b0. demo_has_signed k cs0 r0 sp0 prof0
      \<and> buildSignatureBase (ve_platform demo_env) cs0 r0 p0 (Some sp0) prof0 = Inr b0 \<and> m = text_encode b0 \<and> well_formed_utf16 b0"
    unfolding demo_env_simps(1) by (rule u)
  show ?thesis
    by (rule revcut_rl [OF signed_request_authentic [where has_signed = demo_has_signed, OF P u' n demo_clean v]],
        assumption, assumption, unfold Let_def demo_env_simps(1)) blast
qed

section \<open>Unsigned requests\<close>

lemma verify_step_not_unsigned:
  "fst (verify_step E ops opts pc st) = VDone (Inr (Unsigned t)) \<Longrightarrow> pc = VDone (Inr (Unsigned t))"
  by (cases pc) (auto simp: after_probes_def commit_nonce_def accept_request_def bindE_eq_Inr_iff Let_def
      split: if_splits prod.splits sum.splits replay_insert_result.splits)

lemma unsigned_from_start:
  "fst (verifyRequestSignature E ops opts r clk st) = VDone (Inr (Unsigned t)) \<Longrightarrow> verify_start E opts r clk = VDone (Inr (Unsigned t))"
  unfolding verifyRequestSignature_def Let_def case_prod_beta
  by (drule verify_step_not_unsigned)+ simp

lemma listed_method:
  "v = JObj fs \<or> (\<exists>vs. v = JArr vs \<and> JObj fs \<in> set vs) \<Longrightarrow> map_of fs (js ''method'') = Some (JStr m) \<Longrightarrow>
    m \<in> set (case v of JArr messages \<Rightarrow> concat (map message_method messages) | w \<Rightarrow> message_method w)"
  by (force simp: message_method_def)

lemma find_SomeD: "find P xs = Some x \<Longrightarrow> P x"
  by (auto simp: find_Some_iff)

text \<open>
  C24: an unsigned request is let through only where no signature is needed.  If the verifier answers unsigned,
  no signature header is present, the operation is not on the endpoint's list, no protocol method of the body is on
  its list, and the body is small enough to be searched and carries no webhook credentials
  where the search goes.
\<close>

theorem unsigned_never_bypasses:
  assumes "fst (verifyRequestSignature E ops opts r clk st) = VDone (Inr (Unsigned t))"
  shows "vo_operation opts \<noteq> UnresolvableOperation
    \<and> (\<forall>op. vo_operation opts = NamedOperation op \<and> op \<noteq> [] \<longrightarrow> op \<notin> set (required_for (capability opts)))
    \<and> (\<forall>b v ms. req_body r = Some b \<and> b \<noteq> [] \<and> ve_json_parse E b = Some v
         \<and> protocol_methods_required_for (capability opts) = Some ms \<and> [] \<notin> set ms
        \<longrightarrow> (\<forall>m fs. (v = JObj fs \<or> (\<exists>vs. v = JArr vs \<and> JObj fs \<in> set vs)) \<and> map_of fs (js ''method'') = Some (JStr m)
             \<longrightarrow> m \<notin> set ms))
    \<and> (\<forall>b. req_body r = Some b \<longrightarrow> length b \<le> 1048576
        \<and> (\<forall>v. b \<noteq> [] \<and> ve_json_parse E b = Some v \<longrightarrow> searched_depth v < 64 \<and> \<not> carries_credentials v))"
proof -
  obtain op where op: "vo_operation opts = (case op of None \<Rightarrow> NoResolvedOperation | Some n \<Rightarrow> NamedOperation n)"
    and a: "assertUnsignedRequestAllowed (ve_json_parse E) (req_body r) op (capability opts) = Inr ()"
    using verify_start_unsigned [OF unsigned_from_start [OF assms]] by blast
  have a1: "case op of None \<Rightarrow> True | Some n \<Rightarrow> n = [] \<or> n \<notin> set (required_for (capability opts))"
    and a2: "assertUnsignedProtocolMethodNotRequired (ve_json_parse E) (req_body r) (capability opts) = Inr ()"
    and a3: "\<not> carriesWebhookAuthentication (ve_json_parse E) (req_body r)"
    using a by (simp_all add: assertUnsignedRequestAllowed_def assertUnsignedOperationNotRequired_def
        assertUnsignedWebhookAuthenticationAbsent_def bindE_eq_Inr_iff)
  have ops: "vo_operation opts \<noteq> UnresolvableOperation"
      "\<forall>n. vo_operation opts = NamedOperation n \<and> n \<noteq> [] \<longrightarrow> n \<notin> set (required_for (capability opts))"
    using op a1 by (auto split: option.splits)
  have small: "length b \<le> 1048576" if "req_body r = Some b" for b
    using a3 that by (cases "b = []")
      (simp_all add: carriesWebhookAuthentication_def exceedsUnsignedBodyInspectionCap_def MAX_UNSIGNED_BODY_INSPECTION_BYTES_def
        split: if_splits)
  have search: "searched_depth v < 64 \<and> \<not> carries_credentials v"
    if "req_body r = Some b" "b \<noteq> []" "ve_json_parse E b = Some v" for b v
    using a3 that by (auto simp: carriesWebhookAuthentication_def containsWebhookAuthentication_iff
        WEBHOOK_AUTH_TRAVERSAL_DEPTH_def split: if_splits)
  have meth: "m \<notin> set ms" if b: "req_body r = Some b" "b \<noteq> []" "ve_json_parse E b = Some v"
    and ms: "protocol_methods_required_for (capability opts) = Some ms" "[] \<notin> set ms"
    and v: "v = JObj fs \<or> (\<exists>vs. v = JArr vs \<and> JObj fs \<in> set vs)" "map_of fs (js ''method'') = Some (JStr m)" for b v ms m fs
  proof -
    have "m \<in> set (jsonRpcProtocolMethods (ve_json_parse E) (Some b))"
      using listed_method [OF v] small [OF b(1)] b
      by (auto simp: jsonRpcProtocolMethods_def exceedsUnsignedBodyInspectionCap_def MAX_UNSIGNED_BODY_INSPECTION_BYTES_def
          split: jsval.splits)
    then show ?thesis
      using a2 ms b(1) by (fastforce simp: assertUnsignedProtocolMethodNotRequired_def find_None_iff Let_def
          dest: find_SomeD split: if_splits option.splits)
  qed
  show ?thesis using ops small search meth by blast
qed

text \<open>A request without signature to an endpoint that requires one for another operation.\<close>

definition open_options :: "(unit, unit) verify_options" where
  "open_options = demo_options\<lparr>vo_operation := NamedOperation (js ''list'')\<rparr>"

lemma demo_unsigned:
  "fst (verifyRequestSignature demo_env (memoryReplay demo_cfg) open_options (demo_request []) (demo_clock 7) empty_replay)
    = VDone (Inr (Unsigned 7))"
proof -
  have d: "js ''list'' \<noteq> js ''buy''" by (simp add: js_def)
  have "verify_start demo_env open_options (demo_request []) (demo_clock 7) = VDone (Inr (Unsigned 7))"
    by (simp add: verify_start_def open_options_def demo_options_def demo_request_def header_present_def demo_clock_def Let_def d
        assertUnsignedRequestAllowed_def assertUnsignedOperationNotRequired_def assertUnsignedProtocolMethodNotRequired_def
        assertUnsignedWebhookAuthenticationAbsent_def carriesWebhookAuthentication_def)
  then show ?thesis by (simp add: verifyRequestSignature_def)
qed

theorem unsigned_never_bypasses_witness:
  "js ''list'' \<notin> set (required_for (capability open_options))"
proof -
  have "vo_operation open_options = NamedOperation (js ''list'')" "js ''list'' \<noteq> []" by (simp_all add: open_options_def js_def)
  then show ?thesis using unsigned_never_bypasses [OF demo_unsigned] by blast
qed

section \<open>Cost\<close>

text \<open>
  A refused request costs its key no replay capacity.  Over the in-process store, a verification that ends
  in an error leaves no nonce in the store that was not there before, so requests with bad signatures,
  bad digests or malformed bodies cannot fill a signer's nonce budget (an operator authorisation
  that ends during the commit excepted).
\<close>

theorem refused_request_costs_no_nonce:
  assumes "verifyRequestSignature E (memoryReplay cfg) opts r clk st = (VDone (Inl e), st')" "e \<noteq> origin_mismatch"
  shows "held_pairs st' \<subseteq> held_pairs st"
proof -
  obtain pc1 st1 where 1: "verify_step E (memoryReplay cfg) opts (verify_start E opts r clk) st = (pc1, st1)" by force
  obtain pc2 st2 where 2: "verify_step E (memoryReplay cfg) opts pc1 st1 = (pc2, st2)" by force
  have 3: "verify_step E (memoryReplay cfg) opts pc2 st2 = (VDone (Inl e), st')"
    using assms(1) by (simp add: verifyRequestSignature_def 1 2)
  show ?thesis by (rule verify_steps_cost [OF 1 2 3 assms(2)])
qed

theorem refused_request_costs_no_nonce_witness:
  "held_pairs (snd (verifyRequestSignature demo_env (memoryReplay demo_cfg) demo_options (demo_signed True) (demo_clock 0)
      (demo_store True 361 6 0))) \<subseteq> held_pairs (demo_store True 361 6 0)"
proof -
  have w: "demo_window True 0" by (simp add: demo_window_def demo_created_def demo_expires_def)
  have "has_nonce demo_cfg (js ''k'') demo_scope (demo_nonce True) 0 (demo_store True 361 6 0) = (True, demo_store True 361 6 0)"
    by (simp add: demo_store_simps Let_def)
  then have "verifyRequestSignature demo_env (memoryReplay demo_cfg) demo_options (demo_signed True) (demo_clock 0) (demo_store True 361 6 0)
      = (VDone (Inl replayed_error), demo_store True 361 6 0)"
    by (simp add: verifyRequestSignature_def demo_started [OF w])
  then show ?thesis
    using refused_request_costs_no_nonce [of demo_env demo_cfg demo_options "demo_signed True" "demo_clock 0"
        "demo_store True 361 6 0" replayed_error "demo_store True 361 6 0"]
    by (simp add: replayed_error_def origin_mismatch_def)
qed

end
