(* ===== verification/AcceptancePolicy.thy ===== *)
theory AcceptancePolicy
  imports JsText
begin

text \<open>
  Conservative evaluation of acceptance profiles (\<open>src/lib/acceptance-policy/evaluator.ts\<close>).  The input is
  a graph of JavaScript objects: references into a heap, so that shared and cyclic objects, which
  the evaluator distinguishes by identity, can be expressed.  The JSON schema validators, \<open>Date.parse\<close>
  and the clock are arguments.  Results the code caches per object are pure and are recomputed here.
\<close>

section \<open>Objects\<close>

datatype js_node = NUndef | NNull | NBool bool | NNum | NStr jsstr | NRef nat

datatype js_object = ArrObj "js_node list" | PropObj "(jsstr \<times> js_node) list"

type_synonym js_heap = "nat \<Rightarrow> js_object"

text \<open>A property read (\<open>undefined\<close> where there is none), and \<open>Array.isArray\<close> with the elements.\<close>

definition get_prop :: "js_heap \<Rightarrow> js_node \<Rightarrow> string \<Rightarrow> js_node" where
  "get_prop h v k =
     (case v of
        NRef r \<Rightarrow>
          (case h r of
             PropObj fs \<Rightarrow> (case map_of fs (js k) of None \<Rightarrow> NUndef | Some x \<Rightarrow> x)
           | ArrObj _ \<Rightarrow> NUndef)
      | _ \<Rightarrow> NUndef)"

definition array_items :: "js_heap \<Rightarrow> js_node \<Rightarrow> js_node list option" where
  "array_items h v = (case v of NRef r \<Rightarrow> (case h r of ArrObj xs \<Rightarrow> Some xs | PropObj _ \<Rightarrow> None) | _ \<Rightarrow> None)"

section \<open>Typed reads of validated objects\<close>

text \<open>An absent list is read as an empty one; the code treats them alike.\<close>

fun node_text :: "js_node \<Rightarrow> jsstr" where
  "node_text (NStr s) = s"
| "node_text _ = []"

definition node_text_option :: "js_node \<Rightarrow> jsstr option" where
  "node_text_option v = (case v of NStr s \<Rightarrow> Some s | _ \<Rightarrow> None)"

definition items_or_empty :: "js_heap \<Rightarrow> js_node \<Rightarrow> js_node list" where
  "items_or_empty h v = (case array_items h v of None \<Rightarrow> [] | Some xs \<Rightarrow> xs)"

definition read_texts :: "js_heap \<Rightarrow> js_node \<Rightarrow> string \<Rightarrow> jsstr list" where
  "read_texts h v k = map node_text (items_or_empty h (get_prop h v k))"

record acc_subject =
  subject_category :: jsstr
  subject_facets :: "jsstr list"

record acc_context =
  subjects :: "acc_subject list"
  advertiser_roles :: "jsstr list"
  delivery_jurisdictions :: "jsstr list"

record acc_requirement =
  req_kind :: jsstr
  req_node :: js_node

record acc_rule =
  rule_id :: jsstr
  rule_category :: jsstr
  rule_facets :: "jsstr list"
  rule_roles :: "jsstr list"
  rule_jurisdictions :: "jsstr list"
  rule_groups :: "jsstr list"
  rule_applies_to :: "jsstr list"
  disposition :: jsstr
  requirements :: "acc_requirement list"
  policy_ids :: "jsstr list"
  effective_at :: "jsstr option"
  expires_at :: "jsstr option"

record acc_scope =
  sc_categories :: "jsstr list"
  sc_applies_to :: "jsstr list"
  sc_jurisdictions :: "jsstr list"
  sc_groups :: "jsstr list"
  all_jurisdictions :: bool

record acc_profile =
  profile_id :: jsstr
  pf_version :: jsstr
  content_digest :: jsstr
  coverage :: jsstr
  pf_scope :: "acc_scope option"
  region_aliases :: "(jsstr \<times> jsstr list) list"
  rules :: "acc_rule list"

definition read_context :: "js_heap \<Rightarrow> js_node \<Rightarrow> acc_context" where
  "read_context h v =
     \<lparr>subjects = map (\<lambda>s. \<lparr>subject_category = node_text (get_prop h s ''subject_category''),
                             subject_facets = read_texts h s ''subject_facets''\<rparr>)
                    (items_or_empty h (get_prop h v ''subjects'')),
      advertiser_roles = read_texts h v ''advertiser_roles'',
      delivery_jurisdictions = read_texts h v ''delivery_jurisdictions''\<rparr>"

definition read_rule :: "js_heap \<Rightarrow> js_node \<Rightarrow> acc_rule" where
  "read_rule h v =
     \<lparr>rule_id = node_text (get_prop h v ''rule_id''),
      rule_category = node_text (get_prop h v ''subject_category''),
      rule_facets = read_texts h v ''subject_facets'',
      rule_roles = read_texts h v ''advertiser_roles'',
      rule_jurisdictions = read_texts h v ''jurisdictions'',
      rule_groups = read_texts h v ''jurisdiction_groups'',
      rule_applies_to = read_texts h v ''applies_to'',
      disposition = node_text (get_prop h v ''disposition''),
      requirements = map (\<lambda>q. \<lparr>req_kind = node_text (get_prop h q ''kind''), req_node = q\<rparr>)
        (items_or_empty h (get_prop h v ''requirements'')),
      policy_ids = read_texts h v ''policy_ids'',
      effective_at = node_text_option (get_prop h v ''effective_at''),
      expires_at = node_text_option (get_prop h v ''expires_at'')\<rparr>"

definition read_aliases :: "js_heap \<Rightarrow> js_node \<Rightarrow> (jsstr \<times> jsstr list) list" where
  "read_aliases h v =
     (case v of
        NRef r \<Rightarrow>
          (case h r of
             PropObj fs \<Rightarrow> map (\<lambda>(k, x). (k, map node_text (items_or_empty h x))) fs
           | ArrObj _ \<Rightarrow> [])
      | _ \<Rightarrow> [])"

definition read_scope :: "js_heap \<Rightarrow> js_node \<Rightarrow> acc_scope option" where
  "read_scope h v =
     (case v of
        NRef _ \<Rightarrow> Some
          \<lparr>sc_categories = read_texts h v ''subject_categories'', sc_applies_to = read_texts h v ''applies_to'',
           sc_jurisdictions = read_texts h v ''jurisdictions'', sc_groups = read_texts h v ''jurisdiction_groups'',
           all_jurisdictions = (get_prop h v ''all_jurisdictions'' = NBool True)\<rparr>
      | _ \<Rightarrow> None)"

definition read_profile :: "js_heap \<Rightarrow> js_node \<Rightarrow> acc_profile" where
  "read_profile h v =
     \<lparr>profile_id = node_text (get_prop h v ''profile_id''),
      pf_version = node_text (get_prop h v ''version''),
      content_digest = node_text (get_prop h v ''content_digest''),
      coverage = node_text (get_prop h v ''coverage''),
      pf_scope = read_scope h (get_prop h v ''scope''),
      region_aliases = read_aliases h (get_prop h v ''region_aliases''),
      rules = map (read_rule h) (items_or_empty h (get_prop h v ''rules''))\<rparr>"

section \<open>Constants\<close>

definition MAX_ASSESSMENT_PROFILES :: nat where "MAX_ASSESSMENT_PROFILES = 1024"
definition MAX_ASSESSMENT_RULES :: nat where "MAX_ASSESSMENT_RULES = 10000"
definition MAX_ASSESSMENT_CONTEXT_VALUES :: nat where "MAX_ASSESSMENT_CONTEXT_VALUES = 4096"
definition MAX_ASSESSMENT_JSON_NODES :: nat where "MAX_ASSESSMENT_JSON_NODES = 100000"
definition MAX_ASSESSMENT_STRING_CODE_UNITS :: nat where "MAX_ASSESSMENT_STRING_CODE_UNITS = 1024 * 1024"
definition MAX_ASSESSMENT_JSON_DEPTH :: nat where "MAX_ASSESSMENT_JSON_DEPTH = 64"
definition MAX_ASSESSMENT_DIAGNOSTICS :: nat where "MAX_ASSESSMENT_DIAGNOSTICS = 32"

definition SURFACES :: "jsstr list" where
  "SURFACES = map js [''account'', ''media_buy'', ''creative'', ''landing_page'', ''targeting'', ''delivery'', ''format'']"

definition REVIEW_REQUIREMENTS :: "jsstr list" where
  "REVIEW_REQUIREMENTS = map js [''prior_authorization'', ''sales_assisted'', ''funding_restriction'', ''targeting_restriction'',
     ''creative_restriction'', ''destination_restriction'', ''format_restriction'', ''time_restriction'', ''custom'']"

definition SETUP_REQUIREMENTS :: "jsstr list" where
  "SETUP_REQUIREMENTS = map js [''advertiser_verification'', ''advertiser_eligibility'', ''certification'', ''license'',
     ''account_setup'']"

definition DISCLOSURE_REQUIREMENTS :: "jsstr list" where
  "DISCLOSURE_REQUIREMENTS = map js [''category_declaration'', ''disclosure'', ''transparency_reporting'']"

section \<open>Diagnostics\<close>

datatype acc_outcome = AllowedOutcome | ProhibitedOutcome | RequiresDisclosure | RequiresSetup | RequiresReview | UnknownOutcome

record acc_diagnostic =
  diag_code :: string
  diag_profileId :: "jsstr option"
  diag_ruleId :: "jsstr option"

definition diagnostic :: "string \<Rightarrow> jsstr option \<Rightarrow> jsstr option \<Rightarrow> acc_diagnostic" where
  "diagnostic c p r = \<lparr>diag_code = c, diag_profileId = p, diag_ruleId = r\<rparr>"

definition text_or_empty :: "jsstr option \<Rightarrow> jsstr" where
  "text_or_empty s = (case s of None \<Rightarrow> [] | Some t \<Rightarrow> t)"

definition diagnostic_key :: "acc_diagnostic \<Rightarrow> jsstr" where
  "diagnostic_key d = js (diag_code d) @ 0 # text_or_empty (diag_profileId d) @ 0 # text_or_empty (diag_ruleId d)"

fun dedupe_loop :: "jsstr list \<Rightarrow> acc_diagnostic list \<Rightarrow> acc_diagnostic list \<Rightarrow> acc_diagnostic list" where
  "dedupe_loop seen result [] = result"
| "dedupe_loop seen result (d # ds) =
     (if diagnostic_key d \<in> set seen then dedupe_loop seen result ds
      else let result' = result @ [d] in
        if length result' \<ge> MAX_ASSESSMENT_DIAGNOSTICS then result'
        else dedupe_loop (diagnostic_key d # seen) result' ds)"

definition dedupeDiagnostics :: "acc_diagnostic list \<Rightarrow> acc_diagnostic list" where
  "dedupeDiagnostics ds = dedupe_loop [] [] ds"

record acc_matched_rule =
  mr_profileId :: jsstr
  mr_ruleId :: jsstr
  mr_disposition :: jsstr
  mr_policyIds :: "jsstr list"
  mr_requirements :: "acc_requirement list"

record acc_assessment =
  outcome :: acc_outcome
  profileIds :: "jsstr list"
  matchingRuleIds :: "jsstr list"
  matchedRules :: "acc_matched_rule list"
  as_requirements :: "acc_requirement list"
  diagnostics :: "acc_diagnostic list"

definition unknownAssessment :: "jsstr list \<Rightarrow> acc_diagnostic list \<Rightarrow> acc_assessment" where
  "unknownAssessment ids ds =
     \<lparr>outcome = UnknownOutcome, profileIds = ids, matchingRuleIds = [], matchedRules = [], as_requirements = [],
      diagnostics = dedupeDiagnostics ds\<rparr>"

section \<open>The size of an input\<close>

datatype complexity_verdict = ValidSize | InvalidShape | LimitReached

datatype pending_entry = Visit js_node nat | Leave nat

type_synonym complexity_budget = "nat \<times> nat"

text \<open>The members of an object in enumeration order: the code pushes each value and charges each name.\<close>

fun push_members ::
    "nat \<Rightarrow> nat \<Rightarrow> (jsstr \<times> js_node) list \<Rightarrow> pending_entry list \<Rightarrow> nat \<Rightarrow> nat
      \<Rightarrow> nat + pending_entry list \<times> nat \<times> nat" where
  "push_members nodes depth [] pending queued units = Inr (pending, queued, units)"
| "push_members nodes depth ((key, child) # fs) pending queued units =
     (let units' = units + length key in
      if units' > MAX_ASSESSMENT_STRING_CODE_UNITS then Inl units'
      else if nodes + queued + 1 > MAX_ASSESSMENT_JSON_NODES then Inl units'
      else push_members nodes depth fs (Visit child (depth + 1) # pending) (queued + 1) units')"

text \<open>The loop over the stack, with the nodes queued on it and the budget used so far.\<close>

function complexity_loop ::
    "js_heap \<Rightarrow> pending_entry list \<Rightarrow> nat list \<Rightarrow> nat \<Rightarrow> nat \<Rightarrow> nat \<Rightarrow> complexity_verdict \<times> complexity_budget" where
  "complexity_loop h [] ancestors queued nodes units = (ValidSize, nodes, units)"
| "complexity_loop h (Leave r # pending) ancestors queued nodes units =
     complexity_loop h pending (filter (\<lambda>a. a \<noteq> r) ancestors) queued nodes units"
| "complexity_loop h (Visit v depth # pending) ancestors queued nodes units =
     (let queued1 = queued - 1; nodes1 = nodes + 1 in
      if nodes1 > MAX_ASSESSMENT_JSON_NODES then (LimitReached, nodes1, units)
      else if depth > MAX_ASSESSMENT_JSON_DEPTH then (InvalidShape, nodes1, units)
      else (case v of
          NStr s \<Rightarrow>
            let units1 = units + length s in
            if units1 > MAX_ASSESSMENT_STRING_CODE_UNITS then (LimitReached, nodes1, units1)
            else complexity_loop h pending ancestors queued1 nodes1 units1
        | NRef r \<Rightarrow>
            if r \<in> set ancestors then (InvalidShape, nodes1, units)
            else (case h r of
                ArrObj xs \<Rightarrow>
                  if nodes1 + queued1 + length xs > MAX_ASSESSMENT_JSON_NODES then (LimitReached, nodes1, units)
                  else complexity_loop h (rev (map (\<lambda>x. Visit x (depth + 1)) xs) @ Leave r # pending) (r # ancestors)
                         (queued1 + length xs) nodes1 units
              | PropObj fs \<Rightarrow>
                  (case push_members nodes1 depth fs (Leave r # pending) queued1 units of
                     Inl units1 \<Rightarrow> (LimitReached, nodes1, units1)
                   | Inr (pending1, queued2, units1) \<Rightarrow>
                       complexity_loop h pending1 (r # ancestors) queued2 nodes1 units1))
        | _ \<Rightarrow> complexity_loop h pending ancestors queued1 nodes1 units))"
  by pat_completeness auto
termination
  by (relation "measures [\<lambda>(h, pending, ancestors, queued, nodes, units). MAX_ASSESSMENT_JSON_NODES + 1 - nodes,
        \<lambda>(h, pending, ancestors, queued, nodes, units). length pending]") auto

declare complexity_loop.simps(3) [simp del]

definition consumeAssessmentComplexity :: "js_heap \<Rightarrow> js_node \<Rightarrow> complexity_budget \<Rightarrow> complexity_verdict \<times> complexity_budget" where
  "consumeAssessmentComplexity h v budget = complexity_loop h [Visit v 0] [] 1 (fst budget) (snd budget)"

text \<open>The number of subjects, roles, jurisdictions and facets of an unvalidated context.\<close>

definition count_items :: "js_heap \<Rightarrow> js_node \<Rightarrow> nat" where
  "count_items h v = length (items_or_empty h v)"

fun count_facets :: "js_heap \<Rightarrow> nat \<Rightarrow> js_node list \<Rightarrow> bool" where
  "count_facets h values [] = (values > MAX_ASSESSMENT_CONTEXT_VALUES)"
| "count_facets h values (s # ss) =
     (case array_items h (get_prop h s ''subject_facets'') of
        None \<Rightarrow> count_facets h values ss
      | Some fs \<Rightarrow>
          let values' = values + length fs in
          if values' > MAX_ASSESSMENT_CONTEXT_VALUES then True else count_facets h values' ss)"

definition exceedsContextValueLimit :: "js_heap \<Rightarrow> js_node \<Rightarrow> bool" where
  "exceedsContextValueLimit h ctx =
     (let ss = items_or_empty h (get_prop h ctx ''subjects'');
          roles = count_items h (get_prop h ctx ''advertiser_roles'');
          jurs = count_items h (get_prop h ctx ''delivery_jurisdictions'') in
      if length ss > MAX_ASSESSMENT_CONTEXT_VALUES \<or> roles > MAX_ASSESSMENT_CONTEXT_VALUES
         \<or> jurs > MAX_ASSESSMENT_CONTEXT_VALUES then True
      else count_facets h (length ss + roles + jurs) ss)"

section \<open>Rules and facts\<close>

record indexed_subjects =
  facets :: "jsstr list"
  hasMissingFacets :: bool

record context_index =
  hasSubjects :: bool
  subjectsByCategory :: "jsstr \<rightharpoonup> indexed_subjects"
  ix_roles :: "jsstr list"
  ix_jurisdictions :: "jsstr list"

definition index_subject :: "acc_subject \<Rightarrow> (jsstr \<rightharpoonup> indexed_subjects) \<Rightarrow> (jsstr \<rightharpoonup> indexed_subjects)" where
  "index_subject s m =
     (let indexed = (case m (subject_category s) of None \<Rightarrow> \<lparr>facets = [], hasMissingFacets = False\<rparr> | Some i \<Rightarrow> i) in
      m(subject_category s \<mapsto>
        (if subject_facets s = [] then indexed\<lparr>hasMissingFacets := True\<rparr>
         else indexed\<lparr>facets := facets indexed @ subject_facets s\<rparr>)))"

definition index_context :: "acc_context \<Rightarrow> context_index" where
  "index_context ctx =
     \<lparr>hasSubjects = (subjects ctx \<noteq> []), subjectsByCategory = fold index_subject (subjects ctx) Map.empty,
      ix_roles = advertiser_roles ctx, ix_jurisdictions = delivery_jurisdictions ctx\<rparr>"

definition expandedJurisdictions :: "acc_profile \<Rightarrow> jsstr list \<Rightarrow> jsstr list" where
  "expandedJurisdictions p groups =
     concat (map (\<lambda>g. case map_of (region_aliases p) g of None \<Rightarrow> [] | Some js' \<Rightarrow> js') groups)"

definition profileAliasesResolve :: "acc_profile \<Rightarrow> bool" where
  "profileAliasesResolve p =
     list_all (\<lambda>g. map_of (region_aliases p) g \<noteq> None)
       ((case pf_scope p of None \<Rightarrow> [] | Some s \<Rightarrow> sc_groups s) @ concat (map rule_groups (rules p)))"

definition completeScopeCovers :: "acc_profile \<Rightarrow> acc_context \<Rightarrow> jsstr \<Rightarrow> bool" where
  "completeScopeCovers p ctx appliesTo =
     (case pf_scope p of
        None \<Rightarrow> False
      | Some sc \<Rightarrow>
          if appliesTo \<notin> set (sc_applies_to sc) then False
          else if subjects ctx = [] \<or> sc_categories sc = [] then False
          else if list_ex (\<lambda>s. subject_category s \<notin> set (sc_categories sc)) (subjects ctx) then False
          else if all_jurisdictions sc then True
          else if delivery_jurisdictions ctx = [] then False
          else list_all (\<lambda>j. j \<in> set (sc_jurisdictions sc @ expandedJurisdictions p (sc_groups sc)))
                 (delivery_jurisdictions ctx))"

datatype rule_match = MatchTrue | MatchFalse | MatchUnknown

text \<open>
  Each check of \<open>ruleMatches\<close> answers that the rule cannot match, that it matches, or that a fact is
  missing; the checks run in order until one excludes the rule.
\<close>

definition starts_check :: "(jsstr \<Rightarrow> int option) \<Rightarrow> int \<Rightarrow> acc_rule \<Rightarrow> rule_match" where
  "starts_check dp now rule =
     (case effective_at rule of
        None \<Rightarrow> MatchTrue
      | Some s \<Rightarrow> (case dp s of None \<Rightarrow> MatchUnknown | Some t \<Rightarrow> if now < t then MatchFalse else MatchTrue))"

definition expires_check :: "(jsstr \<Rightarrow> int option) \<Rightarrow> int \<Rightarrow> acc_rule \<Rightarrow> rule_match" where
  "expires_check dp now rule =
     (case expires_at rule of
        None \<Rightarrow> MatchTrue
      | Some s \<Rightarrow> (case dp s of None \<Rightarrow> MatchUnknown | Some t \<Rightarrow> if now \<ge> t then MatchFalse else MatchTrue))"

definition subject_check :: "context_index \<Rightarrow> acc_rule \<Rightarrow> rule_match" where
  "subject_check ix rule =
     (if \<not> hasSubjects ix then MatchUnknown
      else if subjectsByCategory ix (rule_category rule) = None then MatchFalse else MatchTrue)"

definition facet_check :: "context_index \<Rightarrow> acc_rule \<Rightarrow> rule_match" where
  "facet_check ix rule =
     (case subjectsByCategory ix (rule_category rule) of
        None \<Rightarrow> MatchTrue
      | Some i \<Rightarrow>
          if rule_facets rule = [] \<or> list_ex (\<lambda>f. f \<in> set (facets i)) (rule_facets rule) then MatchTrue
          else if \<not> hasMissingFacets i then MatchFalse else MatchUnknown)"

definition role_check :: "context_index \<Rightarrow> acc_rule \<Rightarrow> rule_match" where
  "role_check ix rule =
     (if rule_roles rule = [] then MatchTrue
      else if ix_roles ix = [] then MatchUnknown
      else if list_ex (\<lambda>r. r \<in> set (ix_roles ix)) (rule_roles rule) then MatchTrue else MatchFalse)"

definition jurisdiction_check :: "acc_profile \<Rightarrow> context_index \<Rightarrow> acc_rule \<Rightarrow> rule_match" where
  "jurisdiction_check p ix rule =
     (if rule_jurisdictions rule = [] \<and> rule_groups rule = [] then MatchTrue
      else if list_ex (\<lambda>g. map_of (region_aliases p) g = None) (rule_groups rule) then MatchUnknown
      else if ix_jurisdictions ix = [] then MatchUnknown
      else if list_ex (\<lambda>j. j \<in> set (ix_jurisdictions ix))
                (rule_jurisdictions rule @ expandedJurisdictions p (rule_groups rule)) then MatchTrue
      else MatchFalse)"

fun all_checks :: "bool \<Rightarrow> rule_match list \<Rightarrow> rule_match" where
  "all_checks uncertain [] = (if uncertain then MatchUnknown else MatchTrue)"
| "all_checks uncertain (MatchFalse # cs) = MatchFalse"
| "all_checks uncertain (MatchTrue # cs) = all_checks uncertain cs"
| "all_checks uncertain (MatchUnknown # cs) = all_checks True cs"

definition ruleMatches ::
    "(jsstr \<Rightarrow> int option) \<Rightarrow> acc_profile \<Rightarrow> acc_rule \<Rightarrow> context_index \<Rightarrow> jsstr \<Rightarrow> int \<Rightarrow> rule_match" where
  "ruleMatches dp p rule ix appliesTo now =
     (if appliesTo \<notin> set (rule_applies_to rule) then MatchFalse
      else all_checks False [starts_check dp now rule, expires_check dp now rule, subject_check ix rule, facet_check ix rule,
             role_check ix rule, jurisdiction_check p ix rule])"

definition requirementsOutcome :: "acc_requirement list \<Rightarrow> acc_outcome" where
  "requirementsOutcome rs =
     (let kinds = map req_kind rs in
      if list_ex (\<lambda>k. k \<in> set REVIEW_REQUIREMENTS) kinds then RequiresReview
      else if list_ex (\<lambda>k. k \<in> set SETUP_REQUIREMENTS) kinds then RequiresSetup
      else if list_all (\<lambda>k. k \<in> set DISCLOSURE_REQUIREMENTS) kinds then RequiresDisclosure
      else RequiresReview)"

section \<open>Collecting the profiles\<close>

record acc_env =
  date_parse :: "jsstr \<Rightarrow> int option"
  current_time :: int
  validators :: "((js_node \<Rightarrow> bool) \<times> (js_node \<Rightarrow> bool)) option"

record scan_state =
  uncertain :: bool
  diags :: "acc_diagnostic list"
  profiles :: "acc_profile list"
  identities :: "(jsstr \<times> jsstr \<times> jsstr) list"
  seenIdentities :: "jsstr list"
  countedIdentities :: "jsstr list"
  measuredObjects :: "nat list"
  invalidObjects :: "nat list"
  budget_used :: complexity_budget
  candidateRuleCount :: nat

definition init_scan :: scan_state where
  "init_scan = \<lparr>uncertain = False, diags = [], profiles = [], identities = [], seenIdentities = [], countedIdentities = [],
     measuredObjects = [], invalidObjects = [], budget_used = (0, 0), candidateRuleCount = 0\<rparr>"

definition doubt :: "acc_diagnostic \<Rightarrow> scan_state \<Rightarrow> scan_state" where
  "doubt d st = st\<lparr>uncertain := True, diags := diags st @ [d]\<rparr>"

definition limit_exceeded :: "scan_state \<Rightarrow> acc_diagnostic list" where
  "limit_exceeded st = diags st @ [diagnostic ''assessment_limit_exceeded'' None None]"

definition identity_key :: "jsstr \<Rightarrow> jsstr \<Rightarrow> jsstr \<Rightarrow> jsstr" where
  "identity_key pid version digest = pid @ 0 # version @ 0 # digest"

text \<open>Each object is measured once; the flag says whether the entry is processed further.\<close>

definition measure_profile ::
    "js_heap \<Rightarrow> jsstr \<Rightarrow> js_node \<Rightarrow> scan_state \<Rightarrow> acc_diagnostic list + scan_state \<times> bool" where
  "measure_profile h pid pv st =
     (case pv of
        NRef r \<Rightarrow>
          if r \<in> set (invalidObjects st) then Inr (doubt (diagnostic ''invalid_profile'' (Some pid) None) st, False)
          else if r \<in> set (measuredObjects st) then Inr (st, True)
          else
            let (verdict, used) = consumeAssessmentComplexity h pv (budget_used st);
                st1 = st\<lparr>measuredObjects := r # measuredObjects st, budget_used := used\<rparr> in
            (case verdict of
               LimitReached \<Rightarrow> Inl (limit_exceeded st)
             | InvalidShape \<Rightarrow>
                 Inr (doubt (diagnostic ''invalid_profile'' (Some pid) None) (st1\<lparr>invalidObjects := r # invalidObjects st1\<rparr>), False)
             | ValidSize \<Rightarrow> Inr (st1, True))
      | _ \<Rightarrow> Inr (st, True))"

definition candidate_identity :: "js_heap \<Rightarrow> jsstr \<Rightarrow> js_node \<Rightarrow> jsstr option" where
  "candidate_identity h pid pv =
     (case (get_prop h pv ''version'', get_prop h pv ''content_digest'') of
        (NStr v, NStr d) \<Rightarrow> Some (identity_key pid v d)
      | _ \<Rightarrow> None)"

definition count_rules :: "js_heap \<Rightarrow> jsstr \<Rightarrow> js_node \<Rightarrow> scan_state \<Rightarrow> acc_diagnostic list + scan_state" where
  "count_rules h pid pv st =
     (let key = candidate_identity h pid pv in
      case array_items h (get_prop h pv ''rules'') of
        None \<Rightarrow> Inr st
      | Some rs \<Rightarrow>
          if (case key of None \<Rightarrow> False | Some k \<Rightarrow> k \<in> set (countedIdentities st)) then Inr st
          else
            let counted = (case key of None \<Rightarrow> countedIdentities st | Some k \<Rightarrow> k # countedIdentities st);
                n = candidateRuleCount st + length rs in
            if n > MAX_ASSESSMENT_RULES then Inl (limit_exceeded st)
            else Inr (st\<lparr>countedIdentities := counted, candidateRuleCount := n\<rparr>))"

definition accept_profile :: "(js_node \<Rightarrow> bool) \<Rightarrow> js_heap \<Rightarrow> jsstr \<Rightarrow> js_node \<Rightarrow> scan_state \<Rightarrow> scan_state" where
  "accept_profile valid h pid pv st =
     (let p = read_profile h pv; key = identity_key pid (pf_version p) (content_digest p) in
      if \<not> valid pv \<or> get_prop h pv ''profile_id'' \<noteq> NStr pid then doubt (diagnostic ''invalid_profile'' (Some pid) None) st
      else if \<not> profileAliasesResolve p then doubt (diagnostic ''invalid_profile'' (Some pid) None) st
      else if key \<in> set (seenIdentities st) then st
      else
        let st1 = st\<lparr>seenIdentities := key # seenIdentities st\<rparr> in
        case map_of (identities st) pid of
          Some (version, digest) \<Rightarrow>
            if version \<noteq> pf_version p \<or> digest \<noteq> content_digest p
            then (doubt (diagnostic ''profile_conflict'' (Some pid) None) st1)\<lparr>profiles := profiles st1 @ [p]\<rparr>
            else st1
        | None \<Rightarrow>
            st1\<lparr>identities := identities st1 @ [(pid, pf_version p, content_digest p)], profiles := profiles st1 @ [p]\<rparr>)"

definition scan_profile :: "(js_node \<Rightarrow> bool) \<Rightarrow> js_heap \<Rightarrow> js_node \<Rightarrow> scan_state \<Rightarrow> acc_diagnostic list + scan_state" where
  "scan_profile valid h v st =
     (case get_prop h v ''profileId'' of
        NStr pid \<Rightarrow>
          (let resolution = get_prop h v ''resolution''; pv = get_prop h v ''profile'' in
           if resolution \<noteq> NStr (js ''resolved'') then
             Inr (doubt (diagnostic (if resolution \<in> {NStr (js ''missing''), NStr (js ''unresolved'')} then ''profile_unresolved''
                                     else ''invalid_profile'') (Some pid) None) st)
           else
             bindE (measure_profile h pid pv st) (\<lambda>(st1, further).
               if \<not> further then Inr st1
               else bindE (count_rules h pid pv st1) (\<lambda>st2. Inr (accept_profile valid h pid pv st2))))
      | _ \<Rightarrow> Inr (doubt (diagnostic ''invalid_profile'' None None) st))"

fun scan_profiles :: "(js_node \<Rightarrow> bool) \<Rightarrow> js_heap \<Rightarrow> js_node list \<Rightarrow> scan_state \<Rightarrow> acc_diagnostic list + scan_state" where
  "scan_profiles valid h [] st = Inr st"
| "scan_profiles valid h (v # vs) st = bindE (scan_profile valid h v st) (scan_profiles valid h vs)"

section \<open>The verdict\<close>

definition profile_doubts :: "acc_context \<Rightarrow> jsstr \<Rightarrow> acc_profile \<Rightarrow> acc_diagnostic list" where
  "profile_doubts ctx appliesTo p =
     (if coverage p = js ''partial'' then [diagnostic ''partial_coverage'' (Some (profile_id p)) None]
      else if \<not> completeScopeCovers p ctx appliesTo then [diagnostic ''incomplete_context'' (Some (profile_id p)) None]
      else [])"

definition rule_doubts ::
    "(jsstr \<Rightarrow> int option) \<Rightarrow> context_index \<Rightarrow> jsstr \<Rightarrow> int \<Rightarrow> acc_profile \<Rightarrow> acc_diagnostic list" where
  "rule_doubts dp ix appliesTo now p =
     map (\<lambda>r. diagnostic ''incomplete_context'' (Some (profile_id p)) (Some (rule_id r)))
       (filter (\<lambda>r. ruleMatches dp p r ix appliesTo now = MatchUnknown) (rules p))"

definition matching_rules ::
    "(jsstr \<Rightarrow> int option) \<Rightarrow> context_index \<Rightarrow> jsstr \<Rightarrow> int \<Rightarrow> acc_profile \<Rightarrow> (jsstr \<times> acc_rule) list" where
  "matching_rules dp ix appliesTo now p =
     map (Pair (profile_id p)) (filter (\<lambda>r. ruleMatches dp p r ix appliesTo now = MatchTrue) (rules p))"

definition judge ::
    "(jsstr \<Rightarrow> int option) \<Rightarrow> acc_context \<Rightarrow> jsstr \<Rightarrow> int \<Rightarrow> scan_state \<Rightarrow> acc_assessment" where
  "judge dp ctx appliesTo now st =
     (let ix = index_context ctx;
          ds = concat (map (\<lambda>p. profile_doubts ctx appliesTo p @ rule_doubts dp ix appliesTo now p) (profiles st));
          matching = concat (map (matching_rules dp ix appliesTo now) (profiles st));
          reqs = concat (map (requirements \<circ> snd) matching) in
      \<lparr>outcome =
         (if list_ex (\<lambda>(_, r). disposition r = js ''prohibited'') matching then ProhibitedOutcome
          else if uncertain st \<or> ds \<noteq> [] then UnknownOutcome
          else if reqs \<noteq> [] then requirementsOutcome reqs
          else AllowedOutcome),
       profileIds = map fst (identities st),
       matchingRuleIds = map (rule_id \<circ> snd) matching,
       matchedRules = map (\<lambda>(pid, r). \<lparr>mr_profileId = pid, mr_ruleId = rule_id r, mr_disposition = disposition r,
                             mr_policyIds = policy_ids r, mr_requirements = requirements r\<rparr>) matching,
       as_requirements = reqs,
       diagnostics = dedupeDiagnostics (diags st @ ds)\<rparr>)"

datatype eval_time = EvaluatedNow | EvaluatedDate "int option" | EvaluatedText jsstr

record acc_input =
  in_profiles :: "js_node list option"
  acceptanceContext :: js_node
  in_appliesTo :: jsstr
  evaluatedAt :: eval_time

definition evaluated_ms :: "acc_env \<Rightarrow> eval_time \<Rightarrow> int option" where
  "evaluated_ms E t =
     (case t of EvaluatedNow \<Rightarrow> Some (current_time E) | EvaluatedDate d \<Rightarrow> d | EvaluatedText s \<Rightarrow> date_parse E s)"

definition resolved_ids :: "js_heap \<Rightarrow> js_node list \<Rightarrow> jsstr list" where
  "resolved_ids h vs =
     rev (remdups (rev (concat (map (\<lambda>v.
       if get_prop h v ''resolution'' = NStr (js ''resolved'')
       then (case get_prop h v ''profileId'' of NStr s \<Rightarrow> [s] | _ \<Rightarrow> []) else []) vs))))"

definition assessAcceptancePolicy :: "acc_env \<Rightarrow> js_heap \<Rightarrow> acc_input \<Rightarrow> acc_assessment" where
  "assessAcceptancePolicy E h inp =
     (case in_profiles inp of
        None \<Rightarrow> unknownAssessment [] [diagnostic ''invalid_profile'' None None]
      | Some vs \<Rightarrow>
          if length vs > MAX_ASSESSMENT_PROFILES then unknownAssessment [] [diagnostic ''assessment_limit_exceeded'' None None]
          else
            let ids = resolved_ids h vs; give_up = (\<lambda>c. unknownAssessment ids [diagnostic c None None]) in
            if vs = [] then give_up ''profile_unresolved''
            else case acceptanceContext inp of
              NRef c \<Rightarrow>
                if in_appliesTo inp \<notin> set SURFACES then give_up ''incomplete_context''
                else if exceedsContextValueLimit h (NRef c) then give_up ''assessment_limit_exceeded''
                else (case fst (consumeAssessmentComplexity h (NRef c) (0, 0)) of
                    LimitReached \<Rightarrow> give_up ''assessment_limit_exceeded''
                  | InvalidShape \<Rightarrow> give_up ''invalid_context''
                  | ValidSize \<Rightarrow>
                      (case validators E of
                         None \<Rightarrow> give_up ''schema_unavailable''
                       | Some (contextValidator, profileValidator) \<Rightarrow>
                           if \<not> contextValidator (NRef c) then give_up ''invalid_context''
                           else (case evaluated_ms E (evaluatedAt inp) of
                               None \<Rightarrow> give_up ''invalid_evaluation_time''
                             | Some now \<Rightarrow>
                                 (case scan_profiles profileValidator h vs init_scan of
                                    Inl ds \<Rightarrow> unknownAssessment ids ds
                                  | Inr st \<Rightarrow>
                                      judge (date_parse E) (read_context h (NRef c)) (in_appliesTo inp) now st))))
            | _ \<Rightarrow> give_up ''invalid_context'')"

end
