(* ===== verification/AcceptanceSize.thy ===== *)
theory AcceptanceSize
  imports AcceptancePolicy
begin

text \<open>
  The measuring of an input ends on every heap, cyclic ones included, and accepts exactly the values whose
  tree of members is at most 64 deep and within the node and character budgets; the budget is then
  charged with the exact size of this tree.
\<close>

section \<open>Reference measures\<close>

definition children :: "js_heap \<Rightarrow> js_node \<Rightarrow> js_node list" where
  "children h v = (case v of NRef r \<Rightarrow> (case h r of ArrObj xs \<Rightarrow> xs | PropObj fs \<Rightarrow> map snd fs) | _ \<Rightarrow> [])"

definition own_units :: "js_heap \<Rightarrow> js_node \<Rightarrow> nat" where
  "own_units h v =
     (case v of
        NStr s \<Rightarrow> length s
      | NRef r \<Rightarrow> (case h r of ArrObj xs \<Rightarrow> 0 | PropObj fs \<Rightarrow> sum_list (map (length \<circ> fst) fs))
      | _ \<Rightarrow> 0)"

text \<open>Of a value and its members, members of members and so on, less than \<open>k\<close> levels deep.\<close>

fun shallow :: "js_heap \<Rightarrow> nat \<Rightarrow> js_node \<Rightarrow> bool" where
  "shallow h 0 v = False"
| "shallow h (Suc k) v = list_all (shallow h k) (children h v)"

fun node_count :: "js_heap \<Rightarrow> nat \<Rightarrow> js_node \<Rightarrow> nat" where
  "node_count h 0 v = 0"
| "node_count h (Suc k) v = Suc (sum_list (map (node_count h k) (children h v)))"

fun unit_count :: "js_heap \<Rightarrow> nat \<Rightarrow> js_node \<Rightarrow> nat" where
  "unit_count h 0 v = 0"
| "unit_count h (Suc k) v = own_units h v + sum_list (map (unit_count h k) (children h v))"

lemma shallow_Suc: "shallow h k v \<Longrightarrow> shallow h (Suc k) v"
proof (induction k arbitrary: v)
  case (Suc k)
  then have "list_all (shallow h (Suc k)) (children h v)" by (auto simp: list_all_iff)
  then show ?case by (simp only: shallow.simps)
qed simp

lemma shallow_node_count: "shallow h k v \<Longrightarrow> 1 \<le> node_count h k v"
  by (cases k) simp_all

section \<open>The stack\<close>

fun entry_nodes :: "js_heap \<Rightarrow> pending_entry \<Rightarrow> nat" where
  "entry_nodes h (Visit v d) = node_count h (65 - d) v"
| "entry_nodes h (Leave r) = 0"

fun entry_units :: "js_heap \<Rightarrow> pending_entry \<Rightarrow> nat" where
  "entry_units h (Visit v d) = unit_count h (65 - d) v"
| "entry_units h (Leave r) = 0"

fun entry_shallow :: "js_heap \<Rightarrow> pending_entry \<Rightarrow> bool" where
  "entry_shallow h (Visit v d) = shallow h (65 - d) v"
| "entry_shallow h (Leave r) = True"

abbreviation pending_nodes :: "js_heap \<Rightarrow> pending_entry list \<Rightarrow> nat" where
  "pending_nodes h p \<equiv> sum_list (map (entry_nodes h) p)"

abbreviation pending_units :: "js_heap \<Rightarrow> pending_entry list \<Rightarrow> nat" where
  "pending_units h p \<equiv> sum_list (map (entry_units h) p)"

lemma push_members_Inr:
  "push_members nodes d fs p q u = Inr (p', q', u') \<Longrightarrow>
     p' = rev (map (\<lambda>x. Visit x (d + 1)) (map snd fs)) @ p \<and> q' = q + length fs
     \<and> u' = u + sum_list (map (length \<circ> fst) fs) \<and> (u \<le> MAX_ASSESSMENT_STRING_CODE_UNITS \<longrightarrow> u' \<le> MAX_ASSESSMENT_STRING_CODE_UNITS)"
  by (induction nodes d fs p q u rule: push_members.induct) (auto simp: Let_def split: if_splits)

lemma push_members_fits:
  "u + sum_list (map (length \<circ> fst) fs) \<le> MAX_ASSESSMENT_STRING_CODE_UNITS \<Longrightarrow> nodes + q + length fs \<le> MAX_ASSESSMENT_JSON_NODES
    \<Longrightarrow> \<exists>x. push_members nodes d fs p q u = Inr x"
  by (induction nodes d fs p q u rule: push_members.induct) (auto simp: Let_def)

lemma visit_entry:
  assumes "d \<le> 64"
  shows "entry_nodes h (Visit v d) = Suc (pending_nodes h (rev (map (\<lambda>x. Visit x (d + 1)) (children h v))))"
    and "entry_units h (Visit v d) = own_units h v + pending_units h (rev (map (\<lambda>x. Visit x (d + 1)) (children h v)))"
    and "entry_shallow h (Visit v d) = list_all (entry_shallow h) (rev (map (\<lambda>x. Visit x (d + 1)) (children h v)))"
proof -
  have k: "65 - d = Suc (64 - d)" "65 - (d + 1) = 64 - d" using assms by simp_all
  show "entry_nodes h (Visit v d) = Suc (pending_nodes h (rev (map (\<lambda>x. Visit x (d + 1)) (children h v))))"
    unfolding entry_nodes.simps k(1) node_count.simps rev_map [symmetric] map_map comp_def k(2)
    by (simp add: rev_map [symmetric] sum_list_rev)
  show "entry_units h (Visit v d) = own_units h v + pending_units h (rev (map (\<lambda>x. Visit x (d + 1)) (children h v)))"
    unfolding entry_units.simps k(1) unit_count.simps rev_map [symmetric] map_map comp_def k(2)
    by (simp add: rev_map [symmetric] sum_list_rev)
  show "entry_shallow h (Visit v d) = list_all (entry_shallow h) (rev (map (\<lambda>x. Visit x (d + 1)) (children h v)))"
    unfolding entry_shallow.simps k(1) shallow.simps by (simp add: list_all_iff k(2))
qed

lemma leaf_entry:
  assumes "d \<le> 64" "children h v = []"
  shows "entry_nodes h (Visit v d) = 1" "entry_units h (Visit v d) = own_units h v" "entry_shallow h (Visit v d)"
  using visit_entry [OF assms(1), of h v] assms(2) by simp_all

lemma valid_size_exact:
  "complexity_loop h p anc q n u = (ValidSize, n', u') \<Longrightarrow> n \<le> MAX_ASSESSMENT_JSON_NODES \<Longrightarrow> u \<le> MAX_ASSESSMENT_STRING_CODE_UNITS \<Longrightarrow>
    list_all (entry_shallow h) p \<and> n' = n + pending_nodes h p \<and> u' = u + pending_units h p
    \<and> n' \<le> MAX_ASSESSMENT_JSON_NODES \<and> u' \<le> MAX_ASSESSMENT_STRING_CODE_UNITS"
proof (induction h p anc q n u rule: complexity_loop.induct)
  case (3 h v d pending anc q n u)
  note run = "3.prems"(1) [unfolded complexity_loop.simps(3) Let_def]
  have n: "n + 1 \<le> MAX_ASSESSMENT_JSON_NODES" and d: "d \<le> 64"
    using run by (simp_all add: MAX_ASSESSMENT_JSON_DEPTH_def split: if_splits)
  have skip: "\<not> MAX_ASSESSMENT_JSON_NODES < n + 1" "\<not> MAX_ASSESSMENT_JSON_DEPTH < d"
    using n d by (simp_all add: MAX_ASSESSMENT_JSON_DEPTH_def)
  note run = run [unfolded if_not_P [OF skip(1)] if_not_P [OF skip(2)]]
  show ?case
  proof (cases v)
    case (NStr s)
    then have l: "\<not> MAX_ASSESSMENT_STRING_CODE_UNITS < u + length s"
      and r: "complexity_loop h pending anc (q - 1) (n + 1) (u + length s) = (ValidSize, n', u')"
      using run by (simp_all split: if_splits)
    have "children h v = []" "own_units h v = length s" using NStr by (simp_all add: children_def own_units_def)
    then show ?thesis
      using "3.IH"(5) [OF refl refl skip NStr refl l r] l n leaf_entry [OF d, of h v] by simp
  next
    case (NRef r)
    then have a: "r \<notin> set anc" using run by (simp split: if_splits)
    show ?thesis
    proof (cases "h r")
      case (ArrObj xs)
      then have l: "\<not> MAX_ASSESSMENT_JSON_NODES < n + 1 + (q - 1) + length xs"
        and r: "complexity_loop h (rev (map (\<lambda>x. Visit x (d + 1)) xs) @ Leave r # pending) (r # anc) (q - 1 + length xs) (n + 1) u
          = (ValidSize, n', u')"
        using run NRef a by (simp_all split: if_splits)
      have c: "children h v = xs" "own_units h v = 0" using NRef ArrObj by (simp_all add: children_def own_units_def)
      show ?thesis
        using "3.IH"(6) [OF refl refl skip NRef a ArrObj l r n "3.prems"(3)] visit_entry [OF d, of h v] c by simp
    next
      case (PropObj fs)
      obtain p1 q2 u1 where m: "push_members (n + 1) d fs (Leave r # pending) (q - 1) u = Inr (p1, q2, u1)"
        and r: "complexity_loop h p1 (r # anc) q2 (n + 1) u1 = (ValidSize, n', u')"
        using run NRef a PropObj by (auto split: sum.splits prod.splits)
      note pm = push_members_Inr [OF m]
      have c: "children h v = map snd fs" "own_units h v = sum_list (map (length \<circ> fst) fs)"
        using NRef PropObj by (simp_all add: children_def own_units_def)
      show ?thesis
        using "3.IH"(7) [OF refl refl skip NRef a PropObj m refl refl r n] pm "3.prems"(3) visit_entry [OF d, of h v] c by simp
    qed
  next
    case NUndef
    then have r: "complexity_loop h pending anc (q - 1) (n + 1) u = (ValidSize, n', u')"
      and c: "children h v = []" "own_units h v = 0"
      using run by (simp_all add: children_def own_units_def)
    show ?thesis using "3.IH"(1) [OF refl refl skip NUndef r n "3.prems"(3)] leaf_entry [OF d c(1)] c(2) by simp
  next
    case NNull
    then have r: "complexity_loop h pending anc (q - 1) (n + 1) u = (ValidSize, n', u')"
      and c: "children h v = []" "own_units h v = 0"
      using run by (simp_all add: children_def own_units_def)
    show ?thesis using "3.IH"(2) [OF refl refl skip NNull r n "3.prems"(3)] leaf_entry [OF d c(1)] c(2) by simp
  next
    case (NBool b)
    then have r: "complexity_loop h pending anc (q - 1) (n + 1) u = (ValidSize, n', u')"
      and c: "children h v = []" "own_units h v = 0"
      using run by (simp_all add: children_def own_units_def)
    show ?thesis using "3.IH"(3) [OF refl refl skip NBool r n "3.prems"(3)] leaf_entry [OF d c(1)] c(2) by simp
  next
    case NNum
    then have r: "complexity_loop h pending anc (q - 1) (n + 1) u = (ValidSize, n', u')"
      and c: "children h v = []" "own_units h v = 0"
      using run by (simp_all add: children_def own_units_def)
    show ?thesis using "3.IH"(4) [OF refl refl skip NNum r n "3.prems"(3)] leaf_entry [OF d c(1)] c(2) by simp
  qed
qed auto

text \<open>
  The other direction: within the budgets the loop ends as valid.  The references on the path to a value are those
  whose exit is still on the stack; a value on the stack above such an exit is strictly lower than it,
  so it is never taken for an ancestor.
\<close>

definition lower :: "js_heap \<Rightarrow> js_node \<Rightarrow> nat \<Rightarrow> bool" where
  "lower h v r \<longleftrightarrow> (\<exists>k. shallow h k v \<and> \<not> shallow h k (NRef r))"

fun leaves :: "pending_entry list \<Rightarrow> nat list" where
  "leaves [] = []"
| "leaves (Visit v d # p) = leaves p"
| "leaves (Leave r # p) = r # leaves p"

fun visits :: "pending_entry list \<Rightarrow> nat" where
  "visits [] = 0"
| "visits (Visit v d # p) = Suc (visits p)"
| "visits (Leave r # p) = visits p"

fun stack_ok :: "js_heap \<Rightarrow> pending_entry list \<Rightarrow> bool" where
  "stack_ok h [] = True"
| "stack_ok h (Visit v d # p) = (shallow h (65 - d) v \<and> (\<forall>r \<in> set (leaves p). lower h v r) \<and> stack_ok h p)"
| "stack_ok h (Leave r # p) = (r \<notin> set (leaves p) \<and> stack_ok h p)"

lemma lower_irrefl: "\<not> lower h (NRef r) r"
  by (simp add: lower_def)

lemma lower_child:
  assumes "shallow h k v" "c \<in> set (children h v)"
  shows "\<exists>m. shallow h m c \<and> \<not> shallow h m v"
proof -
  define m where "m = (LEAST k. shallow h k v)"
  have m: "shallow h m v" "\<And>j. j < m \<Longrightarrow> \<not> shallow h j v"
    unfolding m_def using LeastI [of "\<lambda>k. shallow h k v", OF assms(1)] by (auto dest: not_less_Least)
  then obtain j where j: "m = Suc j" by (cases m) simp_all
  then have "shallow h j c" using m(1) assms(2) by (simp add: list_all_iff)
  then show ?thesis using m(2) [of j] j by blast
qed

lemma lower_below: "lower h v r \<Longrightarrow> c \<in> set (children h v) \<Longrightarrow> lower h c r"
proof -
  assume l: "lower h v r" and c: "c \<in> set (children h v)"
  obtain k where k: "shallow h k v" "\<not> shallow h k (NRef r)" using l by (auto simp: lower_def)
  then obtain j where j: "k = Suc j" by (cases k) simp_all
  then have "shallow h j c" using k(1) c by (simp add: list_all_iff)
  then have "shallow h (Suc j) c" by (rule shallow_Suc)
  then show ?thesis using k(2) unfolding j lower_def by blast
qed

lemma leaves_visits [simp]: "leaves (rev (map (\<lambda>x. Visit x d) xs) @ p) = leaves p"
  by (induction xs rule: rev_induct) simp_all

lemma visits_visits [simp]: "visits (rev (map (\<lambda>x. Visit x d) xs) @ p) = length xs + visits p"
  by (induction xs rule: rev_induct) simp_all

lemma stack_ok_visits:
  "stack_ok h (rev (map (\<lambda>x. Visit x d) xs) @ p) \<longleftrightarrow>
     (\<forall>x \<in> set xs. shallow h (65 - d) x \<and> (\<forall>r \<in> set (leaves p). lower h x r)) \<and> stack_ok h p"
  by (induction xs rule: rev_induct) auto

lemma stack_ok_push:
  assumes "stack_ok h (Visit (NRef r) d # p)" "d \<le> 64"
  shows "stack_ok h (rev (map (\<lambda>x. Visit x (d + 1)) (children h (NRef r))) @ Leave r # p)" "r \<notin> set (leaves p)"
proof -
  have s: "shallow h (65 - d) (NRef r)" and l: "\<And>a. a \<in> set (leaves p) \<Longrightarrow> lower h (NRef r) a" and ok: "stack_ok h p"
    using assms(1) by auto
  show r: "r \<notin> set (leaves p)" using l lower_irrefl by blast
  have k: "65 - d = Suc (65 - (d + 1))" using assms(2) by simp
  have c: "shallow h (65 - (d + 1)) x" if "x \<in> set (children h (NRef r))" for x
    using s that unfolding k by (simp add: list_all_iff)
  have "lower h x a" if "x \<in> set (children h (NRef r))" "a \<in> set (leaves (Leave r # p))" for x a
    using lower_child [OF s that(1)] lower_below [OF l that(1)] that(2) by (auto simp: lower_def)
  then show "stack_ok h (rev (map (\<lambda>x. Visit x (d + 1)) (children h (NRef r))) @ Leave r # p)"
    unfolding stack_ok_visits using c ok r by simp
qed

lemma visits_le: "stack_ok h p \<Longrightarrow> visits p \<le> pending_nodes h p"
proof (induction p rule: visits.induct)
  case (2 v d p)
  then show ?case using shallow_node_count [of h "65 - d" v] by simp
qed simp_all

lemma valid_size_complete:
  "stack_ok h p \<Longrightarrow> anc = leaves p \<Longrightarrow> q = visits p \<Longrightarrow> n + pending_nodes h p \<le> MAX_ASSESSMENT_JSON_NODES
    \<Longrightarrow> u + pending_units h p \<le> MAX_ASSESSMENT_STRING_CODE_UNITS \<Longrightarrow> fst (complexity_loop h p anc q n u) = ValidSize"
proof (induction h p anc q n u rule: complexity_loop.induct)
  case (2 h r pending anc q n u)
  then have "filter (\<lambda>a. a \<noteq> r) anc = leaves pending" by (auto intro: filter_True)
  then show ?case using 2 by simp
next
  case (3 h v d pending anc q n u)
  have d: "d \<le> 64"
  proof (rule ccontr)
    assume "\<not> d \<le> 64"
    then have "65 - d = 0" by simp
    then show False using "3.prems"(1) by simp
  qed
  note cost = visit_entry [OF d, of h v]
  have ok: "stack_ok h pending" and q: "q - 1 = visits pending" and anc: "anc = leaves pending"
    using "3.prems"(1-3) by simp_all
  have n: "n + entry_nodes h (Visit v d) + pending_nodes h pending \<le> MAX_ASSESSMENT_JSON_NODES"
    and u: "u + entry_units h (Visit v d) + pending_units h pending \<le> MAX_ASSESSMENT_STRING_CODE_UNITS"
    using "3.prems"(4,5) by simp_all
  have skip: "\<not> MAX_ASSESSMENT_JSON_NODES < n + 1" "\<not> MAX_ASSESSMENT_JSON_DEPTH < d"
    using n d cost(1) by (simp_all add: MAX_ASSESSMENT_JSON_DEPTH_def)
  note step = complexity_loop.simps(3) [of h v d pending anc q n u, unfolded Let_def if_not_P [OF skip(1)] if_not_P [OF skip(2)]]
  show ?case
  proof (cases v)
    case (NStr s)
    have c: "children h v = []" "own_units h v = length s" using NStr by (simp_all add: children_def own_units_def)
    have l: "\<not> MAX_ASSESSMENT_STRING_CODE_UNITS < u + length s" using u cost(2) c by simp
    show ?thesis unfolding step
      using "3.IH"(5) [OF refl refl skip NStr refl l ok anc q] n u cost c l by (simp add: NStr)
  next
    case (NRef r)
    note push = stack_ok_push [OF "3.prems"(1) [unfolded NRef] d]
    have a: "r \<notin> set anc" using push(2) anc by simp
    have vs: "visits pending \<le> pending_nodes h pending" by (rule visits_le [OF ok])
    have ch: "length (children h v) \<le> pending_nodes h (rev (map (\<lambda>x. Visit x (d + 1)) (children h v)))"
      using visits_le [OF push(1)] visits_le [of h "rev (map (\<lambda>x. Visit x (d + 1)) (children h v))"]
        stack_ok_visits [of h "d + 1" "children h v" "[]"] push(1) visits_visits [of "d + 1" "children h v" "[]"] NRef
      by (simp add: stack_ok_visits)
    show ?thesis
    proof (cases "h r")
      case (ArrObj xs)
      have c: "children h v = xs" "own_units h v = 0" using NRef ArrObj by (simp_all add: children_def own_units_def)
      have l: "\<not> MAX_ASSESSMENT_JSON_NODES < n + 1 + (q - 1) + length xs"
        using n cost(1) ch c q vs by simp
      show ?thesis unfolding step
        using "3.IH"(6) [OF refl refl skip NRef a ArrObj l] push(1) n u cost c q anc l a
        by (simp add: NRef ArrObj)
    next
      case (PropObj fs)
      have c: "children h v = map snd fs" "own_units h v = sum_list (map (length \<circ> fst) fs)"
        using NRef PropObj by (simp_all add: children_def own_units_def)
      obtain p1 q2 u1 where m: "push_members (n + 1) d fs (Leave r # pending) (q - 1) u = Inr (p1, q2, u1)"
        using push_members_fits [of u fs "n + 1" "q - 1" d "Leave r # pending"] n u cost ch c q vs by auto
      note pm = push_members_Inr [OF m]
      have red: "complexity_loop h (Visit v d # pending) anc q n u = complexity_loop h p1 (r # anc) q2 (n + 1) u1"
        unfolding step by (simp only: NRef js_node.case if_not_P [OF a] PropObj js_object.case m sum.case prod.case)
      have p1: "p1 = rev (map (\<lambda>x. Visit x (d + 1)) (children h v)) @ Leave r # pending" using pm c(1) by simp
      have "stack_ok h p1" using push(1) unfolding p1 NRef .
      moreover have "r # anc = leaves p1" unfolding p1 leaves_visits by (simp add: anc)
      moreover have "q2 = visits p1" unfolding p1 visits_visits using q pm c(1) by simp
      moreover have "n + 1 + pending_nodes h p1 \<le> MAX_ASSESSMENT_JSON_NODES"
          "u1 + pending_units h p1 \<le> MAX_ASSESSMENT_STRING_CODE_UNITS"
        using n u cost c pm by (simp_all add: p1)
      ultimately show ?thesis unfolding red by (rule "3.IH"(7) [OF refl refl skip NRef a PropObj m refl refl])
    qed
  next
    case NUndef
    have c: "children h v = []" using NUndef by (simp add: children_def)
    show ?thesis unfolding step using "3.IH"(1) [OF refl refl skip NUndef ok anc q] n u cost c by (simp add: NUndef)
  next
    case NNull
    have c: "children h v = []" using NNull by (simp add: children_def)
    show ?thesis unfolding step using "3.IH"(2) [OF refl refl skip NNull ok anc q] n u cost c by (simp add: NNull)
  next
    case (NBool b)
    have c: "children h v = []" using NBool by (simp add: children_def)
    show ?thesis unfolding step using "3.IH"(3) [OF refl refl skip NBool ok anc q] n u cost c by (simp add: NBool)
  next
    case NNum
    have c: "children h v = []" using NNum by (simp add: children_def)
    show ?thesis unfolding step using "3.IH"(4) [OF refl refl skip NNum ok anc q] n u cost c by (simp add: NNum)
  qed
qed simp

lemma consume_valid_iff:
  assumes "n \<le> MAX_ASSESSMENT_JSON_NODES" "u \<le> MAX_ASSESSMENT_STRING_CODE_UNITS"
  shows "consumeAssessmentComplexity h v (n, u) = (ValidSize, n', u') \<longleftrightarrow>
    shallow h 65 v \<and> n' = n + node_count h 65 v \<and> u' = u + unit_count h 65 v
    \<and> n' \<le> MAX_ASSESSMENT_JSON_NODES \<and> u' \<le> MAX_ASSESSMENT_STRING_CODE_UNITS"
    (is "?run \<longleftrightarrow> ?spec")
proof
  assume ?run
  then show ?spec
    using valid_size_exact [of h "[Visit v 0]" "[]" 1 n u n' u'] assms by (simp add: consumeAssessmentComplexity_def)
next
  assume s: ?spec
  then have "fst (complexity_loop h [Visit v 0] [] 1 n u) = ValidSize"
    by (intro valid_size_complete) simp_all
  then obtain a b where r: "complexity_loop h [Visit v 0] [] 1 n u = (ValidSize, a, b)" by (cases "complexity_loop h [Visit v 0] [] 1 n u") auto
  then show ?run
    using valid_size_exact [OF r assms] s by (simp add: consumeAssessmentComplexity_def)
qed

section \<open>Property\<close>

text \<open>
  C33: the size check accepts exactly the values within the budget, on any heap of objects.  Starting from a
  budget that is not overdrawn, the loop answers valid exactly if the tree of members of the value is at
  most 64 levels deep (so no cycle is reachable) and its nodes and its string and name characters fit into
  what is left; it then charges exactly this size, counting a shared object once per path to it.
\<close>

theorem input_size_exact:
  assumes "n \<le> MAX_ASSESSMENT_JSON_NODES" "u \<le> MAX_ASSESSMENT_STRING_CODE_UNITS"
  shows "consumeAssessmentComplexity h v (n, u) = (ValidSize, n', u') \<longleftrightarrow>
    shallow h 65 v \<and> n' = n + node_count h 65 v \<and> u' = u + unit_count h 65 v
    \<and> n' \<le> MAX_ASSESSMENT_JSON_NODES \<and> u' \<le> MAX_ASSESSMENT_STRING_CODE_UNITS"
  by (rule consume_valid_iff [OF assms])

text \<open>An object that is its own member is refused.\<close>

definition loop_heap :: js_heap where "loop_heap r = PropObj [(js ''self'', NRef 0)]"

lemma loop_not_shallow: "\<not> shallow loop_heap k (NRef 0)"
  by (induction k) (simp_all add: children_def loop_heap_def)

theorem input_size_exact_witness: "fst (consumeAssessmentComplexity loop_heap (NRef 0) (0, 0)) \<noteq> ValidSize"
proof
  assume "fst (consumeAssessmentComplexity loop_heap (NRef 0) (0, 0)) = ValidSize"
  then obtain n' u' where "consumeAssessmentComplexity loop_heap (NRef 0) (0, 0) = (ValidSize, n', u')"
    by (cases "consumeAssessmentComplexity loop_heap (NRef 0) (0, 0)") auto
  then show False using input_size_exact [of 0 0 loop_heap "NRef 0" n' u'] loop_not_shallow by simp
qed

end
