(* ===== verification/AcceptanceContract.thy ===== *)
theory AcceptanceContract
  imports AcceptanceSize
begin

text \<open>
  What an acceptance verdict means.  A context leaves facts open: categories, facets, roles or
  jurisdictions it does not state.  The complete facts it may stand for are made explicit, and the
  three-valued match of a rule is compared with the rule applied to them.
\<close>

section \<open>Complete facts\<close>

record acc_facts =
  f_subjects :: "jsstr \<Rightarrow> jsstr set option"
  f_roles :: "jsstr set"
  f_jurisdictions :: "jsstr set"
  f_instant :: "jsstr \<Rightarrow> int"
  f_region :: "jsstr \<Rightarrow> jsstr set"

definition declared_facets :: "acc_context \<Rightarrow> jsstr \<Rightarrow> jsstr set" where
  "declared_facets ctx c = (\<Union>s \<in> {s \<in> set (subjects ctx). subject_category s = c}. set (subject_facets s))"

definition open_facets :: "acc_context \<Rightarrow> jsstr \<Rightarrow> bool" where
  "open_facets ctx c \<longleftrightarrow> (\<exists>s \<in> set (subjects ctx). subject_category s = c \<and> subject_facets s = [])"

text \<open>The facts a context may stand for: what it states is so, what it leaves out is free.\<close>

definition possible :: "(jsstr \<Rightarrow> int option) \<Rightarrow> acc_profile \<Rightarrow> acc_context \<Rightarrow> acc_facts \<Rightarrow> bool" where
  "possible dp p ctx F \<longleftrightarrow>
     (\<forall>s t. dp s = Some t \<longrightarrow> f_instant F s = t)
     \<and> (\<forall>g zs. map_of (region_aliases p) g = Some zs \<longrightarrow> f_region F g = set zs)
     \<and> (subjects ctx \<noteq> [] \<longrightarrow>
          {c. f_subjects F c \<noteq> None} = subject_category ` set (subjects ctx)
          \<and> (\<forall>c S. f_subjects F c = Some S \<longrightarrow>
                declared_facets ctx c \<subseteq> S \<and> (open_facets ctx c \<or> S = declared_facets ctx c)))
     \<and> (advertiser_roles ctx \<noteq> [] \<longrightarrow> f_roles F = set (advertiser_roles ctx))
     \<and> (delivery_jurisdictions ctx \<noteq> [] \<longrightarrow> f_jurisdictions F = set (delivery_jurisdictions ctx))"

text \<open>A rule applied to complete facts.\<close>

definition applies :: "acc_facts \<Rightarrow> acc_rule \<Rightarrow> jsstr \<Rightarrow> int \<Rightarrow> bool" where
  "applies F r surface now \<longleftrightarrow>
     surface \<in> set (rule_applies_to r)
     \<and> (\<forall>s. effective_at r = Some s \<longrightarrow> f_instant F s \<le> now)
     \<and> (\<forall>s. expires_at r = Some s \<longrightarrow> now < f_instant F s)
     \<and> (\<exists>S. f_subjects F (rule_category r) = Some S \<and> (rule_facets r = [] \<or> set (rule_facets r) \<inter> S \<noteq> {}))
     \<and> (rule_roles r = [] \<or> set (rule_roles r) \<inter> f_roles F \<noteq> {})
     \<and> (rule_jurisdictions r = [] \<and> rule_groups r = []
        \<or> (set (rule_jurisdictions r) \<union> (\<Union>g \<in> set (rule_groups r). f_region F g)) \<inter> f_jurisdictions F \<noteq> {})"

section \<open>The index of a context\<close>

lemma index_lookup:
  "fold index_subject ss m c =
     (if c \<in> subject_category ` set ss then
        Some \<lparr>facets = (case m c of None \<Rightarrow> [] | Some i \<Rightarrow> facets i) @ concat (map subject_facets (filter (\<lambda>s. subject_category s = c) ss)),
          hasMissingFacets = ((case m c of None \<Rightarrow> False | Some i \<Rightarrow> hasMissingFacets i)
            \<or> (\<exists>s \<in> set ss. subject_category s = c \<and> subject_facets s = []))\<rparr>
      else m c)"
proof (induction ss arbitrary: m)
  case (Cons s ss)
  have idx: "index_subject s m c = (if c = subject_category s then
      Some \<lparr>facets = (case m c of None \<Rightarrow> [] | Some i \<Rightarrow> facets i) @ subject_facets s,
        hasMissingFacets = ((case m c of None \<Rightarrow> False | Some i \<Rightarrow> hasMissingFacets i) \<or> subject_facets s = [])\<rparr> else m c)"
    by (cases "m (subject_category s)") (auto simp: index_subject_def Let_def)
  show ?case
  proof (cases "c \<in> subject_category ` set ss")
    case False
    then have n: "\<And>x. x \<in> set ss \<Longrightarrow> subject_category x \<noteq> c" by auto
    show ?thesis using Cons.IH [of "index_subject s m"] idx n False by (auto simp: filter_empty_conv)
  qed (use Cons.IH [of "index_subject s m"] idx in auto)
qed simp

lemma index_context_lookup:
  "subjectsByCategory (index_context ctx) c = (if c \<in> subject_category ` set (subjects ctx) then
     Some \<lparr>facets = concat (map subject_facets (filter (\<lambda>s. subject_category s = c) (subjects ctx))),
       hasMissingFacets = open_facets ctx c\<rparr> else None)"
  by (simp add: index_context_def index_lookup open_facets_def)

lemma indexed_facets: "set (concat (map subject_facets (filter (\<lambda>s. subject_category s = c) (subjects ctx)))) = declared_facets ctx c"
  by (auto simp: declared_facets_def)

section \<open>Soundness of the checks\<close>

lemma all_checks_False: "all_checks u cs = MatchFalse \<longleftrightarrow> MatchFalse \<in> set cs"
  by (induction u cs rule: all_checks.induct) auto

lemma all_checks_True: "all_checks u cs = MatchTrue \<longleftrightarrow> \<not> u \<and> set cs \<subseteq> {MatchTrue}"
  by (induction u cs rule: all_checks.induct) auto

text \<open>What each check decides of the rule on complete facts.\<close>

definition decides :: "rule_match \<Rightarrow> bool \<Rightarrow> bool" where
  "decides m b \<longleftrightarrow> (m = MatchTrue \<longrightarrow> b) \<and> (m = MatchFalse \<longrightarrow> \<not> b)"

lemma starts_decides: "possible dp p ctx F \<Longrightarrow> decides (starts_check dp now r) (\<forall>s. effective_at r = Some s \<longrightarrow> f_instant F s \<le> now)"
  by (auto simp: decides_def starts_check_def possible_def split: option.splits if_splits)

lemma expires_decides: "possible dp p ctx F \<Longrightarrow> decides (expires_check dp now r) (\<forall>s. expires_at r = Some s \<longrightarrow> now < f_instant F s)"
  by (auto simp: decides_def expires_check_def possible_def split: option.splits if_splits)

lemma roles_decide: "possible dp p ctx F \<Longrightarrow>
    decides (role_check (index_context ctx) r) (rule_roles r = [] \<or> set (rule_roles r) \<inter> f_roles F \<noteq> {})"
  by (auto simp: decides_def role_check_def possible_def index_context_def list_ex_iff split: if_splits)

lemma expanded: "set (expandedJurisdictions p gs) = (\<Union>g \<in> set gs. case map_of (region_aliases p) g of None \<Rightarrow> {} | Some zs \<Rightarrow> set zs)"
  unfolding expandedJurisdictions_def set_concat set_map image_image
  by (intro SUP_cong refl) (simp split: option.splits)

lemma jurisdictions_decide:
  assumes "possible dp p ctx F"
  shows "decides (jurisdiction_check p (index_context ctx) r) (rule_jurisdictions r = [] \<and> rule_groups r = []
     \<or> (set (rule_jurisdictions r) \<union> (\<Union>g \<in> set (rule_groups r). f_region F g)) \<inter> f_jurisdictions F \<noteq> {})"
proof (cases "list_ex (\<lambda>g. map_of (region_aliases p) g = None) (rule_groups r) \<or> delivery_jurisdictions ctx = []
    \<or> (rule_jurisdictions r = [] \<and> rule_groups r = [])")
  case False
  then have g: "\<And>g. g \<in> set (rule_groups r) \<Longrightarrow>
      f_region F g = (case map_of (region_aliases p) g of None \<Rightarrow> {} | Some zs \<Rightarrow> set zs)"
    using assms by (auto simp: possible_def list_ex_iff split: option.splits)
  have e: "set (rule_jurisdictions r @ expandedJurisdictions p (rule_groups r))
      = set (rule_jurisdictions r) \<union> (\<Union>g \<in> set (rule_groups r). f_region F g)"
    by (simp add: expanded g)
  have f: "f_jurisdictions F = set (ix_jurisdictions (index_context ctx))"
    using assms False by (auto simp: possible_def index_context_def)
  show ?thesis
    using False unfolding decides_def jurisdiction_check_def e [symmetric] f
    by (auto simp: index_context_def list_ex_iff split: if_splits)
qed (auto simp: decides_def jurisdiction_check_def index_context_def split: if_splits)

lemma subjects_decide:
  assumes "possible dp p ctx F"
  shows "subject_check (index_context ctx) r = MatchFalse \<or> facet_check (index_context ctx) r = MatchFalse \<Longrightarrow>
      \<not> (\<exists>S. f_subjects F (rule_category r) = Some S \<and> (rule_facets r = [] \<or> set (rule_facets r) \<inter> S \<noteq> {}))"
    and "subject_check (index_context ctx) r = MatchTrue \<Longrightarrow> facet_check (index_context ctx) r = MatchTrue \<Longrightarrow>
      \<exists>S. f_subjects F (rule_category r) = Some S \<and> (rule_facets r = [] \<or> set (rule_facets r) \<inter> S \<noteq> {})"
proof -
  let ?c = "rule_category r"
  have dom: "subjects ctx \<noteq> [] \<Longrightarrow> (f_subjects F ?c \<noteq> None) = (?c \<in> subject_category ` set (subjects ctx))"
    and facts: "\<And>S. subjects ctx \<noteq> [] \<Longrightarrow> f_subjects F ?c = Some S \<Longrightarrow>
      declared_facets ctx ?c \<subseteq> S \<and> (open_facets ctx ?c \<or> S = declared_facets ctx ?c)"
    using assms unfolding possible_def by blast+
  have ne: "?c \<in> subject_category ` set (subjects ctx) \<Longrightarrow> subjects ctx \<noteq> []" by auto
  show "\<not> (\<exists>S. f_subjects F ?c = Some S \<and> (rule_facets r = [] \<or> set (rule_facets r) \<inter> S \<noteq> {}))"
    if m: "subject_check (index_context ctx) r = MatchFalse \<or> facet_check (index_context ctx) r = MatchFalse"
  proof (cases "?c \<in> subject_category ` set (subjects ctx)")
    case True
    then have "facet_check (index_context ctx) r = MatchFalse"
      using m by (auto simp: subject_check_def index_context_lookup split: if_splits)
    then have f: "rule_facets r \<noteq> []" "\<not> open_facets ctx ?c" "set (rule_facets r) \<inter> declared_facets ctx ?c = {}"
      using True by (auto simp: facet_check_def index_context_lookup list_ex_iff declared_facets_def split: if_splits)
    show ?thesis using f facts [OF ne [OF True]] by blast
  next
    case False
    then have "hasSubjects (index_context ctx)"
      using m by (auto simp: subject_check_def facet_check_def index_context_lookup split: if_splits)
    then have "f_subjects F ?c = None" using dom False by (simp add: index_context_def)
    then show ?thesis by simp
  qed
  show "\<exists>S. f_subjects F ?c = Some S \<and> (rule_facets r = [] \<or> set (rule_facets r) \<inter> S \<noteq> {})"
    if m: "subject_check (index_context ctx) r = MatchTrue" "facet_check (index_context ctx) r = MatchTrue"
  proof -
    have c: "?c \<in> subject_category ` set (subjects ctx)"
      using m(1) by (auto simp: subject_check_def index_context_lookup split: if_splits)
    then obtain S where S: "f_subjects F ?c = Some S" using dom ne by blast
    have "rule_facets r = [] \<or> set (rule_facets r) \<inter> declared_facets ctx ?c \<noteq> {}"
      using m(2) c by (auto simp: facet_check_def index_context_lookup list_ex_iff declared_facets_def split: if_splits)
    then show ?thesis using S facts [OF ne [OF c] S] by blast
  qed
qed

lemma rule_match_sound:
  assumes "possible dp p ctx F"
  shows "ruleMatches dp p r (index_context ctx) surface now = MatchTrue \<Longrightarrow> applies F r surface now"
    and "ruleMatches dp p r (index_context ctx) surface now = MatchFalse \<Longrightarrow> \<not> applies F r surface now"
proof -
  note d = starts_decides [OF assms, of now r, unfolded decides_def] expires_decides [OF assms, of now r, unfolded decides_def]
    roles_decide [OF assms, of r, unfolded decides_def] jurisdictions_decide [OF assms, of r, unfolded decides_def]
  show "applies F r surface now" if "ruleMatches dp p r (index_context ctx) surface now = MatchTrue"
  proof -
    have s: "surface \<in> set (rule_applies_to r)" using that by (auto simp: ruleMatches_def split: if_splits)
    have all: "starts_check dp now r = MatchTrue" "expires_check dp now r = MatchTrue" "subject_check (index_context ctx) r = MatchTrue"
        "facet_check (index_context ctx) r = MatchTrue" "role_check (index_context ctx) r = MatchTrue"
        "jurisdiction_check p (index_context ctx) r = MatchTrue"
      using that s by (simp_all add: ruleMatches_def all_checks_True)
    show ?thesis unfolding applies_def using s d all subjects_decide(2) [OF assms all(3,4)] by blast
  qed
  show "\<not> applies F r surface now" if m: "ruleMatches dp p r (index_context ctx) surface now = MatchFalse"
  proof (cases "surface \<in> set (rule_applies_to r)")
    case True
    then have "MatchFalse \<in> {starts_check dp now r, expires_check dp now r, subject_check (index_context ctx) r,
        facet_check (index_context ctx) r, role_check (index_context ctx) r, jurisdiction_check p (index_context ctx) r}"
      using m by (simp add: ruleMatches_def all_checks_False)
    then consider "starts_check dp now r = MatchFalse" | "expires_check dp now r = MatchFalse"
      | "subject_check (index_context ctx) r = MatchFalse \<or> facet_check (index_context ctx) r = MatchFalse"
      | "role_check (index_context ctx) r = MatchFalse" | "jurisdiction_check p (index_context ctx) r = MatchFalse"
      by auto
    then show ?thesis
    proof cases
      case 1
      then show ?thesis using d(1) by (simp add: applies_def)
    next
      case 2
      then show ?thesis using d(2) by (simp add: applies_def)
    next
      case 3
      from subjects_decide(1) [OF assms this] show ?thesis by (simp add: applies_def)
    next
      case 4
      then show ?thesis using d(3) by (simp add: applies_def)
    next
      case 5
      then show ?thesis using d(4) by (simp add: applies_def)
    qed
  qed (simp add: applies_def)
qed

section \<open>Precision of the checks\<close>

text \<open>The least and the most a context can stand for.\<close>

definition least_facts :: "(jsstr \<Rightarrow> int option) \<Rightarrow> acc_profile \<Rightarrow> acc_context \<Rightarrow> acc_facts" where
  "least_facts dp p ctx =
     \<lparr>f_subjects = (\<lambda>c. if c \<in> subject_category ` set (subjects ctx) then Some (declared_facets ctx c) else None),
      f_roles = set (advertiser_roles ctx), f_jurisdictions = set (delivery_jurisdictions ctx),
      f_instant = (\<lambda>s. case dp s of None \<Rightarrow> 0 | Some t \<Rightarrow> t),
      f_region = (\<lambda>g. case map_of (region_aliases p) g of None \<Rightarrow> {} | Some zs \<Rightarrow> set zs)\<rparr>"

definition most_facts :: "(jsstr \<Rightarrow> int option) \<Rightarrow> acc_profile \<Rightarrow> acc_context \<Rightarrow> acc_facts" where
  "most_facts dp p ctx = (least_facts dp p ctx)
     \<lparr>f_subjects := (\<lambda>c. if subjects ctx = [] \<or> (c \<in> subject_category ` set (subjects ctx) \<and> open_facets ctx c) then Some UNIV
                       else f_subjects (least_facts dp p ctx) c),
      f_roles := (if advertiser_roles ctx = [] then UNIV else set (advertiser_roles ctx)),
      f_jurisdictions := (if delivery_jurisdictions ctx = [] then UNIV else set (delivery_jurisdictions ctx))\<rparr>"

lemma least_possible: "possible dp p ctx (least_facts dp p ctx)"
  by (auto simp: possible_def least_facts_def split: if_splits)

lemma most_possible: "possible dp p ctx (most_facts dp p ctx)"
  by (auto simp: possible_def most_facts_def least_facts_def split: if_splits)

definition well_stated :: "(jsstr \<Rightarrow> int option) \<Rightarrow> acc_profile \<Rightarrow> acc_rule \<Rightarrow> bool" where
  "well_stated dp p r \<longleftrightarrow>
     (\<forall>s. effective_at r = Some s \<or> expires_at r = Some s \<longrightarrow> dp s \<noteq> None)
     \<and> (\<forall>g \<in> set (rule_groups r). map_of (region_aliases p) g \<noteq> None)
     \<and> (rule_jurisdictions r = [] \<and> rule_groups r = []
        \<or> rule_jurisdictions r @ expandedJurisdictions p (rule_groups r) \<noteq> [])"

lemma unknown_checks:
  assumes "ruleMatches dp p r ix surface now = MatchUnknown"
  shows "surface \<in> set (rule_applies_to r)"
    and "MatchFalse \<notin> {starts_check dp now r, expires_check dp now r, subject_check ix r, facet_check ix r, role_check ix r,
      jurisdiction_check p ix r}"
    and "MatchUnknown \<in> {starts_check dp now r, expires_check dp now r, subject_check ix r, facet_check ix r, role_check ix r,
      jurisdiction_check p ix r}"
proof -
  let ?cs = "[starts_check dp now r, expires_check dp now r, subject_check ix r, facet_check ix r, role_check ix r,
      jurisdiction_check p ix r]"
  show s: "surface \<in> set (rule_applies_to r)" using assms by (auto simp: ruleMatches_def split: if_splits)
  then have u: "all_checks False ?cs = MatchUnknown" using assms by (simp add: ruleMatches_def)
  have f: "MatchFalse \<notin> set ?cs"
    using all_checks_False [of False ?cs] unfolding u by (simp only: rule_match.distinct simp_thms)
  have t: "\<not> set ?cs \<subseteq> {MatchTrue}"
    using all_checks_True [of False ?cs] unfolding u by (simp only: rule_match.distinct simp_thms)
  from t obtain x where x: "x \<in> set ?cs" "x \<noteq> MatchTrue" by blast
  then have "x \<noteq> MatchFalse" using f by metis
  with x(2) have "x = MatchUnknown" by (cases x rule: rule_match.exhaust) simp_all
  with x(1) have "MatchUnknown \<in> set ?cs" by metis
  then show "MatchUnknown \<in> {starts_check dp now r, expires_check dp now r, subject_check ix r, facet_check ix r, role_check ix r,
      jurisdiction_check p ix r}" by simp
  show "MatchFalse \<notin> {starts_check dp now r, expires_check dp now r, subject_check ix r, facet_check ix r, role_check ix r,
      jurisdiction_check p ix r}" using f by simp
qed

lemma unknown_may_not_apply:
  assumes w: "well_stated dp p r" and u: "ruleMatches dp p r (index_context ctx) surface now = MatchUnknown"
  shows "\<not> applies (least_facts dp p ctx) r surface now"
proof -
  let ?ix = "index_context ctx" and ?F = "least_facts dp p ctx"
  have dates: "starts_check dp now r \<noteq> MatchUnknown" "expires_check dp now r \<noteq> MatchUnknown"
    using w by (auto simp: well_stated_def starts_check_def expires_check_def split: option.splits)
  have groups: "\<not> list_ex (\<lambda>g. map_of (region_aliases p) g = None) (rule_groups r)"
    using w by (auto simp: well_stated_def list_ex_iff)
  consider "subject_check ?ix r = MatchUnknown" | "facet_check ?ix r = MatchUnknown" | "role_check ?ix r = MatchUnknown"
    | "jurisdiction_check p ?ix r = MatchUnknown"
    using unknown_checks(3) [OF u] dates by auto
  then show ?thesis
  proof cases
    case 1
    then have "subjects ctx = []" by (simp add: subject_check_def index_context_def split: if_splits)
    then show ?thesis by (simp add: applies_def least_facts_def)
  next
    case 2
    then have "rule_category r \<in> subject_category ` set (subjects ctx)" "rule_facets r \<noteq> []"
        "set (rule_facets r) \<inter> declared_facets ctx (rule_category r) = {}"
      by (auto simp: facet_check_def index_context_lookup list_ex_iff declared_facets_def split: if_splits)
    then show ?thesis by (simp add: applies_def least_facts_def)
  next
    case 3
    then have "rule_roles r \<noteq> []" "advertiser_roles ctx = []" by (auto simp: role_check_def index_context_def split: if_splits)
    then show ?thesis by (simp add: applies_def least_facts_def)
  next
    case 4
    then have "\<not> (rule_jurisdictions r = [] \<and> rule_groups r = [])" "delivery_jurisdictions ctx = []"
      using groups by (auto simp: jurisdiction_check_def index_context_def split: if_splits)
    then show ?thesis by (auto simp: applies_def least_facts_def)
  qed
qed

lemma unknown_may_apply:
  assumes w: "well_stated dp p r" and u: "ruleMatches dp p r (index_context ctx) surface now = MatchUnknown"
  shows "applies (most_facts dp p ctx) r surface now"
proof -
  let ?ix = "index_context ctx" and ?F = "most_facts dp p ctx"
  have nf: "starts_check dp now r \<noteq> MatchFalse" "expires_check dp now r \<noteq> MatchFalse" "subject_check ?ix r \<noteq> MatchFalse"
      "facet_check ?ix r \<noteq> MatchFalse" "role_check ?ix r \<noteq> MatchFalse" "jurisdiction_check p ?ix r \<noteq> MatchFalse"
    using unknown_checks(2) [OF u] by auto
  have s: "\<forall>s. effective_at r = Some s \<longrightarrow> f_instant ?F s \<le> now"
    using nf(1) w by (auto simp: starts_check_def well_stated_def most_facts_def least_facts_def split: option.splits if_splits)
  have e: "\<forall>s. expires_at r = Some s \<longrightarrow> now < f_instant ?F s"
    using nf(2) w by (auto simp: expires_check_def well_stated_def most_facts_def least_facts_def split: option.splits if_splits)
  have r: "rule_roles r = [] \<or> set (rule_roles r) \<inter> f_roles ?F \<noteq> {}"
    using nf(5) by (auto simp: role_check_def index_context_def most_facts_def list_ex_iff split: if_splits)
  have j: "rule_jurisdictions r = [] \<and> rule_groups r = []
      \<or> (set (rule_jurisdictions r) \<union> (\<Union>g \<in> set (rule_groups r). f_region ?F g)) \<inter> f_jurisdictions ?F \<noteq> {}"
  proof -
    have reg: "set (rule_jurisdictions r) \<union> (\<Union>g \<in> set (rule_groups r). f_region ?F g)
        = set (rule_jurisdictions r @ expandedJurisdictions p (rule_groups r))"
      by (simp add: expanded most_facts_def least_facts_def)
    have g: "\<not> list_ex (\<lambda>g. map_of (region_aliases p) g = None) (rule_groups r)"
      using w by (auto simp: well_stated_def list_ex_iff)
    show ?thesis
      unfolding reg using nf(6) w g
      by (cases "delivery_jurisdictions ctx = []")
        (auto simp: jurisdiction_check_def index_context_def most_facts_def well_stated_def list_ex_iff split: if_splits)
  qed
  have c: "\<exists>S. f_subjects ?F (rule_category r) = Some S \<and> (rule_facets r = [] \<or> set (rule_facets r) \<inter> S \<noteq> {})"
  proof (cases "subjects ctx = []")
    case True
    then show ?thesis by (auto simp: most_facts_def intro: disjCI)
  next
    case False
    then have m: "rule_category r \<in> subject_category ` set (subjects ctx)"
      using nf(3) by (auto simp: subject_check_def index_context_def index_lookup split: if_splits)
    show ?thesis
    proof (cases "open_facets ctx (rule_category r)")
      case True
      then show ?thesis using m by (auto simp: most_facts_def intro: disjCI)
    next
      case cl: False
      have "rule_facets r = [] \<or> set (rule_facets r) \<inter> declared_facets ctx (rule_category r) \<noteq> {}"
        using nf(4) m cl by (auto simp: facet_check_def index_context_lookup list_ex_iff declared_facets_def split: if_splits)
      then show ?thesis using m cl False by (simp add: most_facts_def least_facts_def)
    qed
  qed
  show ?thesis unfolding applies_def using unknown_checks(1) [OF u] s e r j c by blast
qed

end
