(* ===== verification/AcceptanceProperties.thy ===== *)
theory AcceptanceProperties
  imports AcceptanceContract
begin

text \<open>
  Guarantees of the acceptance evaluator over its whole input: what a permissive verdict promises about
  every given profile, and that another profile never relaxes a verdict.
\<close>

section \<open>Collecting the profiles\<close>

definition entry_profile :: "js_heap \<Rightarrow> js_node \<Rightarrow> acc_profile" where
  "entry_profile h v = read_profile h (get_prop h v ''profile'')"

definition profile_key :: "acc_profile \<Rightarrow> jsstr" where
  "profile_key p = identity_key (profile_id p) (pf_version p) (content_digest p)"

definition entry_ok :: "(js_node \<Rightarrow> bool) \<Rightarrow> js_heap \<Rightarrow> js_node \<Rightarrow> bool" where
  "entry_ok valid h v \<longleftrightarrow> get_prop h v ''resolution'' = NStr (js ''resolved'') \<and> valid (get_prop h v ''profile'')
     \<and> get_prop h v ''profileId'' = NStr (profile_id (entry_profile h v)) \<and> profileAliasesResolve (entry_profile h v)"

definition scan_inv :: "(js_node \<Rightarrow> bool) \<Rightarrow> js_heap \<Rightarrow> js_node set \<Rightarrow> scan_state \<Rightarrow> bool" where
  "scan_inv valid h V st \<longleftrightarrow>
     set (seenIdentities st) \<subseteq> profile_key ` set (profiles st)
     \<and> (\<forall>(i, v, d) \<in> set (identities st). identity_key i v d \<in> set (seenIdentities st))
     \<and> set (profiles st) \<subseteq> entry_profile h ` V
     \<and> (\<not> uncertain st \<longrightarrow> (\<forall>v \<in> V. entry_ok valid h v \<and> profile_key (entry_profile h v) \<in> set (seenIdentities st)))"

lemma doubt_simps [simp]:
  "uncertain (doubt d st)" "profiles (doubt d st) = profiles st" "identities (doubt d st) = identities st"
  "seenIdentities (doubt d st) = seenIdentities st"
  by (simp_all add: doubt_def)

lemma measure_frame:
  "measure_profile h pid pv st = Inr (st1, further) \<Longrightarrow>
     profiles st1 = profiles st \<and> seenIdentities st1 = seenIdentities st \<and> identities st1 = identities st
     \<and> (uncertain st1 \<longleftrightarrow> uncertain st \<or> \<not> further)"
  by (auto simp: measure_profile_def Let_def split: js_node.splits if_splits prod.splits complexity_verdict.splits)

lemma count_frame:
  "count_rules h pid pv st = Inr st1 \<Longrightarrow>
     profiles st1 = profiles st \<and> seenIdentities st1 = seenIdentities st \<and> identities st1 = identities st
     \<and> uncertain st1 = uncertain st"
  unfolding count_rules_def Let_def
  by (cases "array_items h (get_prop h pv ''rules'')"; cases "candidate_identity h pid pv") (auto split: if_splits)

text \<open>The three ends of an entry: nothing but doubt, a known identity, or one more profile.\<close>

lemma accept_cases:
  fixes valid h pid pv st
  defines "p \<equiv> read_profile h pv" and "st' \<equiv> accept_profile valid h pid pv st"
  obtains (doubted) d where "st' = doubt d st"
    | (known) "valid pv" "get_prop h pv ''profile_id'' = NStr pid" "profileAliasesResolve p" "profile_id p = pid"
      "profile_key p \<in> set (seenIdentities st)" "st' = st"
    | (repeated) "profile_id p = pid" "profile_key p \<notin> set (seenIdentities st)" "(pid, pf_version p, content_digest p) \<in> set (identities st)"
    | (conflict) "profile_id p = pid" "profiles st' = profiles st @ [p]" "uncertain st'" "identities st' = identities st"
      "seenIdentities st' = profile_key p # seenIdentities st"
    | (added) "valid pv" "get_prop h pv ''profile_id'' = NStr pid" "profileAliasesResolve p" "profile_id p = pid"
      "profiles st' = profiles st @ [p]" "uncertain st' = uncertain st"
      "identities st' = identities st @ [(pid, pf_version p, content_digest p)]"
      "seenIdentities st' = profile_key p # seenIdentities st"
proof (cases "valid pv \<and> get_prop h pv ''profile_id'' = NStr pid \<and> profileAliasesResolve p")
  case False
  then have "st' = doubt (diagnostic ''invalid_profile'' (Some pid) None) st"
    by (auto simp: st'_def accept_profile_def p_def Let_def)
  then show thesis by (rule doubted)
next
  case True
  have pid: "profile_id p = pid" using True by (simp add: p_def read_profile_def)
  have key: "identity_key pid (pf_version p) (content_digest p) = profile_key p" by (simp add: profile_key_def pid)
  have st': "st' = (if profile_key p \<in> set (seenIdentities st) then st
      else let st1 = st\<lparr>seenIdentities := profile_key p # seenIdentities st\<rparr> in
        case map_of (identities st) pid of
          Some (version, digest) \<Rightarrow>
            if version \<noteq> pf_version p \<or> digest \<noteq> content_digest p
            then (doubt (diagnostic ''profile_conflict'' (Some pid) None) st1)\<lparr>profiles := profiles st1 @ [p]\<rparr>
            else st1
        | None \<Rightarrow>
            st1\<lparr>identities := identities st1 @ [(pid, pf_version p, content_digest p)], profiles := profiles st1 @ [p]\<rparr>)"
    using True key by (simp add: st'_def accept_profile_def p_def [symmetric] Let_def)
  show thesis
  proof (cases "profile_key p \<in> set (seenIdentities st)")
    case s: True
    then show thesis using known True pid st' by simp
  next
    case s: False
    show thesis
    proof (cases "map_of (identities st) pid")
      case None
      then show thesis using added True pid st' s by (simp add: Let_def)
    next
      case (Some vd)
      then obtain v d where vd: "map_of (identities st) pid = Some (v, d)" by (cases vd) simp
      show thesis
      proof (cases "v \<noteq> pf_version p \<or> d \<noteq> content_digest p")
        case True
        then show thesis using conflict pid st' s vd by (simp add: Let_def)
      next
        case False
        then show thesis using repeated pid s map_of_SomeD [OF vd] by simp
      qed
    qed
  qed
qed

lemma scan_profile_inv:
  assumes inv: "scan_inv valid h V st" and run: "scan_profile valid h v st = Inr st'"
  shows "scan_inv valid h (insert v V) st' \<and> (\<exists>ps. profiles st' = profiles st @ ps) \<and> (uncertain st \<longrightarrow> uncertain st')"
proof -
  have keep: "scan_inv valid h (insert v V) st2 \<and> (\<exists>ps. profiles st2 = profiles st @ ps) \<and> (uncertain st \<longrightarrow> uncertain st2)"
    if "profiles st2 = profiles st" "identities st2 = identities st" "seenIdentities st2 = seenIdentities st" "uncertain st2" for st2
    using inv that by (auto simp: scan_inv_def)
  show ?thesis
  proof (cases "\<exists>pid. get_prop h v ''profileId'' = NStr pid \<and> get_prop h v ''resolution'' = NStr (js ''resolved'')")
    case False
    then obtain d where "st' = doubt d st"
      using run by (auto simp: scan_profile_def Let_def split: js_node.splits if_splits)
    then show ?thesis using keep by simp
  next
    case True
    then obtain pid where pid: "get_prop h v ''profileId'' = NStr pid" "get_prop h v ''resolution'' = NStr (js ''resolved'')" by blast
    let ?pv = "get_prop h v ''profile''"
    obtain st1 further where m: "measure_profile h pid ?pv st = Inr (st1, further)"
      using run pid by (auto simp: scan_profile_def bindE_eq_Inr_iff Let_def)
    note mf = measure_frame [OF m]
    show ?thesis
    proof (cases further)
      case False
      then have "st' = st1" using run pid m by (simp add: scan_profile_def Let_def)
      then show ?thesis using keep mf False by simp
    next
      case True
      then obtain st2 where c: "count_rules h pid ?pv st1 = Inr st2" and st': "st' = accept_profile valid h pid ?pv st2"
        using run pid m by (auto simp: scan_profile_def bindE_eq_Inr_iff Let_def)
      have fr: "profiles st2 = profiles st" "seenIdentities st2 = seenIdentities st" "identities st2 = identities st"
          "uncertain st2 = uncertain st"
        using mf count_frame [OF c] True by simp_all
      note inv' = inv [unfolded scan_inv_def, folded fr]
      show ?thesis
      proof (cases rule: accept_cases [of valid h pid ?pv st2])
        case (doubted d)
        then show ?thesis unfolding st' using keep fr by simp
      next
        case known
        then show ?thesis unfolding st'
          using inv' fr pid by (auto simp: scan_inv_def entry_ok_def entry_profile_def)
      next
        case repeated
        then show ?thesis unfolding st' using inv' by (auto simp: profile_key_def)
      next
        case conflict
        then show ?thesis unfolding st'
          using inv' fr by (auto simp: scan_inv_def entry_profile_def)
      next
        case added
        then show ?thesis unfolding st'
          using inv' fr pid by (auto simp: scan_inv_def entry_ok_def entry_profile_def profile_key_def)
      qed
    qed
  qed
qed

lemma scan_profiles_inv:
  "scan_inv valid h V st \<Longrightarrow> scan_profiles valid h vs st = Inr st' \<Longrightarrow> scan_inv valid h (V \<union> set vs) st'"
proof (induction vs arbitrary: V st)
  case (Cons v vs)
  then obtain st1 where s: "scan_profile valid h v st = Inr st1" "scan_profiles valid h vs st1 = Inr st'"
    by (auto simp: bindE_eq_Inr_iff)
  then show ?case using Cons.IH [of "insert v V" st1] scan_profile_inv [OF Cons.prems(1) s(1)] by simp
qed simp

lemma init_scan_inv: "scan_inv valid h {} init_scan"
  by (simp add: scan_inv_def init_scan_def)

lemma scan_profiles_append:
  "scan_profiles valid h (vs @ ws) st = bindE (scan_profiles valid h vs st) (scan_profiles valid h ws)"
  by (induction vs arbitrary: st) (auto simp: bindE_def split: sum.splits)

section \<open>From a verdict back to the input\<close>

lemma unknown_outcome [simp]: "outcome (unknownAssessment ids ds) = UnknownOutcome"
  by (simp add: unknownAssessment_def)

text \<open>What must hold of the input besides its profiles, and the last stage.\<close>

definition context_accepted :: "acc_env \<Rightarrow> js_heap \<Rightarrow> acc_input \<Rightarrow> (js_node \<Rightarrow> bool) \<Rightarrow> int \<Rightarrow> bool" where
  "context_accepted E h inp pv now \<longleftrightarrow>
     (\<exists>c cv. acceptanceContext inp = NRef c \<and> in_appliesTo inp \<in> set SURFACES \<and> \<not> exceedsContextValueLimit h (NRef c)
       \<and> fst (consumeAssessmentComplexity h (NRef c) (0, 0)) = ValidSize \<and> validators E = Some (cv, pv) \<and> cv (NRef c))
     \<and> evaluated_ms E (evaluatedAt inp) = Some now"

lemma assess_last_stage:
  assumes "context_accepted E h inp pv now" "in_profiles inp = Some vs" "vs \<noteq> []" "length vs \<le> MAX_ASSESSMENT_PROFILES"
    and "scan_profiles pv h vs init_scan = Inr st"
  shows "assessAcceptancePolicy E h inp = judge (date_parse E) (read_context h (acceptanceContext inp)) (in_appliesTo inp) now st"
proof -
  obtain c cv where c: "acceptanceContext inp = NRef c" "in_appliesTo inp \<in> set SURFACES" "\<not> exceedsContextValueLimit h (NRef c)"
      "fst (consumeAssessmentComplexity h (NRef c) (0, 0)) = ValidSize" "validators E = Some (cv, pv)" "cv (NRef c)"
    and now: "evaluated_ms E (evaluatedAt inp) = Some now"
    using assms(1) unfolding context_accepted_def by blast
  have l: "\<not> MAX_ASSESSMENT_PROFILES < length vs" using assms(4) by simp
  have n: "\<not> in_appliesTo inp \<notin> set SURFACES" "\<not> \<not> cv (NRef c)" using c(2,6) by simp_all
  show ?thesis
    unfolding assessAcceptancePolicy_def Let_def
    by (simp only: assms(2) option.case if_not_P [OF l] if_not_P [OF assms(3)] c(1) js_node.case if_not_P [OF n(1)] if_not_P [OF c(3)]
        c(4) complexity_verdict.case c(5) prod.case if_not_P [OF n(2)] now assms(5) sum.case)
qed

lemma assessed:
  assumes "outcome (assessAcceptancePolicy E h inp) \<noteq> UnknownOutcome"
  obtains vs pv now st where "context_accepted E h inp pv now" "in_profiles inp = Some vs" "vs \<noteq> []"
    "length vs \<le> MAX_ASSESSMENT_PROFILES" "scan_profiles pv h vs init_scan = Inr st"
proof -
  note step = assms [unfolded assessAcceptancePolicy_def Let_def]
  obtain vs where vs: "in_profiles inp = Some vs" using step by (cases "in_profiles inp") simp_all
  note step = step [unfolded vs option.case]
  have l: "\<not> length vs > MAX_ASSESSMENT_PROFILES" "vs \<noteq> []" using step by (auto split: if_splits)
  note step = step [unfolded if_not_P [OF l(1)] if_not_P [OF l(2)]]
  obtain c where c: "acceptanceContext inp = NRef c" using step by (cases "acceptanceContext inp") simp_all
  note step = step [unfolded c js_node.case]
  have s: "\<not> in_appliesTo inp \<notin> set SURFACES" "\<not> exceedsContextValueLimit h (NRef c)" using step by (auto split: if_splits)
  note step = step [unfolded if_not_P [OF s(1)] if_not_P [OF s(2)]]
  have v: "fst (consumeAssessmentComplexity h (NRef c) (0, 0)) = ValidSize"
    using step by (cases "fst (consumeAssessmentComplexity h (NRef c) (0, 0))") simp_all
  note step = step [unfolded v complexity_verdict.case]
  obtain cv pv where pv: "validators E = Some (cv, pv)" using step by (cases "validators E") auto
  note step = step [unfolded pv option.case prod.case]
  have k: "\<not> \<not> cv (NRef c)" using step by (auto split: if_splits)
  note step = step [unfolded if_not_P [OF k]]
  obtain now where now: "evaluated_ms E (evaluatedAt inp) = Some now" using step by (cases "evaluated_ms E (evaluatedAt inp)") simp_all
  note step = step [unfolded now option.case]
  obtain st where st: "scan_profiles pv h vs init_scan = Inr st" using step by (cases "scan_profiles pv h vs init_scan") simp_all
  have "context_accepted E h inp pv now" unfolding context_accepted_def using c s v pv k now by blast
  moreover have "length vs \<le> MAX_ASSESSMENT_PROFILES" using l(1) by simp
  ultimately show thesis using that vs l(2) st by blast
qed

abbreviation all_matching ::
    "(jsstr \<Rightarrow> int option) \<Rightarrow> acc_context \<Rightarrow> jsstr \<Rightarrow> int \<Rightarrow> scan_state \<Rightarrow> (jsstr \<times> acc_rule) list" where
  "all_matching dp ctx surface now st \<equiv> concat (map (matching_rules dp (index_context ctx) surface now) (profiles st))"

abbreviation all_doubts ::
    "(jsstr \<Rightarrow> int option) \<Rightarrow> acc_context \<Rightarrow> jsstr \<Rightarrow> int \<Rightarrow> scan_state \<Rightarrow> acc_diagnostic list" where
  "all_doubts dp ctx surface now st \<equiv>
     concat (map (\<lambda>p. profile_doubts ctx surface p @ rule_doubts dp (index_context ctx) surface now p) (profiles st))"

lemma judge_simps:
  "outcome (judge dp ctx surface now st) =
     (if list_ex (\<lambda>(_, r). disposition r = js ''prohibited'') (all_matching dp ctx surface now st) then ProhibitedOutcome
      else if uncertain st \<or> all_doubts dp ctx surface now st \<noteq> [] then UnknownOutcome
      else if as_requirements (judge dp ctx surface now st) \<noteq> []
      then requirementsOutcome (as_requirements (judge dp ctx surface now st)) else AllowedOutcome)"
  "matchingRuleIds (judge dp ctx surface now st) = map (rule_id \<circ> snd) (all_matching dp ctx surface now st)"
  "as_requirements (judge dp ctx surface now st) = concat (map (requirements \<circ> snd) (all_matching dp ctx surface now st))"
  by (simp_all only: judge_def Let_def acc_assessment.simps)

lemma guarded_outcome: "(if a then x else if b then y else z) \<notin> {x, y} \<Longrightarrow> \<not> a \<and> \<not> b"
  by (simp split: if_splits)

lemma judge_permissive:
  assumes "outcome (judge dp ctx surface now st) \<notin> {ProhibitedOutcome, UnknownOutcome}" "p \<in> set (profiles st)"
  defines "A \<equiv> judge dp ctx surface now st"
  shows "\<not> uncertain st" "coverage p \<noteq> js ''partial''" "completeScopeCovers p ctx surface"
    and "r \<in> set (rules p) \<Longrightarrow> ruleMatches dp p r (index_context ctx) surface now \<noteq> MatchUnknown"
    and "r \<in> set (rules p) \<Longrightarrow> ruleMatches dp p r (index_context ctx) surface now = MatchTrue \<Longrightarrow>
      disposition r \<noteq> js ''prohibited'' \<and> rule_id r \<in> set (matchingRuleIds A) \<and> set (requirements r) \<subseteq> set (as_requirements A)"
proof -
  let ?ix = "index_context ctx" and ?ms = "all_matching dp ctx surface now st"
  have o: "\<not> list_ex (\<lambda>(_, r). disposition r = js ''prohibited'') ?ms" "\<not> uncertain st" "all_doubts dp ctx surface now st = []"
    using guarded_outcome [OF assms(1) [unfolded judge_simps(1)]] by blast+
  show "\<not> uncertain st" by (rule o(2))
  have d: "profile_doubts ctx surface p = []" "rule_doubts dp ?ix surface now p = []"
    using o(3) assms(2) by simp_all
  then show "coverage p \<noteq> js ''partial''" "completeScopeCovers p ctx surface"
    by (auto simp: profile_doubts_def split: if_splits)
  show "ruleMatches dp p r ?ix surface now \<noteq> MatchUnknown" if "r \<in> set (rules p)"
    using d(2) that by (auto simp: rule_doubts_def filter_empty_conv)
  show "disposition r \<noteq> js ''prohibited'' \<and> rule_id r \<in> set (matchingRuleIds A) \<and> set (requirements r) \<subseteq> set (as_requirements A)"
    if "r \<in> set (rules p)" "ruleMatches dp p r ?ix surface now = MatchTrue"
  proof -
    have m: "(profile_id p, r) \<in> set ?ms" using that assms(2) by (force simp: matching_rules_def)
    then have "disposition r \<noteq> js ''prohibited''" using o(1) by (auto simp: list_ex_iff)
    moreover have "rule_id r \<in> set (matchingRuleIds A)"
      unfolding A_def judge_simps(2) set_map using imageI [OF m, of "rule_id \<circ> snd"] by (simp only: comp_apply snd_conv)
    moreover have "requirements r \<in> set (map (requirements \<circ> snd) ?ms)"
      unfolding set_map using imageI [OF m, of "requirements \<circ> snd"] by (simp only: comp_apply snd_conv)
    then have "set (requirements r) \<subseteq> set (as_requirements A)"
      unfolding A_def judge_simps(3) set_concat by (rule UN_upper)
    ultimately show ?thesis by blast
  qed
qed

section \<open>Properties\<close>

text \<open>
  C31: the match of a rule is the best answer the stated facts allow.  It is yes only if the rule applies
  whatever the open facts are, no only if it never applies, and for a rule whose dates parse, whose region groups
  resolve and whose jurisdictions are not empty, it is unknown exactly if the open facts decide.
\<close>

theorem rule_match_exact:
  assumes "ruleMatches dp p r (index_context ctx) surface now = m"
  shows "(m = MatchTrue \<longrightarrow> (\<forall>F. possible dp p ctx F \<longrightarrow> applies F r surface now))
    \<and> (m = MatchFalse \<longrightarrow> (\<forall>F. possible dp p ctx F \<longrightarrow> \<not> applies F r surface now))
    \<and> (m = MatchUnknown \<and> well_stated dp p r \<longrightarrow>
         (\<exists>F. possible dp p ctx F \<and> applies F r surface now) \<and> (\<exists>F. possible dp p ctx F \<and> \<not> applies F r surface now))"
proof (intro conjI impI allI)
  show "applies F r surface now" if "m = MatchTrue" "possible dp p ctx F" for F
    using rule_match_sound(1) [OF that(2)] assms that(1) by blast
  show "\<not> applies F r surface now" if "m = MatchFalse" "possible dp p ctx F" for F
    using rule_match_sound(2) [OF that(2)] assms that(1) by blast
  assume "m = MatchUnknown \<and> well_stated dp p r"
  then have u: "well_stated dp p r" "ruleMatches dp p r (index_context ctx) surface now = MatchUnknown" using assms by simp_all
  show "\<exists>F. possible dp p ctx F \<and> applies F r surface now" using unknown_may_apply [OF u] most_possible by blast
  show "\<exists>F. possible dp p ctx F \<and> \<not> applies F r surface now" using unknown_may_not_apply [OF u] least_possible by blast
qed

text \<open>
  C19: a permissive verdict vouches for every given profile.  If the evaluator answers anything but prohibited or
  unknown, each given profile was resolved and valid, its complete scope covers the context, and each of
  its rules that could apply under any completion of the stated facts is not a prohibition, is listed as matching, and
  its requirements are listed.  Profiles of one id, version and digest are taken to be equal.
\<close>

theorem permissive_verdict_sound:
  fixes E h inp
  defines "A \<equiv> assessAcceptancePolicy E h inp" and "ctx \<equiv> read_context h (acceptanceContext inp)"
  assumes "outcome A \<notin> {ProhibitedOutcome, UnknownOutcome}"
    and "in_profiles inp = Some vs" "v \<in> set vs"
    and "\<And>w. w \<in> set vs \<Longrightarrow> profile_key (entry_profile h w) = profile_key (entry_profile h v) \<Longrightarrow> entry_profile h w = entry_profile h v"
  shows "\<exists>now. evaluated_ms E (evaluatedAt inp) = Some now
    \<and> get_prop h v ''resolution'' = NStr (js ''resolved'')
    \<and> coverage (entry_profile h v) \<noteq> js ''partial'' \<and> completeScopeCovers (entry_profile h v) ctx (in_appliesTo inp)
    \<and> (\<forall>r \<in> set (rules (entry_profile h v)). \<forall>F.
         possible (date_parse E) (entry_profile h v) ctx F \<and> applies F r (in_appliesTo inp) now \<longrightarrow>
         disposition r \<noteq> js ''prohibited'' \<and> rule_id r \<in> set (matchingRuleIds A)
         \<and> set (requirements r) \<subseteq> set (as_requirements A))"
proof -
  have "outcome (assessAcceptancePolicy E h inp) \<noteq> UnknownOutcome" using assms(3) by (simp add: A_def)
  then obtain ws pv now st where ca: "context_accepted E h inp pv now" and w: "in_profiles inp = Some ws" "ws \<noteq> []"
      "length ws \<le> MAX_ASSESSMENT_PROFILES" "scan_profiles pv h ws init_scan = Inr st"
    by (rule assessed)
  have a: "in_profiles inp = Some ws" "evaluated_ms E (evaluatedAt inp) = Some now" "scan_profiles pv h ws init_scan = Inr st"
      "A = judge (date_parse E) ctx (in_appliesTo inp) now st"
    using assess_last_stage [OF ca w] ca w by (simp_all add: A_def ctx_def context_accepted_def)
  have ws: "ws = vs" using a(1) assms(4) by simp
  have inv: "scan_inv pv h (set vs) st" using scan_profiles_inv [OF init_scan_inv a(3)] ws by simp
  have perm: "outcome (judge (date_parse E) ctx (in_appliesTo inp) now st) \<notin> {ProhibitedOutcome, UnknownOutcome}"
    using assms(3) a(4) by simp
  have u: "\<not> uncertain st"
    using guarded_outcome [OF perm [unfolded judge_simps(1)]] by blast
  note i = inv [unfolded scan_inv_def]
  have ok: "entry_ok pv h v" and seen: "profile_key (entry_profile h v) \<in> set (seenIdentities st)"
    using i [THEN conjunct2, THEN conjunct2, THEN conjunct2, rule_format, OF u assms(5)] by (rule conjunct1, rule conjunct2)
  from subsetD [OF i [THEN conjunct1] seen] obtain q where q: "q \<in> set (profiles st)" "profile_key q = profile_key (entry_profile h v)"
    by (metis imageE)
  from subsetD [OF i [THEN conjunct2, THEN conjunct2, THEN conjunct1] q(1)] obtain w where w: "w \<in> set vs" "q = entry_profile h w"
    by (metis imageE)
  then have e: "q = entry_profile h v" using assms(6) q(2) by simp
  note j = judge_permissive [OF perm q(1), folded a(4)]
  have rule: "disposition r \<noteq> js ''prohibited'' \<and> rule_id r \<in> set (matchingRuleIds A) \<and> set (requirements r) \<subseteq> set (as_requirements A)"
    if "r \<in> set (rules q)" "possible (date_parse E) q ctx F" "applies F r (in_appliesTo inp) now" for r F
  proof -
    have "ruleMatches (date_parse E) q r (index_context ctx) (in_appliesTo inp) now \<noteq> MatchFalse"
      using rule_match_sound(2) [OF that(2)] that(3) by blast
    then have "ruleMatches (date_parse E) q r (index_context ctx) (in_appliesTo inp) now = MatchTrue"
      using j(4) [OF that(1)] by (cases "ruleMatches (date_parse E) q r (index_context ctx) (in_appliesTo inp) now") simp_all
    then show ?thesis by (rule j(5) [OF that(1)])
  qed
  note ok = ok [unfolded entry_ok_def]
  show ?thesis
    by (intro exI [of _ now] conjI ballI allI impI a(2) ok [THEN conjunct1] j(2,3) [unfolded e]) (use rule in \<open>unfold e, blast+\<close>)
qed

text \<open>How far a verdict is from allowed.\<close>

fun strictness :: "acc_outcome \<Rightarrow> nat" where
  "strictness AllowedOutcome = 0"
| "strictness RequiresDisclosure = 1"
| "strictness RequiresSetup = 2"
| "strictness RequiresReview = 3"
| "strictness UnknownOutcome = 4"
| "strictness ProhibitedOutcome = 4"

lemma strictness_bound: "strictness x \<le> 4"
  by (cases x) simp_all

lemma requirements_strictness:
  assumes "\<forall>q \<in> set qs. req_kind q \<in> set (REVIEW_REQUIREMENTS @ SETUP_REQUIREMENTS @ DISCLOSURE_REQUIREMENTS)" "qs \<noteq> []"
  shows "strictness (requirementsOutcome qs) \<le> strictness (requirementsOutcome (qs @ qs'))"
proof -
  let ?R = "\<exists>q \<in> set qs. req_kind q \<in> set REVIEW_REQUIREMENTS" and ?S = "\<exists>q \<in> set qs. req_kind q \<in> set SETUP_REQUIREMENTS"
  have d: "\<not> ?R \<Longrightarrow> \<not> ?S \<Longrightarrow> \<forall>q \<in> set qs. req_kind q \<in> set DISCLOSURE_REQUIREMENTS" using assms(1) by auto
  have l: "requirementsOutcome qs = (if ?R then RequiresReview else if ?S then RequiresSetup else RequiresDisclosure)"
    using d by (auto simp: requirementsOutcome_def list_ex_iff list_all_iff Let_def)
  have r: "requirementsOutcome (qs @ qs') \<in> (if ?R then {RequiresReview} else if ?S then {RequiresReview, RequiresSetup}
      else {RequiresReview, RequiresSetup, RequiresDisclosure})"
    by (auto simp: requirementsOutcome_def list_ex_iff Let_def)
  show ?thesis using r unfolding l by (auto split: if_splits)
qed


section \<open>A small policy\<close>

text \<open>A complete profile whose one rule asks for a disclosure about gambling creatives, and a context.\<close>

definition demo_rule :: js_object where
  "demo_rule = PropObj [(js ''rule_id'', NStr (js ''r'')), (js ''subject_category'', NStr (js ''gambling'')),
     (js ''applies_to'', NRef 5), (js ''disposition'', NStr (js ''conditional'')), (js ''requirements'', NRef 7)]"

definition demo_objects :: "js_object list" where
  "demo_objects =
    [PropObj [(js ''profileId'', NStr (js ''p'')), (js ''resolution'', NStr (js ''resolved'')), (js ''profile'', NRef 1)],
     PropObj [(js ''profile_id'', NStr (js ''p'')), (js ''version'', NStr (js ''1'')), (js ''content_digest'', NStr (js ''d'')),
       (js ''coverage'', NStr (js ''complete'')), (js ''scope'', NRef 2), (js ''rules'', NRef 3)],
     PropObj [(js ''subject_categories'', NRef 4), (js ''applies_to'', NRef 5), (js ''all_jurisdictions'', NBool True)],
     ArrObj [NRef 6], ArrObj [NStr (js ''gambling'')], ArrObj [NStr (js ''creative'')], demo_rule, ArrObj [NRef 8],
     PropObj [(js ''kind'', NStr (js ''disclosure''))], PropObj [(js ''subjects'', NRef 10)], ArrObj [NRef 11],
     PropObj [(js ''subject_category'', NStr (js ''gambling''))]]"

definition demo_heap :: js_heap where
  "demo_heap r = (if r < length demo_objects then demo_objects ! r else PropObj [])"

definition demo_acc_env :: acc_env where
  "demo_acc_env = \<lparr>date_parse = (\<lambda>_. None), current_time = 0, validators = Some (\<lambda>_. True, \<lambda>_. True)\<rparr>"

definition demo_input :: acc_input where
  "demo_input = \<lparr>in_profiles = Some [NRef 0], acceptanceContext = NRef 9, in_appliesTo = js ''creative'', evaluatedAt = EvaluatedNow\<rparr>"

lemma demo_heap_eval [simp]:
  "demo_heap 0 = demo_objects ! 0" "demo_heap 1 = demo_objects ! 1" "demo_heap (Suc 0) = demo_objects ! 1"
  "demo_heap 2 = demo_objects ! 2" "demo_heap 3 = demo_objects ! 3" "demo_heap 4 = demo_objects ! 4"
  "demo_heap 5 = demo_objects ! 5" "demo_heap 6 = demo_objects ! 6" "demo_heap 7 = demo_objects ! 7"
  "demo_heap 8 = demo_objects ! 8" "demo_heap 9 = demo_objects ! 9" "demo_heap 10 = demo_objects ! 10"
  "demo_heap 11 = demo_objects ! 11"
  by (simp_all add: demo_heap_def demo_objects_def)

lemmas complexity_eval = consumeAssessmentComplexity_def complexity_loop.simps(3) Let_def
  MAX_ASSESSMENT_JSON_NODES_def MAX_ASSESSMENT_JSON_DEPTH_def MAX_ASSESSMENT_STRING_CODE_UNITS_def demo_objects_def demo_rule_def

lemma demo_context_size: "fst (consumeAssessmentComplexity demo_heap (NRef 9) (0, 0)) = ValidSize"
  by (simp add: complexity_eval js_def)

lemma demo_profile_size: "fst (consumeAssessmentComplexity demo_heap (NRef 1) (0, 0)) = ValidSize"
  by (simp add: complexity_eval js_def)

definition demo_profile :: acc_profile where
  "demo_profile = \<lparr>profile_id = js ''p'', pf_version = js ''1'', content_digest = js ''d'', coverage = js ''complete'',
     pf_scope = Some \<lparr>sc_categories = [js ''gambling''], sc_applies_to = [js ''creative''], sc_jurisdictions = [], sc_groups = [],
       all_jurisdictions = True\<rparr>,
     region_aliases = [],
     rules = [\<lparr>rule_id = js ''r'', rule_category = js ''gambling'', rule_facets = [], rule_roles = [], rule_jurisdictions = [],
       rule_groups = [], rule_applies_to = [js ''creative''], disposition = js ''conditional'',
       requirements = [\<lparr>req_kind = js ''disclosure'', req_node = NRef 8\<rparr>], policy_ids = [], effective_at = None, expires_at = None\<rparr>]\<rparr>"

definition demo_context :: acc_context where
  "demo_context = \<lparr>subjects = [\<lparr>subject_category = js ''gambling'', subject_facets = []\<rparr>], advertiser_roles = [],
     delivery_jurisdictions = []\<rparr>"

lemmas heap_eval = demo_objects_def demo_rule_def get_prop_def array_items_def items_or_empty_def read_texts_def
  node_text_option_def

lemma demo_read: "read_profile demo_heap (NRef 1) = demo_profile" "read_context demo_heap (NRef 9) = demo_context"
  by (simp_all add: heap_eval read_profile_def read_context_def read_rule_def read_scope_def read_aliases_def demo_profile_def
      demo_context_def js_def)

lemma demo_scan:
  obtains st where "scan_profiles (\<lambda>_. True) demo_heap [NRef 0] init_scan = Inr st" "profiles st = [demo_profile]"
    "uncertain st = False"
proof -
  obtain b where b: "consumeAssessmentComplexity demo_heap (NRef 1) (0, 0) = (ValidSize, b)"
    using demo_profile_size by (cases "consumeAssessmentComplexity demo_heap (NRef 1) (0, 0)") auto
  let ?st1 = "init_scan\<lparr>measuredObjects := [1], budget_used := b\<rparr>"
  have p: "get_prop demo_heap (NRef 0) ''profileId'' = NStr (js ''p'')"
      "get_prop demo_heap (NRef 0) ''resolution'' = NStr (js ''resolved'')" "get_prop demo_heap (NRef 0) ''profile'' = NRef 1"
    by (simp_all add: heap_eval js_def)
  have m: "measure_profile demo_heap (js ''p'') (NRef 1) init_scan = Inr (?st1, True)"
    by (simp add: measure_profile_def init_scan_def b [simplified])
  have "\<exists>st2. count_rules demo_heap (js ''p'') (NRef 1) ?st1 = Inr st2"
    by (simp add: count_rules_def candidate_identity_def heap_eval js_def MAX_ASSESSMENT_RULES_def init_scan_def)
  then obtain st2 where c: "count_rules demo_heap (js ''p'') (NRef 1) ?st1 = Inr st2" by blast
  have fr: "seenIdentities st2 = []" "identities st2 = []" "profiles st2 = []" "uncertain st2 = False"
    using count_frame [OF c] by (simp_all add: init_scan_def)
  have v: "get_prop demo_heap (NRef 1) ''profile_id'' = NStr (js ''p'')" by (simp add: heap_eval js_def)
  have al: "profileAliasesResolve demo_profile" by (simp add: profileAliasesResolve_def demo_profile_def)
  have a: "profiles (accept_profile (\<lambda>_. True) demo_heap (js ''p'') (NRef 1) st2) = [demo_profile]"
      "uncertain (accept_profile (\<lambda>_. True) demo_heap (js ''p'') (NRef 1) st2) = False"
    unfolding accept_profile_def Let_def demo_read by (simp_all add: fr v [simplified] al)
  have "scan_profiles (\<lambda>_. True) demo_heap [NRef 0] init_scan = Inr (accept_profile (\<lambda>_. True) demo_heap (js ''p'') (NRef 1) st2)"
    by (simp only: scan_profiles.simps scan_profile_def p js_node.case Let_def simp_thms if_False m c bindE_simps prod.case)
  then show thesis using that a by blast
qed

lemma demo_verdict:
  "outcome (assessAcceptancePolicy demo_acc_env demo_heap demo_input) = RequiresDisclosure"
  "as_requirements (assessAcceptancePolicy demo_acc_env demo_heap demo_input) = [\<lparr>req_kind = js ''disclosure'', req_node = NRef 8\<rparr>]"
proof -
  obtain st where st: "scan_profiles (\<lambda>_. True) demo_heap [NRef 0] init_scan = Inr st" "profiles st = [demo_profile]" "uncertain st = False"
    by (rule demo_scan)
  have "context_accepted demo_acc_env demo_heap demo_input (\<lambda>_. True) 0"
    using demo_context_size
    by (simp add: context_accepted_def demo_input_def demo_acc_env_def evaluated_ms_def exceedsContextValueLimit_def count_items_def
        heap_eval js_def SURFACES_def MAX_ASSESSMENT_CONTEXT_VALUES_def)
  then have a: "assessAcceptancePolicy demo_acc_env demo_heap demo_input = judge (date_parse demo_acc_env) demo_context (js ''creative'') 0 st"
    using assess_last_stage [of demo_acc_env demo_heap demo_input "\<lambda>_. True" 0 "[NRef 0]" st] st(1)
    by (simp add: demo_input_def MAX_ASSESSMENT_PROFILES_def demo_read)
  have "ruleMatches (date_parse demo_acc_env) demo_profile (hd (rules demo_profile)) (index_context demo_context) (js ''creative'') 0 = MatchTrue"
    by (simp add: ruleMatches_def starts_check_def expires_check_def subject_check_def facet_check_def role_check_def
        jurisdiction_check_def demo_profile_def index_context_def demo_context_def index_subject_def)
  then have m: "matching_rules (date_parse demo_acc_env) (index_context demo_context) (js ''creative'') 0 demo_profile
        = [(js ''p'', hd (rules demo_profile))]"
      "rule_doubts (date_parse demo_acc_env) (index_context demo_context) (js ''creative'') 0 demo_profile = []"
    by (simp_all add: matching_rules_def rule_doubts_def demo_profile_def)
  have r: "requirements (hd (rules demo_profile)) = [\<lparr>req_kind = js ''disclosure'', req_node = NRef 8\<rparr>]"
      "disposition (hd (rules demo_profile)) = js ''conditional''"
    by (simp_all add: demo_profile_def)
  have k: "js ''conditional'' \<noteq> js ''prohibited''" by (simp add: js_def)
  have "requirementsOutcome [\<lparr>req_kind = js ''disclosure'', req_node = NRef 8\<rparr>] = RequiresDisclosure"
    by (simp add: js_def requirementsOutcome_def REVIEW_REQUIREMENTS_def SETUP_REQUIREMENTS_def DISCLOSURE_REQUIREMENTS_def)
  note k = k this
  have d: "profile_doubts demo_context (js ''creative'') demo_profile = []"
    by (simp add: profile_doubts_def completeScopeCovers_def demo_profile_def demo_context_def js_def)
  show "as_requirements (assessAcceptancePolicy demo_acc_env demo_heap demo_input) = [\<lparr>req_kind = js ''disclosure'', req_node = NRef 8\<rparr>]"
    unfolding a judge_simps(3) st(2) by (simp add: m r)
  show "outcome (assessAcceptancePolicy demo_acc_env demo_heap demo_input) = RequiresDisclosure"
    unfolding a judge_simps(1,3) st(2) by (simp add: m d r st(3) k)
qed

section \<open>Witnesses\<close>

text \<open>A completion of the demonstration context, to which the rule applies.\<close>

definition demo_facts :: acc_facts where
  "demo_facts = \<lparr>f_subjects = [js ''gambling'' \<mapsto> {}], f_roles = {}, f_jurisdictions = {}, f_instant = (\<lambda>_. 0), f_region = (\<lambda>_. {})\<rparr>"

lemma demo_facts_possible: "possible (\<lambda>_. None) demo_profile demo_context demo_facts"
  by (auto simp: possible_def demo_facts_def demo_profile_def demo_context_def declared_facets_def open_facets_def)

theorem rule_match_exact_witness: "applies demo_facts (hd (rules demo_profile)) (js ''creative'') 0"
proof -
  have "ruleMatches (\<lambda>_. None) demo_profile (hd (rules demo_profile)) (index_context demo_context) (js ''creative'') 0 = MatchTrue"
    by (simp add: ruleMatches_def starts_check_def expires_check_def subject_check_def facet_check_def role_check_def
        jurisdiction_check_def demo_profile_def index_context_def demo_context_def index_subject_def)
  from rule_match_exact [OF this] demo_facts_possible show ?thesis by blast
qed

theorem permissive_verdict_sound_witness:
  "completeScopeCovers (entry_profile demo_heap (NRef 0)) (read_context demo_heap (NRef 9)) (js ''creative'')"
proof -
  have "outcome (assessAcceptancePolicy demo_acc_env demo_heap demo_input) \<notin> {ProhibitedOutcome, UnknownOutcome}"
    by (simp add: demo_verdict)
  from permissive_verdict_sound [OF this, of "[NRef 0]" "NRef 0"] show ?thesis by (auto simp: demo_input_def)
qed


end
