(* ===== verification/FeedValues.thy ===== *)
theory FeedValues
  imports Jcs JsText
begin

text \<open>
  What the wholesale-feed components use of JavaScript values: member reads, truthiness, deep equality as
  \<open>isDeepStrictEqual\<close> of \<open>node:util\<close> decides it on JSON data, the spread that sets one member, and a
  \<open>Map\<close> in insertion order.  What JavaScript says of numbers is the record \<open>num_facts\<close>.
\<close>

section \<open>Reading values\<close>

lemma js_Nil_iff [simp]: "js s = [] \<longleftrightarrow> s = []"
  by (simp add: js_def)

record 'n num_facts =
  number_truthy :: "'n \<Rightarrow> bool"
  positive_integer :: "'n \<Rightarrow> bool"

fun read_member :: "'n jsval \<Rightarrow> string \<Rightarrow> 'n jsval" where
  "read_member (JObj fs) k = (case map_of fs (js k) of None \<Rightarrow> JUndefined | Some v \<Rightarrow> v)"
| "read_member _ k = JUndefined"

fun text_value :: "'n jsval \<Rightarrow> jsstr option" where
  "text_value (JStr s) = Some s"
| "text_value _ = None"

fun truthy :: "'n num_facts \<Rightarrow> 'n jsval \<Rightarrow> bool" where
  "truthy N JNull = False"
| "truthy N JUndefined = False"
| "truthy N (JBool b) = b"
| "truthy N (JStr s) = (s \<noteq> [])"
| "truthy N (JNum n) = number_truthy N n"
| "truthy N _ = True"

text \<open>A text that is present and not empty.\<close>

definition some_text :: "jsstr option \<Rightarrow> bool" where
  "some_text s \<longleftrightarrow> s \<noteq> None \<and> s \<noteq> Some []"

definition is_record :: "'n jsval \<Rightarrow> bool" where
  "is_record v = (case v of JObj _ \<Rightarrow> True | _ \<Rightarrow> False)"

text \<open>\<open>{...v, k: x}\<close>: a member keeps its place, a new one is appended.\<close>

fun with_member :: "'n jsval \<Rightarrow> string \<Rightarrow> 'n jsval \<Rightarrow> 'n jsval" where
  "with_member (JObj fs) k x = JObj (AList.update (js k) x fs)"
| "with_member _ k x = JObj [(js k, x)]"

definition begins :: "string \<Rightarrow> jsstr \<Rightarrow> bool" where
  "begins p s = starts_with (js p) s"

definition ends :: "string \<Rightarrow> jsstr \<Rightarrow> bool" where
  "ends p s = starts_with (rev (js p)) (rev s)"

fun contains_text :: "jsstr \<Rightarrow> jsstr \<Rightarrow> bool" where
  "contains_text p [] = (p = [])"
| "contains_text p (x # xs) = (starts_with p (x # xs) \<or> contains_text p xs)"

section \<open>Deep equality\<close>

text \<open>Members are compared by name whatever their order; functions and symbols by what the model keeps of them.\<close>

function (sequential) deep_equal :: "'n jsval \<Rightarrow> 'n jsval \<Rightarrow> bool" where
  "deep_equal (JArr xs) (JArr ys) = (length xs = length ys \<and> list_all (\<lambda>(x, y). deep_equal x y) (zip xs ys))"
| "deep_equal (JObj fs) (JObj gs) =
     (length fs = length gs
      \<and> list_all (\<lambda>(k, v). case map_of gs k of None \<Rightarrow> False | Some w \<Rightarrow> deep_equal v w) fs)"
| "deep_equal v w = (v = w)"
  by pat_completeness auto
termination
proof (relation "measure (size \<circ> fst)", goal_cases)
  case (2 xs ys z x y)
  then have "x \<in> set xs" by (auto dest: set_zip_leftD)
  then have "size x < Suc (size_list size xs)" using size_list_estimation' [of x xs "size x" size] by simp
  then show ?case using 2 by auto
next
  case (3 fs gs z k v w)
  then have "z \<in> set fs" "z = (k, v)" by auto
  then have "size v < Suc (size_list (size_prod (\<lambda>_. 0) size) fs)"
    using size_list_estimation' [of z fs "size v" "size_prod (\<lambda>_. 0) size"] by simp
  then show ?case by simp
qed simp

text \<open>Objects of JavaScript have distinct member names.\<close>

fun proper_value :: "'n jsval \<Rightarrow> bool" where
  "proper_value (JArr xs) = list_all proper_value xs"
| "proper_value (JObj fs) = (distinct (map fst fs) \<and> list_all (\<lambda>(k, v). proper_value v) fs)"
| "proper_value _ = True"

lemma deep_equal_refl: "proper_value v \<Longrightarrow> deep_equal v v"
proof (induction v)
  case (JArr xs)
  then show ?case by (auto simp: list_all_iff set_zip)
next
  case (JObj fs)
  then have d: "distinct (map fst fs)" by simp
  show ?case
    using JObj by (auto simp: list_all_iff d map_of_is_SomeI split_beta)
qed simp_all

section \<open>Maps in insertion order\<close>

lemma update_keys: "map fst (AList.update k v m) = (if k \<in> fst ` set m then map fst m else map fst m @ [k])"
  by (induction m) auto

lemma with_member_read:
  "is_record v \<Longrightarrow> read_member (with_member v k x) k' = (if k' = k then x else read_member v k')"
  by (cases v) (auto simp: is_record_def update_conv')

end
