(* ===== verification/FeedWebhook.thy ===== *)
theory FeedWebhook
  imports FeedValues
begin

text \<open>
  Reading a wholesale-feed webhook (\<open>src/lib/wholesale-feed-sync/webhook-notification.ts\<close>): every field the mirror
  relies on is required and the two envelopes must agree.  \<open>JSON.parse\<close> and the UTF-8 decoder are arguments.
\<close>

section \<open>Errors and required fields\<close>

datatype notification_code =
    BodyMalformed | FieldMissing | FieldInvalid | NotificationTypeMismatch | EntityTypeMismatch | CacheScopeMismatch
  | BulkChangeInvalid

record notification_error =
  ne_code :: notification_code
  ne_field :: string

abbreviation refuse :: "notification_code \<Rightarrow> string \<Rightarrow> notification_error + 'a" where
  "refuse c f \<equiv> Inl \<lparr>ne_code = c, ne_field = f\<rparr>"

text \<open>The member a dotted field name stands for: what follows the last dot.\<close>

definition field_key :: "string \<Rightarrow> string" where
  "field_key f = rev (takeWhile (\<lambda>c. c \<noteq> CHR ''.'') (rev f))"

definition readRecord :: "'n jsval \<Rightarrow> string \<Rightarrow> notification_error + 'n jsval" where
  "readRecord v field =
     (if is_record v then Inr v
      else refuse (if field = ''$'' then BodyMalformed else FieldInvalid) field)"

definition readRequiredRecord :: "'n jsval \<Rightarrow> string \<Rightarrow> notification_error + 'n jsval" where
  "readRequiredRecord obj field =
     (let v = read_member obj (field_key field) in
      if v = JUndefined then refuse FieldMissing field else readRecord v field)"

definition readRequiredString :: "'n jsval \<Rightarrow> string \<Rightarrow> notification_error + jsstr" where
  "readRequiredString obj field =
     (let v = read_member obj (field_key field) in
      case text_value v of
        Some s \<Rightarrow> if s \<noteq> [] then Inr s else refuse FieldInvalid field
      | None \<Rightarrow> refuse (if v = JUndefined then FieldMissing else FieldInvalid) field)"

definition readRequiredNonEmptyArray :: "'n jsval \<Rightarrow> string \<Rightarrow> notification_error + 'n jsval list" where
  "readRequiredNonEmptyArray obj field =
     (case read_member obj (field_key field) of
        JArr xs \<Rightarrow> if xs \<noteq> [] then Inr xs else refuse FieldInvalid field
      | JUndefined \<Rightarrow> refuse FieldMissing field
      | _ \<Rightarrow> refuse FieldInvalid field)"

definition readRequiredPositiveInteger :: "'n num_facts \<Rightarrow> 'n jsval \<Rightarrow> string \<Rightarrow> notification_error + 'n" where
  "readRequiredPositiveInteger N obj field =
     (case read_member obj (field_key field) of
        JNum n \<Rightarrow> if positive_integer N n then Inr n else refuse FieldInvalid field
      | JUndefined \<Rightarrow> refuse FieldMissing field
      | _ \<Rightarrow> refuse FieldInvalid field)"

definition readOptionalString :: "'n jsval \<Rightarrow> string \<Rightarrow> notification_error + jsstr option" where
  "readOptionalString obj field =
     (let v = read_member obj field in
      if v = JUndefined then Inr None
      else case text_value v of
        Some s \<Rightarrow> if s \<noteq> [] then Inr (Some s) else refuse FieldInvalid field
      | None \<Rightarrow> refuse FieldInvalid field)"

section \<open>The vocabulary of a notification\<close>

datatype feed_entity = ProductEntity | SignalEntity | FeedEntity
datatype cache_scope = PublicScope | AccountScope

datatype feed_action = Created | Updated | Priced | Removed
datatype notification_type = EntityEvent bool feed_action | BulkChange

text \<open>An entity event is one about products (true) or signals (false).\<close>

definition notification_types :: "(string \<times> notification_type) list" where
  "notification_types =
     [(''product.created'', EntityEvent True Created), (''product.updated'', EntityEvent True Updated),
      (''product.priced'', EntityEvent True Priced), (''product.removed'', EntityEvent True Removed),
      (''signal.created'', EntityEvent False Created), (''signal.updated'', EntityEvent False Updated),
      (''signal.priced'', EntityEvent False Priced), (''signal.removed'', EntityEvent False Removed),
      (''wholesale_feed.bulk_change'', BulkChange)]"

definition notification_type_of :: "jsstr \<Rightarrow> notification_type option" where
  "notification_type_of s = map_of (map (\<lambda>(k, t). (js k, t)) notification_types) s"

definition readNotificationType :: "jsstr \<Rightarrow> string \<Rightarrow> notification_error + notification_type" where
  "readNotificationType s field = (case notification_type_of s of Some t \<Rightarrow> Inr t | None \<Rightarrow> refuse FieldInvalid field)"

definition cache_scope_of :: "jsstr \<Rightarrow> cache_scope option" where
  "cache_scope_of s = (if s = js ''public'' then Some PublicScope else if s = js ''account'' then Some AccountScope else None)"

definition readCacheScope :: "jsstr \<Rightarrow> string \<Rightarrow> notification_error + cache_scope" where
  "readCacheScope s field = (case cache_scope_of s of Some c \<Rightarrow> Inr c | None \<Rightarrow> refuse FieldInvalid field)"

definition readEntityType :: "jsstr \<Rightarrow> string \<Rightarrow> notification_error + feed_entity" where
  "readEntityType s field =
     (if s = js ''product'' then Inr ProductEntity else if s = js ''signal'' then Inr SignalEntity
      else if s = js ''feed'' then Inr FeedEntity else refuse FieldInvalid field)"

fun entity_of_type :: "notification_type \<Rightarrow> feed_entity" where
  "entity_of_type (EntityEvent p _) = (if p then ProductEntity else SignalEntity)"
| "entity_of_type BulkChange = FeedEntity"

definition assertEntityTypeMatchesNotification :: "notification_type \<Rightarrow> feed_entity \<Rightarrow> notification_error + unit" where
  "assertEntityTypeMatchesNotification t e =
     (if e \<noteq> entity_of_type t then refuse EntityTypeMismatch ''event.entity_type'' else Inr ())"

section \<open>The payload\<close>

definition assertEntityIdMatchesPayload :: "jsstr \<Rightarrow> jsstr \<Rightarrow> notification_error + unit" where
  "assertEntityIdMatchesPayload entityId payloadId =
     (if entityId = payloadId then Inr () else refuse FieldInvalid ''event.entity_id'')"

fun has_member :: "'n jsval \<Rightarrow> string \<Rightarrow> bool" where
  "has_member (JObj fs) k = (map_of fs (js k) \<noteq> None)"
| "has_member _ k = False"

definition rejectCanonicalPayloadField :: "'n jsval \<Rightarrow> string \<Rightarrow> notification_error + unit" where
  "rejectCanonicalPayloadField payload field =
     (if \<not> has_member payload field then Inr () else refuse FieldInvalid (''event.payload.'' @ field))"

definition assertLegacyProductPayloadView :: "notification_type \<Rightarrow> jsstr option \<Rightarrow> notification_error + unit" where
  "assertLegacyProductPayloadView t view =
     (let isProductEvent = (entity_of_type t = ProductEntity) in
      if isProductEvent \<and> (view = None \<or> view = Some (js ''legacy'')) then Inr ()
      else if \<not> isProductEvent \<and> view = None then Inr ()
      else refuse FieldInvalid ''product_payload_view'')"

definition assertLegacyWholesaleFeedRepresentation :: "'n jsval \<Rightarrow> notification_error + unit" where
  "assertLegacyWholesaleFeedRepresentation webhook =
     (case Option.bind (text_value (read_member webhook ''notification_type'')) notification_type_of of
        None \<Rightarrow> Inr ()
      | Some t \<Rightarrow>
          bindE (readOptionalString webhook ''product_payload_view'') (\<lambda>view.
          bindE (assertLegacyProductPayloadView t view) (\<lambda>_.
            let payload = read_member (read_member webhook ''event'') ''payload'' in
            if entity_of_type t \<noteq> ProductEntity then Inr ()
            else if \<not> is_record (read_member webhook ''event'') \<or> \<not> is_record payload then Inr ()
            else (case t of
                EntityEvent _ Created \<Rightarrow> rejectCanonicalPayloadField payload ''canonical_product''
              | EntityEvent _ Updated \<Rightarrow> rejectCanonicalPayloadField payload ''canonical_product''
              | EntityEvent _ Priced \<Rightarrow> rejectCanonicalPayloadField payload ''canonical_pricing_options''
              | _ \<Rightarrow> Inr ()))))"

definition readRequiredPayloadScope :: "'n jsval \<Rightarrow> notification_error + cache_scope" where
  "readRequiredPayloadScope payload =
     bindE (readRequiredRecord payload ''event.payload.applies_to'') (\<lambda>r.
     bindE (readRequiredString r ''event.payload.applies_to.scope'') (\<lambda>s.
       readCacheScope s ''event.payload.applies_to.scope''))"

definition readBulkChangeAffectedEntityType :: "'n jsval \<Rightarrow> notification_error + feed_entity" where
  "readBulkChangeAffectedEntityType payload =
     (let s = text_value (read_member payload ''affected_entity_type'') in
      if s = Some (js ''product'') then Inr ProductEntity
      else if s = Some (js ''signal'') then Inr SignalEntity
      else refuse BulkChangeInvalid ''event.payload.affected_entity_type'')"

definition id_member :: "bool \<Rightarrow> string" where
  "id_member isProduct = (if isProduct then ''product_id'' else ''signal_agent_segment_id'')"

definition validatePayloadForEvent ::
    "'n num_facts \<Rightarrow> notification_type \<Rightarrow> jsstr \<Rightarrow> 'n jsval \<Rightarrow> notification_error + feed_entity option" where
  "validatePayloadForEvent N t entityId payload =
     (case t of
        EntityEvent p action \<Rightarrow>
          bindE (readRequiredString payload (''event.payload.'' @ id_member p)) (\<lambda>pid.
          bindE (assertEntityIdMatchesPayload entityId pid) (\<lambda>_.
            (case action of
               Removed \<Rightarrow> Inr None
             | Priced \<Rightarrow>
                 bindE (if p then rejectCanonicalPayloadField payload ''canonical_pricing_options'' else Inr ()) (\<lambda>_.
                 bindE (readRequiredNonEmptyArray payload ''event.payload.pricing_options'') (\<lambda>_. Inr None))
             | _ \<Rightarrow>
                 bindE (if p then rejectCanonicalPayloadField payload ''canonical_product'' else Inr ()) (\<lambda>_.
                 bindE (readRequiredRecord payload (if p then ''event.payload.product'' else ''event.payload.signal''))
                   (\<lambda>_. Inr None)))))
      | BulkChange \<Rightarrow>
          bindE (readRequiredString payload ''event.payload.summary'') (\<lambda>_.
          bindE (readRequiredPositiveInteger N payload ''event.payload.affected_count'') (\<lambda>_.
          bindE (readBulkChangeAffectedEntityType payload) (\<lambda>e. Inr (Some e)))))"

section \<open>The notification\<close>

record 'n notification =
  idempotencyKey :: jsstr
  notificationId :: jsstr
  notificationType :: notification_type
  accountId :: jsstr
  subscriberId :: jsstr
  firedAt :: jsstr
  wh_feedVersion :: jsstr
  wh_previousVersion :: "jsstr option"
  wh_cacheScope :: cache_scope
  eventId :: jsstr
  eventType :: notification_type
  entityType :: feed_entity
  entityId :: jsstr
  eventCreatedAt :: jsstr
  affectedEntityType :: "feed_entity option"
  nt_event :: "'n jsval"
  nt_webhook :: "'n jsval"

datatype 'n webhook_input = TextInput jsstr | BytesInput "8 word list" | ValueInput "'n jsval"

record 'n webhook_platform =
  parse_text :: "jsstr \<Rightarrow> 'n jsval option"
  decode_bytes :: "8 word list \<Rightarrow> jsstr"
  wp_numbers :: "'n num_facts"

definition parseJson :: "'n webhook_platform \<Rightarrow> jsstr \<Rightarrow> notification_error + 'n jsval" where
  "parseJson P raw = (case parse_text P raw of Some v \<Rightarrow> Inr v | None \<Rightarrow> refuse BodyMalformed ''$'')"

definition parseInput :: "'n webhook_platform \<Rightarrow> 'n webhook_input \<Rightarrow> notification_error + 'n jsval" where
  "parseInput P input =
     (case input of
        TextInput s \<Rightarrow> parseJson P s
      | BytesInput bs \<Rightarrow> parseJson P (decode_bytes P bs)
      | ValueInput v \<Rightarrow> Inr v)"

definition parseWholesaleFeedWebhookNotification ::
    "'n webhook_platform \<Rightarrow> 'n webhook_input \<Rightarrow> notification_error + 'n notification" where
  "parseWholesaleFeedWebhookNotification P input =
     bindE (parseInput P input) (\<lambda>parsed.
     bindE (readRecord parsed ''$'') (\<lambda>webhook.
     bindE (readRecord (read_member webhook ''event'') ''event'') (\<lambda>event.
     bindE (readRequiredString webhook ''idempotency_key'') (\<lambda>key.
     bindE (readRequiredString webhook ''notification_id'') (\<lambda>nid.
     bindE (bindE (readRequiredString webhook ''notification_type'') (\<lambda>s. readNotificationType s ''notification_type'')) (\<lambda>ntype.
     bindE (readRequiredString webhook ''fired_at'') (\<lambda>fired.
     bindE (readRequiredString webhook ''subscriber_id'') (\<lambda>subscriber.
     bindE (readRequiredString webhook ''account_id'') (\<lambda>account.
     bindE (readRequiredString webhook ''wholesale_feed_version'') (\<lambda>version.
     bindE (readOptionalString webhook ''previous_wholesale_feed_version'') (\<lambda>previous.
     bindE (bindE (readRequiredString webhook ''cache_scope'') (\<lambda>s. readCacheScope s ''cache_scope'')) (\<lambda>scope.
     bindE (assertLegacyWholesaleFeedRepresentation webhook) (\<lambda>_.
     bindE (readRequiredString event ''event.event_id'') (\<lambda>eid.
     if nid \<noteq> eid then refuse FieldInvalid ''notification_id'' else
     bindE (bindE (readRequiredString event ''event.event_type'') (\<lambda>s. readNotificationType s ''event.event_type'')) (\<lambda>etype.
     if ntype \<noteq> etype then refuse NotificationTypeMismatch ''notification_type'' else
     bindE (bindE (readRequiredString event ''event.entity_type'') (\<lambda>s. readEntityType s ''event.entity_type'')) (\<lambda>entity.
     bindE (assertEntityTypeMatchesNotification ntype entity) (\<lambda>_.
     bindE (readRequiredString event ''event.entity_id'') (\<lambda>entid.
     bindE (readRequiredString event ''event.created_at'') (\<lambda>created.
     bindE (readRecord (read_member event ''payload'') ''event.payload'') (\<lambda>payload.
     bindE (readRequiredPayloadScope payload) (\<lambda>pscope.
     if pscope \<noteq> scope then refuse CacheScopeMismatch ''cache_scope'' else
     bindE (validatePayloadForEvent (wp_numbers P) ntype entid payload) (\<lambda>affected.
       Inr \<lparr>idempotencyKey = key, notificationId = nid, notificationType = ntype, accountId = account,
            subscriberId = subscriber, firedAt = fired, wh_feedVersion = version, wh_previousVersion = previous,
            wh_cacheScope = scope, eventId = eid, eventType = etype, entityType = entity, entityId = entid,
            eventCreatedAt = created, affectedEntityType = affected, nt_event = event, nt_webhook = webhook\<rparr>
     ))))))))))))))))))))))"

end
