(* ===== verification/FeedMirror.thy ===== *)
theory FeedMirror
  imports FeedWebhook
begin

text \<open>
  The mirror of a seller's wholesale feed (\<open>src/lib/wholesale-feed-sync/mirror.ts\<close>): the in-memory store, the
  refresh from the seller, the application of a webhook, and the difference of two catalogs.  The code between
  two calls of the store is one step (\<open>mirror_step\<close>), so that other jobs can run in between; what the seller
  answers, whether the job is still current and the time are the environment of the step.
\<close>

section \<open>Scopes, snapshots, changes\<close>

datatype mirror_entity = Product | Signal

record mirror_scope =
  agentUrl :: string
  accountKey :: string
  entity :: mirror_entity

fun entity_name :: "mirror_entity \<Rightarrow> string" where
  "entity_name Product = ''product''"
| "entity_name Signal = ''signal''"

fun id_name :: "mirror_entity \<Rightarrow> string" where
  "id_name Product = ''product_id''"
| "id_name Signal = ''signal_agent_segment_id''"

text \<open>The declared type of an id is a string; any other value is read as a missing id.\<close>

definition itemId :: "mirror_entity \<Rightarrow> 'n jsval \<Rightarrow> jsstr option" where
  "itemId e item = text_value (read_member item (id_name e))"

text \<open>\<open>new Map(items.map(item => [itemId(entity, item), item]))\<close>.\<close>

definition index_items :: "mirror_entity \<Rightarrow> 'n jsval list \<Rightarrow> (jsstr option \<times> 'n jsval) list" where
  "index_items e items = fold (\<lambda>it m. AList.update (itemId e it) it m) items []"

datatype 'n feed_error = RefreshFailed | SellerError "'n jsval"

record 'n feed_snapshot =
  revision :: nat
  items :: "'n jsval list"
  feedVersion :: "jsstr option"
  pricingVersion :: "jsstr option"
  cacheScope :: cache_scope
  lastSyncedAt :: "jsstr option"
  lastWebhookEventId :: "jsstr option"
  lastWebhookKey :: "jsstr option"
  snapshot_error :: "'n feed_error option"

definition empty_snapshot :: "'n feed_snapshot" where
  "empty_snapshot = \<lparr>revision = 0, items = [], feedVersion = None, pricingVersion = None, cacheScope = PublicScope,
     lastSyncedAt = None, lastWebhookEventId = None, lastWebhookKey = None, snapshot_error = None\<rparr>"

text \<open>
  A change as the jobs build it.  The version tokens are always given, an undefined one removes the stored
  token; the webhook marks are given only together with a receipt and otherwise keep the stored ones.
\<close>

record 'n feed_change =
  upserts :: "'n jsval list"
  deletes :: "jsstr option list"
  ch_feedVersion :: "jsstr option"
  ch_pricingVersion :: "jsstr option"
  ch_cacheScope :: cache_scope
  ch_lastSyncedAt :: jsstr
  ch_lastWebhookEventId :: "jsstr option"
  ch_lastWebhookKey :: "jsstr option"
  webhookReceipt :: "(jsstr \<times> jsstr) option"

section \<open>The in-memory store\<close>

record 'n mirror_state =
  feed_records :: "string \<rightharpoonup> 'n feed_snapshot"
  feed_receipts :: "string \<rightharpoonup> jsstr list"
  receiptCount :: nat

definition empty_mirror :: "'n mirror_state" where
  "empty_mirror = \<lparr>feed_records = Map.empty, feed_receipts = Map.empty, receiptCount = 0\<rparr>"

definition scope_key :: "mirror_scope \<Rightarrow> string" where
  "scope_key sc = json_string_array [agentUrl sc, accountKey sc, entity_name (entity sc)]"

definition new_mirror :: "int \<Rightarrow> js_error + 'n mirror_state" where
  "new_mirror maxWebhookReceipts =
     (if maxWebhookReceipts > 2 ^ 53 - 1 \<or> maxWebhookReceipts < 1
      then Inl (GenericErr ''maxWebhookReceipts must be a positive integer.'') else Inr empty_mirror)"

definition mirror_read :: "mirror_scope \<Rightarrow> 'n mirror_state \<Rightarrow> 'n feed_snapshot" where
  "mirror_read sc st = (case feed_records st (scope_key sc) of Some s \<Rightarrow> s | None \<Rightarrow> empty_snapshot)"

definition mirror_hasReceipt :: "mirror_scope \<Rightarrow> jsstr \<Rightarrow> 'n mirror_state \<Rightarrow> bool" where
  "mirror_hasReceipt sc key st = (case feed_receipts st (scope_key sc) of Some rs \<Rightarrow> key \<in> set rs | None \<Rightarrow> False)"

definition mirror_restore :: "mirror_scope \<Rightarrow> 'n feed_snapshot \<Rightarrow> 'n mirror_state \<Rightarrow> 'n mirror_state" where
  "mirror_restore sc s st = st\<lparr>feed_records := (feed_records st)(scope_key sc \<mapsto> s)\<rparr>"

definition changed_items :: "mirror_entity \<Rightarrow> 'n feed_change \<Rightarrow> 'n jsval list \<Rightarrow> 'n jsval list" where
  "changed_items e ch prior =
     map snd (fold (\<lambda>it m. AList.update (itemId e it) it m) (upserts ch) (fold AList.delete (deletes ch) (index_items e prior)))"

definition changed_snapshot :: "mirror_entity \<Rightarrow> 'n feed_change \<Rightarrow> 'n feed_snapshot \<Rightarrow> 'n feed_snapshot" where
  "changed_snapshot e ch prior =
     \<lparr>revision = revision prior + 1, items = changed_items e ch (items prior), feedVersion = ch_feedVersion ch,
      pricingVersion = ch_pricingVersion ch, cacheScope = ch_cacheScope ch, lastSyncedAt = Some (ch_lastSyncedAt ch),
      lastWebhookEventId = (case ch_lastWebhookEventId ch of Some x \<Rightarrow> Some x | None \<Rightarrow> lastWebhookEventId prior),
      lastWebhookKey = (case ch_lastWebhookKey ch of Some x \<Rightarrow> Some x | None \<Rightarrow> lastWebhookKey prior),
      snapshot_error = None\<rparr>"

definition add_receipt :: "nat \<Rightarrow> string \<Rightarrow> jsstr \<Rightarrow> 'n mirror_state \<Rightarrow> js_error + 'n mirror_state" where
  "add_receipt cap key k st =
     (let rs = (case feed_receipts st key of Some rs \<Rightarrow> rs | None \<Rightarrow> []) in
      if k \<in> set rs then Inr (st\<lparr>feed_receipts := (feed_receipts st)(key \<mapsto> rs)\<rparr>)
      else if receiptCount st \<ge> cap then Inl (GenericErr ''Webhook receipt capacity reached'')
      else Inr (st\<lparr>feed_receipts := (feed_receipts st)(key \<mapsto> k # rs), receiptCount := receiptCount st + 1\<rparr>))"

definition mirror_commit ::
    "nat \<Rightarrow> mirror_scope \<Rightarrow> nat \<Rightarrow> 'n feed_change \<Rightarrow> 'n mirror_state \<Rightarrow> (js_error + bool) \<times> 'n mirror_state" where
  "mirror_commit cap sc expected ch st =
     (let key = scope_key sc; prior = mirror_read sc st in
      if revision prior \<noteq> expected then (Inr False, st)
      else
        let next = changed_snapshot (entity sc) ch prior in
        case (case webhookReceipt ch of None \<Rightarrow> Inr st | Some (_, k) \<Rightarrow> add_receipt cap key k st) of
          Inl e \<Rightarrow> (Inl e, st)
        | Inr st1 \<Rightarrow> (Inr True, st1\<lparr>feed_records := (feed_records st1)(key \<mapsto> next)\<rparr>))"

definition mirror_recordError ::
    "mirror_scope \<Rightarrow> nat \<Rightarrow> 'n feed_error \<Rightarrow> 'n mirror_state \<Rightarrow> bool \<times> 'n mirror_state" where
  "mirror_recordError sc expected e st =
     (let prior = mirror_read sc st in
      if revision prior \<noteq> expected then (False, st)
      else (True, st\<lparr>feed_records := (feed_records st)(scope_key sc \<mapsto>
              prior\<lparr>revision := revision prior + 1, snapshot_error := Some e\<rparr>)\<rparr>))"

text \<open>The store interface the jobs are written against.\<close>

record ('n, 's) feed_store =
  fs_read :: "mirror_scope \<Rightarrow> 's \<Rightarrow> 'n feed_snapshot"
  fs_hasReceipt :: "mirror_scope \<Rightarrow> jsstr \<Rightarrow> 's \<Rightarrow> bool"
  fs_commit :: "mirror_scope \<Rightarrow> nat \<Rightarrow> 'n feed_change \<Rightarrow> 's \<Rightarrow> (js_error + bool) \<times> 's"
  fs_recordError :: "mirror_scope \<Rightarrow> nat \<Rightarrow> 'n feed_error \<Rightarrow> 's \<Rightarrow> bool \<times> 's"

definition memoryMirror :: "nat \<Rightarrow> ('n, 'n mirror_state) feed_store" where
  "memoryMirror cap = \<lparr>fs_read = mirror_read, fs_hasReceipt = mirror_hasReceipt, fs_commit = mirror_commit cap,
     fs_recordError = mirror_recordError\<rparr>"

section \<open>Events and differences\<close>

definition event_payload :: "'n jsval \<Rightarrow> 'n jsval" where
  "event_payload ev = read_member ev ''payload''"

definition event_type :: "'n jsval \<Rightarrow> jsstr" where
  "event_type ev = (case text_value (read_member ev ''event_type'') of Some s \<Rightarrow> s | None \<Rightarrow> [])"

definition place_item :: "mirror_entity \<Rightarrow> jsstr \<Rightarrow> 'n jsval \<Rightarrow> (jsstr option \<times> 'n jsval) list \<Rightarrow> 'n jsval list" where
  "place_item e eid item m = map snd (AList.update (Some eid) item m)"

definition applyWholesaleFeedEvent ::
    "'n num_facts \<Rightarrow> mirror_entity \<Rightarrow> 'n jsval list \<Rightarrow> 'n jsval \<Rightarrow> 'n jsval list option" where
  "applyWholesaleFeedEvent N e previous ev =
     (let m = index_items e previous; payload = event_payload ev in
      case text_value (read_member payload (id_name e)) of
        None \<Rightarrow> None
      | Some eid \<Rightarrow>
          if eid = [] then None
          else if ends ''.removed'' (event_type ev) then Some (map snd (AList.delete (Some eid) m))
          else if ends ''.priced'' (event_type ev) then
            (case (map_of m (Some eid), read_member payload ''pricing_options'') of
               (Some prior, JArr ps) \<Rightarrow>
                 if truthy N prior then Some (place_item e eid (with_member prior ''pricing_options'' (JArr ps)) m) else None
             | _ \<Rightarrow> None)
          else
            let item = read_member payload (entity_name e) in
            if \<not> truthy N item \<or> itemId e item \<noteq> Some eid then None
            else Some (place_item e eid item m))"

definition scope_name :: "cache_scope \<Rightarrow> string" where
  "scope_name c = (case c of PublicScope \<Rightarrow> ''public'' | AccountScope \<Rightarrow> ''account'')"

text \<open>\<open>emit\<close>: the id and the time of an event are fresh values of the platform.\<close>

definition emit_event ::
    "mirror_entity \<Rightarrow> cache_scope \<Rightarrow> jsstr \<times> jsstr \<Rightarrow> jsstr option \<Rightarrow> string \<Rightarrow> (jsstr \<times> 'n jsval) list \<Rightarrow> 'n jsval" where
  "emit_event e cs stamp eid action data =
     (let idv = (case eid of Some s \<Rightarrow> JStr s | None \<Rightarrow> JUndefined) in
      JObj [(js ''event_id'', JStr (fst stamp)), (js ''event_type'', JStr (js (entity_name e @ ''.'' @ action))),
            (js ''entity_type'', JStr (js (entity_name e))), (js ''entity_id'', idv), (js ''created_at'', JStr (snd stamp)),
            (js ''payload'', JObj ((js (id_name e), idv) # data
               @ [(js ''applies_to'', JObj [(js ''scope'', JStr (js (scope_name cs)))])]))])"

definition or_empty_array :: "'n jsval \<Rightarrow> 'n jsval" where
  "or_empty_array v = (if v = JUndefined \<or> v = JNull then JArr [] else v)"

definition item_events ::
    "mirror_entity \<Rightarrow> cache_scope \<Rightarrow> bool \<Rightarrow> jsstr \<times> jsstr \<Rightarrow> jsstr \<times> jsstr
      \<Rightarrow> (jsstr option \<times> 'n jsval) list \<Rightarrow> jsstr option \<times> 'n jsval \<Rightarrow> 'n jsval list" where
  "item_events e cs includeAllChanges stamp1 stamp2 before entry =
     (let eid = fst entry; item = snd entry; prices = read_member item ''pricing_options'';
          updated = emit_event e cs stamp2 eid ''updated'' [(js (entity_name e), item)] in
      case map_of before eid of
        None \<Rightarrow> [emit_event e cs stamp1 eid ''created'' [(js (entity_name e), item)]]
      | Some prior \<Rightarrow>
          if \<not> deep_equal (read_member prior ''pricing_options'') prices then
            emit_event e cs stamp1 eid ''priced'' [(js ''pricing_options'', or_empty_array prices)]
            # (if includeAllChanges \<and> \<not> deep_equal (with_member prior ''pricing_options'' prices) item then [updated] else [])
          else if \<not> deep_equal prior item then [updated]
          else [])"

definition diffWholesaleFeed ::
    "(nat \<Rightarrow> jsstr \<times> jsstr) \<Rightarrow> mirror_entity \<Rightarrow> 'n jsval list \<Rightarrow> 'n jsval list \<Rightarrow> cache_scope \<Rightarrow> bool \<Rightarrow> 'n jsval list" where
  "diffWholesaleFeed stamps e previous next cs includeAllChanges =
     (let before = index_items e previous; after = index_items e next; n = length after in
      concat (map (\<lambda>(i, entry). item_events e cs includeAllChanges (stamps (2 * i)) (stamps (2 * i + 1)) before entry)
        (enumerate 0 after))
      @ map (\<lambda>(i, eid). emit_event e cs (stamps (2 * n + i)) eid ''removed'' [])
          (enumerate 0 (filter (\<lambda>eid. map_of after eid = None) (map fst before))))"

definition rowDiff_upserts :: "mirror_entity \<Rightarrow> 'n jsval list \<Rightarrow> 'n jsval list \<Rightarrow> 'n jsval list" where
  "rowDiff_upserts e previous next =
     (let before = index_items e previous in
      filter (\<lambda>it. case map_of before (itemId e it) of None \<Rightarrow> True | Some prior \<Rightarrow> \<not> deep_equal prior it) next)"

definition rowDiff_deletes :: "mirror_entity \<Rightarrow> 'n jsval list \<Rightarrow> 'n jsval list \<Rightarrow> jsstr option list" where
  "rowDiff_deletes e previous next =
     filter (\<lambda>eid. eid \<notin> set (map (itemId e) next)) (map fst (index_items e previous))"

section \<open>The refresh\<close>

record 'n feed_request =
  rq_entity :: mirror_entity
  rq_cursor :: "jsstr option"
  rq_account :: "'n jsval option"
  if_feed_version :: "jsstr option"
  if_pricing_version :: "jsstr option"

record 'n feed_body =
  unchanged :: bool
  body_products :: "'n jsval list option"
  body_signals :: "'n jsval list option"
  body_feedVersion :: "jsstr option"
  body_pricingVersion :: "jsstr option"
  body_cacheScope :: "cache_scope option"
  has_more :: bool
  next_cursor :: "jsstr option"

record 'n feed_result =
  succeeded :: "bool option"
  result_status :: "jsstr option"
  result_adcpError :: "'n jsval option"
  result_data :: "'n feed_body option"

text \<open>The seller's answer to a call: a rejection, with the error it may carry, or a result.\<close>

datatype 'n feed_answer = Rejected "'n jsval option" | Answered "'n feed_result"

text \<open>
  The environment of one step: the seller's answer to the call for each page, the readings of
  \<open>isCurrent\<close> (always true without that option), and the time of the commit.
\<close>

record 'n step_env =
  seller :: "nat \<Rightarrow> 'n feed_request \<Rightarrow> 'n feed_answer"
  current_read :: bool
  current_page :: "nat \<Rightarrow> bool"
  current_failed :: bool
  current_commit :: bool
  current_retry :: bool
  commit_time :: jsstr
  fresh_stamps :: "nat \<Rightarrow> jsstr \<times> jsstr"

record 'n refresh_options =
  ro_scope :: mirror_scope
  ro_account :: "'n jsval option"
  conditional :: bool

definition page_request :: "'n refresh_options \<Rightarrow> 'n feed_snapshot \<Rightarrow> jsstr option \<Rightarrow> 'n feed_request" where
  "page_request opts prev cursor =
     (let cond = (\<not> some_text cursor \<and> conditional opts \<and> some_text (feedVersion prev)) in
      \<lparr>rq_entity = entity (ro_scope opts), rq_cursor = (if some_text cursor then cursor else None),
       rq_account = ro_account opts,
       if_feed_version = (if cond then feedVersion prev else None),
       if_pricing_version = (if cond \<and> some_text (pricingVersion prev) then pricingVersion prev else None)\<rparr>)"

definition result_failed :: "'n feed_result \<Rightarrow> bool" where
  "result_failed r \<longleftrightarrow> succeeded r = Some False
     \<or> (case result_status r of None \<Rightarrow> False | Some s \<Rightarrow> s \<noteq> js ''completed'' \<and> s \<noteq> js ''success'')"

definition unchanged_mismatch :: "'n feed_request \<Rightarrow> 'n feed_snapshot \<Rightarrow> 'n feed_body \<Rightarrow> bool" where
  "unchanged_mismatch rq prev body \<longleftrightarrow>
     rq_cursor rq \<noteq> None \<or> if_feed_version rq = None \<or> body_feedVersion body \<noteq> feedVersion prev
     \<or> (if_pricing_version rq \<noteq> None \<and> body_pricingVersion body \<noteq> pricingVersion prev)
     \<or> (body_cacheScope body \<noteq> None \<and> body_cacheScope body \<noteq> Some (cacheScope prev))"

text \<open>The versions and the scope seen so far.\<close>

record feed_tokens =
  tk_feed :: "jsstr option"
  tk_pricing :: "jsstr option"
  tk_scope :: cache_scope

definition tokens_changed :: "feed_tokens \<Rightarrow> 'n feed_body \<Rightarrow> bool" where
  "tokens_changed t body \<longleftrightarrow>
     (body_feedVersion body \<noteq> None \<and> body_feedVersion body \<noteq> tk_feed t)
     \<or> (body_pricingVersion body \<noteq> None \<and> body_pricingVersion body \<noteq> tk_pricing t)
     \<or> (body_cacheScope body \<noteq> None \<and> body_cacheScope body \<noteq> Some (tk_scope t))"

definition next_tokens :: "feed_tokens \<Rightarrow> 'n feed_body \<Rightarrow> feed_tokens" where
  "next_tokens t body =
     \<lparr>tk_feed = (if body_feedVersion body \<noteq> None then body_feedVersion body else tk_feed t),
      tk_pricing = (if body_pricingVersion body \<noteq> None then body_pricingVersion body else tk_pricing t),
      tk_scope = (case body_cacheScope body of Some c \<Rightarrow> c | None \<Rightarrow> tk_scope t)\<rparr>"

fun add_rows :: "mirror_entity \<Rightarrow> 'n jsval list \<Rightarrow> (jsstr option \<times> 'n jsval) list \<Rightarrow> (jsstr option \<times> 'n jsval) list option" where
  "add_rows e [] m = Some m"
| "add_rows e (it # its) m =
     (if some_text (itemId e it) then add_rows e its (AList.update (itemId e it) it m) else None)"

definition body_rows :: "mirror_entity \<Rightarrow> 'n feed_body \<Rightarrow> 'n jsval list option" where
  "body_rows e body = (case e of Product \<Rightarrow> body_products body | Signal \<Rightarrow> body_signals body)"

definition MAX_PAGES :: nat where "MAX_PAGES = 10000"

datatype 'n collected = CollectSuperseded | CollectFailed "'n feed_error" | Collected "(jsstr option \<times> 'n jsval) list" feed_tokens bool

definition error_of :: "'n jsval option \<Rightarrow> 'n feed_error" where
  "error_of x = (case x of Some v \<Rightarrow> SellerError v | None \<Rightarrow> RefreshFailed)"

text \<open>The loop over the pages, with the pages read, the cursor, the cursors used and the rows so far.\<close>

function collect ::
    "'n step_env \<Rightarrow> 'n refresh_options \<Rightarrow> 'n feed_snapshot \<Rightarrow> nat \<Rightarrow> jsstr option \<Rightarrow> jsstr option list
      \<Rightarrow> (jsstr option \<times> 'n jsval) list \<Rightarrow> feed_tokens \<Rightarrow> 'n collected" where
  "collect E opts prev page cursor cursors m t =
     (if page + 1 > MAX_PAGES then CollectFailed RefreshFailed
      else
        let rq = page_request opts prev cursor in
        case seller E (page + 1) rq of
          Rejected err \<Rightarrow> CollectFailed (error_of err)
        | Answered r \<Rightarrow>
            if \<not> current_page E (page + 1) then CollectSuperseded
            else if result_failed r then CollectFailed (error_of (result_adcpError r))
            else (case result_data r of
                None \<Rightarrow> CollectFailed RefreshFailed
              | Some body \<Rightarrow>
                  if unchanged body \<and> unchanged_mismatch rq prev body then CollectFailed RefreshFailed
                  else if page + 1 > 1 \<and> tokens_changed t body then CollectFailed RefreshFailed
                  else if unchanged body then Collected m (next_tokens t body) True
                  else (case Option.bind (body_rows (entity (ro_scope opts)) body) (\<lambda>rows. add_rows (entity (ro_scope opts)) rows m) of
                      None \<Rightarrow> CollectFailed RefreshFailed
                    | Some m' \<Rightarrow>
                        let cur = (if has_more body then next_cursor body else None) in
                        if has_more body \<and> (\<not> some_text cur \<or> cur \<in> set cursors) then CollectFailed RefreshFailed
                        else if some_text cur then collect E opts prev (page + 1) cur (cur # cursors) m' (next_tokens t body)
                        else Collected m' (next_tokens t body) False)))"
  by pat_completeness auto
termination
  by (relation "measure (\<lambda>(E, opts, prev, page, cursor, cursors, m, t). MAX_PAGES - page)") auto

declare collect.simps [simp del]

definition is_v7_hex :: "16 word \<Rightarrow> bool" where
  "is_v7_hex w \<longleftrightarrow> ascii_digit w \<or> (0x41 \<le> unat w \<and> unat w \<le> 0x46) \<or> (0x61 \<le> unat w \<and> unat w \<le> 0x66)"

definition isUuidV7 :: "jsstr \<Rightarrow> bool" where
  "isUuidV7 s \<longleftrightarrow>
     (case js_split 0x2d s of
        [a, b, c, d, f] \<Rightarrow>
          map length [a, b, c, d, f] = [8, 4, 4, 4, 12] \<and> list_all (list_all is_v7_hex) [a, b, c, d, f]
          \<and> hd c = 0x37 \<and> hd d \<in> set (js ''89abAB'')
      | _ \<Rightarrow> False)"

definition ascii_lower :: "jsstr \<Rightarrow> jsstr" where
  "ascii_lower s = map (\<lambda>w. if 0x41 \<le> unat w \<and> unat w \<le> 0x5a then w + 0x20 else w) s"

definition latestEventId :: "jsstr option \<Rightarrow> jsstr \<Rightarrow> jsstr" where
  "latestEventId previous next =
     (case previous of
        Some p \<Rightarrow>
          if p \<noteq> [] \<and> isUuidV7 p \<and> (\<not> isUuidV7 next \<or> compareUtf16 (ascii_lower p) (ascii_lower next) \<ge> 0) then p else next
      | None \<Rightarrow> next)"

section \<open>Jobs\<close>

datatype 'n refresh_outcome =
    Unchanged "'n feed_snapshot"
  | Applied "'n feed_snapshot" "'n jsval list"
  | Degraded "'n feed_error"
  | Superseded

datatype feed_failure = BadNotification notification_error | Refused string | StoreFailed js_error

record webhook_mark =
  mark_event :: jsstr
  mark_key :: jsstr

text \<open>What a refresh is done for: a webhook's repair has a mark, a version it should see, and its attempt.\<close>

record refresh_ctx =
  rc_mark :: "webhook_mark option"
  rc_expected :: "jsstr option"
  rc_unconditional :: bool
  rc_attempt :: "nat option"

record 'n webhook_options =
  wo_refresh :: "'n refresh_options"
  wo_webhook :: "'n jsval"
  wo_accountId :: "jsstr option"
  wo_subscriberId :: "jsstr option"

datatype 'n mirror_job = RefreshJob "'n refresh_options" | WebhookJob "'n webhook_options"

fun job_options :: "'n mirror_job \<Rightarrow> 'n refresh_options" where
  "job_options (RefreshJob r) = r"
| "job_options (WebhookJob w) = wo_refresh w"

definition job_scope :: "'n mirror_job \<Rightarrow> mirror_scope" where
  "job_scope job = ro_scope (job_options job)"

text \<open>Where a job stands: the next call of the store, or its end.\<close>

datatype 'n mirror_pc =
    RefreshRead refresh_ctx
  | RefreshCommit refresh_ctx "'n feed_snapshot" "'n feed_change" "'n refresh_outcome"
  | RefreshError refresh_ctx "'n feed_snapshot" "'n feed_error"
  | WebhookRead nat
  | WebhookReceipt nat "'n feed_snapshot"
  | DeltaCommit nat "'n feed_snapshot" "'n feed_change" "'n refresh_outcome"
  | MirrorDone "feed_failure + 'n refresh_outcome"

definition plain_ctx :: refresh_ctx where
  "plain_ctx = \<lparr>rc_mark = None, rc_expected = None, rc_unconditional = False, rc_attempt = None\<rparr>"

text \<open>\<open>applyWholesaleFeedWebhook\<close>: three attempts, the next one only if a current job was superseded.\<close>

definition settle :: "'n step_env \<Rightarrow> nat option \<Rightarrow> 'n refresh_outcome \<Rightarrow> 'n mirror_pc" where
  "settle E attempt out =
     (case attempt of
        Some k \<Rightarrow>
          (case out of
             Superseded \<Rightarrow> if current_retry E \<and> k + 1 < 3 then WebhookRead (k + 1) else MirrorDone (Inr Superseded)
           | _ \<Rightarrow> MirrorDone (Inr out))
      | None \<Rightarrow> MirrorDone (Inr out))"

definition marked_event :: "'n feed_snapshot \<Rightarrow> webhook_mark option \<Rightarrow> jsstr option" where
  "marked_event prev mk = map_option (\<lambda>k. latestEventId (lastWebhookEventId prev) (mark_event k)) mk"

definition version_missed :: "refresh_ctx \<Rightarrow> 'n feed_snapshot \<Rightarrow> feed_tokens \<Rightarrow> bool" where
  "version_missed ctx prev t \<longleftrightarrow>
     rc_mark ctx \<noteq> None \<and> rc_expected ctx \<noteq> None \<and> tk_feed t = feedVersion prev \<and> tk_feed t \<noteq> rc_expected ctx"

definition row_change ::
    "mirror_entity \<Rightarrow> 'n jsval list \<Rightarrow> 'n jsval list \<Rightarrow> feed_tokens \<Rightarrow> jsstr \<Rightarrow> jsstr option \<Rightarrow> webhook_mark option \<Rightarrow> 'n feed_change" where
  "row_change e before after t now eid mk =
     \<lparr>upserts = rowDiff_upserts e before after, deletes = rowDiff_deletes e before after, ch_feedVersion = tk_feed t,
      ch_pricingVersion = tk_pricing t, ch_cacheScope = tk_scope t, ch_lastSyncedAt = now, ch_lastWebhookEventId = eid,
      ch_lastWebhookKey = map_option mark_key mk, webhookReceipt = map_option (\<lambda>k. (mark_event k, mark_key k)) mk\<rparr>"

definition next_snapshot ::
    "'n feed_snapshot \<Rightarrow> 'n jsval list \<Rightarrow> feed_tokens \<Rightarrow> jsstr \<Rightarrow> jsstr option \<Rightarrow> webhook_mark option \<Rightarrow> 'n feed_snapshot" where
  "next_snapshot prev its t now eid mk =
     prev\<lparr>revision := revision prev + 1, items := its, feedVersion := tk_feed t, pricingVersion := tk_pricing t,
       cacheScope := tk_scope t, lastSyncedAt := Some now, snapshot_error := None,
       lastWebhookEventId := (case eid of Some x \<Rightarrow> Some x | None \<Rightarrow> lastWebhookEventId prev),
       lastWebhookKey := (case mk of Some k \<Rightarrow> Some (mark_key k) | None \<Rightarrow> lastWebhookKey prev)\<rparr>"

text \<open>\<open>refreshMirror\<close> from the answer of \<open>store.read\<close> to the call of \<open>commit\<close> or \<open>recordError\<close>.\<close>

definition refresh_plan :: "'n step_env \<Rightarrow> 'n refresh_options \<Rightarrow> refresh_ctx \<Rightarrow> 'n feed_snapshot \<Rightarrow> 'n mirror_pc" where
  "refresh_plan E opts0 ctx prev =
     (let opts = opts0\<lparr>conditional := conditional opts0 \<and> \<not> rc_unconditional ctx\<rparr>; e = entity (ro_scope opts);
          fail = (\<lambda>err. if \<not> current_failed E then settle E (rc_attempt ctx) Superseded else RefreshError ctx prev err) in
      if \<not> current_read E then settle E (rc_attempt ctx) Superseded
      else (case collect E opts prev 0 None [] [] \<lparr>tk_feed = None, tk_pricing = None, tk_scope = cacheScope prev\<rparr> of
          CollectSuperseded \<Rightarrow> settle E (rc_attempt ctx) Superseded
        | CollectFailed err \<Rightarrow> fail err
        | Collected m t same \<Rightarrow>
            if version_missed ctx prev t then fail RefreshFailed
            else
              let nextItems = (if same then items prev else map snd m); eid = marked_event prev (rc_mark ctx);
                  next = next_snapshot prev nextItems t (commit_time E) eid (rc_mark ctx) in
              if \<not> current_commit E then settle E (rc_attempt ctx) Superseded
              else RefreshCommit ctx prev (row_change e (items prev) nextItems t (commit_time E) eid (rc_mark ctx))
                (if same then Unchanged next
                 else Applied next (diffWholesaleFeed (fresh_stamps E) e (items prev) nextItems (tk_scope t) True))))"

section \<open>The application of a webhook\<close>

text \<open>\<open>v.includes(s)\<close> for a value that may be no list: a text is searched, anything else is a type error.\<close>

definition includes_text :: "'n jsval \<Rightarrow> jsstr \<Rightarrow> feed_failure + bool" where
  "includes_text v s =
     (case v of
        JArr xs \<Rightarrow> Inr (JStr s \<in> set xs)
      | JStr t \<Rightarrow> Inr (contains_text s t)
      | _ \<Rightarrow> Inl (Refused ''TypeError''))"

definition webhook_entity :: "'n jsval \<Rightarrow> jsstr option" where
  "webhook_entity event =
     (let t = event_type event in
      if t = js ''wholesale_feed.bulk_change'' then text_value (read_member (event_payload event) ''affected_entity_type'')
      else if begins ''product.'' t then Some (js ''product'')
      else if begins ''signal.'' t then Some (js ''signal'')
      else None)"

definition expected_account :: "'n webhook_options \<Rightarrow> jsstr option" where
  "expected_account w =
     (case wo_accountId w of
        Some a \<Rightarrow> Some a
      | None \<Rightarrow> (case ro_account (wo_refresh w) of None \<Rightarrow> None | Some a \<Rightarrow> text_value (read_member a ''account_id'')))"

definition check_webhook :: "'n webhook_platform \<Rightarrow> 'n webhook_options \<Rightarrow> feed_failure + 'n notification" where
  "check_webhook P w =
     (let wh = wo_webhook w; N = wp_numbers P in
      case parseWholesaleFeedWebhookNotification P (ValueInput wh) of
        Inl e \<Rightarrow> Inl (BadNotification e)
      | Inr n \<Rightarrow>
          let event = read_member wh ''event''; applies = read_member (event_payload event) ''applies_to'' in
          if \<not> truthy N event \<or> read_member wh ''notification_type'' \<noteq> read_member event ''event_type''
             \<or> read_member wh ''notification_id'' \<noteq> read_member event ''event_id''
          then Inl (Refused ''Wholesale webhook event identity does not match its envelope.'')
          else if webhook_entity event \<noteq> Some (js (entity_name (entity (ro_scope (wo_refresh w)))))
          then Inl (Refused ''Wholesale webhook entity does not match this mirror.'')
          else (case expected_account w of
              None \<Rightarrow> Inl (Refused ''Wholesale webhook application requires an expected account_id.'')
            | Some acc \<Rightarrow>
                if acc = [] then Inl (Refused ''Wholesale webhook application requires an expected account_id.'')
                else if read_member wh ''account_id'' \<noteq> JStr acc
                   \<or> (case wo_subscriberId w of None \<Rightarrow> False | Some s \<Rightarrow> s \<noteq> [] \<and> read_member wh ''subscriber_id'' \<noteq> JStr s)
                then Inl (Refused ''Wholesale webhook subscription does not match this mirror.'')
                else if truthy N (read_member applies ''scope'') \<and> read_member applies ''scope'' \<noteq> read_member wh ''cache_scope''
                then Inl (Refused ''Wholesale webhook cache scope does not match this mirror.'')
                else if read_member wh ''cache_scope'' = JStr (js ''account'') \<and> truthy N (read_member applies ''account_ids'') then
                  bindE (includes_text (read_member applies ''account_ids'') acc) (\<lambda>listed.
                    if listed then Inr n else Inl (Refused ''Wholesale webhook cache scope does not match this mirror.''))
                else Inr n))"

definition repair_ctx :: "nat \<Rightarrow> 'n notification \<Rightarrow> bool \<Rightarrow> bool \<Rightarrow> refresh_ctx" where
  "repair_ctx k n unconditional expects =
     \<lparr>rc_mark = Some \<lparr>mark_event = eventId n, mark_key = idempotencyKey n\<rparr>,
      rc_expected = (if expects then Some (wh_feedVersion n) else None), rc_unconditional = unconditional, rc_attempt = Some k\<rparr>"

definition stale_event :: "'n feed_snapshot \<Rightarrow> 'n notification \<Rightarrow> bool" where
  "stale_event prev n \<longleftrightarrow>
     (case lastWebhookEventId prev of
        Some l \<Rightarrow> l \<noteq> [] \<and> isUuidV7 (eventId n) \<and> isUuidV7 l \<and> compareUtf16 (ascii_lower (eventId n)) (ascii_lower l) \<le> 0
      | None \<Rightarrow> False)"

text \<open>What follows the answer of \<open>hasWebhookReceipt\<close>.\<close>

definition webhook_plan ::
    "'n webhook_platform \<Rightarrow> 'n step_env \<Rightarrow> 'n webhook_options \<Rightarrow> 'n notification \<Rightarrow> nat \<Rightarrow> 'n feed_snapshot \<Rightarrow> bool \<Rightarrow> 'n mirror_pc" where
  "webhook_plan P E w n k prev seen =
     (let e = entity (ro_scope (wo_refresh w)); mk = \<lparr>mark_event = eventId n, mark_key = idempotencyKey n\<rparr>;
          stale = stale_event prev n in
      if seen \<or> lastWebhookEventId prev = Some (eventId n) then settle E (Some k) (Unchanged prev)
      else if cacheScope prev \<noteq> wh_cacheScope n then RefreshRead (repair_ctx k n True True)
      else if eventType n = BulkChange \<or> stale \<or> \<not> some_text (feedVersion prev) \<or> wh_previousVersion n \<noteq> feedVersion prev
      then RefreshRead (repair_ctx k n False (\<not> stale))
      else (case applyWholesaleFeedEvent (wp_numbers P) e (items prev) (nt_event n) of
          None \<Rightarrow> RefreshRead (repair_ctx k n False True)
        | Some its \<Rightarrow>
            let t = \<lparr>tk_feed = Some (wh_feedVersion n), tk_pricing = pricingVersion prev, tk_scope = wh_cacheScope n\<rparr> in
            if \<not> current_commit E then settle E (Some k) Superseded
            else DeltaCommit k prev (row_change e (items prev) its t (commit_time E) (Some (eventId n)) (Some mk))
              (Applied (next_snapshot prev its t (commit_time E) (Some (eventId n)) (Some mk)) [nt_event n])))"

definition start_job :: "'n webhook_platform \<Rightarrow> 'n mirror_job \<Rightarrow> 'n mirror_pc" where
  "start_job P job =
     (case job of
        RefreshJob _ \<Rightarrow> RefreshRead plain_ctx
      | WebhookJob w \<Rightarrow> (case check_webhook P w of Inl e \<Rightarrow> MirrorDone (Inl e) | Inr _ \<Rightarrow> WebhookRead 0))"

definition after_commit :: "'n step_env \<Rightarrow> nat option \<Rightarrow> 'n refresh_outcome \<Rightarrow> js_error + bool \<Rightarrow> 'n mirror_pc" where
  "after_commit E attempt out answer =
     (case answer of
        Inl e \<Rightarrow> MirrorDone (Inl (StoreFailed e))
      | Inr done \<Rightarrow> settle E attempt (if done then out else Superseded))"

text \<open>One call of the store and the code up to the next one.\<close>

fun mirror_step ::
    "('n, 's) feed_store \<Rightarrow> 'n webhook_platform \<Rightarrow> 'n step_env \<Rightarrow> 'n mirror_job \<Rightarrow> 'n mirror_pc \<Rightarrow> 's \<Rightarrow> 'n mirror_pc \<times> 's" where
  "mirror_step S P E job (RefreshRead ctx) st = (refresh_plan E (job_options job) ctx (fs_read S (job_scope job) st), st)"
| "mirror_step S P E job (RefreshCommit ctx prev ch out) st =
     (case fs_commit S (job_scope job) (revision prev) ch st of
        (answer, st') \<Rightarrow> (after_commit E (rc_attempt ctx) out answer, st'))"
| "mirror_step S P E job (RefreshError ctx prev err) st =
     (case fs_recordError S (job_scope job) (revision prev) err st of
        (ok, st') \<Rightarrow> (settle E (rc_attempt ctx) (if ok then Degraded err else Superseded), st'))"
| "mirror_step S P E job (WebhookRead k) st = (WebhookReceipt k (fs_read S (job_scope job) st), st)"
| "mirror_step S P E job (WebhookReceipt k prev) st =
     (case job of
        RefreshJob _ \<Rightarrow> (WebhookReceipt k prev, st)
      | WebhookJob w \<Rightarrow>
          (case check_webhook P w of
             Inl e \<Rightarrow> (MirrorDone (Inl e), st)
           | Inr n \<Rightarrow> (webhook_plan P E w n k prev (fs_hasReceipt S (job_scope job) (idempotencyKey n) st), st)))"
| "mirror_step S P E job (DeltaCommit k prev ch out) st =
     (case fs_commit S (job_scope job) (revision prev) ch st of
        (answer, st') \<Rightarrow> (after_commit E (Some k) out answer, st'))"
| "mirror_step S P E job (MirrorDone r) st = (MirrorDone r, st)"

end
