(* ===== verification/FeedCatalog.thy ===== *)
theory FeedCatalog
  imports FeedMirror
begin

text \<open>
  What the operations of the feed mirror compute, on catalogs read as maps from ids to items: a committed row
  difference gives the new catalog, an applied event and a collected refresh have one row per id.
\<close>

section \<open>Catalogs as maps\<close>

abbreviation catalog :: "mirror_entity \<Rightarrow> 'n jsval list \<Rightarrow> jsstr option \<rightharpoonup> 'n jsval" where
  "catalog e its \<equiv> map_of (index_items e its)"

definition same_item :: "'n jsval \<Rightarrow> 'n jsval \<Rightarrow> bool" where
  "same_item v w \<longleftrightarrow> v = w \<or> deep_equal v w"

definition same_catalog :: "mirror_entity \<Rightarrow> 'n jsval list \<Rightarrow> 'n jsval list \<Rightarrow> bool" where
  "same_catalog e its its' \<longleftrightarrow> (\<forall>eid. rel_option same_item (catalog e its eid) (catalog e its' eid))"

text \<open>Every entry is filed under its own id, once.\<close>

definition keyed :: "mirror_entity \<Rightarrow> (jsstr option \<times> 'n jsval) list \<Rightarrow> bool" where
  "keyed e m \<longleftrightarrow> distinct (map fst m) \<and> (\<forall>k v. map_of m k = Some v \<longrightarrow> itemId e v = k)"

abbreviation put_items :: "mirror_entity \<Rightarrow> 'n jsval list \<Rightarrow> (jsstr option \<times> 'n jsval) list \<Rightarrow> (jsstr option \<times> 'n jsval) list" where
  "put_items e \<equiv> fold (\<lambda>it m. AList.update (itemId e it) it m)"

lemma keyed_entry: "keyed e m \<Longrightarrow> x \<in> set m \<Longrightarrow> itemId e (snd x) = fst x"
  by (cases x) (simp add: keyed_def)

lemma keyed_distinct: "keyed e m \<Longrightarrow> distinct (map fst m)"
  by (simp add: keyed_def)

lemma keyed_Nil [simp]: "keyed e []"
  by (simp add: keyed_def)

lemma keyed_update [simp]: "keyed e m \<Longrightarrow> itemId e it = k \<Longrightarrow> keyed e (AList.update k it m)"
  by (auto simp: keyed_def distinct_update update_conv')

lemma keyed_delete [simp]: "keyed e m \<Longrightarrow> keyed e (AList.delete k m)"
  by (auto simp: keyed_def distinct_delete delete_conv')

lemma keyed_put_items [simp]: "keyed e m \<Longrightarrow> keyed e (put_items e its m)"
  by (induction its arbitrary: m) simp_all

lemma keyed_deletes [simp]: "keyed e m \<Longrightarrow> keyed e (fold AList.delete ds m)"
  by (induction ds arbitrary: m) simp_all

lemma keyed_index [simp]: "keyed e (index_items e its)"
  by (simp add: index_items_def)

lemma update_append: "k \<notin> fst ` set m \<Longrightarrow> AList.update k v m = m @ [(k, v)]"
  by (induction m) auto

lemma put_values:
  "distinct (map fst (acc @ m)) \<Longrightarrow> \<forall>x \<in> set m. itemId e (snd x) = fst x \<Longrightarrow> put_items e (map snd m) acc = acc @ m"
proof (induction m arbitrary: acc)
  case (Cons x m)
  then have "fst x \<notin> fst ` set acc" "itemId e (snd x) = fst x" by auto
  then have "AList.update (itemId e (snd x)) (snd x) acc = acc @ [x]" by (simp add: update_append)
  then show ?case using Cons.IH [of "acc @ [x]"] Cons.prems by simp
qed simp

lemma index_values: "keyed e m \<Longrightarrow> index_items e (map snd m) = m"
  unfolding index_items_def using put_values [of "[]" m e] keyed_entry keyed_distinct by fastforce

lemma put_items_lookup:
  "map_of (put_items e its m) k = (case catalog e its k of Some v \<Rightarrow> Some v | None \<Rightarrow> map_of m k)"
proof (induction its rule: rev_induct)
  case (snoc it its)
  then show ?case by (auto simp: index_items_def update_conv')
qed (simp add: index_items_def)

lemma deletes_lookup: "map_of (fold AList.delete ds m) k = (if k \<in> set ds then None else map_of m k)"
  by (induction ds arbitrary: m) (auto simp: delete_conv')

lemma catalog_None_iff: "catalog e its k = None \<longleftrightarrow> k \<notin> itemId e ` set its"
proof (induction its rule: rev_induct)
  case (snoc it its)
  then show ?case by (auto simp: index_items_def update_conv')
qed (simp add: index_items_def)

lemma catalog_id: "catalog e its k = Some it \<Longrightarrow> itemId e it = k"
  using keyed_index [of e its] by (simp add: keyed_def)

lemma catalog_mem: "catalog e its k = Some it \<Longrightarrow> it \<in> set its"
proof (induction its rule: rev_induct)
  case (snoc x its)
  then show ?case by (auto simp: index_items_def update_conv' split: if_splits)
qed (simp add: index_items_def)

lemma catalog_distinct:
  assumes "distinct (map (itemId e) its)"
  shows "catalog e its k = Some it \<longleftrightarrow> it \<in> set its \<and> itemId e it = k"
proof
  assume r: "it \<in> set its \<and> itemId e it = k"
  then have "catalog e its k \<noteq> None" unfolding catalog_None_iff by force
  then obtain x where x: "catalog e its k = Some x" by blast
  then show "catalog e its k = Some it"
    using catalog_id [OF x] catalog_mem [OF x] r assms by (metis distinct_map inj_onD)
qed (use catalog_id catalog_mem in blast)

lemma catalog_changed:
  "catalog e (changed_items e ch prior) k =
     (case catalog e (upserts ch) k of
        Some v \<Rightarrow> Some v
      | None \<Rightarrow> if k \<in> set (deletes ch) then None else catalog e prior k)"
  unfolding changed_items_def by (subst index_values) (simp_all add: put_items_lookup deletes_lookup split: option.split)

lemma changed_items_distinct: "distinct (map (itemId e) (changed_items e ch prior))"
proof -
  let ?m = "put_items e (upserts ch) (fold AList.delete (deletes ch) (index_items e prior))"
  have k: "keyed e ?m" by simp
  then have "map (itemId e \<circ> snd) ?m = map fst ?m"
    by (intro map_cong refl) (simp add: keyed_entry [OF k])
  then show ?thesis using keyed_distinct [OF k] unfolding changed_items_def by (simp only: map_map)
qed

text \<open>Committing the row difference gives the new catalog.\<close>

lemma row_change_exact:
  assumes "distinct (map (itemId e) after)"
  shows "same_catalog e (changed_items e (row_change e before after t now eid mk) before) after"
  unfolding same_catalog_def
proof
  fix k
  let ?up = "rowDiff_upserts e before after"
  have d: "distinct (map (itemId e) ?up)"
    using assms unfolding rowDiff_upserts_def Let_def by (rule distinct_map_filter)
  have c: "catalog e (changed_items e (row_change e before after t now eid mk) before) k =
      (case catalog e ?up k of Some v \<Rightarrow> Some v | None \<Rightarrow> if k \<in> set (rowDiff_deletes e before after) then None else catalog e before k)"
    by (simp add: catalog_changed row_change_def)
  have keys: "k \<in> set (map fst (index_items e before)) \<longleftrightarrow> catalog e before k \<noteq> None" by (simp add: map_of_eq_None_iff)
  show "rel_option same_item (catalog e (changed_items e (row_change e before after t now eid mk) before) k) (catalog e after k)"
  proof (cases "catalog e after k")
    case None
    then have "k \<notin> itemId e ` set after" by (simp add: catalog_None_iff)
    moreover from this have "catalog e ?up k = None" by (auto simp: catalog_None_iff rowDiff_upserts_def Let_def)
    ultimately show ?thesis unfolding c using None keys by (auto simp: rowDiff_deletes_def)
  next
    case (Some it)
    then have it: "it \<in> set after" "itemId e it = k" using catalog_distinct [OF assms] by auto
    then have nd: "k \<notin> set (rowDiff_deletes e before after)" by (auto simp: rowDiff_deletes_def)
    show ?thesis
    proof (cases "it \<in> set ?up")
      case True
      then have "catalog e ?up k = Some it" using catalog_distinct [OF d] it by simp
      then show ?thesis unfolding c using Some by (simp add: same_item_def)
    next
      case False
      then obtain prior where p: "catalog e before k = Some prior" "deep_equal prior it"
        using it by (auto simp: rowDiff_upserts_def Let_def split: option.splits)
      have "k \<notin> itemId e ` set ?up"
      proof
        assume "k \<in> itemId e ` set ?up"
        then obtain x where x: "x \<in> set ?up" "itemId e x = k" by blast
        then have "x \<in> set after" by (simp add: rowDiff_upserts_def Let_def)
        then have "x = it" using it x(2) assms by (metis distinct_map inj_onD)
        then show False using x(1) False by simp
      qed
      then show ?thesis unfolding c using Some nd p by (simp add: catalog_None_iff [symmetric] same_item_def)
    qed
  qed
qed

section \<open>What jobs compute\<close>

lemma itemId_record: "itemId e v = Some k \<Longrightarrow> is_record v"
  by (cases v) (auto simp: itemId_def is_record_def)

lemma itemId_with_prices: "is_record v \<Longrightarrow> itemId e (with_member v ''pricing_options'' x) = itemId e v"
  by (cases e) (simp_all add: itemId_def with_member_read)

lemma keyed_put: "keyed e m \<Longrightarrow> itemId e it = Some k \<Longrightarrow> distinct (map (itemId e) (place_item e k it m))"
  using keyed_update [of e m it "Some k"] keyed_entry keyed_distinct
  unfolding place_item_def by (metis (no_types, lifting) list.map_comp map_cong comp_apply)

lemma keyed_values_distinct: "keyed e m \<Longrightarrow> distinct (map (itemId e) (map snd m))"
  using keyed_entry keyed_distinct by (metis (no_types, lifting) list.map_comp map_cong comp_apply)

lemma applied_items_distinct:
  assumes "applyWholesaleFeedEvent N e previous ev = Some its"
  shows "distinct (map (itemId e) its)"
proof -
  let ?m = "index_items e previous"
  note step = assms [unfolded applyWholesaleFeedEvent_def Let_def]
  obtain k where k: "text_value (read_member (event_payload ev) (id_name e)) = Some k"
    using step by (cases "text_value (read_member (event_payload ev) (id_name e))") simp_all
  note step = step [unfolded k option.case]
  consider "its = map snd (AList.delete (Some k) ?m)"
    | prior x where "map_of ?m (Some k) = Some prior" "its = place_item e k (with_member prior ''pricing_options'' x) ?m"
    | it where "itemId e it = Some k" "its = place_item e k it ?m"
    using step by (auto split: if_splits option.splits jsval.splits)
  then show ?thesis
  proof cases
    case 1
    then show ?thesis using keyed_values_distinct [of e "AList.delete (Some k) ?m"] by simp
  next
    case 2
    have i: "itemId e prior = Some k" using catalog_id [OF 2(1)] .
    then have "itemId e (with_member prior ''pricing_options'' x) = Some k"
      using itemId_with_prices [OF itemId_record [OF i]] by simp
    then show ?thesis using 2(2) keyed_put [OF keyed_index] by simp
  next
    case 3
    then show ?thesis by (simp add: keyed_put)
  qed
qed

lemma add_rows_put: "add_rows e its m = Some m' \<longleftrightarrow> list_all (\<lambda>it. some_text (itemId e it)) its \<and> m' = put_items e its m"
  by (induction its arbitrary: m) auto

text \<open>The ways a page of a refresh can end.\<close>

lemma collect_cases:
  assumes "collect E opts prev page cursor cursors m t = Collected m' t' same"
  obtains (last) r body where "page + 1 \<le> MAX_PAGES" "seller E (page + 1) (page_request opts prev cursor) = Answered r"
      "current_page E (page + 1)" "\<not> result_failed r" "result_data r = Some body" "page \<ge> 1 \<longrightarrow> \<not> tokens_changed t body"
      "unchanged body" "same" "\<not> unchanged_mismatch (page_request opts prev cursor) prev body" "m' = m" "t' = next_tokens t body"
    | (rows) r body rs where "page + 1 \<le> MAX_PAGES" "seller E (page + 1) (page_request opts prev cursor) = Answered r"
      "current_page E (page + 1)" "\<not> result_failed r" "result_data r = Some body" "page \<ge> 1 \<longrightarrow> \<not> tokens_changed t body"
      "\<not> unchanged body" "body_rows (entity (ro_scope opts)) body = Some rs" "list_all (\<lambda>it. some_text (itemId (entity (ro_scope opts)) it)) rs"
      "\<not> some_text (if has_more body then next_cursor body else None)" "\<not> has_more body" "\<not> same"
      "m' = put_items (entity (ro_scope opts)) rs m" "t' = next_tokens t body"
    | (more) r body rs where "page + 1 \<le> MAX_PAGES" "seller E (page + 1) (page_request opts prev cursor) = Answered r"
      "current_page E (page + 1)" "\<not> result_failed r" "result_data r = Some body" "page \<ge> 1 \<longrightarrow> \<not> tokens_changed t body"
      "\<not> unchanged body" "body_rows (entity (ro_scope opts)) body = Some rs" "list_all (\<lambda>it. some_text (itemId (entity (ro_scope opts)) it)) rs"
      "has_more body" "some_text (next_cursor body)" "next_cursor body \<notin> set cursors"
      "collect E opts prev (page + 1) (next_cursor body) (next_cursor body # cursors)
         (put_items (entity (ro_scope opts)) rs m) (next_tokens t body) = Collected m' t' same"
proof -
  note step = assms [unfolded collect.simps [of E opts prev page] Let_def]
  have p: "\<not> page + 1 > MAX_PAGES" using step by (auto split: if_splits)
  note step = step [unfolded if_not_P [OF p]]
  obtain r where r: "seller E (page + 1) (page_request opts prev cursor) = Answered r"
    using step by (cases "seller E (page + 1) (page_request opts prev cursor)") simp_all
  note step = step [unfolded r feed_answer.case]
  have c: "\<not> \<not> current_page E (page + 1)" "\<not> result_failed r" using step by (auto split: if_splits)
  note step = step [unfolded if_not_P [OF c(1)] if_not_P [OF c(2)]]
  obtain body where b: "result_data r = Some body" using step by (cases "result_data r") simp_all
  note step = step [unfolded b option.case]
  have u: "\<not> (unchanged body \<and> unchanged_mismatch (page_request opts prev cursor) prev body)" using step by (auto split: if_splits)
  note step = step [unfolded if_not_P [OF u]]
  have k: "\<not> (page + 1 > 1 \<and> tokens_changed t body)" using step by (auto split: if_splits)
  note step = step [unfolded if_not_P [OF k]]
  show thesis
  proof (cases "unchanged body")
    case True
    then show thesis using last [OF _ r _ c(2) b] p c u k step by auto
  next
    case False
    note step = step [unfolded if_not_P [OF False]]
    obtain rs where rs: "body_rows (entity (ro_scope opts)) body = Some rs"
      using step by (cases "body_rows (entity (ro_scope opts)) body") simp_all
    obtain m2 where m2: "add_rows (entity (ro_scope opts)) rs m = Some m2"
      using step rs by (cases "add_rows (entity (ro_scope opts)) rs m") simp_all
    note step = step [unfolded rs m2 Option.bind.simps option.case]
    note m2 = m2 [unfolded add_rows_put]
    show thesis
    proof (cases "has_more body")
      case True
      then have s: "some_text (next_cursor body)" "next_cursor body \<notin> set cursors" using step by (auto split: if_splits)
      show thesis using more [OF _ r _ c(2) b _ False rs _ True s] p c k m2 step True s by auto
    next
      case nm: False
      then show thesis using rows [OF _ r _ c(2) b _ False rs] p c k m2 step by (auto simp: some_text_def)
    qed
  qed
qed

lemma collect_keyed:
  "collect E opts prev page cursor cursors m t = Collected m' t' same \<Longrightarrow> keyed (entity (ro_scope opts)) m \<Longrightarrow> keyed (entity (ro_scope opts)) m'"
proof (induction "MAX_PAGES - page" arbitrary: page cursor cursors m t rule: less_induct)
  case less
  from less.prems(1) show ?case
  proof (cases rule: collect_cases)
    case (more r body rs)
    then show ?thesis using less.hyps [OF _ more(13)] less.prems(2) by simp
  qed (use less.prems(2) in simp_all)
qed

end
