(* ===== verification/FeedConcurrency.thy ===== *)
theory FeedConcurrency
  imports FeedCatalog
begin

text \<open>
  The mirror store as its jobs see it (the interface \<open>WholesaleFeedMirrorStore\<close>), and what holds over every
  interleaving of jobs on one store: a commit replaces exactly the snapshot its job read.
\<close>

section \<open>The interface\<close>

text \<open>What a scope of a store shows: its snapshot and the receipts.\<close>

definition feed_view :: "('n, 's) feed_store \<Rightarrow> mirror_scope \<Rightarrow> 's \<Rightarrow> 'n feed_snapshot \<times> jsstr set" where
  "feed_view S sc st = (fs_read S sc st, {k. fs_hasReceipt S sc k st})"

definition receipt_keys :: "'n feed_change \<Rightarrow> jsstr set" where
  "receipt_keys ch = (case webhookReceipt ch of None \<Rightarrow> {} | Some (_, k) \<Rightarrow> {k})"

locale mirror_store =
  fixes S :: "('n, 's) feed_store" and inv :: "'s \<Rightarrow> bool"
  assumes commit_keeps_inv: "inv st \<Longrightarrow> inv (snd (fs_commit S sc r ch st))"
    and error_keeps_inv: "inv st \<Longrightarrow> inv (snd (fs_recordError S sc r e st))"
    and commit_done: "inv st \<Longrightarrow> fs_commit S sc r ch st = (Inr True, st') \<Longrightarrow> revision (fs_read S sc st) = r
      \<and> feed_view S sc st' = (changed_snapshot (entity sc) ch (fs_read S sc st), snd (feed_view S sc st) \<union> receipt_keys ch)"
    and commit_not_done: "inv st \<Longrightarrow> fs_commit S sc r ch st = (a, st') \<Longrightarrow> a \<noteq> Inr True \<Longrightarrow> feed_view S sc st' = feed_view S sc st"
    and commit_elsewhere: "inv st \<Longrightarrow> sc' \<noteq> sc \<Longrightarrow> feed_view S sc' (snd (fs_commit S sc r ch st)) = feed_view S sc' st"
    and error_done: "inv st \<Longrightarrow> fs_recordError S sc r e st = (True, st') \<Longrightarrow> revision (fs_read S sc st) = r
      \<and> feed_view S sc st' = ((fs_read S sc st)\<lparr>revision := revision (fs_read S sc st) + 1, snapshot_error := Some e\<rparr>,
          snd (feed_view S sc st))"
    and error_not_done: "inv st \<Longrightarrow> fs_recordError S sc r e st = (False, st') \<Longrightarrow> feed_view S sc st' = feed_view S sc st"
    and commit_current: "inv st \<Longrightarrow> fst (fs_commit S sc (revision (fs_read S sc st)) ch st) \<noteq> Inr False"
    and error_current: "inv st \<Longrightarrow> fst (fs_recordError S sc (revision (fs_read S sc st)) e st)"
    and error_elsewhere: "inv st \<Longrightarrow> sc' \<noteq> sc \<Longrightarrow> feed_view S sc' (snd (fs_recordError S sc r e st)) = feed_view S sc' st"

section \<open>The in-memory store provides it\<close>

lemma scope_key_inject [simp]: "scope_key a = scope_key b \<longleftrightarrow> a = b"
proof -
  have "entity_name x = entity_name y \<longleftrightarrow> x = y" for x y by (cases x; cases y) simp_all
  then show ?thesis by (cases a; cases b) (simp add: scope_key_def)
qed

text \<open>The receipts are counted, and never more than the capacity.\<close>

definition receipts_held :: "(string \<rightharpoonup> jsstr list) \<Rightarrow> nat" where
  "receipts_held R = (\<Sum>k \<in> dom R. length (the (R k)))"

definition mirror_ok :: "nat \<Rightarrow> 'n mirror_state \<Rightarrow> bool" where
  "mirror_ok cap st \<longleftrightarrow>
     finite (dom (feed_receipts st)) \<and> receiptCount st = receipts_held (feed_receipts st) \<and> receiptCount st \<le> cap
     \<and> (\<forall>k rs. feed_receipts st k = Some rs \<longrightarrow> distinct rs)"

lemma empty_mirror_ok: "mirror_ok cap empty_mirror"
  by (simp add: mirror_ok_def empty_mirror_def receipts_held_def)

lemma receipts_held_put:
  assumes "finite (dom R)" "rs = (case R key of Some rs \<Rightarrow> rs | None \<Rightarrow> [])"
  shows "receipts_held (R(key \<mapsto> ys)) + length rs = receipts_held R + length ys"
proof -
  let ?rest = "\<Sum>x \<in> dom R - {key}. length (the (R x))"
  have "receipts_held (R(key \<mapsto> ys)) = length ys + ?rest"
    using assms(1) by (auto simp: receipts_held_def sum.insert_remove intro!: sum.cong)
  moreover have "receipts_held R = length rs + ?rest"
  proof (cases "R key")
    case (Some x)
    then show ?thesis using assms sum.remove [of "dom R" key "\<lambda>x. length (the (R x))"] by (auto simp: receipts_held_def)
  qed (simp add: receipts_held_def domIff assms(2))
  ultimately show ?thesis by simp
qed

lemma add_receipt_ok:
  assumes "mirror_ok cap st" "add_receipt cap key k st = Inr st'"
  shows "mirror_ok cap st'"
proof -
  define rs where "rs = (case feed_receipts st key of Some rs \<Rightarrow> rs | None \<Rightarrow> [])"
  have d: "distinct rs" using assms(1) by (auto simp: mirror_ok_def rs_def split: option.splits)
  have fin: "finite (dom (feed_receipts st))" using assms(1) by (simp add: mirror_ok_def)
  note held = receipts_held_put [OF fin rs_def]
  note run = assms(2) [unfolded add_receipt_def Let_def, folded rs_def]
  show ?thesis
  proof (cases "k \<in> set rs")
    case True
    then show ?thesis using run assms(1) held [of rs] d by (auto simp: mirror_ok_def split: if_splits)
  next
    case False
    then have "receiptCount st < cap" "st' = st\<lparr>feed_receipts := (feed_receipts st)(key \<mapsto> k # rs), receiptCount := receiptCount st + 1\<rparr>"
      using run by (auto split: if_splits)
    then show ?thesis using assms(1) held [of "k # rs"] d False by (auto simp: mirror_ok_def split: if_splits)
  qed
qed

lemma mirror_commit_view:
  assumes "mirror_commit cap sc r ch st = (a, st')"
  shows "if a = Inr True
    then revision (mirror_read sc st) = r \<and> mirror_read sc st' = changed_snapshot (entity sc) ch (mirror_read sc st)
      \<and> (\<forall>k. mirror_hasReceipt sc k st' \<longleftrightarrow> mirror_hasReceipt sc k st \<or> k \<in> receipt_keys ch)
      \<and> (\<forall>sc'. sc' \<noteq> sc \<longrightarrow> mirror_read sc' st' = mirror_read sc' st \<and> (\<forall>k. mirror_hasReceipt sc' k st' \<longleftrightarrow> mirror_hasReceipt sc' k st))
    else st' = st"
proof (cases "revision (mirror_read sc st) = r")
  case True
  show ?thesis
  proof (cases "webhookReceipt ch")
    case None
    then show ?thesis using assms True
      by (auto simp: mirror_commit_def Let_def mirror_read_def mirror_hasReceipt_def receipt_keys_def)
  next
    case (Some p)
    obtain ev k where p: "p = (ev, k)" by (cases p)
    note step = assms [unfolded mirror_commit_def Let_def if_not_P [OF not_not [THEN iffD2, OF True]] Some option.case p prod.case]
    show ?thesis
    proof (cases "add_receipt cap (scope_key sc) k st")
      case (Inl e)
      then show ?thesis using step by auto
    next
      case (Inr st1)
      have k: "feed_records st1 = feed_records st"
          "feed_receipts st1 = (feed_receipts st)(scope_key sc \<mapsto>
             (let rs = (case feed_receipts st (scope_key sc) of Some rs \<Rightarrow> rs | None \<Rightarrow> []) in if k \<in> set rs then rs else k # rs))"
        using Inr by (auto simp: add_receipt_def Let_def split: if_splits)
      have st': "a = Inr True" "st' = st1\<lparr>feed_records := (feed_records st1)(scope_key sc \<mapsto> changed_snapshot (entity sc) ch (mirror_read sc st))\<rparr>"
        using step Inr by simp_all
      show ?thesis using k True Some p
        by (auto simp: st' mirror_read_def mirror_hasReceipt_def receipt_keys_def Let_def split: option.splits)
    qed
  qed
next
  case False
  then show ?thesis using assms by (auto simp: mirror_commit_def Let_def)
qed

lemma mirror_commit_ok:
  assumes "mirror_ok cap st" shows "mirror_ok cap (snd (mirror_commit cap sc r ch st))"
proof -
  have rec: "mirror_ok cap (st1\<lparr>feed_records := x\<rparr>) = mirror_ok cap st1" for st1 x by (simp add: mirror_ok_def)
  show ?thesis
    using assms add_receipt_ok unfolding mirror_commit_def Let_def
    by (auto simp: rec split: option.splits sum.splits prod.splits)
qed

lemma memory_mirror_store: "mirror_store (memoryMirror cap) (mirror_ok cap)"
proof
  fix st :: "'n mirror_state" and sc sc' :: mirror_scope and r ch st' e a
  note defs = memoryMirror_def feed_view_def
  show "mirror_ok cap st \<Longrightarrow> mirror_ok cap (snd (fs_commit (memoryMirror cap) sc r ch st))"
    by (simp add: defs mirror_commit_ok)
  show "mirror_ok cap st \<Longrightarrow> mirror_ok cap (snd (fs_recordError (memoryMirror cap) sc r e st))"
    by (simp add: defs mirror_recordError_def Let_def mirror_ok_def)
  show "fs_commit (memoryMirror cap) sc r ch st = (Inr True, st') \<Longrightarrow> revision (fs_read (memoryMirror cap) sc st) = r
      \<and> feed_view (memoryMirror cap) sc st'
        = (changed_snapshot (entity sc) ch (fs_read (memoryMirror cap) sc st), snd (feed_view (memoryMirror cap) sc st) \<union> receipt_keys ch)"
    using mirror_commit_view [of cap sc r ch st "Inr True" st'] by (auto simp: defs)
  show "fs_commit (memoryMirror cap) sc r ch st = (a, st') \<Longrightarrow> a \<noteq> Inr True
      \<Longrightarrow> feed_view (memoryMirror cap) sc st' = feed_view (memoryMirror cap) sc st"
    using mirror_commit_view [of cap sc r ch st a st'] by (auto simp: defs)
  show "sc' \<noteq> sc \<Longrightarrow> feed_view (memoryMirror cap) sc' (snd (fs_commit (memoryMirror cap) sc r ch st)) = feed_view (memoryMirror cap) sc' st"
    using mirror_commit_view [of cap sc r ch st "fst (mirror_commit cap sc r ch st)" "snd (mirror_commit cap sc r ch st)"]
    by (auto simp: defs split: if_splits)
  show "fs_recordError (memoryMirror cap) sc r e st = (True, st') \<Longrightarrow> revision (fs_read (memoryMirror cap) sc st) = r
      \<and> feed_view (memoryMirror cap) sc st' = ((fs_read (memoryMirror cap) sc st)\<lparr>revision := revision (fs_read (memoryMirror cap) sc st) + 1, snapshot_error := Some e\<rparr>,
          snd (feed_view (memoryMirror cap) sc st))"
    by (auto simp: defs mirror_recordError_def Let_def mirror_read_def mirror_hasReceipt_def split: if_splits)
  show "fs_recordError (memoryMirror cap) sc r e st = (False, st') \<Longrightarrow> feed_view (memoryMirror cap) sc st' = feed_view (memoryMirror cap) sc st"
    by (auto simp: defs mirror_recordError_def Let_def split: if_splits)
  show "fst (fs_commit (memoryMirror cap) sc (revision (fs_read (memoryMirror cap) sc st)) ch st) \<noteq> Inr False"
    by (simp add: defs mirror_commit_def Let_def split: option.splits sum.splits prod.splits)
  show "fst (fs_recordError (memoryMirror cap) sc (revision (fs_read (memoryMirror cap) sc st)) e st)"
    by (simp add: defs mirror_recordError_def Let_def)
  show "sc' \<noteq> sc \<Longrightarrow> feed_view (memoryMirror cap) sc' (snd (fs_recordError (memoryMirror cap) sc r e st)) = feed_view (memoryMirror cap) sc' st"
    by (auto simp: defs mirror_recordError_def Let_def mirror_read_def mirror_hasReceipt_def)
qed

interpretation mms: mirror_store "memoryMirror cap" "mirror_ok cap" for cap
  by (rule memory_mirror_store)

section \<open>Where jobs stand\<close>

abbreviation distinct_ids :: "mirror_entity \<Rightarrow> 'n feed_snapshot \<Rightarrow> bool" where
  "distinct_ids e s \<equiv> distinct (map (itemId e) (items s))"

text \<open>A snapshot read earlier is the present one, or an older revision.\<close>

definition held :: "'n feed_snapshot \<Rightarrow> 'n feed_snapshot \<Rightarrow> bool" where
  "held prev s \<longleftrightarrow> revision prev \<le> revision s \<and> (revision prev = revision s \<longrightarrow> s = prev)"

text \<open>The events of an outcome explain the step from one catalog to the next.\<close>

definition explains :: "'n num_facts \<Rightarrow> mirror_entity \<Rightarrow> 'n feed_snapshot \<Rightarrow> 'n feed_snapshot \<Rightarrow> 'n jsval list \<Rightarrow> bool" where
  "explains N e prev next d \<longleftrightarrow>
     (\<exists>stamps. d = diffWholesaleFeed stamps e (items prev) (items next) (cacheScope next) True)
     \<or> (\<exists>ev. d = [ev] \<and> applyWholesaleFeedEvent N e (items prev) ev = Some (items next))"

definition planned ::
    "'n num_facts \<Rightarrow> mirror_entity \<Rightarrow> 'n feed_snapshot \<Rightarrow> 'n feed_change \<Rightarrow> 'n refresh_outcome \<Rightarrow> bool" where
  "planned N e prev ch out \<longleftrightarrow>
     (\<exists>its t now eid mk. ch = row_change e (items prev) its t now eid mk
       \<and> (out = Unchanged (next_snapshot prev its t now eid mk) \<and> its = items prev
          \<or> (\<exists>d. out = Applied (next_snapshot prev its t now eid mk) d \<and> distinct (map (itemId e) its)
                 \<and> explains N e prev (next_snapshot prev its t now eid mk) d)))"

lemma planned_applied:
  "distinct (map (itemId e) its) \<Longrightarrow> explains N e prev (next_snapshot prev its t now eid mk) d
    \<Longrightarrow> planned N e prev (row_change e (items prev) its t now eid mk) (Applied (next_snapshot prev its t now eid mk) d)"
  unfolding planned_def by blast

lemma planned_unchanged:
  "planned N e prev (row_change e (items prev) (items prev) t now eid mk) (Unchanged (next_snapshot prev (items prev) t now eid mk))"
  unfolding planned_def by blast

definition job_notification :: "'n webhook_platform \<Rightarrow> 'n mirror_job \<Rightarrow> 'n notification option" where
  "job_notification P job =
     (case job of
        RefreshJob _ \<Rightarrow> None
      | WebhookJob w \<Rightarrow> (case check_webhook P w of Inl _ \<Rightarrow> None | Inr n \<Rightarrow> Some n))"

fun pc_ok :: "'n webhook_platform \<Rightarrow> 'n mirror_job \<Rightarrow> 'n mirror_pc \<Rightarrow> 'n feed_snapshot \<times> jsstr set \<Rightarrow> bool" where
  "pc_ok P job (RefreshCommit ctx prev ch out) v \<longleftrightarrow>
     held prev (fst v) \<and> planned (wp_numbers P) (entity (job_scope job)) prev ch out"
| "pc_ok P job (RefreshError ctx prev err) v \<longleftrightarrow> held prev (fst v)"
| "pc_ok P job (WebhookReceipt k prev) v \<longleftrightarrow> held prev (fst v)"
| "pc_ok P job (DeltaCommit k prev ch out) v \<longleftrightarrow>
     held prev (fst v) \<and> planned (wp_numbers P) (entity (job_scope job)) prev ch out
     \<and> (\<exists>n. job_notification P job = Some n \<and> receipt_keys ch = {idempotencyKey n}
            \<and> (revision prev = revision (fst v) \<longrightarrow> idempotencyKey n \<notin> snd v))"
| "pc_ok P job _ v \<longleftrightarrow> True"

definition advances :: "mirror_entity \<Rightarrow> 'n feed_snapshot \<times> jsstr set \<Rightarrow> 'n feed_snapshot \<times> jsstr set \<Rightarrow> bool" where
  "advances e v v' \<longleftrightarrow>
     v' = v
     \<or> revision (fst v') = Suc (revision (fst v)) \<and> snd v \<subseteq> snd v' \<and> (distinct_ids e (fst v) \<longrightarrow> distinct_ids e (fst v'))"

lemma held_refl [simp]: "held s s"
  by (simp add: held_def)

lemma advancesE:
  assumes "advances e v v'"
  obtains "v' = v"
    | "revision (fst v') = Suc (revision (fst v))" "snd v \<subseteq> snd v'" "distinct_ids e (fst v) \<Longrightarrow> distinct_ids e (fst v')"
  using assms unfolding advances_def by blast

lemma held_older: "revision prev < revision s \<Longrightarrow> held prev s"
  by (simp add: held_def)

lemma held_le: "held prev s \<Longrightarrow> revision prev \<le> revision s"
  by (simp add: held_def)

lemma held_advances: "held prev (fst v) \<Longrightarrow> advances e v v' \<Longrightarrow> held prev (fst v')"
  by (erule advancesE) (simp_all add: held_older held_le le_imp_less_Suc)

lemma pc_ok_advances:
  assumes "pc_ok P job pc v" "advances e v v'" shows "pc_ok P job pc v'"
  using assms(2)
proof (cases rule: advancesE)
  case 1
  then show ?thesis using assms(1) by simp
next
  case 2
  then have "revision prev \<noteq> revision (fst v')" if "held prev (fst v)" for prev using held_le [OF that] by simp
  moreover have "held prev (fst v')" if "held prev (fst v)" for prev by (rule held_advances [OF that assms(2)])
  ultimately show ?thesis using assms(1) by (cases pc) auto
qed

lemma settle_ok [simp]: "pc_ok P job (settle E k out) v"
  by (auto simp: settle_def split: option.splits refresh_outcome.splits)

lemma after_commit_ok [simp]: "pc_ok P job (after_commit E k out a) v"
  by (auto simp: after_commit_def split: sum.splits)

lemma start_job_ok: "pc_ok P job (start_job P job) v"
  by (auto simp: start_job_def split: mirror_job.splits sum.splits)

lemma refresh_plan_cases:
  obtains (settled) "refresh_plan E opts ctx prev = settle E (rc_attempt ctx) Superseded"
    | (failed) err where "refresh_plan E opts ctx prev = RefreshError ctx prev err"
    | (commit) ch out where "refresh_plan E opts ctx prev = RefreshCommit ctx prev ch out" "planned N (entity (ro_scope opts)) prev ch out"
proof -
  let ?opts = "opts\<lparr>conditional := conditional opts \<and> \<not> rc_unconditional ctx\<rparr>"
  let ?e = "entity (ro_scope opts)"
  let ?r = "collect E ?opts prev 0 None [] [] \<lparr>tk_feed = None, tk_pricing = None, tk_scope = cacheScope prev\<rparr>"
  have fail: thesis if "refresh_plan E opts ctx prev = (if \<not> current_failed E then settle E (rc_attempt ctx) Superseded else RefreshError ctx prev err)" for err
    using that settled failed by (cases "current_failed E") auto
  show thesis
  proof (cases "current_read E")
    case False
    then show thesis using settled by (simp add: refresh_plan_def Let_def)
  next
    case c: True
    show thesis
    proof (cases ?r)
      case CollectSuperseded
      then show thesis using settled c by (simp add: refresh_plan_def Let_def)
    next
      case (CollectFailed err)
      then show thesis using fail [of err] c by (simp add: refresh_plan_def Let_def)
    next
      case (Collected m t same)
      show thesis
      proof (cases "version_missed ctx prev t")
        case True
        then show thesis using fail [of RefreshFailed] c Collected by (simp add: refresh_plan_def Let_def)
      next
        case False
        let ?its = "if same then items prev else map snd m" and ?eid = "marked_event prev (rc_mark ctx)"
        let ?next = "next_snapshot prev ?its t (commit_time E) ?eid (rc_mark ctx)"
        let ?ch = "row_change ?e (items prev) ?its t (commit_time E) ?eid (rc_mark ctx)"
        let ?out = "if same then Unchanged ?next else Applied ?next (diffWholesaleFeed (fresh_stamps E) ?e (items prev) ?its (tk_scope t) True)"
        have k: "keyed ?e m" using collect_keyed [OF Collected] by simp
        have "planned N ?e prev ?ch ?out"
        proof (cases same)
          case False
          have "explains N ?e prev ?next (diffWholesaleFeed (fresh_stamps E) ?e (items prev) ?its (tk_scope t) True)"
            unfolding explains_def by (rule disjI1, rule exI [of _ "fresh_stamps E"]) (simp add: next_snapshot_def)
          then show ?thesis using planned_applied keyed_values_distinct [OF k] False by fastforce
        qed (simp add: planned_unchanged)
        then show thesis using commit [of ?ch ?out] settled c False Collected
          by (cases "current_commit E") (simp_all add: refresh_plan_def Let_def)
      qed
    qed
  qed
qed

lemma webhook_plan_cases:
  obtains (settled) out where "webhook_plan P E w n k prev seen = settle E (Some k) out" "out \<in> {Unchanged prev, Superseded}"
    | (repair) ctx where "webhook_plan P E w n k prev seen = RefreshRead ctx"
    | (delta) ch out where "webhook_plan P E w n k prev seen = DeltaCommit k prev ch out" "\<not> seen"
        "planned (wp_numbers P) (entity (ro_scope (wo_refresh w))) prev ch out" "receipt_keys ch = {idempotencyKey n}"
proof -
  let ?e = "entity (ro_scope (wo_refresh w))" and ?mk = "\<lparr>mark_event = eventId n, mark_key = idempotencyKey n\<rparr>"
  let ?t = "\<lparr>tk_feed = Some (wh_feedVersion n), tk_pricing = pricingVersion prev, tk_scope = wh_cacheScope n\<rparr>"
  show thesis
  proof (cases "seen \<or> lastWebhookEventId prev = Some (eventId n)")
    case True
    then show thesis using settled [of "Unchanged prev"] by (simp add: webhook_plan_def Let_def)
  next
    case s: False
    show thesis
    proof (cases "cacheScope prev \<noteq> wh_cacheScope n \<or> eventType n = BulkChange \<or> stale_event prev n
        \<or> \<not> some_text (feedVersion prev) \<or> wh_previousVersion n \<noteq> feedVersion prev")
      case True
      then have "webhook_plan P E w n k prev seen = RefreshRead (if cacheScope prev \<noteq> wh_cacheScope n
          then repair_ctx k n True True else repair_ctx k n False (\<not> stale_event prev n))"
        using s by (simp add: webhook_plan_def Let_def)
      then show thesis by (rule repair)
    next
      case f: False
      show thesis
      proof (cases "applyWholesaleFeedEvent (wp_numbers P) ?e (items prev) (nt_event n)")
        case None
        then show thesis using repair s f by (simp add: webhook_plan_def Let_def)
      next
        case (Some its)
        let ?next = "next_snapshot prev its ?t (commit_time E) (Some (eventId n)) (Some ?mk)"
        let ?ch = "row_change ?e (items prev) its ?t (commit_time E) (Some (eventId n)) (Some ?mk)"
        have x: "explains (wp_numbers P) ?e prev ?next [nt_event n]"
          unfolding explains_def using Some by (intro disjI2 exI [of _ "nt_event n"]) (simp add: next_snapshot_def)
        have "planned (wp_numbers P) ?e prev ?ch (Applied ?next [nt_event n])"
          by (rule planned_applied [OF applied_items_distinct [OF Some] x])
        moreover have "receipt_keys ?ch = {idempotencyKey n}" by (simp add: receipt_keys_def row_change_def)
        ultimately show thesis
          using delta [of ?ch "Applied ?next [nt_event n]"] settled [of Superseded] s f Some
          by (cases "current_commit E") (simp_all add: webhook_plan_def Let_def)
      qed
    qed
  qed
qed

section \<open>Interleaved jobs\<close>

record ('n, 's) feed_sys =
  job_pc :: "nat \<Rightarrow> 'n mirror_pc"
  sys_store :: 's

inductive feed_step ::
    "('n, 's) feed_store \<Rightarrow> 'n webhook_platform \<Rightarrow> (nat \<Rightarrow> 'n mirror_job) \<Rightarrow> nat \<Rightarrow> ('n, 's) feed_sys \<Rightarrow> ('n, 's) feed_sys \<Rightarrow> bool"
  for S P jobs where
  advance: "mirror_step S P E (jobs i) (job_pc s i) (sys_store s) = (pc', st')
    \<Longrightarrow> feed_step S P jobs i s \<lparr>job_pc = (job_pc s)(i := pc'), sys_store = st'\<rparr>"

inductive_cases feed_stepE: "feed_step S P jobs i s s'"

inductive feed_reach ::
    "('n, 's) feed_store \<Rightarrow> 'n webhook_platform \<Rightarrow> (nat \<Rightarrow> 'n mirror_job) \<Rightarrow> ('n, 's) feed_sys \<Rightarrow> ('n, 's) feed_sys \<Rightarrow> bool"
  for S P jobs where
  here: "feed_reach S P jobs s s"
| later: "feed_reach S P jobs s t \<Longrightarrow> feed_step S P jobs i t u \<Longrightarrow> feed_reach S P jobs s u"

definition feed_start :: "'n webhook_platform \<Rightarrow> (nat \<Rightarrow> 'n mirror_job) \<Rightarrow> 's \<Rightarrow> ('n, 's) feed_sys" where
  "feed_start P jobs st = \<lparr>job_pc = (\<lambda>i. start_job P (jobs i)), sys_store = st\<rparr>"

definition sys_ok ::
    "('n, 's) feed_store \<Rightarrow> ('s \<Rightarrow> bool) \<Rightarrow> 'n webhook_platform \<Rightarrow> (nat \<Rightarrow> 'n mirror_job) \<Rightarrow> ('n, 's) feed_sys \<Rightarrow> bool" where
  "sys_ok S good P jobs s \<longleftrightarrow>
     good (sys_store s) \<and> (\<forall>sc. distinct_ids (entity sc) (fs_read S sc (sys_store s)))
     \<and> (\<forall>i. pc_ok P (jobs i) (job_pc s i) (feed_view S (job_scope (jobs i)) (sys_store s)))"

text \<open>An outcome is the end of a job that has just been reached.\<close>

definition finishes :: "('n, 's) feed_sys \<Rightarrow> ('n, 's) feed_sys \<Rightarrow> nat \<Rightarrow> 'n refresh_outcome \<Rightarrow> bool" where
  "finishes s s' i out \<longleftrightarrow> (\<forall>r. job_pc s i \<noteq> MirrorDone r) \<and> job_pc s' i = MirrorDone (Inr out)"

definition is_delta :: "'n mirror_pc \<Rightarrow> bool" where
  "is_delta pc \<longleftrightarrow> (case pc of DeltaCommit _ _ _ _ \<Rightarrow> True | _ \<Rightarrow> False)"

context mirror_store begin

text \<open>What a step does to the scopes of the store.\<close>

lemma commit_advances:
  assumes "inv st" "fs_commit S sc r ch st = (a, st')"
  shows "inv st' \<and> advances (entity sc') (feed_view S sc' st) (feed_view S sc' st')"
proof (cases "sc' = sc")
  case True
  have d: "distinct_ids (entity sc) (changed_snapshot (entity sc) ch s)" for s
    by (simp add: changed_snapshot_def changed_items_distinct)
  show ?thesis
  proof (cases "a = Inr True")
    case a: True
    then have v: "feed_view S sc st' = (changed_snapshot (entity sc) ch (fs_read S sc st), snd (feed_view S sc st) \<union> receipt_keys ch)"
      using commit_done [OF assms(1)] assms(2) by blast
    have "revision (changed_snapshot (entity sc) ch (fs_read S sc st)) = Suc (revision (fs_read S sc st))"
      by (simp add: changed_snapshot_def)
    then have "advances (entity sc) (feed_view S sc st) (feed_view S sc st')"
      using d unfolding v advances_def by (simp add: feed_view_def)
    then show ?thesis using commit_keeps_inv [OF assms(1), of sc r ch] assms(2) True by simp
  qed (use commit_not_done [OF assms] commit_keeps_inv [OF assms(1), of sc r ch] assms(2) True in \<open>simp add: advances_def\<close>)
next
  case False
  then show ?thesis using commit_elsewhere [OF assms(1) False, of r ch] commit_keeps_inv [OF assms(1), of sc r ch] assms(2)
    by (simp add: advances_def)
qed

lemma error_advances:
  assumes "inv st" "fs_recordError S sc r e st = (ok, st')"
  shows "inv st' \<and> advances (entity sc') (feed_view S sc' st) (feed_view S sc' st')"
proof (cases "sc' = sc")
  case True
  show ?thesis
  proof (cases ok)
    case ok: True
    then show ?thesis using error_done [OF assms(1)] error_keeps_inv [OF assms(1), of sc r e] assms(2) True
      by (auto simp: advances_def feed_view_def)
  qed (use error_not_done [OF assms(1)] error_keeps_inv [OF assms(1), of sc r e] assms(2) True in \<open>auto simp: advances_def\<close>)
next
  case False
  then show ?thesis using error_elsewhere [OF assms(1) False, of r e] error_keeps_inv [OF assms(1), of sc r e] assms(2)
    by (simp add: advances_def)
qed

lemma step_advances:
  assumes "inv st" "mirror_step S P E job pc st = (pc', st')"
  shows "inv st' \<and> advances (entity sc) (feed_view S sc st) (feed_view S sc st')"
proof -
  have same: "inv st' \<and> advances (entity sc) (feed_view S sc st) (feed_view S sc st')" if "st' = st"
    using that assms(1) by (simp add: advances_def)
  show ?thesis
  proof (cases pc)
    case (RefreshCommit ctx prev ch out)
    then show ?thesis using assms commit_advances [OF assms(1)] by (auto split: prod.splits)
  next
    case (DeltaCommit k prev ch out)
    then show ?thesis using assms commit_advances [OF assms(1)] by (auto split: prod.splits)
  next
    case (RefreshError ctx prev err)
    then show ?thesis using assms error_advances [OF assms(1)] by (auto split: prod.splits)
  qed (use assms(2) same in \<open>auto split: mirror_job.splits sum.splits\<close>)
qed

lemma step_pc_ok:
  assumes "inv st" "pc_ok P job pc (feed_view S (job_scope job) st)" "mirror_step S P E job pc st = (pc', st')"
  shows "pc_ok P job pc' (feed_view S (job_scope job) st')"
proof (cases pc)
  case (RefreshRead ctx)
  let ?prev = "fs_read S (job_scope job) st"
  have s: "st' = st" "pc' = refresh_plan E (job_options job) ctx ?prev" using assms(3) RefreshRead by auto
  show ?thesis
    by (rule refresh_plan_cases [where E = E and opts = "job_options job" and ctx = ctx and prev = ?prev and N = "wp_numbers P"]) (simp_all add: s feed_view_def job_scope_def)
next
  case (WebhookReceipt k prev)
  show ?thesis
  proof (cases job)
    case (WebhookJob w)
    show ?thesis
    proof (cases "check_webhook P w")
      case (Inr n)
      let ?seen = "fs_hasReceipt S (job_scope job) (idempotencyKey n) st"
      have s: "st' = st" "pc' = webhook_plan P E w n k prev ?seen" using assms(3) WebhookReceipt WebhookJob Inr by auto
      have n: "job_notification P job = Some n" using WebhookJob Inr by (simp add: job_notification_def)
      have h: "held prev (fs_read S (job_scope job) st)" using assms(2) WebhookReceipt by (simp add: feed_view_def)
      show ?thesis
        by (rule webhook_plan_cases [where P = P and E = E and w = w and n = n and k = k and prev = prev and seen = ?seen])
          (use h n in \<open>auto simp: s feed_view_def job_scope_def WebhookJob\<close>)
    qed (use assms(3) WebhookReceipt WebhookJob in auto)
  qed (use assms WebhookReceipt in auto)
qed (use assms(3) in \<open>auto simp: feed_view_def split: prod.splits\<close>)

lemma start_ok:
  assumes "inv st" "\<And>sc. distinct_ids (entity sc) (fs_read S sc st)"
  shows "sys_ok S inv P jobs (feed_start P jobs st)"
  using assms by (simp add: sys_ok_def feed_start_def start_job_ok)

lemma feed_step_ok:
  assumes "sys_ok S inv P jobs s" "feed_step S P jobs i s s'"
  shows "sys_ok S inv P jobs s'"
proof -
  obtain E pc' st' where step: "mirror_step S P E (jobs i) (job_pc s i) (sys_store s) = (pc', st')"
      and s': "s' = \<lparr>job_pc = (job_pc s)(i := pc'), sys_store = st'\<rparr>"
    using assms(2) by (rule feed_stepE)
  have inv: "inv (sys_store s)" using assms(1) by (simp add: sys_ok_def)
  have adv: "advances (entity sc) (feed_view S sc (sys_store s)) (feed_view S sc st')" "inv st'" for sc
    using step_advances [OF inv step] by blast+
  have "distinct_ids (entity sc) (fs_read S sc st')" for sc
    using adv(1) [of sc] assms(1) by (auto simp: sys_ok_def feed_view_def elim!: advancesE)
  moreover have "pc_ok P (jobs j) (job_pc s' j) (feed_view S (job_scope (jobs j)) st')" for j
  proof (cases "j = i")
    case True
    then show ?thesis using step_pc_ok [OF inv _ step] assms(1) by (simp add: sys_ok_def s')
  next
    case False
    then show ?thesis using pc_ok_advances [OF _ adv(1)] assms(1) by (auto simp: sys_ok_def s')
  qed
  ultimately show ?thesis using adv(2) by (simp add: sys_ok_def s')
qed

lemma feed_reach_ok: "feed_reach S P jobs s t \<Longrightarrow> sys_ok S inv P jobs s \<Longrightarrow> sys_ok S inv P jobs t"
  by (induction rule: feed_reach.induct) (auto intro: feed_step_ok)

lemma receipts_stay:
  "feed_reach S P jobs s t \<Longrightarrow> sys_ok S inv P jobs s \<Longrightarrow> snd (feed_view S sc (sys_store s)) \<subseteq> snd (feed_view S sc (sys_store t))"
proof (induction rule: feed_reach.induct)
  case (later s t i u)
  have "inv (sys_store t)" using feed_reach_ok [OF later.hyps(1) later.prems] by (simp add: sys_ok_def)
  moreover obtain E pc' st' where "mirror_step S P E (jobs i) (job_pc t i) (sys_store t) = (pc', st')" "sys_store u = st'"
    using later.hyps(2) by (auto elim!: feed_stepE)
  ultimately have "advances (entity sc) (feed_view S sc (sys_store t)) (feed_view S sc (sys_store u))"
    using step_advances by blast
  then show ?case using later.IH [OF later.prems] by (auto elim!: advancesE)
qed simp

end

end
