(* ===== verification/FeedDiff.thy ===== *)
theory FeedDiff
  imports FeedCatalog
begin

text \<open>
  The events of a difference carry it: applied in order to the old catalog (\<open>applyWholesaleFeedEvent\<close>), the events
  \<open>diffWholesaleFeed\<close> lists give the new one.
\<close>

section \<open>Events\<close>

fun apply_events :: "'n num_facts \<Rightarrow> mirror_entity \<Rightarrow> 'n jsval list \<Rightarrow> 'n jsval list \<Rightarrow> 'n jsval list option" where
  "apply_events N e its [] = Some its"
| "apply_events N e its (ev # evs) = Option.bind (applyWholesaleFeedEvent N e its ev) (\<lambda>its'. apply_events N e its' evs)"

lemma apply_events_append:
  "apply_events N e its (evs @ evs') = Option.bind (apply_events N e its evs) (\<lambda>its'. apply_events N e its' evs')"
  by (induction evs arbitrary: its) (auto simp: bind_assoc)

lemma emitted_type: "event_type (emit_event e cs stamp eid action data) = js (entity_name e @ ''.'' @ action)"
  by (simp add: event_type_def emit_event_def Let_def)

lemma emitted_payload:
  "event_payload (emit_event e cs stamp (Some eid) action data) =
     JObj ((js (id_name e), JStr eid) # data @ [(js ''applies_to'', JObj [(js ''scope'', JStr (js (scope_name cs)))])])"
  by (simp add: event_payload_def emit_event_def Let_def)

lemma event_kinds:
  "\<not> ends ''.removed'' (js (entity_name e @ ''.created''))" "\<not> ends ''.priced'' (js (entity_name e @ ''.created''))"
  "\<not> ends ''.removed'' (js (entity_name e @ ''.updated''))" "\<not> ends ''.priced'' (js (entity_name e @ ''.updated''))"
  "\<not> ends ''.removed'' (js (entity_name e @ ''.priced''))" "ends ''.priced'' (js (entity_name e @ ''.priced''))"
  "ends ''.removed'' (js (entity_name e @ ''.removed''))"
  by (cases e; simp add: ends_def starts_with_def js_def)+

lemma record_truthy: "is_record v \<Longrightarrow> truthy N v"
  by (cases v) (simp_all add: is_record_def)

lemma names_apart: "entity_name e \<noteq> id_name e" "id_name e \<noteq> ''pricing_options''"
  by (cases e; simp)+

lemma apply_put:
  assumes "itemId e item = Some eid" "eid \<noteq> []" "action \<in> {''created'', ''updated''}"
  shows "applyWholesaleFeedEvent N e its (emit_event e cs stamp (Some eid) action [(js (entity_name e), item)])
    = Some (place_item e eid item (index_items e its))"
proof -
  have "truthy N item" using itemId_record [OF assms(1)] by (rule record_truthy)
  then show ?thesis using assms names_apart [of e]
    by (auto simp: applyWholesaleFeedEvent_def emitted_type emitted_payload event_kinds Let_def)
qed

lemma apply_priced:
  assumes "catalog e its (Some eid) = Some prior" "eid \<noteq> []"
  shows "applyWholesaleFeedEvent N e its (emit_event e cs stamp (Some eid) ''priced'' [(js ''pricing_options'', JArr ps)])
    = Some (place_item e eid (with_member prior ''pricing_options'' (JArr ps)) (index_items e its))"
proof -
  have "truthy N prior" using itemId_record [OF catalog_id [OF assms(1)]] by (rule record_truthy)
  then show ?thesis using assms names_apart [of e]
    by (simp add: applyWholesaleFeedEvent_def emitted_type emitted_payload event_kinds Let_def)
qed

lemma apply_removed:
  assumes "eid \<noteq> []"
  shows "applyWholesaleFeedEvent N e its (emit_event e cs stamp (Some eid) ''removed'' [])
    = Some (map snd (AList.delete (Some eid) (index_items e its)))"
  using assms by (simp add: applyWholesaleFeedEvent_def emitted_type emitted_payload event_kinds Let_def)

lemma catalog_put:
  assumes "itemId e item = Some eid"
  shows "catalog e (place_item e eid item (index_items e its)) = (catalog e its)(Some eid \<mapsto> item)"
proof -
  have "keyed e (AList.update (Some eid) item (index_items e its))" using assms by simp
  then show ?thesis unfolding place_item_def by (simp add: index_values update_conv')
qed

lemma catalog_removed: "catalog e (map snd (AList.delete k (index_items e its))) = (catalog e its)(k := None)"
  by (simp add: index_values delete_conv')

section \<open>The events of one item\<close>

text \<open>Rows as the protocol has them: an id, and prices that are a list where they are given.\<close>

definition feed_row :: "mirror_entity \<Rightarrow> 'n jsval \<Rightarrow> bool" where
  "feed_row e item \<longleftrightarrow> some_text (itemId e item)
     \<and> (has_member item ''pricing_options'' \<longrightarrow> (\<exists>ps. read_member item ''pricing_options'' = JArr ps))"

lemma missing_member_differs:
  assumes "is_record prior" "\<not> has_member item k"
  shows "\<not> deep_equal (with_member prior k x) item"
proof (cases item)
  case (JObj gs)
  obtain fs where p: "prior = JObj fs" using assms(1) by (cases prior) (simp_all add: is_record_def)
  have "(js k, x) \<in> set (AList.update (js k) x fs)" by (rule map_of_SomeD) (simp add: update_conv')
  moreover have "map_of gs (js k) = None" using assms(2) JObj by simp
  ultimately show ?thesis using JObj p by (force simp: list_all_iff)
qed (use assms in \<open>cases prior; simp add: is_record_def\<close>)+

lemma item_events_apply:
  assumes row: "feed_row e item" "itemId e item = Some eid" and here: "catalog e its (Some eid) = map_of before (Some eid)"
  shows "\<exists>its'. apply_events N e its (item_events e cs True s1 s2 before (Some eid, item)) = Some its'
    \<and> rel_option same_item (catalog e its' (Some eid)) (Some item) \<and> (\<forall>k. k \<noteq> Some eid \<longrightarrow> catalog e its' k = catalog e its k)"
proof -
  have ne: "eid \<noteq> []" using row by (auto simp: feed_row_def some_text_def)
  let ?prices = "read_member item ''pricing_options''"
  let ?updated = "emit_event e cs s2 (Some eid) ''updated'' [(js (entity_name e), item)]"
  have put: "\<exists>its''. apply_events N e its' [?updated] = Some its'' \<and> rel_option same_item (catalog e its'' (Some eid)) (Some item)
      \<and> (\<forall>k. k \<noteq> Some eid \<longrightarrow> catalog e its'' k = catalog e its' k)" for its'
    using apply_put [OF row(2) ne, of "''updated''" N its' cs s2] catalog_put [OF row(2), of its'] by (simp add: same_item_def)
  show ?thesis
  proof (cases "map_of before (Some eid)")
    case None
    then show ?thesis using apply_put [OF row(2) ne, of "''created''" N its cs s1] catalog_put [OF row(2), of its]
      by (simp add: item_events_def Let_def same_item_def)
  next
    case (Some prior)
    have prior: "itemId e prior = Some eid" "is_record prior" "catalog e its (Some eid) = Some prior"
      using here Some catalog_id [of e its "Some eid" prior] itemId_record by auto
    show ?thesis
    proof (cases "deep_equal (read_member prior ''pricing_options'') ?prices")
      case True
      show ?thesis
      proof (cases "deep_equal prior item")
        case eq: True
        then have "item_events e cs True s1 s2 before (Some eid, item) = []" using True Some by (simp add: item_events_def Let_def)
        then show ?thesis using prior(3) eq by (simp add: same_item_def)
      next
        case False
        then have "item_events e cs True s1 s2 before (Some eid, item) = [?updated]" using True Some by (simp add: item_events_def Let_def)
        then show ?thesis using put [of its] by (simp del: apply_events.simps)
      qed
    next
      case differ: False
      obtain ps where ps: "or_empty_array ?prices = JArr ps"
        using row(1) by (cases item) (auto simp: feed_row_def or_empty_array_def split: option.splits)
      let ?priced = "emit_event e cs s1 (Some eid) ''priced'' [(js ''pricing_options'', JArr ps)]"
      let ?new = "with_member prior ''pricing_options'' (JArr ps)"
      let ?mid = "place_item e eid ?new (index_items e its)"
      have a: "applyWholesaleFeedEvent N e its ?priced = Some ?mid" by (rule apply_priced [OF prior(3) ne])
      have "itemId e ?new = Some eid" using itemId_with_prices [OF prior(2)] prior(1) by simp
      note mid = catalog_put [OF this, of its]
      show ?thesis
      proof (cases "deep_equal (with_member prior ''pricing_options'' ?prices) item")
        case True
        then have "has_member item ''pricing_options''" using missing_member_differs [OF prior(2)] by blast
        then have "?prices = JArr ps" using row(1) ps by (auto simp: feed_row_def or_empty_array_def)
        then show ?thesis using True a mid Some differ ps by (simp add: item_events_def Let_def same_item_def)
      next
        case False
        then have "item_events e cs True s1 s2 before (Some eid, item) = [?priced, ?updated]"
          using Some differ ps by (simp add: item_events_def Let_def)
        then show ?thesis using a put [of ?mid] mid by simp
      qed
    qed
  qed
qed

section \<open>All events\<close>

lemma entries_apply:
  fixes N :: "'n num_facts"
  assumes "distinct (map (fst \<circ> snd) xs)"
    and "\<And>x. x \<in> set xs \<Longrightarrow> feed_row e (snd (snd x)) \<and> itemId e (snd (snd x)) = fst (snd x)"
    and "\<And>x. x \<in> set xs \<Longrightarrow> catalog e its (fst (snd x)) = map_of before (fst (snd x))"
  shows "\<exists>its'. apply_events N e its (concat (map (\<lambda>(i, entry). item_events e cs True (f i) (g i) before entry) xs)) = Some its'
    \<and> (\<forall>x \<in> set xs. rel_option same_item (catalog e its' (fst (snd x))) (Some (snd (snd x))))
    \<and> (\<forall>k. k \<notin> (fst \<circ> snd) ` set xs \<longrightarrow> catalog e its' k = catalog e its k)"
  using assms
proof (induction xs arbitrary: its)
  case (Cons x xs)
  obtain i k item where x: "x = (i, k, item)" by (cases x) auto
  have row: "feed_row e item" "itemId e item = k" using Cons.prems(2) [of x] x by simp_all
  then obtain eid where eid: "k = Some eid" by (auto simp: feed_row_def some_text_def)
  obtain its1 where one: "apply_events N e its (item_events e cs True (f i) (g i) before (k, item)) = Some its1"
      "rel_option same_item (catalog e its1 k) (Some item)" "\<forall>k'. k' \<noteq> k \<longrightarrow> catalog e its1 k' = catalog e its k'"
    using item_events_apply [OF row(1), of eid its before N cs "f i" "g i"] row(2) Cons.prems(3) [of x] x eid by auto
  have apart: "fst (snd y) \<noteq> k" if "y \<in> set xs" for y using Cons.prems(1) that x by (force simp: image_iff)
  obtain its2 where two:
      "apply_events N e its1 (concat (map (\<lambda>(i, entry). item_events e cs True (f i) (g i) before entry) xs)) = Some its2"
      "\<forall>y \<in> set xs. rel_option same_item (catalog e its2 (fst (snd y))) (Some (snd (snd y)))"
      "\<forall>k. k \<notin> (fst \<circ> snd) ` set xs \<longrightarrow> catalog e its2 k = catalog e its1 k"
    using Cons.IH [of its1] Cons.prems one(3) apart by auto
  have "k \<notin> (fst \<circ> snd) ` set xs" using apart by force
  then have "catalog e its2 k = catalog e its1 k" using two(3) by blast
  then show ?case using one two x by (intro exI [of _ its2]) (auto simp: apply_events_append)
qed simp

lemma removals_apply:
  assumes "\<And>x. x \<in> set ks \<Longrightarrow> some_text (snd x)"
  shows "\<exists>its'. apply_events N e its (map (\<lambda>(i, k). emit_event e cs (h i) k ''removed'' []) ks) = Some its'
    \<and> (\<forall>k. catalog e its' k = (if k \<in> snd ` set ks then None else catalog e its k))"
  using assms
proof (induction ks arbitrary: its)
  case (Cons x ks)
  obtain i eid where x: "x = (i, Some eid)" "eid \<noteq> []" using Cons.prems [of x] by (cases x) (auto simp: some_text_def)
  let ?its1 = "map snd (AList.delete (Some eid) (index_items e its))"
  obtain its' where "apply_events N e ?its1 (map (\<lambda>(i, k). emit_event e cs (h i) k ''removed'' []) ks) = Some its'"
      "\<forall>k. catalog e its' k = (if k \<in> snd ` set ks then None else catalog e ?its1 k)"
    using Cons.IH [of ?its1] Cons.prems by auto
  then show ?case using x by (auto simp: apply_removed [OF x(2)] catalog_removed)
qed simp

lemma diff_carries:
  assumes "\<forall>it \<in> set previous. some_text (itemId e it)" "\<forall>it \<in> set next. feed_row e it"
  shows "\<exists>its. apply_events N e previous (diffWholesaleFeed stamps e previous next cs True) = Some its \<and> same_catalog e its next"
proof -
  let ?before = "index_items e previous" and ?after = "index_items e next"
  let ?xs = "enumerate 0 ?after" and ?ks = "enumerate 0 (filter (\<lambda>k. map_of ?after k = None) (map fst ?before))"
  let ?ev = "concat (map (\<lambda>(i, entry). item_events e cs True (stamps (2 * i)) (stamps (2 * i + 1)) ?before entry) ?xs)"
  have xs: "map snd ?xs = ?after" by simp
  have keys: "map (fst \<circ> snd) ?xs = map fst ?after" by (simp only: map_map [symmetric] xs)
  have d: "distinct (map (fst \<circ> snd) ?xs)" unfolding keys by (rule keyed_distinct [OF keyed_index])
  have entry: "snd x \<in> set ?after" if "x \<in> set ?xs" for x
    using imageI [OF that, of snd] xs by (metis set_map)
  have row: "feed_row e (snd (snd x)) \<and> itemId e (snd (snd x)) = fst (snd x)" if "x \<in> set ?xs" for x
  proof -
    have "catalog e next (fst (snd x)) = Some (snd (snd x))"
      using entry [OF that] keyed_distinct [OF keyed_index] by (metis map_of_eq_Some_iff prod.collapse)
    then show ?thesis using catalog_mem catalog_id assms(2) by blast
  qed
  obtain its1 where its1: "apply_events N e previous ?ev = Some its1"
      "\<forall>x \<in> set ?xs. rel_option same_item (catalog e its1 (fst (snd x))) (Some (snd (snd x)))"
      "\<forall>k. k \<notin> (fst \<circ> snd) ` set ?xs \<longrightarrow> catalog e its1 k = catalog e previous k"
    using entries_apply [of ?xs e previous ?before N cs "\<lambda>i. stamps (2 * i)" "\<lambda>i. stamps (2 * i + 1)", OF d row refl] by blast
  have ids: "some_text (snd x)" if "x \<in> set ?ks" for x
  proof -
    have "snd x \<in> set (map snd ?ks)" unfolding set_map by (rule imageI [OF that])
    then have "snd x \<in> fst ` set ?before" by (simp only: map_snd_enumerate) simp
    then have "snd x \<in> itemId e ` set previous" using catalog_None_iff map_of_eq_None_iff by metis
    then show ?thesis using assms(1) by auto
  qed
  obtain its2 where its2: "apply_events N e its1 (map (\<lambda>(i, k). emit_event e cs (stamps (2 * length ?after + i)) k ''removed'' []) ?ks) = Some its2"
      "\<forall>k. catalog e its2 k = (if k \<in> snd ` set ?ks then None else catalog e its1 k)"
    using removals_apply [of ?ks N e its1 cs "\<lambda>i. stamps (2 * length ?after + i)", OF ids] by blast
  have gone: "k \<in> snd ` set ?ks \<longleftrightarrow> catalog e next k = None \<and> catalog e previous k \<noteq> None" for k
    by (simp only: set_map [symmetric] map_snd_enumerate) (auto simp: map_of_eq_None_iff)
  have "rel_option same_item (catalog e its2 k) (catalog e next k)" for k
  proof (cases "catalog e next k")
    case None
    then have "k \<notin> set (map (fst \<circ> snd) ?xs)" unfolding keys by (simp add: map_of_eq_None_iff)
    then have "k \<notin> (fst \<circ> snd) ` set ?xs" unfolding set_map .
    then have "catalog e its1 k = catalog e previous k" using its1(3) by blast
    then show ?thesis using its2(2) gone [of k] None by auto
  next
    case (Some it)
    then have "(k, it) \<in> set (map snd ?xs)" unfolding xs by (rule map_of_SomeD)
    then obtain x where "x \<in> set ?xs" "snd x = (k, it)" unfolding set_map by (metis imageE)
    then have "rel_option same_item (catalog e its1 k) (Some it)" using its1(2) by force
    then show ?thesis using its2(2) gone [of k] Some by auto
  qed
  then show ?thesis
    using its1(1) its2(1) unfolding diffWholesaleFeed_def Let_def same_catalog_def by (auto simp: apply_events_append)
qed

end
