(* ===== verification/FeedOutcomes.thy ===== *)
theory FeedOutcomes
  imports FeedConcurrency FeedDiff
begin

text \<open>
  What the end of a mirror job says of the store, over every interleaving of jobs, what the pages of a refresh
  are, and that a job on its own ends.
\<close>

section \<open>The end of a job\<close>

text \<open>Snapshots that agree but for the order of the rows and deeply equal rows.\<close>

definition same_snapshot :: "mirror_entity \<Rightarrow> 'n feed_snapshot \<Rightarrow> 'n feed_snapshot \<Rightarrow> bool" where
  "same_snapshot e s s' \<longleftrightarrow> same_catalog e (items s) (items s') \<and> s\<lparr>items := []\<rparr> = s'\<lparr>items := []\<rparr>"

lemma settle_done: "settle E k out = MirrorDone (Inr out') \<Longrightarrow> out' = out"
  by (auto simp: settle_def split: option.splits refresh_outcome.splits if_splits)

lemma settle_not_failed: "settle E k out \<noteq> MirrorDone (Inl e)"
  by (auto simp: settle_def split: option.splits refresh_outcome.splits)

lemma after_commit_done:
  "after_commit E k out a = MirrorDone (Inr out') \<Longrightarrow> (a = Inr True \<and> out' = out) \<or> (a = Inr False \<and> out' = Superseded)"
  by (auto simp: after_commit_def dest: settle_done split: sum.splits if_splits)

lemma changed_next:
  "changed_snapshot e (row_change e (items prev) its t now eid mk) prev
     = (next_snapshot prev its t now eid mk)\<lparr>items := changed_items e (row_change e (items prev) its t now eid mk) (items prev)\<rparr>"
  by (simp add: changed_snapshot_def next_snapshot_def row_change_def split: option.split)

lemma planned_commit:
  assumes "planned N e prev ch (Applied next d)"
  shows "revision next = Suc (revision prev) \<and> explains N e prev next d \<and> same_snapshot e (changed_snapshot e ch prev) next"
proof -
  obtain its t now eid mk where p: "ch = row_change e (items prev) its t now eid mk" "next = next_snapshot prev its t now eid mk"
      "distinct (map (itemId e) its)" "explains N e prev next d"
    using assms unfolding planned_def by blast
  have i: "items next = its" "revision next = Suc (revision prev)" by (simp_all add: p(2) next_snapshot_def)
  have "changed_snapshot e ch prev = next\<lparr>items := changed_items e ch (items prev)\<rparr>"
    unfolding p(1,2) by (rule changed_next)
  then show ?thesis using row_change_exact [OF p(3)] p(4) i unfolding same_snapshot_def p(1) by simp
qed

fun pending :: "'n mirror_pc \<Rightarrow> ('n feed_snapshot \<times> 'n feed_change \<times> 'n refresh_outcome) option" where
  "pending (RefreshCommit ctx prev ch out) = Some (prev, ch, out)"
| "pending (DeltaCommit k prev ch out) = Some (prev, ch, out)"
| "pending _ = None"

lemma pending_ok:
  "pending pc = Some (prev, ch, out) \<Longrightarrow> pc_ok P job pc v
    \<Longrightarrow> held prev (fst v) \<and> planned (wp_numbers P) (entity (job_scope job)) prev ch out"
  by (cases pc) auto

context mirror_store begin

lemma finished_step:
  assumes "feed_step S P jobs i s s'" "finishes s s' i out"
  obtains (commit) prev ch where "pending (job_pc s i) = Some (prev, ch, out)"
      "fs_commit S (job_scope (jobs i)) (revision prev) ch (sys_store s) = (Inr True, sys_store s')"
    | (error) ctx prev err where "job_pc s i = RefreshError ctx prev err" "out = Degraded err"
      "fs_recordError S (job_scope (jobs i)) (revision prev) err (sys_store s) = (True, sys_store s')"
    | (stale) prev ch out' where "out = Superseded" "pending (job_pc s i) = Some (prev, ch, out')"
      "fs_commit S (job_scope (jobs i)) (revision prev) ch (sys_store s) = (Inr False, sys_store s')"
    | (stale_error) prev :: "'n feed_snapshot" and err where "out = Superseded"
      "fs_recordError S (job_scope (jobs i)) (revision prev) err (sys_store s) = (False, sys_store s')"
    | (untouched) "out = Superseded \<or> (\<exists>prev. out = Unchanged prev)" "pending (job_pc s i) = None" "sys_store s' = sys_store s"
proof -
  obtain E pc' st' where step: "mirror_step S P E (jobs i) (job_pc s i) (sys_store s) = (pc', st')"
      and s': "s' = \<lparr>job_pc = (job_pc s)(i := pc'), sys_store = st'\<rparr>"
    using assms(1) by (rule feed_stepE)
  have fin: "pc' = MirrorDone (Inr out)" "\<And>r. job_pc s i \<noteq> MirrorDone r" using assms(2) by (auto simp: finishes_def s')
  have st': "sys_store s' = st'" by (simp add: s')
  show thesis
  proof (cases "job_pc s i")
    case (RefreshRead ctx)
    let ?prev = "fs_read S (job_scope (jobs i)) (sys_store s)"
    have r: "st' = sys_store s" "refresh_plan E (job_options (jobs i)) ctx ?prev = MirrorDone (Inr out)"
      using step RefreshRead fin(1) by auto
    have "out = Superseded"
    proof (cases rule: refresh_plan_cases [where E = E and opts = "job_options (jobs i)" and ctx = ctx and prev = ?prev and N = "wp_numbers P"])
      case settled
      then show ?thesis using r(2) settle_done by metis
    qed (use r(2) in simp_all)
    then show thesis using untouched r(1) st' RefreshRead by simp
  next
    case (RefreshCommit ctx prev ch out')
    obtain a where a: "fs_commit S (job_scope (jobs i)) (revision prev) ch (sys_store s) = (a, st')" "pc' = after_commit E (rc_attempt ctx) out' a"
      using step RefreshCommit by (auto split: prod.splits)
    then show thesis using after_commit_done [of E "rc_attempt ctx" out' a out] commit stale fin(1) RefreshCommit st' by auto
  next
    case (DeltaCommit k prev ch out')
    obtain a where a: "fs_commit S (job_scope (jobs i)) (revision prev) ch (sys_store s) = (a, st')" "pc' = after_commit E (Some k) out' a"
      using step DeltaCommit by (auto split: prod.splits)
    then show thesis using after_commit_done [of E "Some k" out' a out] commit stale fin(1) DeltaCommit st' by auto
  next
    case (RefreshError ctx prev err)
    obtain ok where ok: "fs_recordError S (job_scope (jobs i)) (revision prev) err (sys_store s) = (ok, st')"
        "pc' = settle E (rc_attempt ctx) (if ok then Degraded err else Superseded)"
      using step RefreshError by (auto split: prod.splits)
    have "out = (if ok then Degraded err else Superseded)" using settle_done ok(2) fin(1) by metis
    then show thesis using error [OF RefreshError] stale_error [of prev err] ok(1) st' by (cases ok) simp_all
  next
    case (WebhookRead k)
    then show thesis using step fin(1) by simp
  next
    case (WebhookReceipt k prev)
    show thesis
    proof (cases "jobs i")
      case (WebhookJob w)
      show thesis
      proof (cases "check_webhook P w")
        case (Inr n)
        let ?seen = "fs_hasReceipt S (job_scope (jobs i)) (idempotencyKey n) (sys_store s)"
        have r: "st' = sys_store s" "webhook_plan P E w n k prev ?seen = MirrorDone (Inr out)"
          using step WebhookReceipt WebhookJob Inr fin(1) by auto
        have "out = Superseded \<or> (\<exists>prev. out = Unchanged prev)"
        proof (cases rule: webhook_plan_cases [where P = P and E = E and w = w and n = n and k = k and prev = prev and seen = ?seen])
          case (settled out')
          then show ?thesis using r(2) settle_done [of E "Some k" out' out] by auto
        qed (use r(2) in simp_all)
        then show thesis using untouched r(1) st' WebhookReceipt by simp
      qed (use step WebhookReceipt WebhookJob fin(1) in auto)
    qed (use step WebhookReceipt fin(1) in auto)
  next
    case (MirrorDone r)
    then show thesis using fin(2) by simp
  qed
qed

lemma commit_replaces_read:
  assumes ok: "sys_ok S inv P jobs s" and p: "pending (job_pc s i) = Some (prev, ch, out)"
    and c: "fs_commit S (job_scope (jobs i)) (revision prev) ch (sys_store s) = (Inr True, st')"
  shows "fs_read S (job_scope (jobs i)) (sys_store s) = prev
    \<and> planned (wp_numbers P) (entity (job_scope (jobs i))) prev ch out
    \<and> feed_view S (job_scope (jobs i)) st'
      = (changed_snapshot (entity (job_scope (jobs i))) ch prev, snd (feed_view S (job_scope (jobs i)) (sys_store s)) \<union> receipt_keys ch)"
proof -
  let ?sc = "job_scope (jobs i)"
  have i: "inv (sys_store s)" "pc_ok P (jobs i) (job_pc s i) (feed_view S ?sc (sys_store s))" using ok by (simp_all add: sys_ok_def)
  have pl: "held prev (fs_read S ?sc (sys_store s))" "planned (wp_numbers P) (entity ?sc) prev ch out"
    using pending_ok [OF p i(2)] by (simp_all add: feed_view_def)
  note cd = commit_done [OF i(1) c]
  have "fs_read S ?sc (sys_store s) = prev" using pl(1) cd by (simp add: held_def)
  then show ?thesis using pl(2) cd by simp
qed

lemma applied_outcome:
  assumes ok: "sys_ok S inv P jobs s" and "feed_step S P jobs i s s'" "finishes s s' i (Applied next d)"
  defines "sc \<equiv> job_scope (jobs i)"
  shows "revision next = Suc (revision (fs_read S sc (sys_store s)))
    \<and> explains (wp_numbers P) (entity sc) (fs_read S sc (sys_store s)) next d
    \<and> same_snapshot (entity sc) (fs_read S sc (sys_store s')) next"
  using assms(2,3)
proof (cases rule: finished_step)
  case (commit prev ch)
  note c = commit_replaces_read [OF ok commit, folded sc_def]
  have "fs_read S sc (sys_store s') = changed_snapshot (entity sc) ch prev" using c by (simp add: feed_view_def)
  then show ?thesis using c planned_commit [of "wp_numbers P" "entity sc" prev ch "next" d] by simp
qed simp_all

lemma delta_outcome:
  assumes ok: "sys_ok S inv P jobs s" and "feed_step S P jobs i s s'" "finishes s s' i (Applied next d)" "is_delta (job_pc s i)"
  obtains n where "job_notification P (jobs i) = Some n"
    "\<not> fs_hasReceipt S (job_scope (jobs i)) (idempotencyKey n) (sys_store s)"
    "fs_hasReceipt S (job_scope (jobs i)) (idempotencyKey n) (sys_store s')"
  using assms(2,3)
proof (cases rule: finished_step)
  case (commit prev ch)
  let ?sc = "job_scope (jobs i)"
  note c = commit_replaces_read [OF ok commit]
  obtain k where k: "job_pc s i = DeltaCommit k prev ch (Applied next d)"
    using commit(1) assms(4) by (cases "job_pc s i") (auto simp: is_delta_def)
  have "pc_ok P (jobs i) (job_pc s i) (feed_view S ?sc (sys_store s))" using ok by (simp add: sys_ok_def)
  then obtain n where n: "job_notification P (jobs i) = Some n" "receipt_keys ch = {idempotencyKey n}"
      "idempotencyKey n \<notin> snd (feed_view S ?sc (sys_store s))"
    using k c by (auto simp: feed_view_def)
  moreover have "idempotencyKey n \<in> snd (feed_view S ?sc (sys_store s'))" using c n(2) by simp
  ultimately show thesis using that by (simp add: feed_view_def)
qed simp_all

lemma degraded_outcome:
  assumes ok: "sys_ok S inv P jobs s" and "feed_step S P jobs i s s'" "finishes s s' i (Degraded err)"
  shows "feed_view S sc (sys_store s') =
    (if sc = job_scope (jobs i)
     then ((fs_read S sc (sys_store s))\<lparr>revision := Suc (revision (fs_read S sc (sys_store s))), snapshot_error := Some err\<rparr>,
           snd (feed_view S sc (sys_store s)))
     else feed_view S sc (sys_store s))"
proof -
  have i: "inv (sys_store s)" using ok by (simp add: sys_ok_def)
  from assms(2,3) show ?thesis
  proof (cases rule: finished_step)
    case (commit prev ch)
    then have "planned (wp_numbers P) (entity (job_scope (jobs i))) prev ch (Degraded err)"
      using commit_replaces_read [OF ok commit] by simp
    then show ?thesis by (auto simp: planned_def)
  next
    case (error ctx prev err')
    then show ?thesis using error_done [OF i error(3)] error_elsewhere [OF i, of sc "job_scope (jobs i)" "revision prev" err'] by auto
  qed simp_all
qed

end

section \<open>The pages of a refresh\<close>

text \<open>A page states no version, or the committed one.\<close>

definition agrees :: "feed_tokens \<Rightarrow> 'n feed_body \<Rightarrow> bool" where
  "agrees t body \<longleftrightarrow> body_feedVersion body \<in> {None, tk_feed t} \<and> body_pricingVersion body \<in> {None, tk_pricing t}
     \<and> body_cacheScope body \<in> {None, Some (tk_scope t)}"

text \<open>The j-th page was delivered to a current job in answer to the cursor of the page before.\<close>

definition delivered :: "'n step_env \<Rightarrow> 'n refresh_options \<Rightarrow> 'n feed_snapshot \<Rightarrow> jsstr option \<Rightarrow> nat \<Rightarrow> 'n feed_body list \<Rightarrow> nat \<Rightarrow> bool" where
  "delivered E opts prev cursor page bodies j \<longleftrightarrow>
     (\<exists>r. seller E (page + j + 1) (page_request opts prev (if j = 0 then cursor else next_cursor (bodies ! (j - 1)))) = Answered r
       \<and> current_page E (page + j + 1) \<and> \<not> result_failed r \<and> result_data r = Some (bodies ! j))"

lemma unchanged_tokens: "\<not> tokens_changed t body \<Longrightarrow> next_tokens t body = t \<and> agrees t body"
  by (cases t) (auto simp: tokens_changed_def next_tokens_def agrees_def split: option.splits)

lemma next_tokens_agrees: "agrees (next_tokens t body) body"
  by (auto simp: next_tokens_def agrees_def split: option.split)

definition page_chain ::
    "'n step_env \<Rightarrow> 'n refresh_options \<Rightarrow> 'n feed_snapshot \<Rightarrow> jsstr option \<Rightarrow> nat \<Rightarrow> 'n feed_body list \<Rightarrow> 'n jsval list list \<Rightarrow> feed_tokens \<Rightarrow> bool" where
  "page_chain E opts prev cursor page bodies rss t \<longleftrightarrow>
     bodies \<noteq> [] \<and> page + length bodies \<le> MAX_PAGES \<and> (\<forall>j < length bodies. delivered E opts prev cursor page bodies j)
     \<and> (\<forall>j. Suc j < length bodies \<longrightarrow> has_more (bodies ! j)) \<and> \<not> has_more (last bodies)
     \<and> map (body_rows (entity (ro_scope opts))) bodies = map Some rss
     \<and> (\<forall>it \<in> set (concat rss). some_text (itemId (entity (ro_scope opts)) it))
     \<and> (\<forall>b \<in> set bodies. agrees t b)"

lemma page_chain_Cons:
  assumes "page_chain E opts prev (next_cursor body) (page + 1) bodies rss t" "has_more body" "agrees t body"
    and "seller E (page + 1) (page_request opts prev cursor) = Answered r" "current_page E (page + 1)" "\<not> result_failed r"
    and "result_data r = Some body" "body_rows (entity (ro_scope opts)) body = Some rs"
    and "list_all (\<lambda>it. some_text (itemId (entity (ro_scope opts)) it)) rs"
  shows "page_chain E opts prev cursor page (body # bodies) (rs # rss) t"
proof -
  note c = assms(1) [unfolded page_chain_def]
  have "delivered E opts prev cursor page (body # bodies) j" if j: "j < length (body # bodies)" for j
  proof (cases j)
    case 0
    then show ?thesis using assms by (simp add: delivered_def)
  next
    case (Suc i)
    then have "delivered E opts prev (next_cursor body) (page + 1) bodies i" using c j by simp
    moreover have "(if i = 0 then next_cursor body else next_cursor (bodies ! (i - 1))) = next_cursor ((body # bodies) ! i)"
      by (cases i) simp_all
    ultimately show ?thesis using Suc by (simp add: delivered_def)
  qed
  moreover have "has_more ((body # bodies) ! j)" if "Suc j < length (body # bodies)" for j
    using that c assms(2) by (cases j) simp_all
  ultimately show ?thesis using c assms unfolding page_chain_def by (auto simp: list_all_iff)
qed

lemma collect_pages:
  assumes "collect E opts prev page cursor cursors m t = Collected m' t' False"
  shows "\<exists>bodies rss. page_chain E opts prev cursor page bodies rss t'
    \<and> m' = put_items (entity (ro_scope opts)) (concat rss) m \<and> (1 \<le> page \<longrightarrow> t' = t)"
  using assms
proof (induction "MAX_PAGES - page" arbitrary: page cursor cursors m t rule: less_induct)
  case less
  from less.prems show ?case
  proof (cases rule: collect_cases)
    case (rows r body rs)
    have "agrees (next_tokens t body) body" "1 \<le> page \<longrightarrow> next_tokens t body = t"
      using next_tokens_agrees unchanged_tokens [of t body] rows(6) by simp_all
    moreover have "delivered E opts prev cursor page [body] 0" using rows by (simp add: delivered_def)
    ultimately have "page_chain E opts prev cursor page [body] [rs] t'"
      using rows by (simp add: page_chain_def list_all_iff)
    then show ?thesis using rows \<open>1 \<le> page \<longrightarrow> next_tokens t body = t\<close> by (intro exI [of _ "[body]"] exI [of _ "[rs]"]) simp
  next
    case (more r body rs)
    have "MAX_PAGES - (page + 1) < MAX_PAGES - page" using more(1) by simp
    from less.hyps [OF this more(13)] obtain bodies rss where
      b: "page_chain E opts prev (next_cursor body) (page + 1) bodies rss t'"
        "m' = put_items (entity (ro_scope opts)) (concat rss) (put_items (entity (ro_scope opts)) rs m)" "t' = next_tokens t body"
      by auto
    have "agrees t' body" unfolding b(3) by (rule next_tokens_agrees)
    from page_chain_Cons [OF b(1) more(10) this more(2-5) more(8,9)]
    have "page_chain E opts prev cursor page (body # bodies) (rs # rss) t'" .
    moreover have "1 \<le> page \<longrightarrow> t' = t" using b(3) unchanged_tokens [of t body] more(6) by simp
    ultimately show ?thesis using b(2) by (intro exI [of _ "body # bodies"] exI [of _ "rs # rss"]) simp
  qed simp
qed

section \<open>A job on its own\<close>

text \<open>Steps of one job with nothing in between, the environment of each step given by its number.\<close>

fun job_run ::
    "('n, 's) feed_store \<Rightarrow> 'n webhook_platform \<Rightarrow> (nat \<Rightarrow> 'n step_env) \<Rightarrow> 'n mirror_job \<Rightarrow> nat \<Rightarrow> 'n mirror_pc \<times> 's \<Rightarrow> 'n mirror_pc \<times> 's" where
  "job_run S P E job 0 x = x"
| "job_run S P E job (Suc n) x = (case mirror_step S P (E (Suc n)) job (fst x) (snd x) of y \<Rightarrow> job_run S P E job n y)"

definition stays_current :: "'n step_env \<Rightarrow> bool" where
  "stays_current E \<longleftrightarrow> current_read E \<and> (\<forall>n. current_page E n) \<and> current_failed E \<and> current_commit E"

definition job_ended :: "'n mirror_pc \<Rightarrow> bool" where
  "job_ended pc \<longleftrightarrow> (\<exists>r. pc = MirrorDone r \<and> r \<noteq> Inr Superseded)"

lemma settle_ended: "out \<noteq> Superseded \<Longrightarrow> job_ended (settle E k out)"
  by (auto simp: job_ended_def settle_def split: option.splits refresh_outcome.splits)

lemma after_commit_ended: "a \<noteq> Inr False \<Longrightarrow> out \<noteq> Superseded \<Longrightarrow> job_ended (after_commit E k out a)"
  by (auto simp: after_commit_def settle_ended split: sum.splits) (auto simp: job_ended_def)

lemma collect_current: "(\<forall>n. current_page E n) \<Longrightarrow> collect E opts prev page cursor cursors m t \<noteq> CollectSuperseded"
proof (induction "MAX_PAGES - page" arbitrary: page cursor cursors m t rule: less_induct)
  case less
  show ?case
    using less.hyps less.prems
    by (subst collect.simps) (auto simp: Let_def split: feed_answer.splits option.splits)
qed

text \<open>A job that is about to write over the snapshot it has just read.\<close>

definition about_to_write :: "'n mirror_pc \<Rightarrow> 'n feed_snapshot \<Rightarrow> bool" where
  "about_to_write pc s \<longleftrightarrow>
     (\<exists>ch out. pending pc = Some (s, ch, out) \<and> out \<noteq> Superseded) \<or> (\<exists>ctx err. pc = RefreshError ctx s err)"

lemma current_refresh_writes:
  assumes "stays_current E" shows "about_to_write (refresh_plan E opts ctx prev) prev"
proof -
  let ?opts = "opts\<lparr>conditional := conditional opts \<and> \<not> rc_unconditional ctx\<rparr>"
  note c = assms [unfolded stays_current_def]
  show ?thesis
    using collect_current [of E ?opts prev 0 None "[]" "[]"] c
    by (cases "collect E ?opts prev 0 None [] [] \<lparr>tk_feed = None, tk_pricing = None, tk_scope = cacheScope prev\<rparr>")
      (auto simp: refresh_plan_def Let_def about_to_write_def)
qed

lemma current_webhook_goes_on:
  assumes "stays_current E"
  shows "job_ended (webhook_plan P E w n k prev seen) \<or> about_to_write (webhook_plan P E w n k prev seen) prev
    \<or> (\<exists>ctx. webhook_plan P E w n k prev seen = RefreshRead ctx)"
  using assms settle_ended [of "Unchanged prev" E "Some k"]
  by (auto simp: webhook_plan_def Let_def about_to_write_def stays_current_def split: option.split)

context mirror_store begin

lemma write_ends:
  assumes "inv st" "about_to_write pc (fs_read S (job_scope job) st)"
  shows "job_ended (fst (mirror_step S P E job pc st))"
proof (cases pc)
  case (RefreshCommit ctx prev ch out)
  then show ?thesis using assms commit_current [OF assms(1), of "job_scope job" ch] after_commit_ended
    by (auto simp: about_to_write_def split: prod.split)
next
  case (DeltaCommit k prev ch out)
  then show ?thesis using assms commit_current [OF assms(1), of "job_scope job" ch] after_commit_ended
    by (auto simp: about_to_write_def split: prod.split)
next
  case (RefreshError ctx prev err)
  then show ?thesis using assms error_current [OF assms(1), of "job_scope job" err] settle_ended
    by (auto simp: about_to_write_def split: prod.split)
qed (use assms(2) in \<open>auto simp: about_to_write_def\<close>)

lemma run_ended: "job_ended pc \<Longrightarrow> job_ended (fst (job_run S P E job n (pc, st)))"
  by (induction n arbitrary: pc st) (auto simp: job_ended_def)

lemma run_write:
  assumes "inv st" "about_to_write pc (fs_read S (job_scope job) st)"
  shows "job_ended (fst (job_run S P E job (Suc n) (pc, st)))"
proof (cases "mirror_step S P (E (Suc n)) job pc st")
  case (Pair pc' st')
  then show ?thesis using run_ended [of pc' P E job n st'] write_ends [OF assms, of P "E (Suc n)"] by simp
qed

lemma run_refresh:
  assumes "inv st" "\<forall>n. stays_current (E n)"
  shows "job_ended (fst (job_run S P E job (Suc (Suc n)) (RefreshRead ctx, st)))"
proof -
  let ?pc = "refresh_plan (E (Suc (Suc n))) (job_options job) ctx (fs_read S (job_scope job) st)"
  have "about_to_write ?pc (fs_read S (job_scope job) st)" using assms(2) by (intro current_refresh_writes) simp
  from run_write [OF assms(1) this] show ?thesis by simp
qed

lemma run_job:
  assumes "inv st" "\<forall>n. stays_current (E n)" "\<forall>w. job = WebhookJob w \<longrightarrow> (\<exists>n. check_webhook P w = Inr n)"
  shows "job_ended (fst (job_run S P E job 4 (start_job P job, st)))"
proof (cases job)
  case (RefreshJob r)
  then show ?thesis using run_refresh [OF assms(1,2), of P job 2 plain_ctx]
    by (simp add: start_job_def numeral_eq_Suc del: job_run.simps)
next
  case (WebhookJob w)
  then obtain n where n: "check_webhook P w = Inr n" using assms(3) by blast
  let ?prev = "fs_read S (job_scope job) st"
  let ?pc = "webhook_plan P (E 3) w n 0 ?prev (fs_hasReceipt S (job_scope job) (idempotencyKey n) st)"
  have "job_run S P E job 4 (start_job P job, st) = job_run S P E job 2 (?pc, st)"
    using WebhookJob n by (simp add: start_job_def numeral_eq_Suc)
  moreover have "job_ended (fst (job_run S P E job 2 (?pc, st)))"
    using current_webhook_goes_on [of "E 3" P w n 0 ?prev "fs_hasReceipt S (job_scope job) (idempotencyKey n) st"] assms(2)
      run_ended [of ?pc P E job 2 st] run_write [OF assms(1), of ?pc job P E 1] run_refresh [OF assms(1,2), of P job 0]
    by (auto simp: numeral_2_eq_2 simp del: job_run.simps)
  ultimately show ?thesis by simp
qed

end

end
