(* ===== verification/FeedProperties.thy ===== *)
theory FeedProperties
  imports FeedOutcomes
begin

text \<open>
  The guarantees of the feed mirror as properties of the in-memory store and its jobs, each applied to a small
  product feed.
\<close>

section \<open>An example\<close>

text \<open>A product feed of one row, its seller, a webhook that removes the row, and the systems that use them.\<close>

definition demo_numbers :: "nat num_facts" where
  "demo_numbers = \<lparr>number_truthy = (\<lambda>n. n \<noteq> 0), positive_integer = (\<lambda>n. 0 < n)\<rparr>"

definition demo_webhook_platform :: "nat webhook_platform" where
  "demo_webhook_platform = \<lparr>parse_text = (\<lambda>_. None), decode_bytes = (\<lambda>_. []), wp_numbers = demo_numbers\<rparr>"

definition demo_scope :: mirror_scope where
  "demo_scope = \<lparr>agentUrl = ''a'', accountKey = ''k'', entity = Product\<rparr>"

definition demo_row :: "nat jsval" where
  "demo_row = JObj [(js ''product_id'', JStr (js ''p'')), (js ''pricing_options'', JArr [JNum 1])]"

definition demo_answer :: "nat feed_answer" where
  "demo_answer = Answered \<lparr>succeeded = Some True, result_status = None, result_adcpError = None, result_data = Some
     \<lparr>unchanged = False, body_products = Some [demo_row], body_signals = None, body_feedVersion = Some (js ''v1''),
      body_pricingVersion = None, body_cacheScope = None, has_more = False, next_cursor = None\<rparr>\<rparr>"

definition demo_step_env :: "nat feed_answer \<Rightarrow> nat step_env" where
  "demo_step_env a = \<lparr>seller = (\<lambda>_ _. a), current_read = True, current_page = (\<lambda>_. True), current_failed = True,
     current_commit = True, current_retry = True, commit_time = [], fresh_stamps = (\<lambda>_. ([], []))\<rparr>"

definition demo_options :: "nat refresh_options" where
  "demo_options = \<lparr>ro_scope = demo_scope, ro_account = None, conditional = True\<rparr>"

definition demo_snapshot :: "nat feed_snapshot" where
  "demo_snapshot = empty_snapshot\<lparr>items := [demo_row], feedVersion := Some (js ''v1'')\<rparr>"

definition demo_event :: "nat jsval" where
  "demo_event = JObj [(js ''event_id'', JStr (js ''e'')), (js ''event_type'', JStr (js ''product.removed'')),
     (js ''entity_type'', JStr (js ''product'')), (js ''entity_id'', JStr (js ''p'')), (js ''created_at'', JStr (js ''t'')),
     (js ''payload'', JObj [(js ''product_id'', JStr (js ''p'')), (js ''applies_to'', JObj [(js ''scope'', JStr (js ''public''))])])]"

definition demo_webhook :: "nat jsval" where
  "demo_webhook = JObj [(js ''event'', demo_event), (js ''idempotency_key'', JStr (js ''i'')), (js ''notification_id'', JStr (js ''e'')),
     (js ''notification_type'', JStr (js ''product.removed'')), (js ''fired_at'', JStr (js ''t'')), (js ''subscriber_id'', JStr (js ''s'')),
     (js ''account_id'', JStr (js ''acc'')), (js ''wholesale_feed_version'', JStr (js ''v2'')),
     (js ''previous_wholesale_feed_version'', JStr (js ''v1'')), (js ''cache_scope'', JStr (js ''public''))]"

definition demo_webhook_options :: "nat webhook_options" where
  "demo_webhook_options = \<lparr>wo_refresh = demo_options, wo_webhook = demo_webhook, wo_accountId = Some (js ''acc''), wo_subscriberId = None\<rparr>"

definition demo_notification :: "nat notification" where
  "demo_notification = \<lparr>idempotencyKey = js ''i'', notificationId = js ''e'', notificationType = EntityEvent True Removed,
     accountId = js ''acc'', subscriberId = js ''s'', firedAt = js ''t'', wh_feedVersion = js ''v2'', wh_previousVersion = Some (js ''v1''),
     wh_cacheScope = PublicScope, eventId = js ''e'', eventType = EntityEvent True Removed, entityType = ProductEntity,
     entityId = js ''p'', eventCreatedAt = js ''t'', affectedEntityType = None, nt_event = demo_event, nt_webhook = demo_webhook\<rparr>"

lemmas webhook_eval = parseWholesaleFeedWebhookNotification_def parseInput_def readRecord_def readRequiredString_def readRequiredRecord_def
  readOptionalString_def readNotificationType_def notification_type_of_def notification_types_def readCacheScope_def cache_scope_of_def
  assertLegacyWholesaleFeedRepresentation_def assertLegacyProductPayloadView_def readEntityType_def assertEntityTypeMatchesNotification_def
  readRequiredPayloadScope_def validatePayloadForEvent_def assertEntityIdMatchesPayload_def id_member_def field_key_def is_record_def

lemma demo_parsed: "parseWholesaleFeedWebhookNotification demo_webhook_platform (ValueInput demo_webhook) = Inr demo_notification"
  by (simp add: webhook_eval demo_webhook_def demo_event_def demo_notification_def)

lemma demo_checked: "check_webhook demo_webhook_platform demo_webhook_options = Inr demo_notification"
proof -
  have "wo_webhook demo_webhook_options = demo_webhook" by (simp add: demo_webhook_options_def)
  note p = demo_parsed [folded this]
  show ?thesis
    unfolding check_webhook_def Let_def p
    by (simp add: demo_webhook_options_def demo_webhook_def demo_event_def demo_options_def demo_scope_def webhook_entity_def
        event_type_def event_payload_def expected_account_def begins_def starts_with_def js_def)
qed

text \<open>A step of one job as a function.\<close>

definition feed_exec ::
    "('n, 's) feed_store \<Rightarrow> 'n webhook_platform \<Rightarrow> (nat \<Rightarrow> 'n mirror_job) \<Rightarrow> 'n step_env \<Rightarrow> nat \<Rightarrow> ('n, 's) feed_sys \<Rightarrow> ('n, 's) feed_sys" where
  "feed_exec S P jobs E i s =
     (let x = mirror_step S P E (jobs i) (job_pc s i) (sys_store s) in \<lparr>job_pc = (job_pc s)(i := fst x), sys_store = snd x\<rparr>)"

lemma feed_exec_step: "feed_step S P jobs i s (feed_exec S P jobs E i s)"
  by (simp add: feed_exec_def Let_def feed_step.intros)

lemma feed_exec_reach: "feed_reach S P jobs s t \<Longrightarrow> feed_reach S P jobs s (feed_exec S P jobs E i t)"
  by (rule feed_reach.later [OF _ feed_exec_step])

lemma feed_exec_simps:
  "mirror_step S P E (jobs i) (job_pc s i) (sys_store s) = (pc', st') \<Longrightarrow> job_pc (feed_exec S P jobs E i s) i = pc'"
  "mirror_step S P E (jobs i) (job_pc s i) (sys_store s) = (pc', st') \<Longrightarrow> sys_store (feed_exec S P jobs E i s) = st'"
  by (simp_all add: feed_exec_def)

abbreviation demo_refresh_job :: "nat \<Rightarrow> nat mirror_job" where
  "demo_refresh_job \<equiv> \<lambda>_. RefreshJob demo_options"

abbreviation demo_webhook_job :: "nat \<Rightarrow> nat mirror_job" where
  "demo_webhook_job \<equiv> \<lambda>_. WebhookJob demo_webhook_options"

lemma empty_read [simp]: "mirror_read sc empty_mirror = empty_snapshot"
  by (simp add: mirror_read_def empty_mirror_def)

lemma demo_collect:
  "collect (demo_step_env demo_answer) demo_options empty_snapshot 0 None [] []
     \<lparr>tk_feed = None, tk_pricing = None, tk_scope = PublicScope\<rparr>
   = Collected [(Some (js ''p''), demo_row)] \<lparr>tk_feed = Some (js ''v1''), tk_pricing = None, tk_scope = PublicScope\<rparr> False"
  by (subst collect.simps)
    (simp add: Let_def MAX_PAGES_def demo_step_env_def demo_answer_def demo_options_def demo_scope_def result_failed_def tokens_changed_def
      next_tokens_def body_rows_def demo_row_def itemId_def some_text_def)

lemma demo_refresh_plan:
  "\<exists>ch next d. refresh_plan (demo_step_env demo_answer) demo_options plain_ctx empty_snapshot
      = RefreshCommit plain_ctx empty_snapshot ch (Applied next d) \<and> webhookReceipt ch = None \<and> items next = [demo_row]"
proof -
  have "demo_options\<lparr>conditional := conditional demo_options \<and> \<not> rc_unconditional plain_ctx\<rparr> = demo_options"
    by (simp add: demo_options_def plain_ctx_def)
  moreover have "cacheScope (empty_snapshot :: nat feed_snapshot) = PublicScope" by (simp add: empty_snapshot_def)
  ultimately show ?thesis
    by (simp add: refresh_plan_def Let_def demo_collect) (simp add: demo_step_env_def version_missed_def plain_ctx_def row_change_def next_snapshot_def)
qed

lemma demo_start_ok: "distinct_ids (entity sc) (mirror_read sc (empty_mirror :: nat mirror_state))"
  by (simp add: empty_snapshot_def)

lemma memory_reach_ok:
  assumes "mirror_ok cap st0" "\<And>sc. distinct_ids (entity sc) (mirror_read sc st0)"
    and "feed_reach (memoryMirror cap) P jobs (feed_start P jobs st0) s"
  shows "sys_ok (memoryMirror cap) (mirror_ok cap) P jobs s"
proof -
  have "distinct_ids (entity sc) (fs_read (memoryMirror cap) sc st0)" for sc using assms(2) by (simp add: memoryMirror_def)
  from mms.feed_reach_ok [OF assms(3) mms.start_ok [OF assms(1) this]] show ?thesis .
qed

text \<open>The refresh on its own: one step to the commit, one step to its end.\<close>

definition demo_before :: "(nat, nat mirror_state) feed_sys" where
  "demo_before = feed_exec (memoryMirror 1) demo_webhook_platform demo_refresh_job (demo_step_env demo_answer) 0
     (feed_start demo_webhook_platform demo_refresh_job empty_mirror)"

definition demo_after :: "(nat, nat mirror_state) feed_sys" where
  "demo_after = feed_exec (memoryMirror 1) demo_webhook_platform demo_refresh_job (demo_step_env demo_answer) 0 demo_before"

lemma demo_before_reached:
  "feed_reach (memoryMirror 1) demo_webhook_platform demo_refresh_job (feed_start demo_webhook_platform demo_refresh_job empty_mirror) demo_before"
  unfolding demo_before_def by (intro feed_exec_reach feed_reach.here)

lemma demo_refresh_finishes: "\<exists>next d. finishes demo_before demo_after 0 (Applied next d) \<and> items next = [demo_row]"
proof -
  obtain ch n d where p: "refresh_plan (demo_step_env demo_answer) demo_options plain_ctx empty_snapshot
        = RefreshCommit plain_ctx empty_snapshot ch (Applied n d)" "webhookReceipt ch = None" "items n = [demo_row]"
    using demo_refresh_plan by blast
  have b: "job_pc demo_before 0 = RefreshCommit plain_ctx empty_snapshot ch (Applied n d)" "sys_store demo_before = empty_mirror"
    using p(1) by (simp_all add: demo_before_def feed_exec_def feed_start_def start_job_def memoryMirror_def job_scope_def)
  then have "job_pc demo_after 0 = MirrorDone (Inr (Applied n d))"
    using p(2) by (simp add: demo_after_def feed_exec_def memoryMirror_def mirror_commit_def Let_def after_commit_def settle_def plain_ctx_def)
  then show ?thesis using b p(3) by (auto simp: finishes_def)
qed

section \<open>Properties\<close>

text \<open>
  C6: an applied outcome is exact.  Over every interleaving of jobs on the in-memory store, when a job ends
  with applied, the snapshot it reports is the next revision of the one that was stored until this very step, the
  events it reports lead from the old catalog to the new one, and the store now holds the reported snapshot.
\<close>

theorem mirror_applied_exact:
  assumes "mirror_ok cap st0" "\<And>sc. distinct_ids (entity sc) (mirror_read sc st0)"
    and "feed_reach (memoryMirror cap) P jobs (feed_start P jobs st0) s"
    and "feed_step (memoryMirror cap) P jobs i s s'" "finishes s s' i (Applied next d)"
  defines "sc \<equiv> job_scope (jobs i)"
  shows "revision next = Suc (revision (mirror_read sc (sys_store s)))
    \<and> explains (wp_numbers P) (entity sc) (mirror_read sc (sys_store s)) next d
    \<and> same_snapshot (entity sc) (mirror_read sc (sys_store s')) next"
  using mms.applied_outcome [OF memory_reach_ok [OF assms(1-3)] assms(4,5)] by (simp add: memoryMirror_def sc_def)

theorem mirror_applied_exact_witness:
  "\<exists>next d. items next = [demo_row] \<and> explains demo_numbers Product (mirror_read demo_scope (sys_store demo_before)) next d
    \<and> same_snapshot Product (mirror_read demo_scope (sys_store demo_after)) next"
proof -
  obtain n d where f: "finishes demo_before demo_after 0 (Applied n d)" "items n = [demo_row]" using demo_refresh_finishes by blast
  have s: "job_scope (demo_refresh_job 0) = demo_scope" "entity demo_scope = Product" "wp_numbers demo_webhook_platform = demo_numbers"
    by (simp_all add: job_scope_def demo_options_def demo_scope_def demo_webhook_platform_def)
  have step: "feed_step (memoryMirror 1) demo_webhook_platform demo_refresh_job 0 demo_before demo_after"
    unfolding demo_after_def by (rule feed_exec_step)
  from mirror_applied_exact [OF empty_mirror_ok demo_start_ok demo_before_reached step f(1)] f(2)
  show ?thesis unfolding s by blast
qed

text \<open>
  C14: a webhook's delta is applied at most once, and first.  When a job ends by committing the delta of its
  webhook, the delivery had no receipt until then, it has one ever after, and no later job of this scope applies a delta of a
  delivery with the same idempotency key.
\<close>

theorem delta_applied_once:
  assumes "mirror_ok cap st0" "\<And>sc. distinct_ids (entity sc) (mirror_read sc st0)"
    and "feed_reach (memoryMirror cap) P jobs (feed_start P jobs st0) s"
    and "feed_step (memoryMirror cap) P jobs i s s'" "finishes s s' i (Applied next d)" "is_delta (job_pc s i)"
  shows "\<exists>n. job_notification P (jobs i) = Some n
    \<and> \<not> mirror_hasReceipt (job_scope (jobs i)) (idempotencyKey n) (sys_store s)
    \<and> (\<forall>t. feed_reach (memoryMirror cap) P jobs s' t \<longrightarrow>
        mirror_hasReceipt (job_scope (jobs i)) (idempotencyKey n) (sys_store t)
        \<and> (\<forall>j t' next' d' n'. feed_step (memoryMirror cap) P jobs j t t' \<and> is_delta (job_pc t j) \<and> finishes t t' j (Applied next' d')
             \<and> job_scope (jobs j) = job_scope (jobs i) \<and> job_notification P (jobs j) = Some n'
             \<longrightarrow> idempotencyKey n' \<noteq> idempotencyKey n))"
proof -
  let ?S = "memoryMirror cap"
  have r: "fs_hasReceipt ?S = mirror_hasReceipt" by (simp add: memoryMirror_def)
  note ok = memory_reach_ok [OF assms(1-3)]
  obtain n where n: "job_notification P (jobs i) = Some n"
      "\<not> mirror_hasReceipt (job_scope (jobs i)) (idempotencyKey n) (sys_store s)"
      "mirror_hasReceipt (job_scope (jobs i)) (idempotencyKey n) (sys_store s')"
    using mms.delta_outcome [OF ok assms(4-6)] unfolding r by blast
  have ok': "sys_ok ?S (mirror_ok cap) P jobs s'" by (rule mms.feed_step_ok [OF ok assms(4)])
  have kept: "mirror_hasReceipt (job_scope (jobs i)) (idempotencyKey n) (sys_store t)" if "feed_reach ?S P jobs s' t" for t
    using mms.receipts_stay [OF that ok', of "job_scope (jobs i)"] n(3) by (auto simp: feed_view_def r)
  have apart: "idempotencyKey n' \<noteq> idempotencyKey n"
    if t: "feed_reach ?S P jobs s' t" "feed_step ?S P jobs j t t'" "is_delta (job_pc t j)" "finishes t t' j (Applied next' d')"
      "job_scope (jobs j) = job_scope (jobs i)" "job_notification P (jobs j) = Some n'" for t t' j next' d' n'
  proof -
    have "\<not> mirror_hasReceipt (job_scope (jobs i)) (idempotencyKey n') (sys_store t)"
      using mms.delta_outcome [OF mms.feed_reach_ok [OF t(1) ok'] t(2,4,3)] t(5,6) unfolding r by force
    then show ?thesis using kept [OF t(1)] by auto
  qed
  show ?thesis using n(1,2) kept apart by blast
qed

definition demo_store :: "nat mirror_state" where
  "demo_store = mirror_restore demo_scope demo_snapshot empty_mirror"

definition delta_start :: "(nat, nat mirror_state) feed_sys" where
  "delta_start = feed_start demo_webhook_platform demo_webhook_job demo_store"

definition delta_before :: "(nat, nat mirror_state) feed_sys" where
  "delta_before = feed_exec (memoryMirror 1) demo_webhook_platform demo_webhook_job (demo_step_env (Rejected None)) 0
     (feed_exec (memoryMirror 1) demo_webhook_platform demo_webhook_job (demo_step_env (Rejected None)) 0 delta_start)"

definition delta_after :: "(nat, nat mirror_state) feed_sys" where
  "delta_after = feed_exec (memoryMirror 1) demo_webhook_platform demo_webhook_job (demo_step_env (Rejected None)) 0 delta_before"

lemma demo_store_ok: "mirror_ok 1 demo_store" "distinct_ids (entity sc) (mirror_read sc demo_store)"
proof -
  show "mirror_ok 1 demo_store" using empty_mirror_ok [of 1] by (simp add: mirror_ok_def demo_store_def mirror_restore_def)
  have "distinct_ids e demo_snapshot" "distinct_ids e (empty_snapshot :: nat feed_snapshot)" for e
    by (simp_all add: demo_snapshot_def empty_snapshot_def)
  then show "distinct_ids (entity sc) (mirror_read sc demo_store)"
    by (simp add: demo_store_def mirror_restore_def mirror_read_def empty_mirror_def)
qed

lemma demo_delta_plan:
  "\<exists>ch next d. webhook_plan demo_webhook_platform (demo_step_env (Rejected None)) demo_webhook_options demo_notification 0 demo_snapshot False
      = DeltaCommit 0 demo_snapshot ch (Applied next d) \<and> webhookReceipt ch = Some (js ''e'', js ''i'')"
proof -
  have "applyWholesaleFeedEvent demo_numbers Product (items demo_snapshot) demo_event
      = Some (map snd (AList.delete (Some (js ''p'')) (index_items Product (items demo_snapshot))))"
    unfolding applyWholesaleFeedEvent_def Let_def
    by (simp add: demo_event_def event_payload_def event_type_def ends_def starts_with_def js_def)
  then show ?thesis
    by (simp add: webhook_plan_def Let_def stale_event_def demo_notification_def demo_webhook_options_def demo_options_def demo_scope_def
        demo_webhook_platform_def demo_step_env_def demo_snapshot_def empty_snapshot_def some_text_def row_change_def)
qed

lemma delta_finishes: "\<exists>next d. finishes delta_before delta_after 0 (Applied next d)" "is_delta (job_pc delta_before 0)"
proof -
  obtain ch n d where p: "webhook_plan demo_webhook_platform (demo_step_env (Rejected None)) demo_webhook_options demo_notification 0 demo_snapshot False
        = DeltaCommit 0 demo_snapshot ch (Applied n d)" "webhookReceipt ch = Some (js ''e'', js ''i'')"
    using demo_delta_plan by blast
  have sc: "job_scope (WebhookJob demo_webhook_options) = demo_scope" by (simp add: job_scope_def demo_webhook_options_def demo_options_def)
  have read: "mirror_read demo_scope demo_store = demo_snapshot" by (simp add: demo_store_def mirror_restore_def mirror_read_def)
  have seen: "\<not> mirror_hasReceipt demo_scope k demo_store" for k
    by (simp add: demo_store_def mirror_restore_def mirror_hasReceipt_def empty_mirror_def)
  have b: "job_pc delta_before 0 = DeltaCommit 0 demo_snapshot ch (Applied n d)" "sys_store delta_before = demo_store"
    using p(1) sc read seen
    by (simp_all add: delta_before_def delta_start_def feed_exec_def feed_start_def start_job_def demo_checked memoryMirror_def)
  have "add_receipt 1 (scope_key demo_scope) (js ''i'') demo_store \<noteq> Inl e" for e
    by (simp add: add_receipt_def demo_store_def mirror_restore_def empty_mirror_def)
  then have "fst (mirror_commit 1 demo_scope (revision demo_snapshot) ch demo_store) = Inr True"
    using p(2) by (auto simp: mirror_commit_def Let_def read split: sum.split)
  then have "job_pc delta_after 0 = MirrorDone (Inr (Applied n d))"
    using b sc by (auto simp: delta_after_def feed_exec_def memoryMirror_def after_commit_def settle_def split: prod.split)
  then show "\<exists>next d. finishes delta_before delta_after 0 (Applied next d)" using b by (auto simp: finishes_def)
  show "is_delta (job_pc delta_before 0)" using b by (simp add: is_delta_def)
qed

theorem delta_applied_once_witness:
  "\<not> mirror_hasReceipt demo_scope (js ''i'') (sys_store delta_before) \<and> mirror_hasReceipt demo_scope (js ''i'') (sys_store delta_after)"
proof -
  obtain n d where f: "finishes delta_before delta_after 0 (Applied n d)" using delta_finishes(1) by blast
  have reach: "feed_reach (memoryMirror 1) demo_webhook_platform demo_webhook_job
      (feed_start demo_webhook_platform demo_webhook_job demo_store) delta_before"
    unfolding delta_before_def delta_start_def by (intro feed_exec_reach feed_reach.here)
  have step: "feed_step (memoryMirror 1) demo_webhook_platform demo_webhook_job 0 delta_before delta_after"
    unfolding delta_after_def by (rule feed_exec_step)
  have s: "job_scope (demo_webhook_job 0) = demo_scope" "job_notification demo_webhook_platform (demo_webhook_job 0) = Some demo_notification"
      "idempotencyKey demo_notification = js ''i''"
    by (simp add: job_scope_def demo_webhook_options_def demo_options_def, simp add: job_notification_def demo_checked,
        simp add: demo_notification_def)
  from delta_applied_once [OF demo_store_ok reach step f delta_finishes(2)]
  have "\<not> mirror_hasReceipt demo_scope (idempotencyKey demo_notification) (sys_store delta_before)
    \<and> (\<forall>t. feed_reach (memoryMirror 1) demo_webhook_platform demo_webhook_job delta_after t \<longrightarrow>
          mirror_hasReceipt demo_scope (idempotencyKey demo_notification) (sys_store t))"
    unfolding s(1,2) option.inject by blast
  then show ?thesis using feed_reach.here unfolding s(3) by blast
qed

text \<open>
  C30: a failed refresh keeps the catalog.  When a job ends degraded, the stored snapshot only gets the next
  revision and the error; rows, version tokens, webhook marks and receipts stay, and other scopes are untouched.
\<close>

theorem degraded_keeps_catalog:
  assumes "mirror_ok cap st0" "\<And>sc. distinct_ids (entity sc) (mirror_read sc st0)"
    and "feed_reach (memoryMirror cap) P jobs (feed_start P jobs st0) s"
    and "feed_step (memoryMirror cap) P jobs i s s'" "finishes s s' i (Degraded err)"
  shows "mirror_read sc (sys_store s') =
      (if sc = job_scope (jobs i)
       then (mirror_read sc (sys_store s))\<lparr>revision := Suc (revision (mirror_read sc (sys_store s))), snapshot_error := Some err\<rparr>
       else mirror_read sc (sys_store s))
    \<and> (mirror_hasReceipt sc k (sys_store s') \<longleftrightarrow> mirror_hasReceipt sc k (sys_store s))"
  using mms.degraded_outcome [OF memory_reach_ok [OF assms(1-3)] assms(4,5), of sc]
  by (auto simp: feed_view_def memoryMirror_def split: if_splits)

definition failed_before :: "(nat, nat mirror_state) feed_sys" where
  "failed_before = feed_exec (memoryMirror 1) demo_webhook_platform demo_refresh_job (demo_step_env (Rejected None)) 0
     (feed_start demo_webhook_platform demo_refresh_job empty_mirror)"

definition failed_after :: "(nat, nat mirror_state) feed_sys" where
  "failed_after = feed_exec (memoryMirror 1) demo_webhook_platform demo_refresh_job (demo_step_env (Rejected None)) 0 failed_before"

lemma failed_finishes: "finishes failed_before failed_after 0 (Degraded RefreshFailed)"
proof -
  have "collect (demo_step_env (Rejected None)) opts prev 0 None [] [] t = CollectFailed RefreshFailed" for opts prev t
    by (subst collect.simps) (simp add: MAX_PAGES_def demo_step_env_def error_of_def)
  then have p: "refresh_plan (demo_step_env (Rejected None)) demo_options plain_ctx empty_snapshot = RefreshError plain_ctx empty_snapshot RefreshFailed"
    by (simp add: refresh_plan_def Let_def) (simp add: demo_step_env_def)
  then have b: "job_pc failed_before 0 = RefreshError plain_ctx empty_snapshot RefreshFailed" "sys_store failed_before = empty_mirror"
    by (simp_all add: failed_before_def feed_exec_def feed_start_def start_job_def memoryMirror_def job_scope_def)
  then have "job_pc failed_after 0 = MirrorDone (Inr (Degraded RefreshFailed))"
    by (simp add: failed_after_def feed_exec_def memoryMirror_def mirror_recordError_def Let_def settle_def plain_ctx_def)
  then show ?thesis using b by (simp add: finishes_def)
qed

theorem degraded_keeps_catalog_witness:
  "snapshot_error (mirror_read demo_scope (sys_store failed_after)) = Some RefreshFailed
    \<and> items (mirror_read demo_scope (sys_store failed_after)) = items (mirror_read demo_scope (sys_store failed_before))"
proof -
  have reach: "feed_reach (memoryMirror 1) demo_webhook_platform demo_refresh_job
      (feed_start demo_webhook_platform demo_refresh_job empty_mirror) failed_before"
    unfolding failed_before_def by (intro feed_exec_reach feed_reach.here)
  have step: "feed_step (memoryMirror 1) demo_webhook_platform demo_refresh_job 0 failed_before failed_after"
    unfolding failed_after_def by (rule feed_exec_step)
  have "job_scope (demo_refresh_job 0) = demo_scope" by (simp add: job_scope_def demo_options_def)
  then show ?thesis
    using degraded_keeps_catalog [OF empty_mirror_ok demo_start_ok reach step failed_finishes, of demo_scope] by simp
qed

text \<open>
  C29: a refresh commits one version of the whole feed.  What it applies are the rows of a chain of at most ten
  thousand pages, each delivered in answer to the cursor of the page before it while the job was current, the last
  one without more; every row has an id, and every page states the committed versions and scope or none.
\<close>

theorem refresh_one_version:
  assumes "refresh_plan E opts ctx prev = RefreshCommit ctx prev ch (Applied next d)"
  shows "\<exists>bodies rss.
    page_chain E (opts\<lparr>conditional := conditional opts \<and> \<not> rc_unconditional ctx\<rparr>) prev None 0 bodies rss
      \<lparr>tk_feed = feedVersion next, tk_pricing = pricingVersion next, tk_scope = cacheScope next\<rparr>
    \<and> items next = map snd (index_items (entity (ro_scope opts)) (concat rss))"
proof -
  let ?opts = "opts\<lparr>conditional := conditional opts \<and> \<not> rc_unconditional ctx\<rparr>"
  note run = assms [unfolded refresh_plan_def Let_def]
  obtain m t where c: "collect E ?opts prev 0 None [] [] \<lparr>tk_feed = None, tk_pricing = None, tk_scope = cacheScope prev\<rparr> = Collected m t False"
      and n: "next = next_snapshot prev (map snd m) t (commit_time E) (marked_event prev (rc_mark ctx)) (rc_mark ctx)"
    using run by (auto simp: settle_def split: if_splits collected.splits option.splits)
  obtain bodies rss where p: "page_chain E ?opts prev None 0 bodies rss t" "m = put_items (entity (ro_scope opts)) (concat rss) []"
    using collect_pages [OF c] by auto
  have t: "\<lparr>tk_feed = feedVersion next, tk_pricing = pricingVersion next, tk_scope = cacheScope next\<rparr> = t"
    by (cases t) (simp add: n next_snapshot_def)
  have "items next = map snd m" by (simp add: n next_snapshot_def)
  then have "items next = map snd (index_items (entity (ro_scope opts)) (concat rss))" by (simp only: p(2) index_items_def)
  with p(1) show ?thesis unfolding t by blast
qed

theorem refresh_one_version_witness:
  "\<exists>ch next d bodies rss.
    page_chain (demo_step_env demo_answer) demo_options empty_snapshot None 0 bodies rss
      \<lparr>tk_feed = feedVersion next, tk_pricing = pricingVersion next, tk_scope = cacheScope next\<rparr>
    \<and> refresh_plan (demo_step_env demo_answer) demo_options plain_ctx empty_snapshot = RefreshCommit plain_ctx empty_snapshot ch (Applied next d)"
proof -
  obtain ch n d where p: "refresh_plan (demo_step_env demo_answer) demo_options plain_ctx empty_snapshot
        = RefreshCommit plain_ctx empty_snapshot ch (Applied n d)"
    using demo_refresh_plan by blast
  have "demo_options\<lparr>conditional := conditional demo_options \<and> \<not> rc_unconditional plain_ctx\<rparr> = demo_options"
    by (simp add: demo_options_def plain_ctx_def)
  then show ?thesis using refresh_one_version [OF p] p by auto
qed



text \<open>
  C35: the mirror stays well formed.  In every reachable state each stored catalog has one row per id, the receipts
  of a scope are distinct, and their number is counted exactly and is within the capacity.
\<close>

theorem mirror_well_formed:
  assumes "mirror_ok cap st0" "\<And>sc. distinct_ids (entity sc) (mirror_read sc st0)"
    and "feed_reach (memoryMirror cap) P jobs (feed_start P jobs st0) s"
  shows "distinct_ids (entity sc) (mirror_read sc (sys_store s)) \<and> receiptCount (sys_store s) \<le> cap
    \<and> receiptCount (sys_store s) = receipts_held (feed_receipts (sys_store s))
    \<and> (feed_receipts (sys_store s) key = Some rs \<longrightarrow> distinct rs)"
  using memory_reach_ok [OF assms] by (auto simp: sys_ok_def mirror_ok_def memoryMirror_def)

theorem mirror_well_formed_witness:
  "receiptCount (sys_store demo_before) \<le> 1 \<and> distinct_ids Product (mirror_read demo_scope (sys_store demo_before))"
proof -
  have "entity demo_scope = Product" by (simp add: demo_scope_def)
  then show ?thesis using mirror_well_formed [OF empty_mirror_ok demo_start_ok demo_before_reached, of demo_scope] by metis
qed

text \<open>
  C34: an undisturbed job ends.  With no other writer in between, a job that stays current and whose webhook, if it
  has one, is accepted, ends within four calls of the store, and not as superseded.
\<close>

theorem undisturbed_job_ends:
  assumes "mirror_ok cap st" "\<forall>n. stays_current (E n)" "\<forall>w. job = WebhookJob w \<longrightarrow> (\<exists>n. check_webhook P w = Inr n)"
  shows "\<exists>r st'. job_run (memoryMirror cap) P E job 4 (start_job P job, st) = (MirrorDone r, st') \<and> r \<noteq> Inr Superseded"
  using mms.run_job [OF assms] unfolding job_ended_def
  by (cases "job_run (memoryMirror cap) P E job 4 (start_job P job, st)") auto

theorem undisturbed_job_ends_witness:
  "\<exists>r st'. job_run (memoryMirror 1) demo_webhook_platform (\<lambda>_. demo_step_env demo_answer) (WebhookJob demo_webhook_options) 4
      (start_job demo_webhook_platform (WebhookJob demo_webhook_options), demo_store) = (MirrorDone r, st') \<and> r \<noteq> Inr Superseded"
  by (rule undisturbed_job_ends [OF demo_store_ok(1)]) (simp_all add: stays_current_def demo_step_env_def demo_checked)

end
