(* ===== verification/OriginTrust.thy ===== *)
theory OriginTrust
  imports SignatureBase FeedValues
begin

text \<open>
  What an origin-based identity rests on (\<open>signing/agent-resolver/canonicalize.ts\<close>, \<open>etld.ts\<close> and
  \<open>identity-3.3/trust.ts\<close>): canonical origins, registrable domains, the membership of an agent in its operator's trust
  record, and the grants that let one organization act for another.  The public suffix list (package \<open>tldts\<close>),
  \<open>URL\<close>, \<open>Date.parse\<close>, schema validation and the fetching of records are arguments; times are milliseconds.
\<close>

section \<open>Errors and the platform\<close>

text \<open>A membership error says whether the operator has no record at all, an unavailable record whether it last listed the agent.\<close>

datatype identity_error =
    AuthorizationFailed
  | GrantAbsent
  | Membership bool
  | TrustUnavailable bool
  | InvalidInput string
  | CallbackFailed

record psl_result =
  psl_isIp :: bool
  psl_isSpecialUse :: bool
  psl_isIcann :: bool
  psl_isPrivate :: bool
  psl_domain :: "jsstr option"

record origin_platform =
  op_sig :: sig_platform
  parse_tld :: "jsstr \<Rightarrow> psl_result"
  date_ms :: "jsstr \<Rightarrow> int option"
  iso_time :: "int \<Rightarrow> jsstr"

section \<open>Origins and registrable domains\<close>

definition malformed_unit :: "16 word \<Rightarrow> bool" where
  "malformed_unit w \<longleftrightarrow> unat w \<le> 0x20 \<or> w = 0x7f \<or> w = 0x5c"

definition canonicalizeOrigin :: "origin_platform \<Rightarrow> jsstr \<Rightarrow> identity_error + jsstr" where
  "canonicalizeOrigin P u =
     (if u = [] then Inl (InvalidInput ''CanonicalizeError'')
      else (case url_authority u of
          None \<Rightarrow> Inl (InvalidInput ''CanonicalizeError'')
        | Some authority \<Rightarrow>
            if authority = [] \<or> list_ex malformed_unit authority then Inl (InvalidInput ''CanonicalizeError'')
            else (case new_URL (op_sig P) u of
                None \<Rightarrow> Inl (InvalidInput ''CanonicalizeError'')
              | Some parsed \<Rightarrow>
                  if url_protocol parsed \<noteq> js ''https:'' \<and> url_protocol parsed \<noteq> js ''http:''
                  then Inl (InvalidInput ''CanonicalizeError'')
                  else (case canonicalAuthority (op_sig P) u V32 of
                      Inl e \<Rightarrow> Inl (InvalidInput ''CanonicalizeError'')
                    | Inr a \<Rightarrow> Inr (url_protocol parsed @ js ''//'' @ a)))))"

definition originsEqual :: "origin_platform \<Rightarrow> jsstr \<Rightarrow> jsstr \<Rightarrow> bool" where
  "originsEqual P a b =
     (case (canonicalizeOrigin P a, canonicalizeOrigin P b) of (Inr x, Inr y) \<Rightarrow> x = y | _ \<Rightarrow> False)"

definition canonicalizeHost :: "origin_platform \<Rightarrow> jsstr \<Rightarrow> identity_error + jsstr" where
  "canonicalizeHost P host =
     (if host = [] then Inl (InvalidInput ''CanonicalizeError'')
      else (case new_URL (op_sig P) (js ''https://'' @ host @ js ''/'') of
          None \<Rightarrow> Inl (InvalidInput ''CanonicalizeError'')
        | Some u \<Rightarrow> Inr (url_hostname u)))"

definition extractHost :: "origin_platform \<Rightarrow> jsstr \<Rightarrow> identity_error + jsstr" where
  "extractHost P hostOrUrl =
     (if contains_text (js ''://'') hostOrUrl
      then (case new_URL (op_sig P) hostOrUrl of None \<Rightarrow> Inl (InvalidInput ''TypeError'') | Some u \<Rightarrow> Inr (url_hostname u))
      else Inr hostOrUrl)"

definition SPECIAL_USE_SUFFIXES :: "string list" where
  "SPECIAL_USE_SUFFIXES = [''alt'', ''6tisch.arpa'', ''eap.arpa'', ''eap-noob.arpa'', ''home.arpa'', ''in-addr.arpa'', ''ip6.arpa'',
     ''ipv4only.arpa'', ''resolver.arpa'', ''service.arpa'', ''example'', ''example.com'', ''example.net'', ''example.org'', ''invalid'',
     ''local'', ''localhost'', ''onion'', ''test'']"

definition isSpecialUseBrandDomain :: "jsstr \<Rightarrow> bool" where
  "isSpecialUseBrandDomain domain = list_ex (\<lambda>suffix. domain = js suffix \<or> ends (''.'' @ suffix) domain) SPECIAL_USE_SUFFIXES"

definition eTldPlusOne :: "origin_platform \<Rightarrow> jsstr \<Rightarrow> identity_error + jsstr" where
  "eTldPlusOne P hostOrUrl =
     bindE (bindE (extractHost P hostOrUrl) (canonicalizeHost P)) (\<lambda>host.
       let result = parse_tld P host in
       if psl_isIp result then Inl (InvalidInput ''EtldComputationError'')
       else (case psl_domain result of
           None \<Rightarrow> Inl (InvalidInput ''EtldComputationError'')
         | Some domain \<Rightarrow>
             if psl_isSpecialUse result \<or> isSpecialUseBrandDomain host \<or> domain = [] \<or> \<not> psl_isIcann result \<and> \<not> psl_isPrivate result
             then Inl (InvalidInput ''EtldComputationError'')
             else canonicalizeHost P domain))"

definition sameEtldPlusOne :: "origin_platform \<Rightarrow> jsstr \<Rightarrow> jsstr \<Rightarrow> bool" where
  "sameEtldPlusOne P a b = (case (eTldPlusOne P a, eTldPlusOne P b) of (Inr x, Inr y) \<Rightarrow> x = y | _ \<Rightarrow> False)"

section \<open>Trust records\<close>

record trust_agent =
  ta_url :: jsstr
  ta_roles :: "string list"
  ta_countries :: "string list option"
  ta_jwks_uri :: "jsstr option"

record trust_grant =
  grantee :: jsstr
  scopes :: "jsstr list"
  grant_agents :: "jsstr list option"
  grant_countries :: "string list option"
  valid_from :: "jsstr option"
  valid_until :: "jsstr option"
  grant_brands :: "jsstr list option"

record trust_record =
  tr_agents :: "trust_agent list"
  tr_grants :: "trust_grant list"
  exclusive_grants :: bool

text \<open>What was last read for an operator, with the time until which it is fresh.\<close>

datatype trust_fetch = TrustPresent trust_record (fresh_until: int) | TrustAbsent (fresh_until: int)

text \<open>The loop over the agents, with the origins seen so far.\<close>

fun check_agents :: "origin_platform \<Rightarrow> jsstr list \<Rightarrow> trust_agent list \<Rightarrow> identity_error + unit" where
  "check_agents P origins [] = Inr ()"
| "check_agents P origins (a # as) =
     (if ta_jwks_uri a \<noteq> None then Inl AuthorizationFailed
      else bindE (canonicalizeOrigin P (ta_url a)) (\<lambda>origin.
        if origin \<in> set origins then Inl AuthorizationFailed else check_agents P (origin # origins) as))"

definition validateTrustRecord :: "origin_platform \<Rightarrow> (trust_record \<Rightarrow> bool) \<Rightarrow> trust_record \<Rightarrow> identity_error + unit" where
  "validateTrustRecord P schema_ok r = (if \<not> schema_ok r then Inl AuthorizationFailed else check_agents P [] (tr_agents r))"

text \<open>An entry whose URL does not parse lists no origin; records are validated before they are kept.\<close>

definition listedAgent :: "origin_platform \<Rightarrow> trust_fetch \<Rightarrow> jsstr \<Rightarrow> string \<Rightarrow> trust_agent option" where
  "listedAgent P result origin role =
     (case result of
        TrustAbsent _ \<Rightarrow> None
      | TrustPresent r _ \<Rightarrow>
          (case filter (\<lambda>a. canonicalizeOrigin P (ta_url a) = Inr origin) (tr_agents r) of
             [a] \<Rightarrow> if role \<in> set (ta_roles a) then Some a else None
           | _ \<Rightarrow> None))"

text \<open>
  The evaluator as its callers see it: what a fetch for an operator gives now (nothing while the record is unavailable), what
  the cache last kept for it, the outage bound and the time.
\<close>

record trust_view =
  fetched :: "jsstr \<Rightarrow> trust_fetch option"
  last_read :: "jsstr \<Rightarrow> trust_fetch option"
  max_outage_ms :: int
  trust_now :: int

definition trust_get :: "origin_platform \<Rightarrow> trust_view \<Rightarrow> jsstr \<Rightarrow> identity_error + (jsstr \<times> trust_fetch)" where
  "trust_get P V domainOrOrigin =
     (case eTldPlusOne P domainOrOrigin of
        Inl _ \<Rightarrow> Inl AuthorizationFailed
      | Inr operator \<Rightarrow>
          (case fetched V operator of None \<Rightarrow> Inl (TrustUnavailable False) | Some r \<Rightarrow> Inr (operator, r)))"

definition outage_error :: "origin_platform \<Rightarrow> trust_view \<Rightarrow> jsstr \<Rightarrow> string \<Rightarrow> identity_error" where
  "outage_error P V canonical role =
     (case eTldPlusOne P canonical of
        Inl e \<Rightarrow> e
      | Inr operator \<Rightarrow>
          (case last_read V operator of
             None \<Rightarrow> TrustUnavailable False
           | Some r \<Rightarrow>
               if listedAgent P r canonical role = None
               then Membership (case r of TrustPresent _ _ \<Rightarrow> False | TrustAbsent _ \<Rightarrow> True)
               else TrustUnavailable (trust_now V \<le> fresh_until r + max_outage_ms V)))"

definition country_refused :: "trust_agent \<Rightarrow> string list \<Rightarrow> bool" where
  "country_refused a countries \<longleftrightarrow>
     (case ta_countries a of None \<Rightarrow> False | Some cs \<Rightarrow> list_ex (\<lambda>c. c \<notin> set cs) countries)"

text \<open>\<open>match\<close>; an absent list of countries is an empty one.\<close>

definition trust_match ::
    "origin_platform \<Rightarrow> trust_view \<Rightarrow> jsstr \<Rightarrow> string \<Rightarrow> string list \<Rightarrow> identity_error + (jsstr \<times> trust_agent)" where
  "trust_match P V origin role countries =
     bindE (canonicalizeOrigin P origin) (\<lambda>canonical.
       case trust_get P V canonical of
         Inl (TrustUnavailable _) \<Rightarrow> Inl (outage_error P V canonical role)
       | Inl e \<Rightarrow> Inl e
       | Inr (operator, result) \<Rightarrow>
           (case result of
              TrustAbsent _ \<Rightarrow> Inl (Membership True)
            | TrustPresent _ _ \<Rightarrow>
                (case listedAgent P result canonical role of
                   None \<Rightarrow> Inl (Membership False)
                 | Some a \<Rightarrow> if country_refused a countries then Inl AuthorizationFailed else Inr (operator, a))))"

section \<open>Grants\<close>

record grant_claim =
  signerOrigin :: jsstr
  brand_domain :: jsstr
  brand_id :: "jsstr option"
  brand_countries :: "string list"
  accountOperator :: jsstr
  claim_scope :: jsstr

definition registrableGrantee :: "origin_platform \<Rightarrow> jsstr \<Rightarrow> jsstr option" where
  "registrableGrantee P g = (if eTldPlusOne P g = Inr g then Some g else None)"

definition assertPublishableTrustRecord ::
    "origin_platform \<Rightarrow> (trust_record \<Rightarrow> bool) \<Rightarrow> trust_record \<Rightarrow> identity_error + unit" where
  "assertPublishableTrustRecord P schema_ok r =
     bindE (validateTrustRecord P schema_ok r) (\<lambda>_.
       if list_ex (\<lambda>g. registrableGrantee P (grantee g) = None
            \<or> list_ex (\<lambda>u. case canonicalizeOrigin P u of Inl _ \<Rightarrow> True | Inr _ \<Rightarrow> False)
                (case grant_agents g of None \<Rightarrow> [] | Some us \<Rightarrow> us)) (tr_grants r)
       then Inl (InvalidInput ''TypeError'') else Inr ())"

definition grantsScope :: "trust_grant \<Rightarrow> jsstr \<Rightarrow> bool" where
  "grantsScope g s =
     list_ex (\<lambda>granted. granted = js ''*'' \<or> granted = s \<or> granted = js ''adcp:all'' \<and> begins ''adcp:'' s) (scopes g)"

definition lists_signer :: "origin_platform \<Rightarrow> trust_grant \<Rightarrow> jsstr \<Rightarrow> bool" where
  "lists_signer P g signer =
     (case grant_agents g of
        None \<Rightarrow> True
      | Some urls \<Rightarrow> list_ex (\<lambda>u. case canonicalizeOrigin P u of Inl _ \<Rightarrow> False | Inr o' \<Rightarrow> canonicalizeOrigin P signer = Inr o') urls)"

definition lists_brand :: "trust_grant \<Rightarrow> grant_claim \<Rightarrow> bool" where
  "lists_brand g c =
     (case grant_brands g of
        None \<Rightarrow> True
      | Some bs \<Rightarrow> js ''*'' \<in> set bs \<or> (case brand_id c of None \<Rightarrow> False | Some b \<Rightarrow> b \<noteq> [] \<and> b \<in> set bs))"

definition lists_countries :: "trust_grant \<Rightarrow> grant_claim \<Rightarrow> bool" where
  "lists_countries g c =
     (case grant_countries g of None \<Rightarrow> True | Some cs \<Rightarrow> brand_countries c \<noteq> [] \<and> list_all (\<lambda>x. x \<in> set cs) (brand_countries c))"

definition time_of :: "origin_platform \<Rightarrow> jsstr option \<Rightarrow> int option" where
  "time_of P s = (case s of None \<Rightarrow> None | Some t \<Rightarrow> if t = [] then None else date_ms P t)"

definition grantMatches :: "origin_platform \<Rightarrow> trust_grant \<Rightarrow> jsstr \<Rightarrow> grant_claim \<Rightarrow> int \<Rightarrow> bool" where
  "grantMatches P g target c now =
     (if registrableGrantee P (grantee g) \<noteq> Some target then False
      else if \<not> grantsScope g (claim_scope c) then False
      else if \<not> lists_signer P g (signerOrigin c) then False
      else if \<not> lists_brand g c then False
      else if \<not> lists_countries g c then False
      else if (case time_of P (valid_from g) of None \<Rightarrow> False | Some t \<Rightarrow> t > now) then False
      else if (case time_of P (valid_until g) of None \<Rightarrow> False | Some t \<Rightarrow> t \<le> now) then False
      else True)"

datatype grant_source = ImplicitGrant | TrustGrant | SellerGrant | LegacyGrant

text \<open>The expiry is a time, none, or not a number where a grant's date does not parse.\<close>

datatype grant_expiry = NoExpiry | ExpiresAt int | BadExpiry

record grant_authorization =
  ga_source :: grant_source
  ga_operator :: jsstr
  ga_expires :: grant_expiry
  ga_checked :: int
  ga_chain :: "jsstr list"

definition has_until :: "trust_grant \<Rightarrow> bool" where
  "has_until g \<longleftrightarrow> some_text (valid_until g)"

definition least_expiry :: "origin_platform \<Rightarrow> trust_grant list \<Rightarrow> grant_expiry" where
  "least_expiry P gs =
     (let dated = filter has_until gs in
      if dated = [] then NoExpiry
      else if list_ex (\<lambda>g. time_of P (valid_until g) = None) dated then BadExpiry
      else let ts = map (\<lambda>g. the (time_of P (valid_until g))) dated in ExpiresAt (foldr min (tl ts) (hd ts)))"

text \<open>The seller's own decisions: its discretion, its legacy agreements, and the house a brand belongs to.\<close>

record grant_policy =
  sellerAuthorization :: "(grant_claim \<Rightarrow> bool) option"
  legacyAuthorization :: "(grant_claim \<Rightarrow> bool) option"
  resolveBrandHouse :: "grant_claim \<Rightarrow> (jsstr \<times> jsstr) option"

definition granted ::
    "origin_platform \<Rightarrow> jsstr \<Rightarrow> int \<Rightarrow> grant_source \<Rightarrow> jsstr list \<Rightarrow> trust_grant list \<Rightarrow> grant_authorization" where
  "granted P operator now source chain gs =
     \<lparr>ga_source = source, ga_operator = operator, ga_expires = least_expiry P gs, ga_checked = now, ga_chain = chain\<rparr>"

definition callback_accepts :: "(grant_claim \<Rightarrow> bool) option \<Rightarrow> grant_claim \<Rightarrow> bool" where
  "callback_accepts f c = (case f of None \<Rightarrow> False | Some p \<Rightarrow> p c)"

definition covering :: "origin_platform \<Rightarrow> trust_grant \<Rightarrow> jsstr \<Rightarrow> jsstr \<Rightarrow> bool \<Rightarrow> jsstr \<Rightarrow> bool" where
  "covering P g account operator selfOperated s =
     (case registrableGrantee P (grantee g) of
        None \<Rightarrow> False
      | Some r \<Rightarrow> (r = account \<or> selfOperated \<and> r = operator) \<and> grantsScope g s)"

text \<open>What follows once the record of the brand is read and present.\<close>

definition grant_from_record ::
    "origin_platform \<Rightarrow> trust_view \<Rightarrow> grant_policy \<Rightarrow> int \<Rightarrow> grant_claim \<Rightarrow> grant_claim \<Rightarrow> jsstr \<Rightarrow> jsstr \<Rightarrow> jsstr \<Rightarrow> jsstr \<Rightarrow> trust_record
      \<Rightarrow> identity_error + grant_authorization" where
  "grant_from_record P V D now c gc brand authoritativeBrand account operator r =
     (let first = filter (\<lambda>g. grantMatches P g account gc now) (tr_grants r);
          selfOperated = (account = brand \<or> account = authoritativeBrand);
          direct = (if selfOperated \<and> account \<noteq> operator then filter (\<lambda>g. grantMatches P g operator gc now) (tr_grants r) else []);
          uncovered =
            (if \<not> list_ex (\<lambda>g. covering P g account operator selfOperated (claim_scope c)) (tr_grants r)
                \<and> \<not> exclusive_grants r \<and> callback_accepts (sellerAuthorization D) c
             then Inr (granted P operator now SellerGrant [brand, account, operator] []) else Inl GrantAbsent) in
      if account = operator \<and> first \<noteq> [] then Inr (granted P operator now TrustGrant [brand, operator] [hd first])
      else if direct \<noteq> [] then Inr (granted P operator now TrustGrant [brand, operator] [hd direct])
      else if account \<noteq> operator \<and> account \<noteq> brand \<and> first \<noteq> [] then
        bindE (trust_get P V account) (\<lambda>(_, intermediary).
          case intermediary of
            TrustAbsent _ \<Rightarrow> uncovered
          | TrustPresent r2 _ \<Rightarrow>
              (case filter (\<lambda>g. grantMatches P g operator gc now) (tr_grants r2) of
                 [] \<Rightarrow> uncovered
               | second # _ \<Rightarrow> Inr (granted P operator now TrustGrant [brand, account, operator] [hd first, second])))
      else uncovered)"

definition authorizeDemandGrant ::
    "origin_platform \<Rightarrow> trust_view \<Rightarrow> grant_policy \<Rightarrow> int \<Rightarrow> grant_claim \<Rightarrow> identity_error + grant_authorization" where
  "authorizeDemandGrant P V D now c =
     bindE (trust_match P V (signerOrigin c) ''adcp:buying'' (brand_countries c)) (\<lambda>(operator, agent).
     if ta_countries agent \<noteq> None \<and> brand_countries c = [] then Inl AuthorizationFailed
     else
     bindE (eTldPlusOne P (brand_domain c)) (\<lambda>brand.
     bindE (eTldPlusOne P (accountOperator c)) (\<lambda>account.
     if brand = operator \<and> account = operator then Inr (granted P operator now ImplicitGrant [brand] [])
     else if brand = operator \<and> account \<noteq> operator then Inl GrantAbsent
     else
       let house = resolveBrandHouse D c in
       bindE (case house of None \<Rightarrow> Inr brand | Some (d, _) \<Rightarrow> eTldPlusOne P d) (\<lambda>authoritativeBrand.
       let gc = (case house of None \<Rightarrow> c | Some (_, b) \<Rightarrow> c\<lparr>brand_id := Some b\<rparr>) in
       bindE (trust_get P V authoritativeBrand) (\<lambda>(_, result).
         case result of
           TrustAbsent _ \<Rightarrow>
             if callback_accepts (legacyAuthorization D) c
             then Inr (granted P operator now LegacyGrant [brand, account, operator] []) else Inl GrantAbsent
         | TrustPresent r _ \<Rightarrow> grant_from_record P V D now c gc brand authoritativeBrand account operator r)))))"

end
