(* ===== verification/OriginIdentity.thy ===== *)
theory OriginIdentity
  imports OriginTrust
begin

text \<open>
  Bindings of origins to principals and their relationships (\<open>identity-3.3/lifecycle.ts\<close>): the in-memory store
  and the operations of the lifecycle.  An operation is a job that makes one awaited call of the store per
  step, so that jobs can interleave; the ledger of the seller, the trust records, the clock, fresh identifiers and the
  notification callback are the environment of a step.
\<close>

section \<open>Data\<close>

datatype billing_party = OperatorPays | AgentPays | AdvertiserPays
datatype principal_kind = BuyerAgent | OperatorKind

record open_access =
  oa_sandbox :: bool
  oa_billing :: "billing_party list"

record binding_audit =
  approvedBy :: jsstr
  approvedAt :: jsstr
  audit_reason :: jsstr
  migrationApproved :: bool

record origin_binding =
  b_origin :: jsstr
  b_operator :: jsstr
  b_principalId :: jsstr
  b_principalKind :: "principal_kind option"
  b_audit :: binding_audit
  openAccess :: "open_access option"

datatype relation_status = PendingRelation | ActiveRelation | SuspendedRelation | BlockedRelation

text \<open>The code reads the status and the expiry of a relationship; the rest is compared as text only.\<close>

record relationship =
  rel_status :: relation_status
  rel_expires :: "jsstr option"
  rel_rest :: jsstr

datatype changed_reason = RelationshipChanged | RelationshipExpiring

record notice =
  notice_id :: jsstr
  notice_reason :: changed_reason

record identity_application =
  app_relationship :: relationship
  app_revision :: nat
  expiryNotified :: "jsstr option"
  pendingNotices :: "notice list"

section \<open>The in-memory store\<close>

record identity_state =
  bindings :: "jsstr \<rightharpoonup> origin_binding"
  binding_origins :: "jsstr list"
  applications :: "jsstr \<rightharpoonup> identity_application"

text \<open>\<open>binding_origins\<close> lists the keys of the map of bindings in insertion order.\<close>

definition empty_identities :: identity_state where
  "empty_identities = \<lparr>bindings = Map.empty, binding_origins = [], applications = Map.empty\<rparr>"

definition id_getBinding :: "origin_platform \<Rightarrow> jsstr \<Rightarrow> identity_state \<Rightarrow> identity_error + origin_binding option" where
  "id_getBinding P origin st = bindE (canonicalizeOrigin P origin) (\<lambda>c. Inr (bindings st c))"

definition explicit_binding :: "origin_platform \<Rightarrow> origin_binding \<Rightarrow> bool" where
  "explicit_binding P b \<longleftrightarrow>
     b_principalId b \<noteq> [] \<and> approvedBy (b_audit b) \<noteq> [] \<and> audit_reason (b_audit b) \<noteq> [] \<and> date_ms P (approvedAt (b_audit b)) \<noteq> None"

definition put_binding :: "origin_binding \<Rightarrow> identity_state \<Rightarrow> identity_state" where
  "put_binding b st =
     st\<lparr>bindings := (bindings st)(b_origin b \<mapsto> b),
       binding_origins := (if b_origin b \<in> set (binding_origins st) then binding_origins st else binding_origins st @ [b_origin b])\<rparr>"

definition id_bind :: "origin_platform \<Rightarrow> origin_binding \<Rightarrow> identity_state \<Rightarrow> (identity_error + unit) \<times> identity_state" where
  "id_bind P b st =
     (case canonicalizeOrigin P (b_origin b) of
        Inl e \<Rightarrow> (Inl e, st)
      | Inr origin \<Rightarrow>
          if origin \<noteq> b_origin b \<or> \<not> explicit_binding P b then (Inl (InvalidInput ''TypeError''), st)
          else (case bindings st origin of
              None \<Rightarrow> (Inr (), put_binding b st)
            | Some existing \<Rightarrow> if existing \<noteq> b then (Inl AuthorizationFailed, st) else (Inr (), put_binding b st)))"

definition open_bindings :: "jsstr \<Rightarrow> identity_state \<Rightarrow> origin_binding list" where
  "open_bindings operator st =
     filter (\<lambda>b. b_operator b = operator \<and> openAccess b \<noteq> None) (map (the \<circ> bindings st) (binding_origins st))"

text \<open>A quota that is no integer is refused.\<close>

definition id_bindOpen ::
    "origin_platform \<Rightarrow> origin_binding \<Rightarrow> int option \<Rightarrow> identity_state \<Rightarrow> (identity_error + origin_binding) \<times> identity_state" where
  "id_bindOpen P b quota st =
     (if bindings st (b_origin b) \<noteq> None then (Inl AuthorizationFailed, st)
      else (case quota of
          None \<Rightarrow> (Inl AuthorizationFailed, st)
        | Some q \<Rightarrow>
            if openAccess b = None \<or> q < 1 \<or> int (length (open_bindings (b_operator b) st)) \<ge> q
            then (Inl AuthorizationFailed, st)
            else (case id_bind P b st of (Inl e, st') \<Rightarrow> (Inl e, st') | (Inr _, st') \<Rightarrow> (Inr b, st'))))"

definition id_getApplication :: "origin_platform \<Rightarrow> jsstr \<Rightarrow> identity_state \<Rightarrow> identity_error + identity_application option" where
  "id_getApplication P origin st = bindE (canonicalizeOrigin P origin) (\<lambda>c. Inr (applications st c))"

definition id_compareAndSet ::
    "origin_platform \<Rightarrow> jsstr \<Rightarrow> nat option \<Rightarrow> identity_application \<Rightarrow> identity_state \<Rightarrow> (identity_error + bool) \<times> identity_state" where
  "id_compareAndSet P origin expected app st =
     (case canonicalizeOrigin P origin of
        Inl e \<Rightarrow> (Inl e, st)
      | Inr c \<Rightarrow>
          if map_option app_revision (applications st c) \<noteq> expected
             \<or> app_revision app \<noteq> (case expected of None \<Rightarrow> 0 | Some r \<Rightarrow> r) + 1
          then (Inr False, st)
          else (Inr True, st\<lparr>applications := (applications st)(c \<mapsto> app)\<rparr>))"

text \<open>The store interface the lifecycle is written against.\<close>

record 's origin_store =
  os_getBinding :: "jsstr \<Rightarrow> 's \<Rightarrow> identity_error + origin_binding option"
  os_bind :: "origin_binding \<Rightarrow> 's \<Rightarrow> (identity_error + unit) \<times> 's"
  os_bindOpen :: "origin_binding \<Rightarrow> int option \<Rightarrow> 's \<Rightarrow> (identity_error + origin_binding) \<times> 's"
  os_getApplication :: "jsstr \<Rightarrow> 's \<Rightarrow> identity_error + identity_application option"
  os_compareAndSet :: "jsstr \<Rightarrow> nat option \<Rightarrow> identity_application \<Rightarrow> 's \<Rightarrow> (identity_error + bool) \<times> 's"

definition memoryIdentities :: "origin_platform \<Rightarrow> identity_state origin_store" where
  "memoryIdentities P = \<lparr>os_getBinding = id_getBinding P, os_bind = id_bind P, os_bindOpen = id_bindOpen P,
     os_getApplication = id_getApplication P, os_compareAndSet = id_compareAndSet P\<rparr>"

section \<open>Onboarding requirements\<close>

record onboarding_requirement =
  req_kind :: string
  req_role :: "string option"
  verification_modes :: "string list option"
  specialisms :: "string list option"
  verified_specialisms :: "string list option"
  req_adcp_version :: "string option"
  req_id :: "string option"

definition BUYER_GATES :: "string list" where
  "BUYER_GATES = [''aao_verified'', ''storyboard'', ''sandbox'', ''experimental_feature'']"

definition SELLER_GATES :: "string list" where
  "SELLER_GATES = [''agent_identity'', ''grant'', ''billing_entity'', ''contract'', ''credit_application'']"

definition given :: "'a list option \<Rightarrow> bool" where
  "given x \<longleftrightarrow> (case x of None \<Rightarrow> False | Some t \<Rightarrow> t \<noteq> [])"

definition well_formed_requirement :: "onboarding_requirement \<Rightarrow> bool" where
  "well_formed_requirement r \<longleftrightarrow>
     req_kind r \<noteq> ''aao_verified''
     \<or> given (req_role r) \<and> given (verification_modes r)
       \<and> given (case verified_specialisms r of Some x \<Rightarrow> Some x | None \<Rightarrow> specialisms r) \<and> given (req_adcp_version r)"

definition has_requirement_id :: "onboarding_requirement \<Rightarrow> bool" where
  "has_requirement_id r \<longleftrightarrow> req_kind r \<notin> {''storyboard'', ''experimental_feature''} \<or> given (req_id r)"

text \<open>The requirements that stay unsatisfied; the result is satisfied if there are none.\<close>

definition evaluateOnboardingRequirements ::
    "onboarding_requirement list \<Rightarrow> bool \<Rightarrow> (onboarding_requirement \<Rightarrow> bool) \<Rightarrow> onboarding_requirement list" where
  "evaluateOnboardingRequirements rs sellerSide check =
     (let relevant = (if sellerSide then SELLER_GATES else BUYER_GATES); wrong = (if sellerSide then BUYER_GATES else SELLER_GATES) in
      filter (\<lambda>r. req_kind r \<notin> set wrong
                \<and> (req_kind r \<notin> set relevant \<or> \<not> well_formed_requirement r \<or> \<not> has_requirement_id r \<or> \<not> check r)) rs)"

datatype tier_mode = OpenMode | ApplicationMode | InviteMode

record onboarding_tier =
  tier_mode :: tier_mode
  tier_requirements :: "onboarding_requirement list"

record agent_onboarding =
  ob_sandbox :: "onboarding_tier option"
  ob_billing :: "(billing_party \<times> onboarding_tier) list"

definition validateAgentOnboarding ::
    "bool \<Rightarrow> agent_onboarding \<Rightarrow> bool \<Rightarrow> billing_party list \<Rightarrow> string list \<Rightarrow> identity_error + unit" where
  "validateAgentOnboarding schema_ok posture accountSandbox supportedBilling experimentalFeatures =
     (if \<not> schema_ok \<or> ''account.agent_onboarding'' \<notin> set experimentalFeatures
         \<or> ob_sandbox posture \<noteq> None \<and> \<not> accountSandbox
         \<or> list_ex (\<lambda>k. k \<notin> set supportedBilling) (map fst (ob_billing posture))
      then Inl (InvalidInput ''TypeError'') else Inr ())"

section \<open>The lifecycle\<close>

text \<open>The options of a lifecycle that do not change: the open-onboarding posture, the quota, and whether callbacks are given.\<close>

record origin_options =
  lo_onboarding :: "agent_onboarding option"
  lo_quota :: "int option"
  lo_hasLedger :: bool
  lo_hasRequirementCheck :: bool
  lo_hasBillingCheck :: bool
  lo_notifies :: bool

record identity_env =
  trust :: trust_view
  now_ms :: int
  legacyPrincipals :: "jsstr \<Rightarrow> jsstr list"
  requirement_met :: "jsstr \<Rightarrow> onboarding_requirement \<Rightarrow> bool"
  billing_relationship :: "jsstr \<Rightarrow> billing_party \<Rightarrow> bool"
  fresh_uuid :: jsstr
  notify_throws :: bool

record bind_input =
  bi_origin :: jsstr
  bi_principalId :: jsstr
  bi_approvedBy :: jsstr
  bi_reason :: jsstr
  bi_principalKind :: "principal_kind option"
  bi_existingRfc :: bool
  bi_migrationApproved :: bool
  bi_sharedOrigin :: bool

record access_request =
  ac_readOnly :: bool
  ac_identityConfiguration :: bool
  ac_sandbox :: bool
  ac_billing :: "billing_party option"
  ac_brandDomain :: "jsstr option"

datatype identity_job =
    GetPrincipalJob jsstr
  | BindJob bind_input
  | AuthorizeJob jsstr "access_request option"
  | SyncOpenJob jsstr bool
  | SetRelationshipJob jsstr relationship bool
  | ExpiringJob jsstr "int option"
  | FlushJob jsstr
  | LegacyAllowedJob jsstr

text \<open>A relationship comes with the verdict of its schema; a lead time that is no finite number is missing.\<close>

record principal_view =
  pv_recognized :: bool
  pv_principalId :: "jsstr option"
  pv_principalKind :: "principal_kind option"
  pv_relationship :: "relationship option"

datatype identity_result =
    PrincipalFound "origin_binding option" principal_view
  | Bound origin_binding
  | Announced bool
  | NoValue

datatype after_flush = EndFlush identity_result | CheckExpiry int

datatype identity_pc =
    Start
  | PrincipalBinding jsstr
  | PrincipalApplication jsstr "origin_binding option"
  | BindCall origin_binding
  | AuthBinding jsstr
  | AuthApplication jsstr origin_binding
  | SyncBinding jsstr
  | SyncApplication jsstr
  | SyncCall origin_binding
  | SetRead nat jsstr
  | SetSwap nat jsstr "identity_application option" identity_application
  | ExpiryRead jsstr int
  | ExpirySwap jsstr identity_application identity_application
  | FlushRead nat jsstr after_flush
  | FlushSwap nat jsstr identity_application after_flush
  | LegacyRead jsstr
  | Ended "identity_error + identity_result"

definition principal_view_of :: "origin_binding option \<Rightarrow> identity_application option \<Rightarrow> principal_view" where
  "principal_view_of b app =
     \<lparr>pv_recognized = (b \<noteq> None), pv_principalId = map_option b_principalId b,
      pv_principalKind = map_option (\<lambda>x. case b_principalKind x of None \<Rightarrow> BuyerAgent | Some k \<Rightarrow> k) b,
      pv_relationship = map_option app_relationship app\<rparr>"

definition fail :: "identity_error \<Rightarrow> identity_pc" where
  "fail e = Ended (Inl e)"

definition on_origin :: "origin_platform \<Rightarrow> jsstr \<Rightarrow> (jsstr \<Rightarrow> identity_pc) \<Rightarrow> identity_pc" where
  "on_origin P url k = (case canonicalizeOrigin P url of Inl e \<Rightarrow> fail e | Inr c \<Rightarrow> k c)"

definition after_read :: "identity_error + 'a \<Rightarrow> ('a \<Rightarrow> identity_pc) \<Rightarrow> identity_pc" where
  "after_read r k = (case r of Inl e \<Rightarrow> fail e | Inr x \<Rightarrow> k x)"

text \<open>Where a job goes once its notices are flushed.\<close>

definition go_on :: "jsstr \<Rightarrow> after_flush \<Rightarrow> identity_pc" where
  "go_on origin k = (case k of EndFlush r \<Rightarrow> Ended (Inr r) | CheckExpiry lead \<Rightarrow> ExpiryRead origin lead)"

definition flushRelationshipNotifications ::
    "origin_platform \<Rightarrow> origin_options \<Rightarrow> jsstr \<Rightarrow> after_flush \<Rightarrow> identity_pc" where
  "flushRelationshipNotifications P L url k =
     (if \<not> lo_notifies L then go_on url k else on_origin P url (\<lambda>origin. FlushRead 0 origin k))"

definition bindPrincipal :: "origin_platform \<Rightarrow> origin_options \<Rightarrow> identity_env \<Rightarrow> bind_input \<Rightarrow> identity_pc" where
  "bindPrincipal P L E i =
     (if bi_sharedOrigin i \<or> bi_existingRfc i \<and> \<not> bi_migrationApproved i then fail AuthorizationFailed
      else on_origin P (bi_origin i) (\<lambda>origin.
        let legacy = legacyPrincipals E origin in
        if lo_hasLedger L
           \<and> (length legacy > 1 \<or> length legacy = 1 \<and> (hd legacy \<noteq> bi_principalId i \<or> \<not> bi_migrationApproved i))
        then fail AuthorizationFailed
        else (case trust_match P (trust E) origin ''adcp:buying'' [] of
            Inl e \<Rightarrow> fail e
          | Inr (operator, _) \<Rightarrow>
              BindCall \<lparr>b_origin = origin, b_operator = operator, b_principalId = bi_principalId i,
                b_principalKind = bi_principalKind i,
                b_audit = \<lparr>approvedBy = bi_approvedBy i, approvedAt = iso_time P (now_ms E), audit_reason = bi_reason i,
                  migrationApproved = bi_migrationApproved i\<rparr>, openAccess = None\<rparr>)))"

text \<open>What trust says of a bound origin, with its outage continued for calls that do not spend.\<close>

definition bound_trust :: "origin_platform \<Rightarrow> trust_view \<Rightarrow> jsstr \<Rightarrow> origin_binding \<Rightarrow> identity_error + unit" where
  "bound_trust P V origin b =
     (case trust_match P V origin ''adcp:buying'' [] of
        Inl (Membership absent) \<Rightarrow> Inl (if absent then TrustUnavailable False else Membership False)
      | Inl e \<Rightarrow> Inl e
      | Inr (operator, _) \<Rightarrow> if b_operator b \<noteq> operator then Inl (Membership False) else Inr ())"

definition asks_no_spend :: "access_request option \<Rightarrow> bool" where
  "asks_no_spend ac \<longleftrightarrow> (case ac of None \<Rightarrow> False | Some a \<Rightarrow> ac_readOnly a \<or> ac_identityConfiguration a)"

definition trust_refusal :: "origin_platform \<Rightarrow> trust_view \<Rightarrow> jsstr \<Rightarrow> origin_binding \<Rightarrow> access_request option \<Rightarrow> identity_error option" where
  "trust_refusal P V origin b ac =
     (case bound_trust P V origin b of
        Inr _ \<Rightarrow> None
      | Inl e \<Rightarrow> if e = TrustUnavailable True \<and> asks_no_spend ac then None else Some e)"

definition relationship_expired :: "origin_platform \<Rightarrow> int \<Rightarrow> relationship \<Rightarrow> bool" where
  "relationship_expired P now r \<longleftrightarrow> (case time_of P (rel_expires r) of None \<Rightarrow> False | Some t \<Rightarrow> t \<le> now)"

definition relationship_refused :: "origin_platform \<Rightarrow> int \<Rightarrow> identity_application option \<Rightarrow> access_request option \<Rightarrow> bool" where
  "relationship_refused P now app ac \<longleftrightarrow>
     \<not> (case ac of None \<Rightarrow> False | Some a \<Rightarrow> ac_readOnly a)
     \<and> (case app of
          None \<Rightarrow> False
        | Some x \<Rightarrow> rel_status (app_relationship x) \<noteq> ActiveRelation \<or> relationship_expired P now (app_relationship x))"

definition billed_party :: "origin_platform \<Rightarrow> origin_binding \<Rightarrow> access_request \<Rightarrow> billing_party \<Rightarrow> identity_error + jsstr" where
  "billed_party P b a billing =
     (if billing = OperatorPays then Inr (b_operator b)
      else (case ac_brandDomain a of
          None \<Rightarrow> Inr []
        | Some d \<Rightarrow> if d = [] then Inr [] else eTldPlusOne P d))"

definition open_refusal ::
    "origin_platform \<Rightarrow> origin_options \<Rightarrow> identity_env \<Rightarrow> origin_binding \<Rightarrow> access_request option \<Rightarrow> identity_error option" where
  "open_refusal P L E b ac =
     (case (openAccess b, ac) of
        (None, _) \<Rightarrow> None
      | (Some _, None) \<Rightarrow> Some AuthorizationFailed
      | (Some oa, Some a) \<Rightarrow>
          if ac_readOnly a \<or> ac_identityConfiguration a then None
          else if ac_sandbox a then (if \<not> oa_sandbox oa then Some AuthorizationFailed else None)
          else (case ac_billing a of
              None \<Rightarrow> Some AuthorizationFailed
            | Some billing \<Rightarrow>
                if billing = AgentPays \<or> billing \<notin> set (oa_billing oa) then Some AuthorizationFailed
                else (case billed_party P b a billing of
                    Inl e \<Rightarrow> Some e
                  | Inr party \<Rightarrow>
                      if party = [] \<or> \<not> (lo_hasBillingCheck L \<and> billing_relationship E party billing)
                      then Some AuthorizationFailed else None)))"

definition any_open_tier :: "origin_options \<Rightarrow> bool" where
  "any_open_tier L \<longleftrightarrow>
     (case lo_onboarding L of
        None \<Rightarrow> False
      | Some ob \<Rightarrow>
          (case ob_sandbox ob of None \<Rightarrow> False | Some t \<Rightarrow> tier_mode t = OpenMode)
          \<or> list_ex (\<lambda>(_, t). tier_mode t = OpenMode) (ob_billing ob))"

definition eligible :: "origin_options \<Rightarrow> identity_env \<Rightarrow> jsstr \<Rightarrow> onboarding_tier option \<Rightarrow> bool" where
  "eligible L E origin tier =
     (case tier of
        None \<Rightarrow> False
      | Some t \<Rightarrow> tier_mode t = OpenMode
          \<and> evaluateOnboardingRequirements (tier_requirements t) True
              (\<lambda>r. lo_hasRequirementCheck L \<and> requirement_met E origin r) = [])"

definition open_tiers :: "origin_options \<Rightarrow> identity_env \<Rightarrow> jsstr \<Rightarrow> bool \<Rightarrow> open_access" where
  "open_tiers L E origin privateSuffix =
     \<lparr>oa_sandbox = eligible L E origin (Option.bind (lo_onboarding L) ob_sandbox),
      oa_billing = (if privateSuffix then [] else
        filter (\<lambda>p. eligible L E origin (Option.bind (lo_onboarding L) (\<lambda>ob. map_of (ob_billing ob) p))) [OperatorPays, AdvertiserPays])\<rparr>"

text \<open>\<open>syncOpen\<close> from the answer of \<open>getApplication\<close> to the call of \<open>bindOpen\<close>.\<close>

definition sync_plan ::
    "origin_platform \<Rightarrow> origin_options \<Rightarrow> identity_env \<Rightarrow> jsstr \<Rightarrow> bool \<Rightarrow> identity_application option \<Rightarrow> identity_pc" where
  "sync_plan P L E origin dryRun app =
     (if (case app of None \<Rightarrow> False
          | Some x \<Rightarrow> rel_status (app_relationship x) \<in> {BlockedRelation, SuspendedRelation} \<or> relationship_expired P (now_ms E) (app_relationship x))
      then fail AuthorizationFailed
      else (case trust_match P (trust E) origin ''adcp:buying'' [] of
          Inl e \<Rightarrow> fail e
        | Inr (operator, _) \<Rightarrow>
            (case new_URL (op_sig P) origin of
               None \<Rightarrow> fail (InvalidInput ''TypeError'')
             | Some u \<Rightarrow>
                 let access = open_tiers L E origin (psl_isPrivate (parse_tld P (url_hostname u)));
                     b = \<lparr>b_origin = origin, b_operator = operator, b_principalId = fresh_uuid E, b_principalKind = None,
                       b_audit = \<lparr>approvedBy = js ''open-onboarding-policy'', approvedAt = iso_time P (now_ms E),
                         audit_reason = js ''new principal for declared open tiers'', migrationApproved = False\<rparr>,
                       openAccess = Some access\<rparr> in
                 if \<not> oa_sandbox access \<and> oa_billing access = [] then fail AuthorizationFailed
                 else if dryRun then Ended (Inr (Bound b))
                 else SyncCall b)))"

section \<open>Relationships and their notices\<close>

definition relationship_text :: "relationship \<Rightarrow> relation_status \<times> jsstr option \<times> jsstr" where
  "relationship_text r = (rel_status r, rel_expires r, rel_rest r)"

definition queued_of :: "identity_application option \<Rightarrow> notice list" where
  "queued_of app = (case app of None \<Rightarrow> [] | Some a \<Rightarrow> pendingNotices a)"

definition next_revision :: "identity_application option \<Rightarrow> nat" where
  "next_revision app = (case app of None \<Rightarrow> 0 | Some a \<Rightarrow> app_revision a) + 1"

definition changed_application :: "jsstr \<Rightarrow> relationship \<Rightarrow> identity_application option \<Rightarrow> identity_application" where
  "changed_application uuid r prior =
     \<lparr>app_relationship = r, app_revision = next_revision prior,
      expiryNotified = (case prior of
          None \<Rightarrow> None
        | Some a \<Rightarrow> if rel_expires (app_relationship a) = rel_expires r \<and> some_text (expiryNotified a) then expiryNotified a else None),
      pendingNotices = queued_of prior @ [\<lparr>notice_id = uuid, notice_reason = RelationshipChanged\<rparr>]\<rparr>"

definition announced_application :: "jsstr \<Rightarrow> jsstr \<Rightarrow> identity_application \<Rightarrow> identity_application" where
  "announced_application uuid expires a =
     a\<lparr>app_revision := app_revision a + 1, expiryNotified := Some expires,
       pendingNotices := pendingNotices a @ [\<lparr>notice_id = uuid, notice_reason = RelationshipExpiring\<rparr>]\<rparr>"

definition delivered_application :: "identity_application \<Rightarrow> identity_application" where
  "delivered_application a = a\<lparr>app_revision := app_revision a + 1, pendingNotices := tl (pendingNotices a)\<rparr>"

text \<open>\<open>setRelationship\<close> after \<open>getApplication\<close>.\<close>

definition set_plan ::
    "origin_platform \<Rightarrow> origin_options \<Rightarrow> identity_env \<Rightarrow> relationship \<Rightarrow> nat \<Rightarrow> jsstr \<Rightarrow> identity_application option \<Rightarrow> identity_pc" where
  "set_plan P L E r attempt origin prior =
     (if (case prior of None \<Rightarrow> False | Some a \<Rightarrow> relationship_text (app_relationship a) = relationship_text r)
      then flushRelationshipNotifications P L origin (EndFlush NoValue)
      else SetSwap attempt origin prior (changed_application (fresh_uuid E) r prior))"

definition due :: "origin_platform \<Rightarrow> int \<Rightarrow> int \<Rightarrow> identity_application \<Rightarrow> jsstr option" where
  "due P now leadMs a =
     (case rel_expires (app_relationship a) of
        None \<Rightarrow> None
      | Some expires \<Rightarrow>
          if expires = [] \<or> expiryNotified a = Some expires then None
          else (case date_ms P expires of
              None \<Rightarrow> Some expires
            | Some t \<Rightarrow> if t - now > leadMs \<or> t \<le> now then None else Some expires))"

text \<open>\<open>notifyRelationshipExpiring\<close> after its flush and \<open>getApplication\<close>.\<close>

definition expiry_plan :: "origin_platform \<Rightarrow> identity_env \<Rightarrow> jsstr \<Rightarrow> int \<Rightarrow> identity_application option \<Rightarrow> identity_pc" where
  "expiry_plan P E origin leadMs prior =
     (case prior of
        None \<Rightarrow> Ended (Inr (Announced False))
      | Some a \<Rightarrow>
          (case due P (now_ms E) leadMs a of
             None \<Rightarrow> Ended (Inr (Announced False))
           | Some expires \<Rightarrow> ExpirySwap origin a (announced_application (fresh_uuid E) expires a)))"

text \<open>What is handed to \<open>notify\<close> in a step, with the origin.\<close>

type_synonym delivery = "jsstr \<times> notice"

definition flush_plan ::
    "identity_env \<Rightarrow> nat \<Rightarrow> jsstr \<Rightarrow> after_flush \<Rightarrow> identity_application option \<Rightarrow> identity_pc \<times> delivery list" where
  "flush_plan E n origin k prior =
     (case prior of
        None \<Rightarrow> (go_on origin k, [])
      | Some a \<Rightarrow>
          (case pendingNotices a of
             [] \<Rightarrow> (go_on origin k, [])
           | note # _ \<Rightarrow>
               if notify_throws E then (fail CallbackFailed, []) else (FlushSwap n origin a k, [(origin, note)])))"

section \<open>Steps\<close>

definition identity_start :: "origin_platform \<Rightarrow> origin_options \<Rightarrow> identity_env \<Rightarrow> identity_job \<Rightarrow> identity_pc" where
  "identity_start P L E job =
     (case job of
        GetPrincipalJob url \<Rightarrow> on_origin P url PrincipalBinding
      | BindJob i \<Rightarrow> bindPrincipal P L E i
      | AuthorizeJob url ac \<Rightarrow> on_origin P url AuthBinding
      | SyncOpenJob url dry \<Rightarrow> on_origin P url (\<lambda>origin. if \<not> any_open_tier L then fail AuthorizationFailed else SyncBinding origin)
      | SetRelationshipJob url r valid \<Rightarrow>
          if \<not> valid then fail (InvalidInput ''TypeError'') else on_origin P url (SetRead 0)
      | ExpiringJob url lead \<Rightarrow>
          (case lead of
             None \<Rightarrow> fail (InvalidInput ''TypeError'')
           | Some l \<Rightarrow>
               if l < 0 then fail (InvalidInput ''TypeError'')
               else on_origin P url (\<lambda>origin. flushRelationshipNotifications P L origin (CheckExpiry l)))
      | FlushJob url \<Rightarrow> flushRelationshipNotifications P L url (EndFlush NoValue)
      | LegacyAllowedJob url \<Rightarrow> on_origin P url LegacyRead)"

text \<open>A store call of a job and the code up to the next one, with what it hands to \<open>notify\<close>.\<close>

fun identity_step ::
    "'s origin_store \<Rightarrow> origin_platform \<Rightarrow> origin_options \<Rightarrow> identity_env \<Rightarrow> identity_job \<Rightarrow> identity_pc \<Rightarrow> 's
      \<Rightarrow> identity_pc \<times> 's \<times> delivery list" where
  "identity_step S P L E job Start st = (identity_start P L E job, st, [])"
| "identity_step S P L E job (PrincipalBinding o') st =
     (after_read (os_getBinding S o' st) (PrincipalApplication o'), st, [])"
| "identity_step S P L E job (PrincipalApplication o' b) st =
     (after_read (os_getApplication S o' st) (\<lambda>a. Ended (Inr (PrincipalFound b (principal_view_of b a)))), st, [])"
| "identity_step S P L E job (BindCall b) st =
     (case os_bind S b st of (r, st') \<Rightarrow> (after_read r (\<lambda>_. Ended (Inr (Bound b))), st', []))"
| "identity_step S P L E job (AuthBinding o') st =
     (after_read (os_getBinding S o' st) (\<lambda>b. case b of
        None \<Rightarrow> fail AuthorizationFailed
      | Some b \<Rightarrow> (case job of
          AuthorizeJob _ ac \<Rightarrow>
            (case trust_refusal P (trust E) o' b ac of Some e \<Rightarrow> fail e | None \<Rightarrow> AuthApplication o' b)
        | _ \<Rightarrow> fail AuthorizationFailed)), st, [])"
| "identity_step S P L E job (AuthApplication o' b) st =
     (after_read (os_getApplication S o' st) (\<lambda>app. case job of
        AuthorizeJob _ ac \<Rightarrow>
          if relationship_refused P (now_ms E) app ac then fail AuthorizationFailed
          else (case open_refusal P L E b ac of Some e \<Rightarrow> fail e | None \<Rightarrow> Ended (Inr (Bound b)))
      | _ \<Rightarrow> fail AuthorizationFailed), st, [])"
| "identity_step S P L E job (SyncBinding o') st =
     (after_read (os_getBinding S o' st) (\<lambda>b.
        if b \<noteq> None \<or> \<not> lo_hasLedger L \<or> legacyPrincipals E o' \<noteq> [] then fail AuthorizationFailed else SyncApplication o'), st, [])"
| "identity_step S P L E job (SyncApplication o') st =
     (after_read (os_getApplication S o' st) (\<lambda>app. case job of
        SyncOpenJob _ dry \<Rightarrow> sync_plan P L E o' dry app
      | _ \<Rightarrow> fail AuthorizationFailed), st, [])"
| "identity_step S P L E job (SyncCall b) st =
     (case os_bindOpen S b (lo_quota L) st of (r, st') \<Rightarrow> (after_read r (\<lambda>b'. Ended (Inr (Bound b'))), st', []))"
| "identity_step S P L E job (SetRead n o') st =
     (after_read (os_getApplication S o' st) (\<lambda>prior. case job of
        SetRelationshipJob _ r _ \<Rightarrow> set_plan P L E r n o' prior
      | _ \<Rightarrow> fail AuthorizationFailed), st, [])"
| "identity_step S P L E job (SetSwap n o' prior new) st =
     (case os_compareAndSet S o' (map_option app_revision prior) new st of
        (r, st') \<Rightarrow> (after_read r (\<lambda>swapped.
          if swapped then flushRelationshipNotifications P L o' (EndFlush NoValue)
          else if n + 1 < 5 then SetRead (n + 1) o' else fail AuthorizationFailed), st', []))"
| "identity_step S P L E job (ExpiryRead o' lead) st =
     (after_read (os_getApplication S o' st) (expiry_plan P E o' lead), st, [])"
| "identity_step S P L E job (ExpirySwap o' a new) st =
     (case os_compareAndSet S o' (Some (app_revision a)) new st of
        (r, st') \<Rightarrow> (after_read r (\<lambda>swapped.
          if swapped then flushRelationshipNotifications P L o' (EndFlush (Announced True))
          else Ended (Inr (Announced False))), st', []))"
| "identity_step S P L E job (FlushRead n o' k) st =
     (case os_getApplication S o' st of
        Inl e \<Rightarrow> (fail e, st, [])
      | Inr prior \<Rightarrow> (case flush_plan E n o' k prior of (pc', sent) \<Rightarrow> (pc', st, sent)))"
| "identity_step S P L E job (FlushSwap n o' a k) st =
     (case os_compareAndSet S o' (Some (app_revision a)) (delivered_application a) st of
        (r, st') \<Rightarrow> (after_read r (\<lambda>_. if n + 1 < 100 then FlushRead (n + 1) o' k else go_on o' k), st', []))"
| "identity_step S P L E job (LegacyRead o') st =
     (after_read (os_getBinding S o' st) (\<lambda>b. if b \<noteq> None then fail AuthorizationFailed else Ended (Inr NoValue)), st, [])"
| "identity_step S P L E job (Ended r) st = (Ended r, st, [])"

end
