(* ===== verification/OriginConcurrency.thy ===== *)
theory OriginConcurrency
  imports OriginIdentity
begin

text \<open>
  The identity store as the lifecycle sees it (the interface \<open>OriginIdentityStore\<close>), and what holds over every
  interleaving of lifecycle jobs: bindings and the open-onboarding quota, and the history of an application.
\<close>

section \<open>The interface\<close>

text \<open>The origins of an operator that have open bindings.\<close>

definition open_origins :: "jsstr \<Rightarrow> (jsstr \<rightharpoonup> origin_binding) \<Rightarrow> jsstr set" where
  "open_origins operator m = {c. \<exists>b. m c = Some b \<and> b_operator b = operator \<and> openAccess b \<noteq> None}"

locale identity_store =
  fixes S :: "'s origin_store" and P :: origin_platform and good :: "'s \<Rightarrow> bool"
    and bound :: "'s \<Rightarrow> jsstr \<rightharpoonup> origin_binding" and apps :: "'s \<Rightarrow> jsstr \<rightharpoonup> identity_application"
  assumes good_bind: "good st \<Longrightarrow> good (snd (os_bind S b st))"
    and good_bindOpen: "good st \<Longrightarrow> good (snd (os_bindOpen S b q st))"
    and good_swap: "good st \<Longrightarrow> good (snd (os_compareAndSet S c x a st))"
    and bound_finite: "good st \<Longrightarrow> finite (dom (bound st))"
    and read_binding: "good st \<Longrightarrow> os_getBinding S u st = bindE (canonicalizeOrigin P u) (\<lambda>c. Inr (bound st c))"
    and read_application: "good st \<Longrightarrow> os_getApplication S u st = bindE (canonicalizeOrigin P u) (\<lambda>c. Inr (apps st c))"
    and bind_done: "good st \<Longrightarrow> os_bind S b st = (Inr (), st') \<Longrightarrow>
      bound st (b_origin b) \<in> {None, Some b} \<and> bound st' = (bound st)(b_origin b \<mapsto> b) \<and> apps st' = apps st"
    and bind_refused: "good st \<Longrightarrow> os_bind S b st = (Inl e, st') \<Longrightarrow> bound st' = bound st \<and> apps st' = apps st"
    and bindOpen_done: "good st \<Longrightarrow> os_bindOpen S b q st = (Inr b', st') \<Longrightarrow>
      b' = b \<and> bound st (b_origin b) = None \<and> bound st' = (bound st)(b_origin b \<mapsto> b) \<and> apps st' = apps st
      \<and> (\<exists>n. q = Some n \<and> int (card (open_origins (b_operator b) (bound st))) < n)"
    and bindOpen_refused: "good st \<Longrightarrow> os_bindOpen S b q st = (Inl e, st') \<Longrightarrow> bound st' = bound st \<and> apps st' = apps st"
    and swap_done: "good st \<Longrightarrow> os_compareAndSet S u x a st = (Inr True, st') \<Longrightarrow>
      \<exists>c. canonicalizeOrigin P u = Inr c \<and> map_option app_revision (apps st c) = x \<and> apps st' = (apps st)(c \<mapsto> a) \<and> bound st' = bound st"
    and swap_not_done: "good st \<Longrightarrow> os_compareAndSet S u x a st = (r, st') \<Longrightarrow> r \<noteq> Inr True \<Longrightarrow> bound st' = bound st \<and> apps st' = apps st"

section \<open>The in-memory store provides it\<close>

definition identities_ok :: "identity_state \<Rightarrow> bool" where
  "identities_ok st \<longleftrightarrow> distinct (binding_origins st) \<and> set (binding_origins st) = dom (bindings st)"

lemma empty_identities_ok: "identities_ok empty_identities"
  by (simp add: identities_ok_def empty_identities_def)

lemma put_binding_ok: "identities_ok st \<Longrightarrow> identities_ok (put_binding b st)"
  by (auto simp: identities_ok_def put_binding_def)

lemma id_bind_cases:
  obtains (refused) e where "id_bind P b st = (Inl e, st)"
    | (stored) "id_bind P b st = (Inr (), put_binding b st)" "bindings st (b_origin b) \<in> {None, Some b}"
proof -
  have "(\<exists>e. id_bind P b st = (Inl e, st))
    \<or> id_bind P b st = (Inr (), put_binding b st) \<and> bindings st (b_origin b) \<in> {None, Some b}"
    by (auto simp: id_bind_def split: sum.split option.split)
  then show thesis using refused stored by blast
qed

lemma id_bindOpen_cases:
  obtains (refused) e where "id_bindOpen P b q st = (Inl e, st)"
    | (stored) n where "id_bindOpen P b q st = (Inr b, put_binding b st)" "bindings st (b_origin b) = None"
        "q = Some n" "int (length (open_bindings (b_operator b) st)) < n"
proof -
  have "(\<exists>e. id_bindOpen P b q st = (Inl e, st))
    \<or> (\<exists>n. id_bindOpen P b q st = (Inr b, put_binding b st) \<and> bindings st (b_origin b) = None \<and> q = Some n
        \<and> int (length (open_bindings (b_operator b) st)) < n)"
    by (rule id_bind_cases [of P b st]) (auto simp: id_bindOpen_def split: option.split)
  then show thesis using refused stored by blast
qed

lemma open_count:
  assumes "identities_ok st" shows "length (open_bindings operator st) = card (open_origins operator (bindings st))"
proof -
  let ?open = "\<lambda>c. b_operator (the (bindings st c)) = operator \<and> openAccess (the (bindings st c)) \<noteq> None"
  have "length (open_bindings operator st) = length (filter ?open (binding_origins st))"
    by (simp add: open_bindings_def filter_map comp_def)
  also have "\<dots> = card (set (filter ?open (binding_origins st)))"
    using assms by (intro distinct_card [symmetric]) (simp add: identities_ok_def)
  also have "set (filter ?open (binding_origins st)) = open_origins operator (bindings st)"
    using assms by (auto simp: identities_ok_def open_origins_def)
  finally show ?thesis .
qed

lemma id_compareAndSet_cases:
  obtains (refused) r where "id_compareAndSet P u x a st = (r, st)" "r \<noteq> Inr True"
    | (stored) c where "id_compareAndSet P u x a st = (Inr True, st\<lparr>applications := (applications st)(c \<mapsto> a)\<rparr>)"
        "canonicalizeOrigin P u = Inr c" "map_option app_revision (applications st c) = x"
proof -
  have "(\<exists>r. id_compareAndSet P u x a st = (r, st) \<and> r \<noteq> Inr True)
    \<or> (\<exists>c. id_compareAndSet P u x a st = (Inr True, st\<lparr>applications := (applications st)(c \<mapsto> a)\<rparr>)
        \<and> canonicalizeOrigin P u = Inr c \<and> map_option app_revision (applications st c) = x)"
    by (auto simp: id_compareAndSet_def split: sum.split)
  then show thesis using refused stored by blast
qed

lemma memory_identity_store: "identity_store (memoryIdentities P) P identities_ok bindings applications"
proof
  fix st st' :: identity_state and b b' :: origin_binding and q x a u c e r
  note defs = memoryIdentities_def
  have put: "bindings (put_binding b st) = (bindings st)(b_origin b \<mapsto> b)" "applications (put_binding b st) = applications st" for b st
    by (simp_all add: put_binding_def)
  show "identities_ok st \<Longrightarrow> identities_ok (snd (os_bind (memoryIdentities P) b st))"
    by (rule id_bind_cases [of P b st]) (simp_all add: defs put_binding_ok)
  show "identities_ok st \<Longrightarrow> identities_ok (snd (os_bindOpen (memoryIdentities P) b q st))"
    by (rule id_bindOpen_cases [of P b q st]) (simp_all add: defs put_binding_ok)
  show "identities_ok st \<Longrightarrow> identities_ok (snd (os_compareAndSet (memoryIdentities P) c x a st))"
    by (rule id_compareAndSet_cases [of P c x a st]) (simp_all add: defs identities_ok_def)
  show "identities_ok st \<Longrightarrow> finite (dom (bindings st))"
    unfolding identities_ok_def by (metis List.finite_set)
  show "os_getBinding (memoryIdentities P) u st = bindE (canonicalizeOrigin P u) (\<lambda>c. Inr (bindings st c))"
    by (simp add: defs id_getBinding_def)
  show "os_getApplication (memoryIdentities P) u st = bindE (canonicalizeOrigin P u) (\<lambda>c. Inr (applications st c))"
    by (simp add: defs id_getApplication_def)
  show "os_bind (memoryIdentities P) b st = (Inr (), st') \<Longrightarrow>
      bindings st (b_origin b) \<in> {None, Some b} \<and> bindings st' = (bindings st)(b_origin b \<mapsto> b) \<and> applications st' = applications st"
    by (rule id_bind_cases [of P b st]) (auto simp: defs put)
  show "os_bind (memoryIdentities P) b st = (Inl e, st') \<Longrightarrow> bindings st' = bindings st \<and> applications st' = applications st"
    by (rule id_bind_cases [of P b st]) (auto simp: defs)
  show "identities_ok st \<Longrightarrow> os_bindOpen (memoryIdentities P) b q st = (Inr b', st') \<Longrightarrow>
      b' = b \<and> bindings st (b_origin b) = None \<and> bindings st' = (bindings st)(b_origin b \<mapsto> b) \<and> applications st' = applications st
      \<and> (\<exists>n. q = Some n \<and> int (card (open_origins (b_operator b) (bindings st))) < n)"
    by (rule id_bindOpen_cases [of P b q st]) (auto simp: defs put open_count)
  show "os_bindOpen (memoryIdentities P) b q st = (Inl e, st') \<Longrightarrow> bindings st' = bindings st \<and> applications st' = applications st"
    by (rule id_bindOpen_cases [of P b q st]) (auto simp: defs)
  show "os_compareAndSet (memoryIdentities P) u x a st = (Inr True, st') \<Longrightarrow> \<exists>c. canonicalizeOrigin P u = Inr c
      \<and> map_option app_revision (applications st c) = x \<and> applications st' = (applications st)(c \<mapsto> a) \<and> bindings st' = bindings st"
    by (rule id_compareAndSet_cases [of P u x a st]) (auto simp: defs)
  show "os_compareAndSet (memoryIdentities P) u x a st = (r, st') \<Longrightarrow> r \<noteq> Inr True
      \<Longrightarrow> bindings st' = bindings st \<and> applications st' = applications st"
    by (rule id_compareAndSet_cases [of P u x a st]) (auto simp: defs)
qed

interpretation mis: identity_store "memoryIdentities P" P identities_ok bindings applications for P
  by (rule memory_identity_store)

section \<open>Interleaved jobs\<close>

record 's identity_sys =
  id_pc :: "nat \<Rightarrow> identity_pc"
  id_store :: 's
  id_sent :: "delivery list"

inductive lifecycle_step ::
    "'s origin_store \<Rightarrow> origin_platform \<Rightarrow> origin_options \<Rightarrow> (nat \<Rightarrow> identity_job) \<Rightarrow> nat \<Rightarrow> 's identity_sys \<Rightarrow> 's identity_sys \<Rightarrow> bool"
  for S P L jobs where
  advance: "identity_step S P L E (jobs i) (id_pc s i) (id_store s) = (pc', st', sent)
    \<Longrightarrow> lifecycle_step S P L jobs i s \<lparr>id_pc = (id_pc s)(i := pc'), id_store = st', id_sent = id_sent s @ sent\<rparr>"

inductive_cases lifecycle_stepE: "lifecycle_step S P L jobs i s s'"

inductive lifecycle_reach ::
    "'s origin_store \<Rightarrow> origin_platform \<Rightarrow> origin_options \<Rightarrow> (nat \<Rightarrow> identity_job) \<Rightarrow> 's identity_sys \<Rightarrow> 's identity_sys \<Rightarrow> bool"
  for S P L jobs where
  here: "lifecycle_reach S P L jobs s s"
| later: "lifecycle_reach S P L jobs s t \<Longrightarrow> lifecycle_step S P L jobs i t u \<Longrightarrow> lifecycle_reach S P L jobs s u"

definition lifecycle_begin :: "'s \<Rightarrow> 's identity_sys" where
  "lifecycle_begin st = \<lparr>id_pc = (\<lambda>_. Start), id_store = st, id_sent = []\<rparr>"

section \<open>How an application changes\<close>

definition sent_to :: "origin_platform \<Rightarrow> delivery list \<Rightarrow> jsstr \<Rightarrow> notice \<Rightarrow> bool" where
  "sent_to P log c n \<longleftrightarrow> (\<exists>u. canonicalizeOrigin P u = Inr c \<and> (u, n) \<in> set log)"

definition app_change ::
    "origin_platform \<Rightarrow> delivery list \<Rightarrow> jsstr \<Rightarrow> identity_application option \<Rightarrow> identity_application option \<Rightarrow> bool" where
  "app_change P log c cur cur' \<longleftrightarrow>
     (\<exists>r uuid. cur' = Some (changed_application uuid r cur))
     \<or> (\<exists>a e uuid. cur = Some a \<and> rel_expires (app_relationship a) = Some e \<and> expiryNotified a \<noteq> Some e
          \<and> cur' = Some (announced_application uuid e a))
     \<or> (\<exists>a n ns. cur = Some a \<and> pendingNotices a = n # ns \<and> sent_to P log c n \<and> cur' = Some (delivered_application a))"

text \<open>An application read earlier is the present one, or an older revision.\<close>

definition app_held :: "identity_application \<Rightarrow> identity_application option \<Rightarrow> bool" where
  "app_held a cur \<longleftrightarrow> (\<exists>x. cur = Some x \<and> app_revision a \<le> app_revision x \<and> (app_revision a = app_revision x \<longrightarrow> x = a))"

fun swap_ok :: "origin_platform \<Rightarrow> delivery list \<Rightarrow> (jsstr \<rightharpoonup> identity_application) \<Rightarrow> identity_pc \<Rightarrow> bool" where
  "swap_ok P log m (SetSwap n u prior new) \<longleftrightarrow>
     (\<exists>r uuid. new = changed_application uuid r prior) \<and> (\<forall>a c. prior = Some a \<longrightarrow> canonicalizeOrigin P u = Inr c \<longrightarrow> app_held a (m c))"
| "swap_ok P log m (ExpirySwap u a new) \<longleftrightarrow>
     (\<exists>e uuid. rel_expires (app_relationship a) = Some e \<and> expiryNotified a \<noteq> Some e \<and> new = announced_application uuid e a)
     \<and> (\<forall>c. canonicalizeOrigin P u = Inr c \<longrightarrow> app_held a (m c))"
| "swap_ok P log m (FlushSwap n u a k) \<longleftrightarrow>
     (\<exists>x xs. pendingNotices a = x # xs \<and> (u, x) \<in> set log) \<and> (\<forall>c. canonicalizeOrigin P u = Inr c \<longrightarrow> app_held a (m c))"
| "swap_ok P log m (BindCall b) \<longleftrightarrow> openAccess b = None"
| "swap_ok P log m _ \<longleftrightarrow> True"

lemma app_held_refl [simp]: "app_held a (Some a)"
  by (simp add: app_held_def)

lemma app_change_revision: "app_change P log c cur cur' \<Longrightarrow> \<exists>a. cur' = Some a \<and> app_revision a = next_revision cur"
  by (auto simp: app_change_def changed_application_def announced_application_def delivered_application_def next_revision_def)

lemma app_held_change:
  assumes "app_held a cur" "app_change P log c cur cur'" shows "app_held a cur'"
proof -
  obtain x where x: "cur = Some x" "app_revision a \<le> app_revision x" using assms(1) by (auto simp: app_held_def)
  obtain y where "cur' = Some y" "app_revision y = Suc (app_revision x)"
    using app_change_revision [OF assms(2)] x(1) by (auto simp: next_revision_def)
  then show ?thesis using x(2) by (simp add: app_held_def)
qed

lemma app_held_current: "app_held a cur \<Longrightarrow> map_option app_revision cur = Some (app_revision a) \<Longrightarrow> cur = Some a"
  by (auto simp: app_held_def)

definition changes :: "origin_platform \<Rightarrow> delivery list \<Rightarrow> (jsstr \<rightharpoonup> identity_application) \<Rightarrow> (jsstr \<rightharpoonup> identity_application) \<Rightarrow> bool" where
  "changes P log m m' \<longleftrightarrow> m' = m \<or> (\<exists>c y. m' = m(c := y) \<and> app_change P log c (m c) y)"

lemma changes_refl [simp]: "changes P log m m"
  by (simp add: changes_def)

lemma changes_at: "changes P log m m' \<Longrightarrow> m' c = m c \<or> app_change P log c (m c) (m' c)"
  by (auto simp: changes_def)

lemma swap_ok_later:
  assumes "swap_ok P log m pc" "changes P log' m m'"
  shows "swap_ok P (log @ sent) m' pc"
proof -
  have "app_held a (m' c)" if "app_held a (m c)" for a c
    using changes_at [OF assms(2), of c] that app_held_change by metis
  then show ?thesis using assms(1) by (cases pc) auto
qed

text \<open>Programs that read, and programs that only decide, stand at no swap.\<close>

lemma swap_ok_end [simp]: "swap_ok P log m (fail e)" "swap_ok P log m (go_on u k)"
    "swap_ok P log m (flushRelationshipNotifications P' L u k)"
  by (auto simp: fail_def go_on_def flushRelationshipNotifications_def on_origin_def split: after_flush.split sum.split)

lemma swap_ok_on_origin: "(\<And>c. canonicalizeOrigin P' u = Inr c \<Longrightarrow> swap_ok P log m (k c)) \<Longrightarrow> swap_ok P log m (on_origin P' u k)"
  by (auto simp: on_origin_def split: sum.split)

lemma swap_ok_after_read: "(\<And>x. r = Inr x \<Longrightarrow> swap_ok P log m (k x)) \<Longrightarrow> swap_ok P log m (after_read r k)"
  by (auto simp: after_read_def split: sum.split)

lemma swap_ok_bindPrincipal: "swap_ok P log m (bindPrincipal P' L E i)"
  by (auto simp: bindPrincipal_def on_origin_def Let_def split: sum.split prod.split)

lemma swap_ok_start: "swap_ok P log m (identity_start P' L E job)"
  by (auto simp: identity_start_def on_origin_def swap_ok_bindPrincipal split: identity_job.split option.split sum.split)

lemma swap_ok_sync_plan: "swap_ok P log m (sync_plan P' L E u dry app)"
  by (auto simp: sync_plan_def Let_def split: sum.split option.split prod.split)

section \<open>What a step does\<close>

text \<open>A new binding, within the quota if it is an open one.\<close>

definition binds :: "int option \<Rightarrow> (jsstr \<rightharpoonup> origin_binding) \<Rightarrow> (jsstr \<rightharpoonup> origin_binding) \<Rightarrow> bool" where
  "binds quota m m' \<longleftrightarrow>
     m' = m
     \<or> (\<exists>b. m (b_origin b) = None \<and> m' = m(b_origin b \<mapsto> b)
          \<and> (openAccess b \<noteq> None \<longrightarrow> (\<exists>n. quota = Some n \<and> int (card (open_origins (b_operator b) m)) < n)))"

lemma binds_refl [simp]: "binds quota m m"
  by (simp add: binds_def)

context identity_store begin

lemma swap_effect:
  assumes "good st" "os_compareAndSet S u x a st = (r, st')"
    and "\<And>c. canonicalizeOrigin P u = Inr c \<Longrightarrow> map_option app_revision (apps st c) = x \<Longrightarrow> app_change P log c (apps st c) (Some a)"
  shows "good st' \<and> changes P log (apps st) (apps st') \<and> bound st' = bound st"
proof -
  have g: "good st'" using good_swap [OF assms(1), of u x a] assms(2) by simp
  show ?thesis
  proof (cases "r = Inr True")
    case True
    then obtain c where "canonicalizeOrigin P u = Inr c" "map_option app_revision (apps st c) = x"
        "apps st' = (apps st)(c \<mapsto> a)" "bound st' = bound st"
      using swap_done [OF assms(1)] assms(2) by blast
    then show ?thesis using g assms(3) by (auto simp: changes_def)
  next
    case False
    then show ?thesis using g swap_not_done [OF assms(1,2)] by simp
  qed
qed

lemma read_application_cases:
  assumes "good st" obtains e where "os_getApplication S u st = Inl e"
    | c where "os_getApplication S u st = Inr (apps st c)" "canonicalizeOrigin P u = Inr c"
  using read_application [OF assms, of u] by (cases "canonicalizeOrigin P u") auto

lemma bind_effect:
  assumes "good st" "os_bind S b st = (r, st')" "openAccess b = None"
  shows "good st' \<and> apps st' = apps st \<and> binds q (bound st) (bound st')"
proof -
  have g: "good st'" using good_bind [OF assms(1), of b] assms(2) by simp
  show ?thesis
  proof (cases r)
    case (Inr x)
    then have d: "bound st (b_origin b) \<in> {None, Some b}" "bound st' = (bound st)(b_origin b \<mapsto> b)" "apps st' = apps st"
      using bind_done [OF assms(1), of b st'] assms(2) by auto
    then have "binds q (bound st) (bound st')" using assms(3) by (auto simp: binds_def fun_upd_idem)
    then show ?thesis using g d(3) by simp
  qed (use bind_refused [OF assms(1), of b] assms(2) g in auto)
qed

lemma bindOpen_effect:
  assumes "good st" "os_bindOpen S b q st = (r, st')"
  shows "good st' \<and> apps st' = apps st \<and> binds q (bound st) (bound st')"
proof -
  have g: "good st'" using good_bindOpen [OF assms(1), of b q] assms(2) by simp
  show ?thesis
  proof (cases r)
    case (Inr x)
    then show ?thesis using bindOpen_done [OF assms(1), of b q x st'] assms(2) g by (auto simp: binds_def)
  qed (use bindOpen_refused [OF assms(1), of b q] assms(2) g in auto)
qed

lemma step_stores:
  assumes "good st" "swap_ok P log (apps st) pc" "identity_step S P L E job pc st = (pc', st', sent)"
  shows "good st' \<and> changes P log (apps st) (apps st') \<and> binds (lo_quota L) (bound st) (bound st')"
proof (cases pc)
  case (BindCall b)
  then show ?thesis using assms bind_effect [OF assms(1)] by (auto split: prod.splits)
next
  case (SyncCall b)
  then show ?thesis using assms bindOpen_effect [OF assms(1)] by (auto split: prod.splits)
next
  case (SetSwap n u prior new)
  obtain r uuid where new: "new = changed_application uuid r prior" using assms(2) SetSwap by auto
  have "app_change P log c (apps st c) (Some new)"
    if "canonicalizeOrigin P u = Inr c" "map_option app_revision (apps st c) = map_option app_revision prior" for c
  proof -
    have "apps st c = prior" using that assms(2) SetSwap app_held_current by (cases prior) auto
    then show ?thesis unfolding app_change_def new by blast
  qed
  moreover obtain r2 where "os_compareAndSet S u (map_option app_revision prior) new st = (r2, st')"
    using assms(3) SetSwap by (auto split: prod.splits)
  ultimately show ?thesis using swap_effect [OF assms(1)] by fastforce
next
  case (ExpirySwap u a new)
  have "app_change P log c (apps st c) (Some new)"
    if "canonicalizeOrigin P u = Inr c" "map_option app_revision (apps st c) = Some (app_revision a)" for c
  proof -
    have "apps st c = Some a" using that assms(2) ExpirySwap app_held_current by auto
    then show ?thesis using assms(2) ExpirySwap by (auto simp: app_change_def)
  qed
  moreover obtain r2 where "os_compareAndSet S u (Some (app_revision a)) new st = (r2, st')"
    using assms(3) ExpirySwap by (auto split: prod.splits)
  ultimately show ?thesis using swap_effect [OF assms(1)] by fastforce
next
  case (FlushSwap n u a k)
  have "app_change P log c (apps st c) (Some (delivered_application a))"
    if "canonicalizeOrigin P u = Inr c" "map_option app_revision (apps st c) = Some (app_revision a)" for c
  proof -
    have "apps st c = Some a" using that assms(2) FlushSwap app_held_current by auto
    then show ?thesis using assms(2) FlushSwap that(1) by (auto simp: app_change_def sent_to_def)
  qed
  moreover obtain r2 where "os_compareAndSet S u (Some (app_revision a)) (delivered_application a) st = (r2, st')"
    using assms(3) FlushSwap by (auto split: prod.splits)
  ultimately show ?thesis using swap_effect [OF assms(1)] by fastforce
qed (use assms in \<open>auto split: sum.splits prod.splits\<close>)

lemma swap_ok_set_plan:
  "(\<And>a. prior = Some a \<Longrightarrow> canonicalizeOrigin P u = Inr c \<Longrightarrow> m c = Some a) \<Longrightarrow> canonicalizeOrigin P u = Inr c
    \<Longrightarrow> swap_ok P log m (set_plan P' L E r n u prior)"
  by (auto simp: set_plan_def)

lemma swap_ok_expiry_plan:
  "(\<And>a. prior = Some a \<Longrightarrow> m c = Some a) \<Longrightarrow> canonicalizeOrigin P u = Inr c \<Longrightarrow> swap_ok P log m (expiry_plan P' E u lead prior)"
  by (auto simp: expiry_plan_def due_def split: option.splits if_splits)

lemma step_swap_ok:
  assumes "good st" "swap_ok P log (apps st) pc" "identity_step S P L E job pc st = (pc', st', sent)"
  shows "swap_ok P (log @ sent) (apps st') pc'"
proof (cases pc)
  case Start
  then show ?thesis using assms(3) swap_ok_start by auto
next
  case (SyncApplication u)
  then show ?thesis using assms(3) swap_ok_sync_plan by (auto intro!: swap_ok_after_read split: identity_job.splits)
next
  case (AuthBinding u)
  then show ?thesis using assms(3) by (auto intro!: swap_ok_after_read split: option.splits identity_job.splits)
next
  case (AuthApplication u b)
  then show ?thesis using assms(3) by (auto intro!: swap_ok_after_read split: option.splits identity_job.splits)
next
  case (SetRead n u)
  show ?thesis
  proof (cases rule: read_application_cases [OF assms(1), of u])
    case (2 c)
    then show ?thesis using assms(3) SetRead
      by (cases job) (auto simp: after_read_def intro!: swap_ok_set_plan [where c = c])
  qed (use assms(3) SetRead in \<open>auto simp: after_read_def\<close>)
next
  case (ExpiryRead u lead)
  show ?thesis
  proof (cases rule: read_application_cases [OF assms(1), of u])
    case (2 c)
    then show ?thesis using assms(3) ExpiryRead
      by (auto simp: after_read_def intro!: swap_ok_expiry_plan [where c = c])
  qed (use assms(3) ExpiryRead in \<open>auto simp: after_read_def\<close>)
next
  case (FlushRead n u k)
  show ?thesis
  proof (cases rule: read_application_cases [OF assms(1), of u])
    case (2 c)
    then show ?thesis using assms(3) FlushRead
      by (auto simp: flush_plan_def split: option.splits list.splits if_splits)
  qed (use assms(3) FlushRead in auto)
qed (use assms(3) in \<open>auto intro!: swap_ok_after_read split: prod.splits if_splits option.splits\<close>)

definition lifecycle_ok :: "'s identity_sys \<Rightarrow> bool" where
  "lifecycle_ok s \<longleftrightarrow> good (id_store s) \<and> (\<forall>i. swap_ok P (id_sent s) (apps (id_store s)) (id_pc s i))"

lemma begin_ok: "good st \<Longrightarrow> lifecycle_ok (lifecycle_begin st)"
  by (simp add: lifecycle_ok_def lifecycle_begin_def)

lemma lifecycle_step_effect:
  assumes "lifecycle_ok s" "lifecycle_step S P L jobs i s s'"
  shows "lifecycle_ok s' \<and> changes P (id_sent s) (apps (id_store s)) (apps (id_store s'))
    \<and> binds (lo_quota L) (bound (id_store s)) (bound (id_store s')) \<and> set (id_sent s) \<subseteq> set (id_sent s')"
proof -
  obtain E pc' st' sent where step: "identity_step S P L E (jobs i) (id_pc s i) (id_store s) = (pc', st', sent)"
      and s': "s' = \<lparr>id_pc = (id_pc s)(i := pc'), id_store = st', id_sent = id_sent s @ sent\<rparr>"
    using assms(2) by (rule lifecycle_stepE)
  have ok: "good (id_store s)" "swap_ok P (id_sent s) (apps (id_store s)) (id_pc s j)" for j
    using assms(1) by (simp_all add: lifecycle_ok_def)
  note st = step_stores [OF ok(1) ok(2) step]
  have "swap_ok P (id_sent s') (apps st') (id_pc s' j)" for j
  proof (cases "j = i")
    case True
    then show ?thesis using step_swap_ok [OF ok(1) ok(2) step] by (simp add: s')
  next
    case False
    have "changes P (id_sent s) (apps (id_store s)) (apps st')" using st by blast
    from swap_ok_later [OF ok(2) this] show ?thesis using False by (simp add: s')
  qed
  then show ?thesis using st by (auto simp: lifecycle_ok_def s')
qed

lemma lifecycle_reach_ok: "lifecycle_reach S P L jobs s t \<Longrightarrow> lifecycle_ok s \<Longrightarrow> lifecycle_ok t"
  by (induction rule: lifecycle_reach.induct) (use lifecycle_step_effect in blast)+

end

section \<open>Bindings\<close>

lemma binds_keep: "binds q m m' \<Longrightarrow> m c = Some b \<Longrightarrow> m' c = Some b"
  by (auto simp: binds_def)

definition within_quota :: "int option \<Rightarrow> (jsstr \<rightharpoonup> origin_binding) \<Rightarrow> bool" where
  "within_quota quota m \<longleftrightarrow> (\<forall>operator. int (card (open_origins operator m)) \<le> (case quota of None \<Rightarrow> 0 | Some n \<Rightarrow> max 0 n))"

lemma open_origins_new:
  "m (b_origin b) = None \<Longrightarrow> open_origins operator (m(b_origin b \<mapsto> b))
    = (if b_operator b = operator \<and> openAccess b \<noteq> None then insert (b_origin b) (open_origins operator m) else open_origins operator m)"
  by (auto simp: open_origins_def)

lemma open_origins_finite: "finite (dom m) \<Longrightarrow> finite (open_origins operator m)"
  by (rule finite_subset [of _ "dom m"]) (auto simp: open_origins_def)

lemma within_quota_binds:
  assumes "finite (dom m)" "within_quota quota m" "binds quota m m'" shows "within_quota quota m'"
  using assms(3) unfolding binds_def
proof
  assume "\<exists>b. m (b_origin b) = None \<and> m' = m(b_origin b \<mapsto> b)
    \<and> (openAccess b \<noteq> None \<longrightarrow> (\<exists>n. quota = Some n \<and> int (card (open_origins (b_operator b) m)) < n))"
  then obtain b where b: "m (b_origin b) = None" "m' = m(b_origin b \<mapsto> b)"
      "openAccess b \<noteq> None \<Longrightarrow> \<exists>n. quota = Some n \<and> int (card (open_origins (b_operator b) m)) < n"
    by blast
  have "b_origin b \<notin> open_origins operator m" for operator using b(1) by (simp add: open_origins_def)
  then have "int (card (open_origins operator m')) \<le> (case quota of None \<Rightarrow> 0 | Some n \<Rightarrow> max 0 n)" for operator
    using assms(2) b(3) open_origins_finite [OF assms(1), of operator] open_origins_new [of m b operator] b(1,2)
    by (auto simp: within_quota_def)
  then show ?thesis by (simp add: within_quota_def)
qed (use assms(2) in simp)

section \<open>Notices\<close>

definition waiting :: "(jsstr \<rightharpoonup> identity_application) \<Rightarrow> jsstr \<Rightarrow> notice list" where
  "waiting m c = queued_of (m c)"

lemma change_keeps_notice:
  assumes "app_change P log c cur cur'" "n \<in> set (queued_of cur)" shows "n \<in> set (queued_of cur') \<or> sent_to P log c n"
  using assms
  by (auto simp: app_change_def queued_of_def changed_application_def announced_application_def delivered_application_def split: option.splits)

lemma changes_keep_notice:
  assumes "changes P log m m'" "n \<in> set (waiting m c)" shows "n \<in> set (waiting m' c) \<or> sent_to P log c n"
  using changes_at [OF assms(1), of c] assms(2) change_keeps_notice unfolding waiting_def by metis

context identity_store begin

lemma binding_stays:
  "lifecycle_reach S P L jobs s t \<Longrightarrow> lifecycle_ok s \<Longrightarrow> bound (id_store s) c = Some b \<Longrightarrow> bound (id_store t) c = Some b"
proof (induction rule: lifecycle_reach.induct)
  case (later s t i u)
  then show ?case using lifecycle_step_effect [OF lifecycle_reach_ok [OF later.hyps(1)] later.hyps(2)] binds_keep by blast
qed

lemma quota_stays:
  "lifecycle_reach S P L jobs s t \<Longrightarrow> lifecycle_ok s \<Longrightarrow> within_quota (lo_quota L) (bound (id_store s))
    \<Longrightarrow> within_quota (lo_quota L) (bound (id_store t))"
proof (induction rule: lifecycle_reach.induct)
  case (later s t i u)
  have ok: "lifecycle_ok t" by (rule lifecycle_reach_ok [OF later.hyps(1) later.prems(1)])
  then have "finite (dom (bound (id_store t)))" using bound_finite by (simp add: lifecycle_ok_def)
  then show ?case using lifecycle_step_effect [OF ok later.hyps(2)] later.IH [OF later.prems] within_quota_binds by blast
qed

lemma notice_stays:
  "lifecycle_reach S P L jobs s t \<Longrightarrow> lifecycle_ok s \<Longrightarrow> n \<in> set (waiting (apps (id_store s)) c)
    \<Longrightarrow> n \<in> set (waiting (apps (id_store t)) c) \<or> sent_to P (id_sent t) c n"
proof (induction rule: lifecycle_reach.induct)
  case (later s t i u)
  have ok: "lifecycle_ok t" by (rule lifecycle_reach_ok [OF later.hyps(1) later.prems(1)])
  note eff = lifecycle_step_effect [OF ok later.hyps(2)]
  have log: "sent_to P (id_sent t) c n \<Longrightarrow> sent_to P (id_sent u) c n" using eff by (auto simp: sent_to_def)
  show ?case using later.IH [OF later.prems] eff changes_keep_notice log by metis
qed simp

end

end
