(* ===== verification/OriginAccess.thy ===== *)
theory OriginAccess
  imports OriginConcurrency
begin

text \<open>
  What the decisions of the identity components mean: who is listed by a trust record, when a bound origin may act, and
  what a chain of grants must look like.
\<close>

section \<open>Membership\<close>

text \<open>Canonical origins stay as they are when canonicalized again, as the URL standard has it for a serialized origin.\<close>

definition stable_origins :: "origin_platform \<Rightarrow> bool" where
  "stable_origins P \<longleftrightarrow> (\<forall>u c. canonicalizeOrigin P u = Inr c \<longrightarrow> canonicalizeOrigin P c = Inr c)"

text \<open>A record lists an agent if exactly one entry is its origin, with the role.\<close>

definition lists_agent :: "origin_platform \<Rightarrow> trust_fetch \<Rightarrow> jsstr \<Rightarrow> string \<Rightarrow> bool" where
  "lists_agent P f c role \<longleftrightarrow>
     (\<exists>r t a. f = TrustPresent r t \<and> filter (\<lambda>a. canonicalizeOrigin P (ta_url a) = Inr c) (tr_agents r) = [a] \<and> role \<in> set (ta_roles a))"

lemma listedAgent_iff: "listedAgent P f c role \<noteq> None \<longleftrightarrow> lists_agent P f c role"
  by (auto simp: listedAgent_def lists_agent_def split: trust_fetch.split list.split)

lemma listedAgent_None: "listedAgent P f c role = None \<longleftrightarrow> \<not> lists_agent P f c role"
  using listedAgent_iff [of P f c role] by (cases "listedAgent P f c role") simp_all

lemma valid_record_lists_once:
  "check_agents P seen as = Inr () \<Longrightarrow> length (filter (\<lambda>a. canonicalizeOrigin P (ta_url a) = Inr c) as) \<le> (if c \<in> set seen then 0 else 1)"
  by (induction P seen as rule: check_agents.induct) (fastforce simp: bindE_eq_Inr_iff split: if_splits)+

lemma valid_record_lists_agent:
  assumes "validateTrustRecord P schema_ok r = Inr ()" "a \<in> set (tr_agents r)" "canonicalizeOrigin P (ta_url a) = Inr c" "role \<in> set (ta_roles a)"
  shows "lists_agent P (TrustPresent r t) c role"
proof -
  let ?f = "filter (\<lambda>a. canonicalizeOrigin P (ta_url a) = Inr c) (tr_agents r)"
  have "length ?f \<le> 1"
    using valid_record_lists_once [of P "[]" "tr_agents r" c] assms(1) by (simp add: validateTrustRecord_def split: if_splits)
  moreover have "a \<in> set ?f" using assms(2,3) by simp
  ultimately have "?f = [a]" by (cases ?f) auto
  then show ?thesis using assms(4) by (simp add: lists_agent_def)
qed

definition listed_now :: "origin_platform \<Rightarrow> trust_view \<Rightarrow> jsstr \<Rightarrow> jsstr \<Rightarrow> bool" where
  "listed_now P V c operator \<longleftrightarrow>
     eTldPlusOne P c = Inr operator \<and> (\<exists>f. fetched V operator = Some f \<and> lists_agent P f c ''adcp:buying'')"

text \<open>The record cannot be read, but it last listed the agent and the outage is within its bound.\<close>

definition outage_of_listed :: "origin_platform \<Rightarrow> trust_view \<Rightarrow> jsstr \<Rightarrow> bool" where
  "outage_of_listed P V c \<longleftrightarrow>
     (\<exists>operator f. eTldPlusOne P c = Inr operator \<and> fetched V operator = None \<and> last_read V operator = Some f
        \<and> lists_agent P f c ''adcp:buying'' \<and> trust_now V \<le> fresh_until f + max_outage_ms V)"

lemma country_refused_none [simp]: "\<not> country_refused a []"
  by (simp add: country_refused_def split: option.split)

lemma trust_match_listed:
  assumes "canonicalizeOrigin P c = Inr c"
  shows "(\<exists>a. trust_match P V c ''adcp:buying'' [] = Inr (operator, a)) \<longleftrightarrow> listed_now P V c operator"
proof (cases "eTldPlusOne P c")
  case (Inr d)
  show ?thesis
  proof (cases "fetched V d")
    case None
    then show ?thesis using assms Inr by (auto simp: trust_match_def trust_get_def listed_now_def)
  next
    case (Some f)
    show ?thesis
    proof (cases f)
      case (TrustPresent r t)
      then show ?thesis using assms Inr Some listedAgent_iff [of P f c "''adcp:buying''"]
        by (auto simp: trust_match_def trust_get_def listed_now_def split: option.split)
    qed (use assms Inr Some in \<open>auto simp: trust_match_def trust_get_def listed_now_def lists_agent_def\<close>)
  qed
qed (use assms in \<open>simp add: trust_match_def trust_get_def listed_now_def\<close>)

lemma trust_match_outage:
  assumes "canonicalizeOrigin P c = Inr c"
  shows "trust_match P V c ''adcp:buying'' [] = Inl (TrustUnavailable True) \<longleftrightarrow> outage_of_listed P V c"
proof (cases "eTldPlusOne P c")
  case (Inr d)
  show ?thesis
  proof (cases "fetched V d")
    case None
    then show ?thesis using assms Inr
      by (auto simp: listedAgent_None trust_match_def trust_get_def outage_error_def outage_of_listed_def split: option.split)
  next
    case (Some f)
    then show ?thesis using assms Inr
      by (auto simp: trust_match_def trust_get_def outage_of_listed_def split: trust_fetch.split option.split)
  qed
qed (use assms in \<open>simp add: trust_match_def trust_get_def outage_of_listed_def\<close>)

lemma trust_refusal_none:
  assumes "canonicalizeOrigin P c = Inr c"
  shows "trust_refusal P V c b ac = None \<longleftrightarrow> listed_now P V c (b_operator b) \<or> outage_of_listed P V c \<and> asks_no_spend ac"
proof (cases "trust_match P V c ''adcp:buying'' []")
  case (Inl e)
  then have "\<not> listed_now P V c (b_operator b)" using trust_match_listed [OF assms, of V "b_operator b"] by simp
  then show ?thesis using Inl trust_match_outage [OF assms, of V]
    by (cases e) (auto simp: trust_refusal_def bound_trust_def)
next
  case (Inr x)
  then show ?thesis
    using trust_match_listed [OF assms, of V "b_operator b"] trust_match_outage [OF assms, of V]
    by (cases x) (auto simp: trust_refusal_def bound_trust_def)
qed

section \<open>Who may act\<close>

definition relationship_allows :: "origin_platform \<Rightarrow> int \<Rightarrow> identity_application option \<Rightarrow> bool" where
  "relationship_allows P now app \<longleftrightarrow>
     (\<forall>a. app = Some a \<longrightarrow> rel_status (app_relationship a) = ActiveRelation \<and> \<not> relationship_expired P now (app_relationship a))"

text \<open>An openly onboarded principal spends in the tiers opened for it only, and a billed party must be known to the seller.\<close>

definition tier_allows :: "origin_platform \<Rightarrow> origin_options \<Rightarrow> identity_env \<Rightarrow> origin_binding \<Rightarrow> open_access \<Rightarrow> access_request \<Rightarrow> bool" where
  "tier_allows P L E b oa a \<longleftrightarrow>
     (if ac_sandbox a then oa_sandbox oa
      else \<exists>p party. ac_billing a = Some p \<and> p \<noteq> AgentPays \<and> p \<in> set (oa_billing oa)
        \<and> billed_party P b a p = Inr party \<and> party \<noteq> [] \<and> lo_hasBillingCheck L \<and> billing_relationship E party p)"

definition may_act ::
    "origin_platform \<Rightarrow> origin_options \<Rightarrow> identity_env \<Rightarrow> identity_env \<Rightarrow> jsstr \<Rightarrow> access_request option
      \<Rightarrow> (jsstr \<rightharpoonup> origin_binding) \<Rightarrow> (jsstr \<rightharpoonup> identity_application) \<Rightarrow> origin_binding \<Rightarrow> bool" where
  "may_act P L E1 E2 url ac m apps b \<longleftrightarrow>
     (\<exists>c. canonicalizeOrigin P url = Inr c \<and> m c = Some b
        \<and> (listed_now P (trust E1) c (b_operator b) \<or> outage_of_listed P (trust E1) c \<and> asks_no_spend ac)
        \<and> ((\<exists>a. ac = Some a \<and> ac_readOnly a) \<or> relationship_allows P (now_ms E2) (apps c))
        \<and> (\<forall>oa. openAccess b = Some oa \<longrightarrow> (\<exists>a. ac = Some a \<and> (asks_no_spend ac \<or> tier_allows P L E2 b oa a))))"

lemma relationship_refused_iff:
  "relationship_refused P now app ac \<longleftrightarrow> \<not> (\<exists>a. ac = Some a \<and> ac_readOnly a) \<and> \<not> relationship_allows P now app"
  by (auto simp: relationship_refused_def relationship_allows_def split: option.splits)

lemma open_refusal_none:
  "open_refusal P L E b ac = None
    \<longleftrightarrow> (\<forall>oa. openAccess b = Some oa \<longrightarrow> (\<exists>a. ac = Some a \<and> (asks_no_spend ac \<or> tier_allows P L E b oa a)))"
  by (auto simp: open_refusal_def asks_no_spend_def tier_allows_def split: option.split sum.split)

section \<open>Chains of grants\<close>

text \<open>A grant that one holder's record gives to the next, for this claim and now.\<close>

definition hop :: "origin_platform \<Rightarrow> trust_view \<Rightarrow> int \<Rightarrow> grant_claim \<Rightarrow> jsstr \<Rightarrow> jsstr \<Rightarrow> trust_grant \<Rightarrow> bool" where
  "hop P V now gc holder next g \<longleftrightarrow>
     (\<exists>h r t. eTldPlusOne P holder = Inr h \<and> fetched V h = Some (TrustPresent r t) \<and> g \<in> set (tr_grants r)
        \<and> eTldPlusOne P (grantee g) = Inr next \<and> grantee g = next \<and> grantMatches P g next gc now)"

lemma hopI:
  "trust_get P V holder = Inr (h, TrustPresent r t) \<Longrightarrow> g \<in> set (tr_grants r) \<Longrightarrow> grantMatches P g next gc now \<Longrightarrow> hop P V now gc holder next g"
  by (auto simp: hop_def trust_get_def grantMatches_def registrableGrantee_def split: sum.splits option.splits if_splits)

definition claim_for :: "grant_policy \<Rightarrow> grant_claim \<Rightarrow> grant_claim" where
  "claim_for D c = (case resolveBrandHouse D c of None \<Rightarrow> c | Some (_, b) \<Rightarrow> c\<lparr>brand_id := Some b\<rparr>)"

definition house_of :: "origin_platform \<Rightarrow> grant_policy \<Rightarrow> grant_claim \<Rightarrow> jsstr \<Rightarrow> identity_error + jsstr" where
  "house_of P D c brand = (case resolveBrandHouse D c of None \<Rightarrow> Inr brand | Some (d, _) \<Rightarrow> eTldPlusOne P d)"

text \<open>The grants a trust-based authorization rests on: one hop from the brand's house, or two over the account's operator.\<close>

definition grant_path ::
    "origin_platform \<Rightarrow> trust_view \<Rightarrow> int \<Rightarrow> grant_claim \<Rightarrow> jsstr \<Rightarrow> jsstr \<Rightarrow> jsstr \<Rightarrow> trust_grant list \<Rightarrow> bool" where
  "grant_path P V now gc house account operator gs \<longleftrightarrow>
     (\<exists>g. gs = [g] \<and> hop P V now gc house operator g)
     \<or> (\<exists>g1 g2. gs = [g1, g2] \<and> hop P V now gc house account g1 \<and> hop P V now gc account operator g2)"

lemma filter_hdD: "filter Q xs \<noteq> [] \<Longrightarrow> hd (filter Q xs) \<in> set xs \<and> Q (hd (filter Q xs))"
  using hd_in_set [of "filter Q xs"] by simp

text \<open>The grants the code picks, case by case.\<close>

definition picked ::
    "origin_platform \<Rightarrow> trust_view \<Rightarrow> int \<Rightarrow> grant_claim \<Rightarrow> jsstr \<Rightarrow> jsstr \<Rightarrow> jsstr \<Rightarrow> jsstr \<Rightarrow> trust_record \<Rightarrow> trust_grant list \<Rightarrow> bool" where
  "picked P V now gc brand house account operator r gs \<longleftrightarrow>
     (\<exists>g. gs = [g] \<and> g \<in> set (tr_grants r) \<and> grantMatches P g operator gc now \<and> (account = operator \<or> account = brand \<or> account = house))
     \<or> (\<exists>g1 g2 h2 r2 t2. gs = [g1, g2] \<and> account \<noteq> operator \<and> account \<noteq> brand \<and> g1 \<in> set (tr_grants r)
          \<and> grantMatches P g1 account gc now \<and> trust_get P V account = Inr (h2, TrustPresent r2 t2)
          \<and> g2 \<in> set (tr_grants r2) \<and> grantMatches P g2 operator gc now)"

lemma picked_path:
  assumes "picked P V now gc brand house account operator r gs" "trust_get P V house = Inr (h, TrustPresent r t)"
  shows "grant_path P V now gc house account operator gs"
  using assms(1) hopI [OF assms(2)] hopI [of P V account] unfolding picked_def grant_path_def by blast

lemma grant_from_record_cases:
  fixes P V D now c gc brand house account operator r
  defines "run \<equiv> grant_from_record P V D now c gc brand house account operator r"
  obtains (trust) chain gs where "run = Inr (granted P operator now TrustGrant chain gs)" "picked P V now gc brand house account operator r gs"
    | (seller) "run = Inr (granted P operator now SellerGrant [brand, account, operator] [])"
        "\<not> exclusive_grants r" "callback_accepts (sellerAuthorization D) c"
        "\<forall>g \<in> set (tr_grants r). registrableGrantee P (grantee g) = Some account \<longrightarrow> \<not> grantsScope g (claim_scope c)"
        "\<nexists>gs. picked P V now gc brand house account operator r gs"
    | (refused) e where "run = Inl e" "\<nexists>gs. picked P V now gc brand house account operator r gs"
proof -
  let ?self = "account = brand \<or> account = house"
  let ?first = "filter (\<lambda>g. grantMatches P g account gc now) (tr_grants r)"
  let ?direct = "if ?self \<and> account \<noteq> operator then filter (\<lambda>g. grantMatches P g operator gc now) (tr_grants r) else []"
  define uncovered where "uncovered =
    (if \<not> list_ex (\<lambda>g. covering P g account operator ?self (claim_scope c)) (tr_grants r) \<and> \<not> exclusive_grants r
        \<and> callback_accepts (sellerAuthorization D) c
     then Inr (granted P operator now SellerGrant [brand, account, operator] []) else Inl GrantAbsent)"
  note body = grant_from_record_def [of P V D now c gc brand house account operator r, unfolded Let_def, folded uncovered_def run_def]
  have left: thesis if u: "run = uncovered" "\<nexists>gs. picked P V now gc brand house account operator r gs"
  proof (cases "uncovered = Inl GrantAbsent")
    case False
    then have s: "\<not> list_ex (\<lambda>g. covering P g account operator ?self (claim_scope c)) (tr_grants r)" "\<not> exclusive_grants r"
        "callback_accepts (sellerAuthorization D) c" "uncovered = Inr (granted P operator now SellerGrant [brand, account, operator] [])"
      by (auto simp: uncovered_def split: if_splits)
    have "\<forall>g \<in> set (tr_grants r). registrableGrantee P (grantee g) = Some account \<longrightarrow> \<not> grantsScope g (claim_scope c)"
      using s(1) by (fastforce simp: covering_def list_ex_iff)
    then show thesis using seller u s by simp
  qed (use refused u in simp)
  show thesis
  proof (cases "account = operator \<and> ?first \<noteq> []")
    case True
    have "run = Inr (granted P operator now TrustGrant [brand, operator] [hd ?first])" using body unfolding if_P [OF True] .
    moreover have "picked P V now gc brand house account operator r [hd ?first]"
      using True filter_hdD [of "\<lambda>g. grantMatches P g account gc now" "tr_grants r"] by (auto simp: picked_def)
    ultimately show thesis by (rule trust)
  next
    case c1: False
    show thesis
    proof (cases "?direct \<noteq> []")
      case True
      have "run = Inr (granted P operator now TrustGrant [brand, operator] [hd ?direct])"
        using body unfolding if_not_P [OF c1] if_P [OF True] .
      moreover have "picked P V now gc brand house account operator r [hd ?direct]"
        using True filter_hdD [of "\<lambda>g. grantMatches P g operator gc now" "tr_grants r"] by (auto simp: picked_def split: if_splits)
      ultimately show thesis by (rule trust)
    next
      case c2: False
      have no1: "\<nexists>g. picked P V now gc brand house account operator r [g]"
        using c1 c2 by (auto simp: picked_def filter_empty_conv split: if_splits)
      note body2 = body [unfolded if_not_P [OF c1] if_not_P [OF c2]]
      show thesis
      proof (cases "account \<noteq> operator \<and> account \<noteq> brand \<and> ?first \<noteq> []")
        case True
        note body3 = body2 [unfolded if_P [OF True]]
        have first: "hd ?first \<in> set (tr_grants r)" "grantMatches P (hd ?first) account gc now"
          using True filter_hdD [of "\<lambda>g. grantMatches P g account gc now" "tr_grants r"] by auto
        show thesis
        proof (cases "trust_get P V account")
          case (Inl e)
          then show thesis using refused [of e] body3 no1 by (auto simp: picked_def)
        next
          case (Inr x)
          obtain h2 f2 where get: "trust_get P V account = Inr (h2, f2)" using Inr by (cases x) simp
          show thesis
          proof (cases f2)
            case (TrustPresent r2 t2)
            let ?second = "filter (\<lambda>g. grantMatches P g operator gc now) (tr_grants r2)"
            show thesis
            proof (cases ?second)
              case Nil
              then have "\<nexists>gs. picked P V now gc brand house account operator r gs"
                using no1 get TrustPresent by (auto simp: picked_def filter_empty_conv)
              then show thesis using left body3 get TrustPresent Nil by simp
            next
              case (Cons g2 gs2)
              then have "g2 \<in> set (tr_grants r2)" "grantMatches P g2 operator gc now"
                using filter_hdD [of "\<lambda>g. grantMatches P g operator gc now" "tr_grants r2"] by auto
              then have "picked P V now gc brand house account operator r [hd ?first, g2]"
                using True first get TrustPresent unfolding picked_def by blast
              then show thesis using trust body3 get TrustPresent Cons by simp
            qed
          next
            case (TrustAbsent t2)
            then show thesis using left body3 get no1 by (auto simp: picked_def)
          qed
        qed
      next
        case False
        then have "\<nexists>gs. picked P V now gc brand house account operator r gs"
          using no1 by (auto simp: picked_def filter_empty_conv)
        then show thesis using left body2 unfolding if_not_P [OF False] by blast
      qed
    qed
  qed
qed

section \<open>Expiry of a chain\<close>

lemma foldr_min_le: "x \<in> set (y # ys) \<Longrightarrow> foldr min ys y \<le> (x :: int)"
  by (induction ys) (auto simp: min_le_iff_disj)

lemma foldr_min_in: "foldr min ys y \<in> set (y # (ys :: int list))"
  by (induction ys) (auto simp: min_def)

lemma least_expiry_at:
  assumes "least_expiry P gs = ExpiresAt t"
  shows "\<exists>g \<in> set gs. time_of P (valid_until g) = Some t" "g \<in> set gs \<Longrightarrow> time_of P (valid_until g) = Some u \<Longrightarrow> t \<le> u"
proof -
  let ?dated = "filter has_until gs" and ?time = "\<lambda>g. the (time_of P (valid_until g))"
  have d: "?dated \<noteq> []" "\<forall>g \<in> set ?dated. time_of P (valid_until g) \<noteq> None" "t = foldr min (tl (map ?time ?dated)) (hd (map ?time ?dated))"
    using assms by (auto simp: least_expiry_def Let_def list_ex_iff split: if_splits)
  have split: "set (map ?time ?dated) = set (hd (map ?time ?dated) # tl (map ?time ?dated))" using d(1) by simp
  have "t \<in> set (map ?time ?dated)" using foldr_min_in d(3) unfolding split by blast
  then show "\<exists>g \<in> set gs. time_of P (valid_until g) = Some t" using d(2) by fastforce
  show "t \<le> u" if "g \<in> set gs" "time_of P (valid_until g) = Some u"
  proof -
    have "has_until g" using that(2) by (auto simp: has_until_def time_of_def some_text_def split: option.splits if_splits)
    then have "u \<in> set (map ?time ?dated)" using that by force
    then show ?thesis using foldr_min_le d(3) unfolding split by blast
  qed
qed

lemma matching_grant_unexpired: "grantMatches P g target c now \<Longrightarrow> time_of P (valid_until g) = Some t \<Longrightarrow> now < t"
  by (auto simp: grantMatches_def split: if_splits)

lemma path_unexpired:
  assumes "grant_path P V now gc house account operator gs" "least_expiry P gs = ExpiresAt t" shows "now < t"
proof -
  have "\<exists>target. grantMatches P g target gc now" if "g \<in> set gs" for g using assms(1) that by (auto simp: grant_path_def hop_def)
  then show ?thesis using least_expiry_at(1) [OF assms(2)] matching_grant_unexpired by blast
qed

section \<open>Demand grants as a whole\<close>

lemma demand_grant_eq:
  assumes "trust_match P V (signerOrigin c) ''adcp:buying'' (brand_countries c) = Inr (operator, agent)"
    and "\<not> (ta_countries agent \<noteq> None \<and> brand_countries c = [])"
    and "eTldPlusOne P (brand_domain c) = Inr brand" "eTldPlusOne P (accountOperator c) = Inr account" "brand \<noteq> operator"
    and "house_of P D c brand = Inr house" "trust_get P V house = Inr (h, TrustPresent r t)"
  shows "authorizeDemandGrant P V D now c = grant_from_record P V D now c (claim_for D c) brand house account operator r"
  using assms by (auto simp: authorizeDemandGrant_def Let_def house_of_def claim_for_def)

lemma demand_grant_cases:
  assumes "authorizeDemandGrant P V D now c = Inr a"
  obtains (implicit) operator agent where
      "trust_match P V (signerOrigin c) ''adcp:buying'' (brand_countries c) = Inr (operator, agent)"
      "eTldPlusOne P (brand_domain c) = Inr operator" "eTldPlusOne P (accountOperator c) = Inr operator"
      "a = granted P operator now ImplicitGrant [operator] []"
    | (legacy) operator agent brand account house h t where
      "trust_match P V (signerOrigin c) ''adcp:buying'' (brand_countries c) = Inr (operator, agent)"
      "eTldPlusOne P (brand_domain c) = Inr brand" "eTldPlusOne P (accountOperator c) = Inr account"
      "house_of P D c brand = Inr house" "trust_get P V house = Inr (h, TrustAbsent t)"
      "callback_accepts (legacyAuthorization D) c" "a = granted P operator now LegacyGrant [brand, account, operator] []"
    | (published) operator agent brand account house h r t where
      "trust_match P V (signerOrigin c) ''adcp:buying'' (brand_countries c) = Inr (operator, agent)"
      "\<not> (ta_countries agent \<noteq> None \<and> brand_countries c = [])"
      "eTldPlusOne P (brand_domain c) = Inr brand" "eTldPlusOne P (accountOperator c) = Inr account" "brand \<noteq> operator"
      "house_of P D c brand = Inr house" "trust_get P V house = Inr (h, TrustPresent r t)"
      "grant_from_record P V D now c (claim_for D c) brand house account operator r = Inr a"
proof -
  note run = assms [unfolded authorizeDemandGrant_def Let_def]
  obtain operator agent where m: "trust_match P V (signerOrigin c) ''adcp:buying'' (brand_countries c) = Inr (operator, agent)"
    using run by (auto simp: bindE_eq_Inr_iff)
  obtain brand account where d: "eTldPlusOne P (brand_domain c) = Inr brand" "eTldPlusOne P (accountOperator c) = Inr account"
    using run m by (auto simp: bindE_eq_Inr_iff split: if_splits)
  have cs: "\<not> (ta_countries agent \<noteq> None \<and> brand_countries c = [])" using run m by (auto split: if_splits)
  show thesis
  proof (cases "brand = operator")
    case True
    then show thesis using implicit m d run cs by (auto split: if_splits)
  next
    case False
    have rest: "bindE (house_of P D c brand) (\<lambda>house. bindE (trust_get P V house) (\<lambda>(_, result). case result of
          TrustAbsent _ \<Rightarrow> if callback_accepts (legacyAuthorization D) c
            then Inr (granted P operator now LegacyGrant [brand, account, operator] []) else Inl GrantAbsent
        | TrustPresent r _ \<Rightarrow> grant_from_record P V D now c (claim_for D c) brand house account operator r)) = Inr a"
      using run m d cs False by (simp add: house_of_def claim_for_def split: if_splits)
    obtain house h f where get: "house_of P D c brand = Inr house" "trust_get P V house = Inr (h, f)"
      using rest by (auto simp: bindE_eq_Inr_iff)
    show thesis
    proof (cases f)
      case (TrustPresent r t)
      then show thesis using published [OF m cs d False get(1), of h r t] get(2) rest get(1) by simp
    next
      case (TrustAbsent t)
      then show thesis using legacy [OF m d get(1), of h t] get rest by (simp split: if_splits)
    qed
  qed
qed

section \<open>Matching later\<close>

lemma grantMatches_later:
  assumes "grantMatches P g target c now" "now \<le> now'" "\<And>t. time_of P (valid_until g) = Some t \<Longrightarrow> now' < t"
  shows "grantMatches P g target c now'"
  using assms by (auto simp: grantMatches_def not_le split: if_splits option.splits)

lemma picked_later:
  assumes "picked P V now gc brand house account operator r gs" "now \<le> now'"
    and "\<And>g t. g \<in> set gs \<Longrightarrow> time_of P (valid_until g) = Some t \<Longrightarrow> now' < t"
  shows "picked P V now' gc brand house account operator r gs"
proof -
  have "grantMatches P g target gc now'" if "g \<in> set gs" "grantMatches P g target gc now" for g target
    using grantMatches_later [OF that(2) assms(2)] assms(3) [OF that(1)] by blast
  then show ?thesis using assms(1) unfolding picked_def by fastforce
qed

lemma least_expiry_none:
  "least_expiry P gs = NoExpiry \<Longrightarrow> g \<in> set gs \<Longrightarrow> time_of P (valid_until g) = None"
  by (auto simp: least_expiry_def Let_def filter_empty_conv has_until_def some_text_def time_of_def split: if_splits option.splits)

lemma granted_fields [simp]:
  "ga_source (granted P operator now src chain gs) = src" "ga_operator (granted P operator now src chain gs) = operator"
  "ga_expires (granted P operator now src chain gs) = least_expiry P gs"
  by (simp_all add: granted_def)

lemma least_expiry_Nil [simp]: "least_expiry P [] = NoExpiry"
  by (simp add: least_expiry_def)

end
