(* ===== verification/OriginExample.thy ===== *)
theory OriginExample
  imports OriginAccess
begin

text \<open>
  A concrete platform of two hosts, a trust record and a grant, to which the properties of the identity components are applied.
\<close>

section \<open>An example\<close>

text \<open>A platform of two hosts that are their own registrable domains.\<close>

definition demo_url :: "string \<Rightarrow> js_url" where
  "demo_url h = \<lparr>url_protocol = js ''https:'', url_username = [], url_password = [], url_host = js h, url_hostname = js h,
     url_pathname = js ''/'', url_search = [], url_href = js (''https://'' @ h @ ''/'')\<rparr>"

definition demo_new_URL :: "jsstr \<Rightarrow> js_url option" where
  "demo_new_URL u =
     map_of [(js ''https://a.co'', demo_url ''a.co''), (js ''https://a.co/'', demo_url ''a.co''),
             (js ''https://b.co'', demo_url ''b.co''), (js ''https://b.co/'', demo_url ''b.co'')] u"

definition demo_origins :: origin_platform where
  "demo_origins = \<lparr>op_sig = \<lparr>to_lower = (\<lambda>s. s), to_upper = (\<lambda>s. s), new_URL = demo_new_URL, set_hostname = (\<lambda>h u. u),
     serialize_item = (\<lambda>_ _. None), serialize_inner_list = (\<lambda>_ _. None)\<rparr>,
     parse_tld = (\<lambda>h. \<lparr>psl_isIp = False, psl_isSpecialUse = False, psl_isIcann = True, psl_isPrivate = False, psl_domain = Some h\<rparr>),
     date_ms = (\<lambda>s. Some (int (length s))), iso_time = (\<lambda>t. js ''now'')\<rparr>"

abbreviation a_origin :: jsstr where "a_origin \<equiv> js ''https://a.co''"
abbreviation a_host :: jsstr where "a_host \<equiv> js ''a.co''"
abbreviation b_host :: jsstr where "b_host \<equiv> js ''b.co''"

lemmas text_eval = js_def url_authority.simps scheme_unit_def ascii_alpha_def ascii_digit_def authority_unit_def starts_with_def
  after_last_def before_first_def ends_with_def empty_label_def malformed_unit_def Let_def

lemma demo_urls:
  "demo_new_URL (js ''https://a.co'') = Some (demo_url ''a.co'')" "demo_new_URL (js ''https://a.co/'') = Some (demo_url ''a.co'')"
  "demo_new_URL (js ''https://b.co'') = Some (demo_url ''b.co'')" "demo_new_URL (js ''https://b.co/'') = Some (demo_url ''b.co'')"
  by (simp_all add: demo_new_URL_def)

lemma demo_authorities:
  "url_authority (js ''https://a.co'') = Some a_host" "url_authority (js ''https://a.co/'') = Some a_host"
  "url_authority (js ''https://b.co'') = Some b_host" "url_authority (js ''https://b.co/'') = Some b_host"
  by (simp_all add: text_eval)

lemma demo_hosts:
  assumes "h \<in> {a_host, b_host}"
  shows "h \<noteq> []" "\<not> list_ex malformed_unit h" "after_last 0x40 h = h" "\<not> starts_with [0x3a] h" "\<not> starts_with [0x5b] h"
    "length (filter (\<lambda>w. w = 0x3a) h) = 0" "\<not> ends_with 0x2e h" "\<not> empty_label h"
  using assms by (auto simp: text_eval)

lemma demo_canonical_host:
  assumes "new_URL (op_sig demo_origins) u = Some (demo_url h)" "url_authority u = Some (js h)" "js h \<in> {a_host, b_host}" "u \<noteq> []"
  shows "canonicalizeOrigin demo_origins u = Inr (js ''https://'' @ js h)"
proof -
  have "demo_url h\<lparr>url_hostname := js h\<rparr> = demo_url h" by (simp add: demo_url_def)
  then have "parseCanonicalUrl (op_sig demo_origins) u V32 = Inr (demo_url h)"
    using assms(1,2) demo_hosts [OF assms(3)] by (simp add: parseCanonicalUrl_def Let_def) (simp add: demo_origins_def demo_url_def)
  then show ?thesis
    using assms(1,2,4) demo_hosts [OF assms(3)]
    by (simp add: canonicalizeOrigin_def canonicalAuthority_def) (simp add: demo_origins_def demo_url_def js_def)
qed

lemma demo_canonical:
  "canonicalizeOrigin demo_origins a_origin = Inr a_origin" "canonicalizeOrigin demo_origins (js ''https://a.co/'') = Inr a_origin"
  "canonicalizeOrigin demo_origins (js ''https://b.co'') = Inr (js ''https://b.co'')"
  "canonicalizeOrigin demo_origins (js ''https://b.co/'') = Inr (js ''https://b.co'')"
proof -
  have n: "new_URL (op_sig demo_origins) = demo_new_URL" by (simp add: demo_origins_def)
  have j: "js ''https://'' @ js ''a.co'' = a_origin" "js ''https://'' @ js ''b.co'' = js ''https://b.co''" by (simp_all add: js_def)
  show "canonicalizeOrigin demo_origins a_origin = Inr a_origin" "canonicalizeOrigin demo_origins (js ''https://a.co/'') = Inr a_origin"
    "canonicalizeOrigin demo_origins (js ''https://b.co'') = Inr (js ''https://b.co'')"
    "canonicalizeOrigin demo_origins (js ''https://b.co/'') = Inr (js ''https://b.co'')"
    using demo_canonical_host [of _ "''a.co''"] demo_canonical_host [of _ "''b.co''"]
    by (simp_all add: n demo_urls demo_authorities j)
qed

lemma demo_stable: "stable_origins demo_origins"
  unfolding stable_origins_def
proof (intro allI impI)
  fix u c
  assume c: "canonicalizeOrigin demo_origins u = Inr c"
  then have "demo_new_URL u \<noteq> None"
    by (auto simp: canonicalizeOrigin_def demo_origins_def split: option.splits if_splits)
  then have "u \<in> {a_origin, js ''https://a.co/'', js ''https://b.co'', js ''https://b.co/''}"
    by (auto simp: demo_new_URL_def split: if_splits)
  then show "canonicalizeOrigin demo_origins c = Inr c" using c by (auto simp: demo_canonical)
qed

lemma demo_domains: "eTldPlusOne demo_origins a_origin = Inr a_host" "eTldPlusOne demo_origins a_host = Inr a_host"
    "eTldPlusOne demo_origins b_host = Inr b_host"
proof -
  have n: "new_URL (op_sig demo_origins) = demo_new_URL" by (simp add: demo_origins_def)
  have j: "js ''https://'' @ js ''a.co'' @ js ''/'' = js ''https://a.co/''" "js ''https://'' @ js ''b.co'' @ js ''/'' = js ''https://b.co/''"
    by (simp_all add: js_def)
  have t: "contains_text (js ''://'') a_origin" "\<not> contains_text (js ''://'') a_host" "\<not> contains_text (js ''://'') b_host"
    by (simp_all add: js_def starts_with_def)
  have special: "\<not> isSpecialUseBrandDomain a_host" "\<not> isSpecialUseBrandDomain b_host"
    by (simp_all add: isSpecialUseBrandDomain_def SPECIAL_USE_SUFFIXES_def ends_def starts_with_def js_def)
  have names: "url_hostname (demo_url h) = js h" for h by (simp add: demo_url_def)
  have hosts: "canonicalizeHost demo_origins a_host = Inr a_host" "canonicalizeHost demo_origins b_host = Inr b_host"
    using demo_hosts(1) by (simp_all add: canonicalizeHost_def n j demo_urls names)
  have tld: "parse_tld demo_origins h = \<lparr>psl_isIp = False, psl_isSpecialUse = False, psl_isIcann = True, psl_isPrivate = False, psl_domain = Some h\<rparr>" for h
    by (simp add: demo_origins_def)
  show "eTldPlusOne demo_origins a_origin = Inr a_host" "eTldPlusOne demo_origins a_host = Inr a_host" "eTldPlusOne demo_origins b_host = Inr b_host"
    using demo_hosts(1) by (simp_all add: eTldPlusOne_def extractHost_def n t demo_urls names hosts tld special)
qed

text \<open>The agent's operator lists it, and the brand grants the operator everything until time 9.\<close>

definition demo_agent :: trust_agent where
  "demo_agent = \<lparr>ta_url = a_origin, ta_roles = [''adcp:buying''], ta_countries = None, ta_jwks_uri = None\<rparr>"

definition demo_grant :: trust_grant where
  "demo_grant = \<lparr>grantee = a_host, scopes = [js ''*''], grant_agents = None, grant_countries = None, valid_from = None,
     valid_until = Some (js ''123456789''), grant_brands = None\<rparr>"

definition demo_trust :: trust_view where
  "demo_trust = \<lparr>fetched = (\<lambda>d. if d = a_host then Some (TrustPresent \<lparr>tr_agents = [demo_agent], tr_grants = [], exclusive_grants = False\<rparr> 5)
       else if d = b_host then Some (TrustPresent \<lparr>tr_agents = [], tr_grants = [demo_grant], exclusive_grants = False\<rparr> 5) else None),
     last_read = (\<lambda>_. None), max_outage_ms = 0, trust_now = 1\<rparr>"

definition demo_claim :: grant_claim where
  "demo_claim = \<lparr>signerOrigin = a_origin, brand_domain = b_host, brand_id = None, brand_countries = [], accountOperator = a_host,
     claim_scope = js ''adcp:spend''\<rparr>"

definition no_policy :: grant_policy where
  "no_policy = \<lparr>sellerAuthorization = None, legacyAuthorization = None, resolveBrandHouse = (\<lambda>_. None)\<rparr>"

lemma demo_match: "trust_match demo_origins demo_trust a_origin ''adcp:buying'' [] = Inr (a_host, demo_agent)"
  by (simp add: trust_match_def trust_get_def demo_canonical demo_domains demo_trust_def listedAgent_def demo_agent_def)

lemma demo_grant_matches:
  "grantMatches demo_origins demo_grant a_host demo_claim now \<longleftrightarrow> now < 9"
proof -
  have "time_of demo_origins (valid_until demo_grant) = Some 9"
    by (simp add: time_of_def demo_grant_def demo_origins_def js_def)
  then show ?thesis
    by (simp add: grantMatches_def registrableGrantee_def demo_domains grantsScope_def lists_signer_def lists_brand_def lists_countries_def)
      (auto simp: demo_grant_def demo_domains time_of_def)
qed

lemma demo_authorized:
  assumes "now < 9"
  shows "authorizeDemandGrant demo_origins demo_trust no_policy now demo_claim
    = Inr (granted demo_origins a_host now TrustGrant [b_host, a_host] [demo_grant])"
proof -
  have c: "signerOrigin demo_claim = a_origin" "brand_countries demo_claim = []" "brand_domain demo_claim = b_host"
      "accountOperator demo_claim = a_host" "ta_countries demo_agent = None" "resolveBrandHouse no_policy demo_claim = None"
    by (simp_all add: demo_claim_def demo_agent_def no_policy_def)
  have "trust_get demo_origins demo_trust b_host = Inr (b_host, TrustPresent \<lparr>tr_agents = [], tr_grants = [demo_grant], exclusive_grants = False\<rparr> 5)"
    by (simp add: trust_get_def demo_domains demo_trust_def)
  then show ?thesis
    using assms by (simp add: authorizeDemandGrant_def c demo_match demo_domains grant_from_record_def demo_grant_matches)
qed

section \<open>Example runs\<close>

text \<open>A step of one job as a function, and runs of it.\<close>

definition lifecycle_exec ::
    "'s origin_store \<Rightarrow> origin_platform \<Rightarrow> origin_options \<Rightarrow> (nat \<Rightarrow> identity_job) \<Rightarrow> identity_env \<Rightarrow> nat \<Rightarrow> 's identity_sys \<Rightarrow> 's identity_sys" where
  "lifecycle_exec S P L jobs E i s =
     (case identity_step S P L E (jobs i) (id_pc s i) (id_store s) of
        (pc', st', sent) \<Rightarrow> \<lparr>id_pc = (id_pc s)(i := pc'), id_store = st', id_sent = id_sent s @ sent\<rparr>)"

lemma lifecycle_exec_step: "lifecycle_step S P L jobs i s (lifecycle_exec S P L jobs E i s)"
  by (auto simp: lifecycle_exec_def intro: lifecycle_step.intros split: prod.split)

lemma lifecycle_exec_reach: "lifecycle_reach S P L jobs s t \<Longrightarrow> lifecycle_reach S P L jobs s (lifecycle_exec S P L jobs E i t)"
  by (rule lifecycle_reach.later [OF _ lifecycle_exec_step])

lemma lifecycle_exec_at:
  "identity_step S P L E (jobs i) (id_pc s i) (id_store s) = (pc', st', sent)
    \<Longrightarrow> id_pc (lifecycle_exec S P L jobs E i s) i = pc' \<and> id_store (lifecycle_exec S P L jobs E i s) = st'"
  by (simp add: lifecycle_exec_def)

lemma memory_ops:
  "os_bind (memoryIdentities P) = id_bind P" "os_getApplication (memoryIdentities P) = id_getApplication P"
  "os_compareAndSet (memoryIdentities P) = id_compareAndSet P"
  by (simp_all add: memoryIdentities_def)

definition demo_options :: origin_options where
  "demo_options = \<lparr>lo_onboarding = None, lo_quota = Some 1, lo_hasLedger = False, lo_hasRequirementCheck = False,
     lo_hasBillingCheck = False, lo_notifies = True\<rparr>"

definition demo_env :: identity_env where
  "demo_env = \<lparr>trust = demo_trust, now_ms = 1, legacyPrincipals = (\<lambda>_. []), requirement_met = (\<lambda>_ _. False),
     billing_relationship = (\<lambda>_ _. False), fresh_uuid = js ''u'', notify_throws = False\<rparr>"

definition demo_binding :: origin_binding where
  "demo_binding = \<lparr>b_origin = a_origin, b_operator = a_host, b_principalId = js ''p'', b_principalKind = None,
     b_audit = \<lparr>approvedBy = js ''x'', approvedAt = js ''now'', audit_reason = js ''r'', migrationApproved = False\<rparr>, openAccess = None\<rparr>"

definition demo_bind :: bind_input where
  "demo_bind = \<lparr>bi_origin = a_origin, bi_principalId = js ''p'', bi_approvedBy = js ''x'', bi_reason = js ''r'', bi_principalKind = None,
     bi_existingRfc = False, bi_migrationApproved = False, bi_sharedOrigin = False\<rparr>"

definition demo_notice :: notice where
  "demo_notice = \<lparr>notice_id = js ''n'', notice_reason = RelationshipChanged\<rparr>"

definition demo_application :: identity_application where
  "demo_application = \<lparr>app_relationship = \<lparr>rel_status = ActiveRelation, rel_expires = None, rel_rest = []\<rparr>, app_revision = 1,
     expiryNotified = None, pendingNotices = [demo_notice]\<rparr>"

definition demo_identities :: identity_state where
  "demo_identities = empty_identities\<lparr>applications := [a_origin \<mapsto> demo_application]\<rparr>"

lemma demo_identities_ok: "identities_ok demo_identities"
  by (simp add: demo_identities_def identities_ok_def empty_identities_def)

abbreviation demo_jobs :: "nat \<Rightarrow> identity_job" where
  "demo_jobs \<equiv> \<lambda>i. if i = 0 then BindJob demo_bind else FlushJob a_origin"

abbreviation demo_exec :: "nat \<Rightarrow> identity_state identity_sys \<Rightarrow> identity_state identity_sys" where
  "demo_exec \<equiv> lifecycle_exec (memoryIdentities demo_origins) demo_origins demo_options demo_jobs demo_env"

abbreviation demo_reach :: "identity_state identity_sys \<Rightarrow> identity_state identity_sys \<Rightarrow> bool" where
  "demo_reach \<equiv> lifecycle_reach (memoryIdentities demo_origins) demo_origins demo_options demo_jobs"

text \<open>The first job binds the origin.\<close>

definition demo_bound :: "identity_state identity_sys" where
  "demo_bound = demo_exec 0 (demo_exec 0 (lifecycle_begin demo_identities))"

lemma demo_bound_reached: "demo_reach (lifecycle_begin demo_identities) demo_bound"
  unfolding demo_bound_def by (intro lifecycle_exec_reach lifecycle_reach.here)

lemma demo_bound_store: "bindings (id_store demo_bound) = [a_origin \<mapsto> demo_binding]"
proof -
  have "bindPrincipal demo_origins demo_options demo_env demo_bind = BindCall demo_binding"
    by (simp add: bindPrincipal_def on_origin_def demo_bind_def demo_canonical demo_options_def demo_env_def demo_match demo_binding_def)
      (simp add: demo_origins_def)
  then have first: "id_pc (demo_exec 0 (lifecycle_begin demo_identities)) 0 = BindCall demo_binding"
      "id_store (demo_exec 0 (lifecycle_begin demo_identities)) = demo_identities"
    by (simp_all add: lifecycle_exec_def lifecycle_begin_def identity_start_def)
  have "explicit_binding demo_origins demo_binding" by (simp add: explicit_binding_def demo_binding_def demo_origins_def)
  moreover have o: "b_origin demo_binding = a_origin" by (simp add: demo_binding_def)
  moreover have none: "bindings demo_identities = Map.empty" by (simp add: demo_identities_def empty_identities_def)
  ultimately have "id_bind demo_origins demo_binding demo_identities = (Inr (), put_binding demo_binding demo_identities)"
    by (simp add: id_bind_def demo_canonical)
  then have "id_store demo_bound = put_binding demo_binding demo_identities"
    using lifecycle_exec_at [where s = "demo_exec 0 (lifecycle_begin demo_identities)" and i = 0 and S = "memoryIdentities demo_origins"]
    unfolding demo_bound_def by (simp add: first memory_ops)
  then show ?thesis by (simp add: put_binding_def o none)
qed

text \<open>The second job delivers the waiting notice: it reads, hands the notice over, and removes it.\<close>

definition demo_handed :: "identity_state identity_sys" where
  "demo_handed = demo_exec 1 (demo_exec 1 (lifecycle_begin demo_identities))"

definition demo_delivered :: "identity_state identity_sys" where
  "demo_delivered = demo_exec 1 demo_handed"

lemma demo_handed_reached: "demo_reach (lifecycle_begin demo_identities) demo_handed"
  unfolding demo_handed_def by (intro lifecycle_exec_reach lifecycle_reach.here)

lemma demo_delivered_reached: "demo_reach (lifecycle_begin demo_identities) demo_delivered"
  unfolding demo_delivered_def by (rule lifecycle_exec_reach [OF demo_handed_reached])

lemma demo_handed_at:
  "id_pc demo_handed 1 = FlushSwap 0 a_origin demo_application (EndFlush NoValue)" "id_store demo_handed = demo_identities"
proof -
  have first: "id_pc (demo_exec 1 (lifecycle_begin demo_identities)) 1 = FlushRead 0 a_origin (EndFlush NoValue)"
      "id_store (demo_exec 1 (lifecycle_begin demo_identities)) = demo_identities"
    by (simp_all add: lifecycle_exec_def lifecycle_begin_def identity_start_def flushRelationshipNotifications_def on_origin_def demo_canonical)
      (simp add: demo_options_def)
  have "flush_plan demo_env 0 a_origin (EndFlush NoValue) (Some demo_application)
      = (FlushSwap 0 a_origin demo_application (EndFlush NoValue), [(a_origin, demo_notice)])"
    by (simp add: flush_plan_def demo_application_def) (simp add: demo_env_def)
  moreover have "id_getApplication demo_origins a_origin demo_identities = Inr (Some demo_application)"
    by (simp add: id_getApplication_def demo_canonical demo_identities_def)
  ultimately show "id_pc demo_handed 1 = FlushSwap 0 a_origin demo_application (EndFlush NoValue)" "id_store demo_handed = demo_identities"
    using lifecycle_exec_at [where s = "demo_exec 1 (lifecycle_begin demo_identities)" and i = 1 and S = "memoryIdentities demo_origins"]
    unfolding demo_handed_def by (simp_all add: first [simplified] memory_ops)
qed

lemma demo_delivered_store: "applications (id_store demo_delivered) a_origin = Some (delivered_application demo_application)"
proof -
  let ?new = "demo_identities\<lparr>applications := (applications demo_identities)(a_origin \<mapsto> delivered_application demo_application)\<rparr>"
  have "id_compareAndSet demo_origins a_origin (Some (app_revision demo_application)) (delivered_application demo_application) demo_identities
      = (Inr True, ?new)"
    by (simp add: id_compareAndSet_def demo_canonical) (simp add: demo_identities_def delivered_application_def)
  then have "id_store demo_delivered = ?new"
    using lifecycle_exec_at [where s = demo_handed and i = 1 and S = "memoryIdentities demo_origins"]
    unfolding demo_delivered_def by (simp add: demo_handed_at [simplified] memory_ops)
  then show ?thesis by simp
qed

end
