(* ===== verification/OriginProperties.thy ===== *)
theory OriginProperties
  imports OriginExample
begin

text \<open>
  The guarantees of bindings, relationships and grants as properties of the in-memory store and its jobs, applied to an agent
  of one operator that buys for the brand of another.
\<close>

section \<open>Grants\<close>



text \<open>
  C17: an authorization lasts until it expires.  What trust records authorize now they authorize, with the same
  records, at every later time before the stated expiry, or for good if none is stated.
\<close>

theorem grant_lasts_until_expiry:
  assumes "authorizeDemandGrant P V D now c = Inr a" "ga_source a = TrustGrant" "now \<le> now'"
    and "ga_expires a = NoExpiry \<or> (\<exists>t. ga_expires a = ExpiresAt t \<and> now' < t)"
  shows "\<exists>a'. authorizeDemandGrant P V D now' c = Inr a' \<and> ga_source a' = TrustGrant \<and> ga_operator a' = ga_operator a"
  using assms(1)
proof (cases rule: demand_grant_cases)
  case (published operator agent brand account house h r t)
  have eq: "authorizeDemandGrant P V D now' c = grant_from_record P V D now' c (claim_for D c) brand house account operator r"
    by (rule demand_grant_eq [OF published(1-7)])
  obtain chain gs where a: "a = granted P operator now TrustGrant chain gs"
      and p: "picked P V now (claim_for D c) brand house account operator r gs"
    using grant_from_record_cases [of P V D now c "claim_for D c" brand house account operator r] published(8) assms(2)
    by (metis granted_fields(1) grant_source.distinct(8) Inr_inject sum.distinct(1))
  have "now' < u" if "g \<in> set gs" "time_of P (valid_until g) = Some u" for g u
    using assms(4) least_expiry_none [OF _ that(1)] least_expiry_at(2) [OF _ that] that(2) by (force simp: a)
  then have "picked P V now' (claim_for D c) brand house account operator r gs" using picked_later [OF p assms(3)] by blast
  then show ?thesis
    by (cases rule: grant_from_record_cases [of P V D now' c "claim_for D c" brand house account operator r]) (auto simp: eq a)
qed (use assms(2) in simp_all)

theorem grant_lasts_until_expiry_witness:
  "\<exists>a'. authorizeDemandGrant demo_origins demo_trust no_policy 8 demo_claim = Inr a' \<and> ga_source a' = TrustGrant \<and> ga_operator a' = a_host"
proof -
  have "least_expiry demo_origins [demo_grant] = ExpiresAt 9"
    by (simp add: least_expiry_def has_until_def some_text_def time_of_def demo_grant_def demo_origins_def js_def)
  then show ?thesis using grant_lasts_until_expiry [OF demo_authorized [of 1], of 8] by simp
qed

section \<open>Bindings\<close>

text \<open>
  C16: bindings hold, and open ones stay within the quota.  Over every interleaving of lifecycle jobs on the in-memory
  store a bound origin keeps its binding, and no operator ever has more openly onboarded origins than the quota.
\<close>

theorem identity_bindings_hold:
  assumes "identities_ok st0" "within_quota (lo_quota L) (bindings st0)"
    and "lifecycle_reach (memoryIdentities P) P L jobs (lifecycle_begin st0) s" "lifecycle_reach (memoryIdentities P) P L jobs s t"
  shows "(\<forall>c b. bindings (id_store s) c = Some b \<longrightarrow> bindings (id_store t) c = Some b)
    \<and> (\<forall>operator. int (card {c. \<exists>b. bindings (id_store t) c = Some b \<and> b_operator b = operator \<and> openAccess b \<noteq> None})
         \<le> (case lo_quota L of None \<Rightarrow> 0 | Some n \<Rightarrow> max 0 n))"
proof -
  have ok: "mis.lifecycle_ok P s" using mis.lifecycle_reach_ok [OF assms(3) mis.begin_ok [OF assms(1)]] .
  have "within_quota (lo_quota L) (bindings (id_store s))"
    using mis.quota_stays [OF assms(3) mis.begin_ok [OF assms(1)]] assms(2) by (simp add: lifecycle_begin_def)
  from mis.quota_stays [OF assms(4) ok this] mis.binding_stays [OF assms(4) ok] show ?thesis
    by (auto simp: within_quota_def open_origins_def)
qed

theorem identity_bindings_hold_witness:
  "bindings (id_store (demo_exec 1 demo_bound)) a_origin = Some demo_binding
    \<and> int (card {c. \<exists>b. bindings (id_store demo_bound) c = Some b \<and> b_operator b = a_host \<and> openAccess b \<noteq> None}) \<le> 1"
proof -
  have q: "lo_quota demo_options = Some 1" by (simp add: demo_options_def)
  have e: "within_quota (lo_quota demo_options) (bindings demo_identities)"
    by (simp add: within_quota_def demo_identities_def empty_identities_def open_origins_def q)
  have "demo_reach demo_bound (demo_exec 1 demo_bound)" by (intro lifecycle_exec_reach lifecycle_reach.here)
  from identity_bindings_hold [OF demo_identities_ok e demo_bound_reached this] identity_bindings_hold [OF demo_identities_ok e demo_bound_reached lifecycle_reach.here]
  show ?thesis using demo_bound_store unfolding q by fastforce
qed

section \<open>Relationships\<close>



text \<open>
  C15: no notice is lost.  Whatever jobs run, a notice that waits for an origin waits until it has been handed to the
  notification callback for that origin.
\<close>

theorem notices_never_lost:
  assumes "identities_ok st0" "lifecycle_reach (memoryIdentities P) P L jobs (lifecycle_begin st0) s"
    and "lifecycle_reach (memoryIdentities P) P L jobs s t"
    and "applications (id_store s) c = Some a" "n \<in> set (pendingNotices a)"
  shows "(\<exists>a'. applications (id_store t) c = Some a' \<and> n \<in> set (pendingNotices a')) \<or> sent_to P (id_sent t) c n"
proof -
  have ok: "mis.lifecycle_ok P s" using mis.lifecycle_reach_ok [OF assms(2) mis.begin_ok [OF assms(1)]] .
  have "n \<in> set (waiting (applications (id_store s)) c)" using assms(4,5) by (simp add: waiting_def queued_of_def)
  from mis.notice_stays [OF assms(3) ok this] show ?thesis
    by (cases "applications (id_store t) c") (auto simp: waiting_def queued_of_def)
qed

theorem notices_never_lost_witness: "sent_to demo_origins (id_sent demo_delivered) a_origin demo_notice"
proof -
  have a: "applications (id_store (lifecycle_begin demo_identities)) a_origin = Some demo_application"
    by (simp add: lifecycle_begin_def demo_identities_def)
  have n: "demo_notice \<in> set (pendingNotices demo_application)" "pendingNotices (delivered_application demo_application) = []"
    by (simp_all add: demo_application_def delivered_application_def)
  from notices_never_lost [OF demo_identities_ok lifecycle_reach.here demo_delivered_reached a n(1)] show ?thesis
    by (simp add: demo_delivered_store n(2))
qed

section \<open>Authorization\<close>



end
